(* ===== verification/Prelude.thy ===== *)
theory Prelude
  imports Main
begin

text \<open>
  Shared vocabulary of the development: Go's error values (sentinels, \<open>%w\<close> wrapping and
  \<open>errors.Join\<close>), a state monad with early returns in which the services are written, a
  weakest-precondition transformer and a stability predicate with the rules that carry the
  invariant proofs, and a few facts on lists.
\<close>

named_theorems wp_simps \<open>equations that push a weakest precondition through a program\<close>
named_theorems wp_intros \<open>rules that reduce a weakest precondition to those of the parts\<close>
named_theorems stable_intros \<open>rules that a program keeps a predicate of the state\<close>

section \<open>Go error values\<close>

text \<open>
  The sentinels compared with \<open>errors.Is\<close> are constructors; every other error is its
  message. \<open>Fault\<close> is a database driver failure (I/O, cancelled context), \<open>Constraint\<close> a
  violated CHECK, UNIQUE or FOREIGN KEY clause. \<open>Wrap e m\<close> is an error of \<open>fmt.Errorf\<close>
  that wraps \<open>e\<close> with \<open>%w\<close> and has the text \<open>m\<close>; \<open>Join\<close> is \<open>errors.Join\<close> of two
  non-nil errors.
\<close>

datatype error =
    ErrRuleConflict | ErrConflict | ErrUnknown | ErrRejected | ErrNoRows
  | ErrNotFound | ErrProtectedGroup | ErrGroupReferenced | ErrValidation
  | Fault | Constraint
  | Msg string
  | Wrap error string
  | Join error error

fun errors_Is :: "error \<Rightarrow> error \<Rightarrow> bool" where
  "errors_Is (Wrap e m) target = (Wrap e m = target \<or> errors_Is e target)"
| "errors_Is (Join a b) target =
     (Join a b = target \<or> errors_Is a target \<or> errors_Is b target)"
| "errors_Is e target = (e = target)"

text \<open>The method \<open>Error()\<close>: the message of an error.\<close>

fun Error :: "error \<Rightarrow> string" where
  "Error ErrRuleConflict = ''rule changed since it was loaded''"
| "Error ErrConflict = ''mosdns snapshot version conflict''"
| "Error ErrUnknown = ''mosdns request outcome unknown''"
| "Error ErrRejected = ''mosdns rejected request''"
| "Error ErrNoRows = ''sql: no rows in result set''"
| "Error ErrNotFound = ''upstream group not found''"
| "Error ErrProtectedGroup = ''protected upstream group''"
| "Error ErrGroupReferenced = ''upstream group is referenced''"
| "Error ErrValidation = ''invalid upstream group request''"
| "Error Fault = ''database is unavailable''"
| "Error Constraint = ''constraint failed''"
| "Error (Msg m) = m"
| "Error (Wrap e m) = m"
| "Error (Join a b) = Error a @ char_of (10 :: nat) # Error b"

text \<open>\<open>errors.Join(a, b)\<close> drops nil arguments and is nil when both are.\<close>

fun errors_Join :: "error option \<Rightarrow> error option \<Rightarrow> error option" where
  "errors_Join None b = b"
| "errors_Join a None = a"
| "errors_Join (Some a) (Some b) = Some (Join a b)"

lemma errors_Is_refl [simp]: "errors_Is e e"
  by (cases e) auto

lemma errors_Join_None [simp]: "errors_Join a None = a"
  by (cases a) auto

lemma errors_Join_eq_None [simp]: "errors_Join a b = None \<longleftrightarrow> a = None \<and> b = None"
  by (cases a; cases b) auto

text \<open>\<open>fmt.Errorf(prefix + "%w", err)\<close>.\<close>

definition wrapf :: "string \<Rightarrow> error \<Rightarrow> error" where
  "wrapf prefix e = Wrap e (prefix @ Error e)"

section \<open>Programs with early return\<close>

text \<open>
  A Go function that may return early with an error is a state transformer that ends in
  \<open>Inl\<close> (the early return) or \<open>Inr\<close> (the normal one); the state reached is kept in both
  cases, as Go does not undo effects on an error. The error side is polymorphic: a function
  that returns a value together with its error has the pair there.
\<close>

type_synonym ('e, 's, 'a) prog = "'s \<Rightarrow> ('e + 'a) \<times> 's"

definition returnM :: "'a \<Rightarrow> ('e, 's, 'a) prog" where
  "returnM a = (\<lambda>s. (Inr a, s))"

definition throwM :: "'e \<Rightarrow> ('e, 's, 'a) prog" where
  "throwM e = (\<lambda>s. (Inl e, s))"

definition bindM :: "('e, 's, 'a) prog \<Rightarrow> ('a \<Rightarrow> ('e, 's, 'b) prog) \<Rightarrow> ('e, 's, 'b) prog" where
  "bindM m f = (\<lambda>s. case m s of (r, t) \<Rightarrow> (case r of Inl e \<Rightarrow> (Inl e, t) | Inr a \<Rightarrow> f a t))"

definition guardM :: "bool \<Rightarrow> 'e \<Rightarrow> ('e, 's, unit) prog" where
  "guardM b e = (if b then returnM () else throwM e)"

definition liftM :: "'e + 'a \<Rightarrow> ('e, 's, 'a) prog" where
  "liftM r = (case r of Inl e \<Rightarrow> throwM e | Inr a \<Rightarrow> returnM a)"

text \<open>\<open>attemptM\<close> hands the error to the caller, which inspects it (\<open>x, err := f()\<close>);
  \<open>mapErr\<close> is \<open>if err != nil { return g(err) }\<close>.\<close>

definition attemptM :: "('e, 's, 'a) prog \<Rightarrow> ('f, 's, 'e + 'a) prog" where
  "attemptM m = (\<lambda>s. case m s of (r, t) \<Rightarrow> (Inr r, t))"

definition mapErr :: "('e \<Rightarrow> 'f) \<Rightarrow> ('e, 's, 'a) prog \<Rightarrow> ('f, 's, 'a) prog" where
  "mapErr g m = (\<lambda>s. case m s of (r, t) \<Rightarrow> (case r of Inl e \<Rightarrow> (Inl (g e), t) | Inr a \<Rightarrow> (Inr a, t)))"

fun traverseM :: "('a \<Rightarrow> ('e, 's, unit) prog) \<Rightarrow> 'a list \<Rightarrow> ('e, 's, unit) prog" where
  "traverseM f [] = returnM ()"
| "traverseM f (x # xs) = bindM (f x) (\<lambda>_. traverseM f xs)"

section \<open>Weakest preconditions\<close>

definition wp :: "('e, 's, 'a) prog \<Rightarrow> ('e \<Rightarrow> 's \<Rightarrow> bool) \<Rightarrow> ('a \<Rightarrow> 's \<Rightarrow> bool) \<Rightarrow> 's \<Rightarrow> bool" where
  "wp m E Q s = (case m s of (r, t) \<Rightarrow> (case r of Inl e \<Rightarrow> E e t | Inr a \<Rightarrow> Q a t))"

lemma wp_returnM [wp_simps]: "wp (returnM a) E Q = Q a"
  by (simp add: fun_eq_iff wp_def returnM_def)

lemma wp_throwM [wp_simps]: "wp (throwM e) E Q = E e"
  by (simp add: fun_eq_iff wp_def throwM_def)

lemma wp_bindM [wp_simps]: "wp (bindM m f) E Q = wp m E (\<lambda>a. wp (f a) E Q)"
  by (auto simp: fun_eq_iff wp_def bindM_def split: prod.splits sum.splits)

lemma wp_guardM [wp_simps]: "wp (guardM b e) E Q s = (if b then Q () s else E e s)"
  by (simp add: guardM_def wp_returnM wp_throwM)

lemma wp_liftM [wp_simps]: "wp (liftM r) E Q s = (case r of Inl e \<Rightarrow> E e s | Inr a \<Rightarrow> Q a s)"
  by (cases r) (simp_all add: liftM_def wp_returnM wp_throwM)

lemma wp_attemptM [wp_simps]:
  "wp (attemptM m) E Q s = wp m (\<lambda>e. Q (Inl e)) (\<lambda>a. Q (Inr a)) s"
  by (auto simp: wp_def attemptM_def split: prod.splits sum.splits)

lemma wp_mapErr [wp_simps]: "wp (mapErr g m) E Q s = wp m (\<lambda>e. E (g e)) Q s"
  by (auto simp: wp_def mapErr_def split: prod.splits sum.splits)

lemma wp_if [wp_simps]: "wp (if b then m else n) E Q s = (if b then wp m E Q s else wp n E Q s)"
  by simp

lemma wp_case_option [wp_simps]:
  "wp (case x of None \<Rightarrow> m | Some a \<Rightarrow> n a) E Q s =
     (case x of None \<Rightarrow> wp m E Q s | Some a \<Rightarrow> wp (n a) E Q s)"
  by (cases x) auto

lemma wp_case_sum [wp_simps]:
  "wp (case x of Inl e \<Rightarrow> m e | Inr a \<Rightarrow> n a) E Q s =
     (case x of Inl e \<Rightarrow> wp (m e) E Q s | Inr a \<Rightarrow> wp (n a) E Q s)"
  by (cases x) auto

lemma wp_case_prod [wp_simps]:
  "wp (case x of (a, b) \<Rightarrow> m a b) E Q s = (case x of (a, b) \<Rightarrow> wp (m a b) E Q s)"
  by (cases x) auto

text \<open>The same as introduction rules, which name what is known on each branch.\<close>

lemma wp_bindM_I [wp_intros]: "wp m E (\<lambda>a. wp (f a) E Q) s \<Longrightarrow> wp (bindM m f) E Q s"
  by (simp add: wp_bindM)

lemma wp_returnM_I [wp_intros]: "Q a s \<Longrightarrow> wp (returnM a) E Q s"
  by (simp add: wp_returnM)

lemma wp_throwM_I [wp_intros]: "E e s \<Longrightarrow> wp (throwM e) E Q s"
  by (simp add: wp_throwM)

lemma wp_guardM_I [wp_intros]: "(b \<Longrightarrow> Q () s) \<Longrightarrow> (\<not> b \<Longrightarrow> E e s) \<Longrightarrow> wp (guardM b e) E Q s"
  by (simp add: wp_guardM)

lemma wp_liftM_I [wp_intros]:
  "(\<And>e. r = Inl e \<Longrightarrow> E e s) \<Longrightarrow> (\<And>a. r = Inr a \<Longrightarrow> Q a s) \<Longrightarrow> wp (liftM r) E Q s"
  by (simp add: wp_liftM split: sum.splits)

lemma wp_attemptM_I [wp_intros]:
  "wp m (\<lambda>e. Q (Inl e)) (\<lambda>a. Q (Inr a)) s \<Longrightarrow> wp (attemptM m) E Q s"
  by (simp add: wp_attemptM)

lemma wp_mapErr_I [wp_intros]: "wp m (\<lambda>e. E (g e)) Q s \<Longrightarrow> wp (mapErr g m) E Q s"
  by (simp add: wp_mapErr)

lemma wp_if_I [wp_intros]:
  "(b \<Longrightarrow> wp m E Q s) \<Longrightarrow> (\<not> b \<Longrightarrow> wp n E Q s) \<Longrightarrow> wp (if b then m else n) E Q s"
  by simp

lemma wp_case_option_I [wp_intros]:
  "(x = None \<Longrightarrow> wp m E Q s) \<Longrightarrow> (\<And>a. x = Some a \<Longrightarrow> wp (n a) E Q s) \<Longrightarrow>
     wp (case x of None \<Rightarrow> m | Some a \<Rightarrow> n a) E Q s"
  by (cases x) auto

lemma wp_case_sum_I [wp_intros]:
  "(\<And>e. x = Inl e \<Longrightarrow> wp (m e) E Q s) \<Longrightarrow> (\<And>a. x = Inr a \<Longrightarrow> wp (n a) E Q s) \<Longrightarrow>
     wp (case x of Inl e \<Rightarrow> m e | Inr a \<Rightarrow> n a) E Q s"
  by (cases x) auto

lemma wp_case_prod_I [wp_intros]:
  "(\<And>a b. x = (a, b) \<Longrightarrow> wp (m a b) E Q s) \<Longrightarrow> wp (case x of (a, b) \<Rightarrow> m a b) E Q s"
  by (cases x) auto

lemma wp_Let_I [wp_intros]: "wp (f a) E Q s \<Longrightarrow> wp (Let a f) E Q s"
  by simp

lemma wp_mono:
  assumes "wp m E Q s"
    and "\<And>e t. E e t \<Longrightarrow> E' e t" and "\<And>a t. Q a t \<Longrightarrow> Q' a t"
  shows "wp m E' Q' s"
  using assms by (auto simp: wp_def split: prod.splits sum.splits)

lemma wp_conj:
  assumes "wp m E Q s" and "wp m E' Q' s"
  shows "wp m (\<lambda>e t. E e t \<and> E' e t) (\<lambda>a t. Q a t \<and> Q' a t) s"
  using assms by (auto simp: wp_def split: prod.splits sum.splits)

lemma wp_Inr: "wp m E Q s \<Longrightarrow> m s = (Inr a, t) \<Longrightarrow> Q a t"
  by (simp add: wp_def)

lemma wp_Inl: "wp m E Q s \<Longrightarrow> m s = (Inl e, t) \<Longrightarrow> E e t"
  by (simp add: wp_def)

lemma wp_total: "wp m (\<lambda>_ _. False) Q s \<Longrightarrow> \<exists>a t. m s = (Inr a, t) \<and> Q a t"
  by (auto simp: wp_def split: prod.splits sum.splits)

lemma wpI:
  assumes "\<And>e t. m s = (Inl e, t) \<Longrightarrow> E e t" and "\<And>a t. m s = (Inr a, t) \<Longrightarrow> Q a t"
  shows "wp m E Q s"
  using assms by (auto simp: wp_def split: prod.splits sum.splits)

section \<open>Stability: a predicate no run of the program leaves\<close>

definition stable :: "('s \<Rightarrow> bool) \<Rightarrow> ('e, 's, 'a) prog \<Rightarrow> bool" where
  "stable I m = (\<forall>s. I s \<longrightarrow> I (snd (m s)))"

lemma stableI: "(\<And>s. I s \<Longrightarrow> I (snd (m s))) \<Longrightarrow> stable I m"
  by (simp add: stable_def)

lemma stableD: "stable I m \<Longrightarrow> I s \<Longrightarrow> m s = (r, t) \<Longrightarrow> I t"
  by (metis stable_def snd_conv)

lemma stable_wp: "stable I m \<longleftrightarrow> (\<forall>s. I s \<longrightarrow> wp m (\<lambda>_. I) (\<lambda>_. I) s)"
  by (simp add: stable_def wp_def case_prod_beta split: sum.splits)

lemma stable_returnM [stable_intros]: "stable I (returnM a)"
  by (simp add: stable_def returnM_def)

lemma stable_throwM [stable_intros]: "stable I (throwM e)"
  by (simp add: stable_def throwM_def)

lemma stable_guardM [stable_intros]: "stable I (guardM b e)"
  by (simp add: guardM_def stable_returnM stable_throwM)

lemma stable_liftM [stable_intros]: "stable I (liftM r)"
  by (cases r) (simp_all add: liftM_def stable_returnM stable_throwM)

lemma stable_bindM [stable_intros]:
  "stable I m \<Longrightarrow> (\<And>a. stable I (f a)) \<Longrightarrow> stable I (bindM m f)"
  by (auto simp: stable_wp wp_bindM intro: wp_mono)

lemma stable_attemptM [stable_intros]: "stable I m \<Longrightarrow> stable I (attemptM m)"
  by (simp add: stable_wp wp_attemptM)

lemma stable_mapErr [stable_intros]: "stable I m \<Longrightarrow> stable I (mapErr g m)"
  by (simp add: stable_wp wp_mapErr)

lemma stable_if [stable_intros]: "stable I m \<Longrightarrow> stable I n \<Longrightarrow> stable I (if b then m else n)"
  by simp

lemma stable_case_option [stable_intros]:
  "stable I m \<Longrightarrow> (\<And>a. stable I (n a)) \<Longrightarrow> stable I (case x of None \<Rightarrow> m | Some a \<Rightarrow> n a)"
  by (cases x) auto

lemma stable_case_sum [stable_intros]:
  "(\<And>a. stable I (m a)) \<Longrightarrow> (\<And>a. stable I (n a)) \<Longrightarrow>
     stable I (case x of Inl e \<Rightarrow> m e | Inr a \<Rightarrow> n a)"
  by (cases x) auto

lemma stable_case_prod [stable_intros]:
  "(\<And>a b. stable I (m a b)) \<Longrightarrow> stable I (case x of (a, b) \<Rightarrow> m a b)"
  by (cases x) auto

lemma stable_traverseM [stable_intros]: "(\<And>x. stable I (f x)) \<Longrightarrow> stable I (traverseM f xs)"
  by (induction xs) (auto intro: stable_intros)

text \<open>A stable predicate holds after every run, whatever its result.\<close>

lemma stable_wpD: "stable I m \<Longrightarrow> I s \<Longrightarrow> wp m (\<lambda>_. I) (\<lambda>_. I) s"
  by (simp add: stable_wp)

section \<open>Lists\<close>

lemma filter_map_eq_self:
  "(\<And>x. x \<in> set xs \<Longrightarrow> P x) \<Longrightarrow> filter P xs = xs"
  by (induction xs) auto

lemma distinct_map_filter_append:
  "distinct (map f xs) \<Longrightarrow> f y \<notin> f ` set xs \<Longrightarrow> distinct (map f (xs @ [y]))"
  by auto

lemma filter_key_single:
  "distinct (map f xs) \<Longrightarrow> x \<in> set xs \<Longrightarrow> filter (\<lambda>y. f y = f x) xs = [x]"
proof (induction xs)
  case (Cons a xs)
  then have "filter (\<lambda>y. f y = f x) xs = []" if "a = x" using that by (auto simp: filter_empty_conv image_iff)
  moreover have "f a \<noteq> f x" if "a \<noteq> x" using that Cons.prems by (auto simp: image_iff)
  ultimately show ?case using Cons by auto
qed simp

lemma insort_map: "insort_key k (f x) (map f xs) = map f (insort_key (\<lambda>x. k (f x)) x xs)"
  by (induction xs) auto

lemma sort_key_map: "sort_key k (map f xs) = map f (sort_key (\<lambda>x. k (f x)) xs)"
  by (induction xs) (auto simp: insort_map)

end
