(* ===== verification/GoStrings.thy ===== *)
theory GoStrings
  imports Prelude "HOL-Library.Char_ord" "HOL-Library.List_Lexorder" "HOL-Library.Word"
begin

text \<open>
  Go strings are byte sequences: a \<open>string\<close> here is a list of bytes (a \<open>char\<close> is one byte),
  so \<open>length\<close> is Go's \<open>len\<close> and the lexicographic order is Go's \<open><\<close>. The functions of the
  packages \<open>strings\<close>, \<open>unicode/utf8\<close> and \<open>strconv\<close> that the controller calls are defined
  here; what cannot be read in the repository (IDNA, regular expressions, Unicode case
  tables, IP address syntax, SHA-256) is a parameter, collected in the record \<open>golib\<close>.
\<close>

type_synonym int64 = "64 word"
type_synonym uint64 = "64 word"

section \<open>Package strings\<close>

definition HasPrefix :: "string \<Rightarrow> string \<Rightarrow> bool" where
  "HasPrefix s p = (take (length p) s = p)"

definition HasSuffix :: "string \<Rightarrow> string \<Rightarrow> bool" where
  "HasSuffix s p = HasPrefix (rev s) (rev p)"

definition TrimPrefix :: "string \<Rightarrow> string \<Rightarrow> string" where
  "TrimPrefix s p = (if HasPrefix s p then drop (length p) s else s)"

definition TrimSuffix :: "string \<Rightarrow> string \<Rightarrow> string" where
  "TrimSuffix s p = (if HasSuffix s p then take (length s - length p) s else s)"

fun Contains :: "string \<Rightarrow> string \<Rightarrow> bool" where
  "Contains [] p = (p = [])"
| "Contains (c # s) p = (HasPrefix (c # s) p \<or> Contains s p)"

text \<open>\<open>strings.Split(s, sep)\<close> for a one-byte separator.\<close>

fun Split :: "char \<Rightarrow> string \<Rightarrow> string list" where
  "Split c [] = [[]]"
| "Split c (x # s) =
     (if x = c then [] # Split c s
      else (case Split c s of [] \<Rightarrow> [[x]] | w # ws \<Rightarrow> (x # w) # ws))"

text \<open>
  \<open>strings.TrimSpace\<close> removes the runes of \<open>unicode.IsSpace\<close> at both ends; as UTF-8
  sequences they are the strings below (tab, newline, vertical tab, form feed, carriage
  return, space, U+0085, U+00A0, U+1680, U+2000..U+200A, U+2028, U+2029, U+202F, U+205F,
  U+3000). No encoding is a proper prefix or suffix of another, so the first match decides.
\<close>

definition space_runes :: "string list" where
  "space_runes =
     [[CHR 0x09], [CHR 0x0A], [CHR 0x0B],
      [CHR 0x0C], [CHR 0x0D], [CHR 0x20],
      [CHR 0xC2, CHR 0x85], [CHR 0xC2, CHR 0xA0], [CHR 0xE1, CHR 0x9A, CHR 0x80],
      [CHR 0xE2, CHR 0x80, CHR 0xA8], [CHR 0xE2, CHR 0x80, CHR 0xA9], [CHR 0xE2, CHR 0x80, CHR 0xAF],
      [CHR 0xE2, CHR 0x81, CHR 0x9F], [CHR 0xE3, CHR 0x80, CHR 0x80], [CHR 0xE2, CHR 0x80, CHR 0x80],
      [CHR 0xE2, CHR 0x80, CHR 0x81], [CHR 0xE2, CHR 0x80, CHR 0x82], [CHR 0xE2, CHR 0x80, CHR 0x83],
      [CHR 0xE2, CHR 0x80, CHR 0x84], [CHR 0xE2, CHR 0x80, CHR 0x85], [CHR 0xE2, CHR 0x80, CHR 0x86],
      [CHR 0xE2, CHR 0x80, CHR 0x87], [CHR 0xE2, CHR 0x80, CHR 0x88], [CHR 0xE2, CHR 0x80, CHR 0x89],
      [CHR 0xE2, CHR 0x80, CHR 0x8A]]"

lemma space_runes_nonempty: "p \<in> set space_runes \<Longrightarrow> p \<noteq> []"
  by (auto simp: space_runes_def)

function TrimLeftRunes :: "string list \<Rightarrow> string \<Rightarrow> string" where
  "TrimLeftRunes rs s =
     (case find (\<lambda>p. p \<noteq> [] \<and> HasPrefix s p) rs of
        None \<Rightarrow> s
      | Some p \<Rightarrow> TrimLeftRunes rs (drop (length p) s))"
  by pat_completeness auto
termination
proof (relation "measure (\<lambda>(rs, s). length s)", simp)
  fix rs :: "string list" and s p
  assume "find (\<lambda>p. p \<noteq> [] \<and> HasPrefix s p) rs = Some p"
  then have "p \<noteq> []" and "HasPrefix s p"
    by (auto simp: find_Some_iff)
  then have "s \<noteq> []" and "0 < length p"
    by (auto simp: HasPrefix_def)
  then show "((rs, drop (length p) s), rs, s) \<in> measure (\<lambda>(rs, s). length s)"
    by simp
qed

declare TrimLeftRunes.simps [simp del]

definition TrimSpace :: "string \<Rightarrow> string" where
  "TrimSpace s = rev (TrimLeftRunes (map rev space_runes) (rev (TrimLeftRunes space_runes s)))"

section \<open>Package unicode/utf8\<close>

text \<open>
  The length of the first rune of a non-empty byte string, or \<open>None\<close> when it is not a valid
  encoding (Go then counts one \<open>RuneError\<close> of width 1).
\<close>

fun rune_width :: "nat list \<Rightarrow> nat option" where
  "rune_width [] = None"
| "rune_width (a # r) =
     (if a < 128 then Some 1
      else if 194 \<le> a \<and> a \<le> 223 then
        (case r of b # _ \<Rightarrow> if 128 \<le> b \<and> b \<le> 191 then Some 2 else None | _ \<Rightarrow> None)
      else if 224 \<le> a \<and> a \<le> 239 then
        (case r of b # c # _ \<Rightarrow>
           if (if a = 224 then 160 else 128) \<le> b \<and> b \<le> (if a = 237 then 159 else 191)
              \<and> 128 \<le> c \<and> c \<le> 191 then Some 3 else None | _ \<Rightarrow> None)
      else if 240 \<le> a \<and> a \<le> 244 then
        (case r of b # c # d # _ \<Rightarrow>
           if (if a = 240 then 144 else 128) \<le> b \<and> b \<le> (if a = 244 then 143 else 191)
              \<and> 128 \<le> c \<and> c \<le> 191 \<and> 128 \<le> d \<and> d \<le> 191 then Some 4 else None | _ \<Rightarrow> None)
      else None)"

function rune_widths :: "nat list \<Rightarrow> nat option list" where
  "rune_widths [] = []"
| "rune_widths (a # r) =
     (case rune_width (a # r) of
        None \<Rightarrow> None # rune_widths r
      | Some n \<Rightarrow> Some n # rune_widths (drop (n - 1) r))"
  by pat_completeness auto
termination by (relation "measure length") auto

text \<open>\<open>len([]rune(s))\<close> and \<open>utf8.ValidString\<close>.\<close>

definition RuneCount :: "string \<Rightarrow> nat" where
  "RuneCount s = length (rune_widths (map of_char s))"

definition ValidString :: "string \<Rightarrow> bool" where
  "ValidString s = (None \<notin> set (rune_widths (map of_char s)))"

section \<open>Library code that is a parameter\<close>

text \<open>
  \<open>lib_ToASCII\<close> is \<open>idna.Lookup.ToASCII\<close>; \<open>lib_ToLower\<close> is \<open>strings.ToLower\<close> on strings with
  a non-ASCII byte; \<open>lib_Compile\<close> says whether \<open>regexp.Compile\<close> accepts; \<open>lib_ParseAddr\<close>
  gives \<open>netip.ParseAddr\<close>'s \<open>(Is4, String)\<close>; \<open>lib_Sum\<close> is the hexadecimal SHA-256 of the
  bytes; \<open>lib_Quote\<close> is \<open>strconv.Quote\<close> (the verb \<open>%q\<close>).
\<close>

record golib =
  lib_ToASCII :: "string \<Rightarrow> error + string"
  lib_ToLower :: "string \<Rightarrow> string"
  lib_Compile :: "string \<Rightarrow> error option"
  lib_ParseAddr :: "string \<Rightarrow> (bool \<times> string) option"
  lib_Sum :: "string \<Rightarrow> string"
  lib_Quote :: "string \<Rightarrow> string"

definition ascii_byte :: "char \<Rightarrow> bool" where
  "ascii_byte c = (of_char c < (128 :: nat))"

definition lower_byte :: "char \<Rightarrow> char" where
  "lower_byte c =
     (let n = (of_char c :: nat) in if 65 \<le> n \<and> n \<le> 90 then char_of (n + 32) else c)"

text \<open>\<open>strings.ToLower\<close>: an ASCII string is lowered byte by byte, as its fast path does.\<close>

definition ToLower :: "'z golib_scheme \<Rightarrow> string \<Rightarrow> string" where
  "ToLower L s = (if list_all ascii_byte s then map lower_byte s else lib_ToLower L s)"

section \<open>Facts\<close>

lemma HasPrefix_append [simp]: "HasPrefix (p @ s) p"
  by (simp add: HasPrefix_def)

lemma HasPrefix_iff: "HasPrefix s p \<longleftrightarrow> (\<exists>t. s = p @ t)"
  by (metis HasPrefix_append HasPrefix_def append_take_drop_id)

lemma HasPrefix_Nil [simp]: "HasPrefix s []"
  by (simp add: HasPrefix_def)

lemma HasPrefix_Cons [simp]: "HasPrefix (c # s) (d # p) \<longleftrightarrow> c = d \<and> HasPrefix s p"
  by (simp add: HasPrefix_def)

lemma HasPrefix_Nil_Cons [simp]: "\<not> HasPrefix [] (d # p)"
  by (simp add: HasPrefix_def)

lemma Contains_iff: "Contains s p \<longleftrightarrow> (\<exists>u v. s = u @ p @ v)"
proof (induction s p rule: Contains.induct)
  case (1 p)
  then show ?case by auto
next
  case (2 c s p)
  have "(\<exists>u v. c # s = u @ p @ v) \<longleftrightarrow> (\<exists>v. c # s = p @ v) \<or> (\<exists>u v. s = u @ p @ v)"
    by (metis append_Nil append_Cons list.sel(3) tl_append2)
  with 2 show ?case by (simp add: HasPrefix_iff)
qed

lemma Split_nonempty [simp]: "Split c s \<noteq> []"
  by (induction s) (auto split: list.splits)

lemma Split_no_sep: "w \<in> set (Split c s) \<Longrightarrow> c \<notin> set w"
  by (induction s arbitrary: w) (auto split: list.splits if_splits)

lemma Split_single: "c \<notin> set s \<Longrightarrow> Split c s = [s]"
  by (induction s) auto

lemma Split_append: "c \<notin> set u \<Longrightarrow> Split c (u @ c # v) = u # Split c v"
  by (induction u) auto

lemma lower_byte_idem [simp]: "lower_byte (lower_byte c) = lower_byte c"
  by (simp add: lower_byte_def Let_def)

lemma ascii_lower_byte [simp]: "ascii_byte (lower_byte c) = ascii_byte c"
  by (simp add: lower_byte_def ascii_byte_def Let_def)

section \<open>TrimSpace leaves no space at either end\<close>

lemma TrimLeftRunes_suffix: "\<exists>u. s = u @ TrimLeftRunes rs s"
proof (induction rs s rule: TrimLeftRunes.induct)
  case (1 rs s)
  show ?case
  proof (cases "find (\<lambda>p. p \<noteq> [] \<and> HasPrefix s p) rs")
    case None
    then show ?thesis by (simp add: TrimLeftRunes.simps [of rs s])
  next
    case (Some p)
    with 1 obtain u where "drop (length p) s = u @ TrimLeftRunes rs (drop (length p) s)" by blast
    then have "s = (take (length p) s @ u) @ TrimLeftRunes rs s"
      using Some append_take_drop_id [of "length p" s] by (simp add: TrimLeftRunes.simps [of rs s])
    then show ?thesis by blast
  qed
qed

lemma TrimLeftRunes_no_prefix:
  "p \<in> set rs \<Longrightarrow> p \<noteq> [] \<Longrightarrow> \<not> HasPrefix (TrimLeftRunes rs s) p"
proof (induction rs s rule: TrimLeftRunes.induct)
  case (1 rs s)
  show ?case
  proof (cases "find (\<lambda>p. p \<noteq> [] \<and> HasPrefix s p) rs")
    case None
    then have "TrimLeftRunes rs s = s" by (simp add: TrimLeftRunes.simps [of rs s])
    with None "1.prems" show ?thesis by (auto simp: find_None_iff)
  next
    case (Some p')
    then have "TrimLeftRunes rs s = TrimLeftRunes rs (drop (length p') s)"
      by (simp add: TrimLeftRunes.simps [of rs s])
    with 1 Some show ?thesis by simp
  qed
qed

lemma TrimLeftRunes_id:
  "(\<And>p. p \<in> set rs \<Longrightarrow> p \<noteq> [] \<Longrightarrow> \<not> HasPrefix s p) \<Longrightarrow> TrimLeftRunes rs s = s"
  by (auto simp: TrimLeftRunes.simps [of rs s] find_None_iff split: option.splits
      dest!: iffD1 [OF find_Some_iff])

lemma HasPrefix_extend: "HasPrefix s p \<Longrightarrow> HasPrefix (s @ t) p"
  by (auto simp: HasPrefix_iff)

lemma TrimSpace_idem [simp]: "TrimSpace (TrimSpace s) = TrimSpace s"
proof -
  let ?l = "TrimLeftRunes space_runes s" and ?rs = "map rev space_runes"
  let ?r = "TrimLeftRunes ?rs (rev ?l)"
  have t: "TrimSpace s = rev ?r" by (simp add: TrimSpace_def)
  obtain u where "rev ?l = u @ ?r" using TrimLeftRunes_suffix by blast
  then have l: "?l = rev ?r @ rev u" by (metis rev_append rev_rev_ident)
  have left: "TrimLeftRunes space_runes (rev ?r) = rev ?r"
  proof (rule TrimLeftRunes_id)
    fix p assume p: "p \<in> set space_runes" "p \<noteq> []"
    then have "\<not> HasPrefix ?l p" by (rule TrimLeftRunes_no_prefix)
    then show "\<not> HasPrefix (rev ?r) p" using l HasPrefix_extend by metis
  qed
  have "TrimLeftRunes ?rs ?r = ?r"
    by (rule TrimLeftRunes_id) (rule TrimLeftRunes_no_prefix)
  then show ?thesis by (simp add: t) (simp add: TrimSpace_def left)
qed

lemma TrimSpace_subset: "set (TrimSpace s) \<subseteq> set s"
proof -
  obtain u where "s = u @ TrimLeftRunes space_runes s" using TrimLeftRunes_suffix by blast
  then have 1: "set (TrimLeftRunes space_runes s) \<subseteq> set s" by (metis set_append Un_upper2)
  obtain v where "rev (TrimLeftRunes space_runes s)
      = v @ TrimLeftRunes (map rev space_runes) (rev (TrimLeftRunes space_runes s))"
    using TrimLeftRunes_suffix by blast
  then have "set (TrimLeftRunes (map rev space_runes) (rev (TrimLeftRunes space_runes s)))
      \<subseteq> set (rev (TrimLeftRunes space_runes s))" by (metis set_append Un_upper2)
  with 1 show ?thesis by (auto simp: TrimSpace_def)
qed

text \<open>A string without the first or last byte of any space rune is left alone.\<close>

lemma TrimSpace_id:
  assumes "\<And>p. p \<in> set space_runes \<Longrightarrow> hd p \<notin> set s \<and> last p \<notin> set s"
  shows "TrimSpace s = s"
proof -
  have ne: "p \<noteq> []" if "p \<in> set space_runes" for p using that space_runes_nonempty by blast
  have "TrimLeftRunes space_runes s = s"
    using assms by (intro TrimLeftRunes_id) (auto simp: HasPrefix_iff dest: hd_in_set)
  moreover have "TrimLeftRunes (map rev space_runes) (rev s) = rev s"
  proof (rule TrimLeftRunes_id)
    fix q assume "q \<in> set (map rev space_runes)" "q \<noteq> []"
    then obtain p where p: "p \<in> set space_runes" "q = rev p" by auto
    with ne have "last p \<in> set q" by simp
    moreover have "last p \<notin> set (rev s)" using assms p by simp
    ultimately show "\<not> HasPrefix (rev s) q" by (metis HasPrefix_def in_set_takeD)
  qed
  ultimately show ?thesis by (simp add: TrimSpace_def)
qed

end
