(* ===== verification/MosdnsClient.thy ===== *)
theory MosdnsClient
  imports GoStrings
begin

text \<open>
  The isolation layer to the mosdns plugin API (\<open>internal/mosdnsclient/client.go\<close>): its wire
  types, the checks it makes on what mosdns returns, the classification of HTTP outcomes into
  definite and unknown failures (\<open>request\<close>), and the client built from an HTTP transport.
  The transport and mosdns behind it are a parameter; the laws the services rely on are the
  locale \<open>mosdns_client\<close>, which the HTTP client meets whatever the transport answers.
\<close>

section \<open>Wire types\<close>

text \<open>A Go slice that \<open>reflect.DeepEqual\<close> compares: nil (\<open>None\<close>) is not the empty slice.\<close>

type_synonym 'a slice = "'a list option"

definition elems :: "'a slice \<Rightarrow> 'a list" where
  "elems s = (case s of None \<Rightarrow> [] | Some xs \<Rightarrow> xs)"

lemma elems_simps [simp]: "elems None = []" "elems (Some xs) = xs"
  by (simp_all add: elems_def)

record Upstream =
  up_Tag :: string
  up_Addr :: string
  up_Priority :: int
  up_Weight :: int
  up_TimeoutMS :: int

record ECSConfig =
  ecs_Mode :: string
  ecs_Mask4 :: int
  ecs_Mask6 :: int
  ecs_Preset4 :: string
  ecs_Preset6 :: string

record GroupCacheConfig =
  gc_Enabled :: bool
  gc_Size :: int

record UpstreamGroup =
  g_ID :: string
  g_Name :: string
  g_Enabled :: bool
  g_Mode :: string
  g_Concurrent :: int
  g_Socks5 :: string
  g_Bootstrap :: string
  g_BootstrapVer :: int
  g_MaxInFlight :: "int option"
  g_QueryTimeoutMS :: "int option"
  g_Upstreams :: "Upstream slice"
  g_ECS :: ECSConfig
  g_Cache :: GroupCacheConfig

record NegativeCacheConfig =
  nc_Enabled :: bool
  nc_TTL :: "32 word"

record RegistryCacheConfig =
  rc_Enabled :: bool
  rc_LazyTTL :: int
  rc_Negative :: NegativeCacheConfig

record ProtectionConfig =
  pr_GlobalMaxInFlight :: int
  pr_DefaultGroupMaxInFlight :: int
  pr_DefaultGroupQueryTimeoutMS :: int
  pr_OverloadAction :: string

record RegistrySnapshot =
  rg_SchemaVersion :: nat
  rg_Version :: uint64
  rg_ExpectedCurrentVersion :: uint64
  rg_DefaultGroupID :: string
  rg_Groups :: "UpstreamGroup slice"
  rg_Cache :: RegistryCacheConfig
  rg_Protection :: ProtectionConfig

record GroupRuntimeStatus =
  gr_ID :: string
  gr_Name :: string
  gr_Enabled :: bool
  gr_InFlight :: int
  gr_Limit :: int

record RuntimeConcurrency =
  rt_InFlight :: int
  rt_Limit :: int

record RegistryRuntimeStatus =
  rr_RegistryVersion :: uint64
  rr_Global :: RuntimeConcurrency
  rr_Groups :: "GroupRuntimeStatus list"

record AddressFamilySnapshot =
  af_Version :: uint64
  af_ExpectedCurrentVersion :: uint64
  af_Mode :: string

text \<open>The runtime status and the validate and apply replies, as far as the controller reads them.\<close>

record Status =
  st_SnapshotVersion :: nat
  st_Checksum :: string

record ValidateResult =
  vr_Valid :: bool
  vr_Checksum :: string

record ApplyResult =
  ap_Applied :: bool
  ap_Version :: nat
  ap_Checksum :: string

record WireRule =
  w_ID :: int
  w_Category :: string
  w_Action :: string
  w_UpstreamGroupID :: string
  w_MatchType :: string
  w_Pattern :: string
  w_Priority :: int
  w_Source :: string
  w_Comment :: string
  w_IPv4Addresses :: "string list"
  w_IPv6Addresses :: "string list"
  w_TTL :: nat

record SubscriptionSet =
  ss_SourceID :: int
  ss_SourceName :: string
  ss_Category :: string
  ss_Action :: string
  ss_BindingID :: int
  ss_UpstreamGroupID :: string
  ss_Priority :: int
  ss_Domains :: "string list"

record Snapshot =
  sn_SchemaVersion :: nat
  sn_Version :: nat
  sn_ExpectedCurrentVersion :: nat
  sn_GeneratedAt :: int
  sn_Checksum :: string
  sn_BlockRCode :: int
  sn_Rules :: "WireRule list"
  sn_SubscriptionSets :: "SubscriptionSet list"

section \<open>Checks on what mosdns returns\<close>

text \<open>The loops over the groups carry the set \<open>seen\<close> and, for the snapshot, \<open>defaultEnabled\<close>.\<close>

fun registry_groups_ok :: "string \<Rightarrow> string list \<Rightarrow> bool \<Rightarrow> UpstreamGroup list \<Rightarrow> bool" where
  "registry_groups_ok d seen defaultEnabled [] = defaultEnabled"
| "registry_groups_ok d seen defaultEnabled (g # gs) =
     (if g_ID g = '''' then False
      else if g_ID g \<in> set seen then False
      else registry_groups_ok d (g_ID g # seen)
             (if g_ID g = d then g_Enabled g else defaultEnabled) gs)"

definition validRegistrySnapshot :: "RegistrySnapshot \<Rightarrow> uint64 \<Rightarrow> bool" where
  "validRegistrySnapshot s expectedVersion =
     (if (rg_SchemaVersion s \<noteq> 1 \<and> rg_SchemaVersion s \<noteq> 2) \<or> rg_Version s \<noteq> expectedVersion
         \<or> rg_Version s = 0 \<or> rg_ExpectedCurrentVersion s \<noteq> 0
         \<or> rg_DefaultGroupID s = '''' \<or> length (elems (rg_Groups s)) = 0
      then False
      else registry_groups_ok (rg_DefaultGroupID s) [] False (elems (rg_Groups s)))"

fun runtime_groups_ok :: "string list \<Rightarrow> GroupRuntimeStatus list \<Rightarrow> bool" where
  "runtime_groups_ok seen [] = True"
| "runtime_groups_ok seen (g # gs) =
     (if gr_ID g = '''' \<or> gr_Name g = '''' \<or> gr_InFlight g < 0 \<or> gr_Limit g < 1 then False
      else if gr_ID g \<in> set seen then False
      else runtime_groups_ok (gr_ID g # seen) gs)"

definition validRegistryRuntimeStatus :: "RegistryRuntimeStatus \<Rightarrow> bool" where
  "validRegistryRuntimeStatus s =
     (if rr_RegistryVersion s = 0 \<or> rt_InFlight (rr_Global s) < 0 \<or> rt_Limit (rr_Global s) < 1 then False
      else runtime_groups_ok [] (rr_Groups s))"

section \<open>HTTP requests\<close>

datatype http_method = GET | HEAD | POST | PUT

text \<open>
  What the HTTP library can report: the request cannot be built, the round trip fails, or a
  response with a status code, its status line text and a body arrives, whose body cannot be read, is not one JSON value of the
  expected type, is followed by further data, or decodes to a value.
\<close>

datatype 'b body = ReadFailed string | NotJSON string | TrailingData | Decoded 'b
datatype 'b reply = BuildFailed string | DoFailed string | Response int string string "'b body"

text \<open>\<open>responseSummary\<close> abbreviates the body text in an error message.\<close>

definition responseSummary :: "string \<Rightarrow> string" where
  "responseSummary body =
     (let value = TrimSpace body;
          value = (if 512 < length value then take 512 value @ ''...'' else value)
      in if value = '''' then ''empty response'' else value)"

definition api_text :: "http_method \<Rightarrow> string \<Rightarrow> string \<Rightarrow> string" where
  "api_text meth path rest =
     ''mosdns API '' @ (case meth of GET \<Rightarrow> ''GET'' | HEAD \<Rightarrow> ''HEAD'' | POST \<Rightarrow> ''POST'' | PUT \<Rightarrow> ''PUT'')
       @ '' '' @ path @ rest"

definition is_write :: "http_method \<Rightarrow> string \<Rightarrow> bool" where
  "is_write meth path = ((meth \<noteq> GET \<and> meth \<noteq> HEAD) \<or> HasSuffix path ''/flush'')"

definition unknown :: "bool \<Rightarrow> error \<Rightarrow> error" where
  "unknown isWrite e =
     (if \<not> isWrite then e else Wrap ErrUnknown (Error ErrUnknown @ '': '' @ Error e))"

definition request :: "http_method \<Rightarrow> string \<Rightarrow> 'b reply \<Rightarrow> error + 'b" where
  "request meth path r =
     (let isWrite = is_write meth path in
      case r of
        BuildFailed t \<Rightarrow> Inl (Msg t)
      | DoFailed t \<Rightarrow> Inl (unknown isWrite (Msg t))
      | Response code status text body \<Rightarrow>
          (if code = 409 then Inl ErrConflict
           else if code < 200 \<or> 300 \<le> code then
             (let e = Msg (api_text meth path ('': '' @ status @ '': '' @ responseSummary text)) in
              if isWrite \<and> (code < 400 \<or> 500 \<le> code) then Inl (unknown isWrite e)
              else if isWrite then Inl (Wrap ErrRejected (Error ErrRejected @ '': '' @ Error e))
              else Inl e)
           else
             (case body of
                ReadFailed t \<Rightarrow> Inl (unknown isWrite
                   (Wrap (Msg t) (''read '' @ api_text meth path ('': '' @ t))))
              | NotJSON t \<Rightarrow> Inl (unknown isWrite (Msg (api_text meth path
                   ('' returned non-JSON data; the required plugin endpoint may be unavailable: ''
                      @ responseSummary t))))
              | TrailingData \<Rightarrow> Inl (unknown isWrite (Msg (api_text meth path '' returned trailing JSON data'')))
              | Decoded v \<Rightarrow> Inr v)))"

section \<open>The client interface and its HTTP implementation\<close>

text \<open>
  The methods of \<open>Client\<close> that the services call. Each runs against the state \<open>'m\<close> of the
  world outside the controller (mosdns and the network), which it may change.
\<close>

record 'm client =
  c_Status :: "'m \<Rightarrow> (error + Status) \<times> 'm"
  c_Validate :: "Snapshot \<Rightarrow> 'm \<Rightarrow> (error + ValidateResult) \<times> 'm"
  c_Apply :: "Snapshot \<Rightarrow> 'm \<Rightarrow> (error + ApplyResult) \<times> 'm"
  c_RegistryStatus :: "'m \<Rightarrow> (error + RegistrySnapshot) \<times> 'm"
  c_RegistryRuntimeStatus :: "'m \<Rightarrow> (error + RegistryRuntimeStatus) \<times> 'm"
  c_ApplyRegistry :: "RegistrySnapshot \<Rightarrow> 'm \<Rightarrow> (error + RegistrySnapshot) \<times> 'm"
  c_FlushRegistry :: "string \<Rightarrow> uint64 \<Rightarrow> 'm \<Rightarrow> (error + unit) \<times> 'm"
  c_AddressFamilyStatus :: "'m \<Rightarrow> (error + AddressFamilySnapshot) \<times> 'm"
  c_ApplyAddressFamily :: "AddressFamilySnapshot \<Rightarrow> 'm \<Rightarrow> (error + AddressFamilySnapshot) \<times> 'm"

text \<open>One transport function per endpoint: the reply mosdns gives to the request.\<close>

record 'm transport =
  t_status :: "'m \<Rightarrow> Status reply \<times> 'm"
  t_validate :: "Snapshot \<Rightarrow> 'm \<Rightarrow> ValidateResult reply \<times> 'm"
  t_snapshot :: "Snapshot \<Rightarrow> 'm \<Rightarrow> ApplyResult reply \<times> 'm"
  t_upstreams_status :: "'m \<Rightarrow> RegistrySnapshot reply \<times> 'm"
  t_upstreams_runtime :: "'m \<Rightarrow> RegistryRuntimeStatus reply \<times> 'm"
  t_upstreams_snapshot :: "RegistrySnapshot \<Rightarrow> 'm \<Rightarrow> RegistrySnapshot reply \<times> 'm"
  t_upstreams_flush :: "string \<Rightarrow> uint64 \<Rightarrow> 'm \<Rightarrow> (bool \<times> string) reply \<times> 'm"
  t_family_status :: "'m \<Rightarrow> AddressFamilySnapshot reply \<times> 'm"
  t_family_snapshot :: "AddressFamilySnapshot \<Rightarrow> 'm \<Rightarrow> AddressFamilySnapshot reply \<times> 'm"

definition plain :: "http_method \<Rightarrow> string \<Rightarrow> ('m \<Rightarrow> 'b reply \<times> 'm) \<Rightarrow> 'm \<Rightarrow> (error + 'b) \<times> 'm" where
  "plain meth path t m = (case t m of (r, m') \<Rightarrow> (request meth path r, m'))"

definition RegistryStatus :: "'m transport \<Rightarrow> 'm \<Rightarrow> (error + RegistrySnapshot) \<times> 'm" where
  "RegistryStatus T m =
     (case plain GET ''/plugins/dynamic_upstreams/status'' (t_upstreams_status T) m of
        (Inl e, m') \<Rightarrow> (Inl e, m')
      | (Inr v, m') \<Rightarrow>
          (if \<not> validRegistrySnapshot v (rg_Version v)
           then (Inl (Msg ''dynamic upstream registry returned an invalid snapshot''), m')
           else (Inr v, m')))"

definition RegistryRuntimeStatus_call :: "'m transport \<Rightarrow> 'm \<Rightarrow> (error + RegistryRuntimeStatus) \<times> 'm" where
  "RegistryRuntimeStatus_call T m =
     (case plain GET ''/plugins/dynamic_upstreams/runtime-status'' (t_upstreams_runtime T) m of
        (Inl e, m') \<Rightarrow> (Inl e, m')
      | (Inr v, m') \<Rightarrow>
          (if \<not> validRegistryRuntimeStatus v
           then (Inl (Msg ''dynamic upstream registry returned invalid runtime status''), m')
           else (Inr v, m')))"

definition ApplyRegistry ::
  "'m transport \<Rightarrow> RegistrySnapshot \<Rightarrow> 'm \<Rightarrow> (error + RegistrySnapshot) \<times> 'm" where
  "ApplyRegistry T s m =
     (case plain PUT ''/plugins/dynamic_upstreams/snapshot'' (t_upstreams_snapshot T s) m of
        (Inl e, m') \<Rightarrow> (Inl e, m')
      | (Inr v, m') \<Rightarrow>
          (if \<not> validRegistrySnapshot v (rg_Version s)
           then (Inl (Wrap ErrUnknown (Error ErrUnknown
                   @ '': dynamic upstream registry returned an invalid applied snapshot'')), m')
           else (Inr v, m')))"

definition FlushRegistry ::
  "'m transport \<Rightarrow> string \<Rightarrow> uint64 \<Rightarrow> 'm \<Rightarrow> (error + unit) \<times> 'm" where
  "FlushRegistry T groupID expected m =
     (case plain POST ''/plugins/dynamic_upstreams/flush'' (t_upstreams_flush T groupID expected) m of
        (Inl e, m') \<Rightarrow> (Inl e, m')
      | (Inr (flushed, gid), m') \<Rightarrow>
          (if \<not> flushed \<or> gid \<noteq> groupID
           then (Inl (Wrap ErrUnknown (Error ErrUnknown
                   @ '': dynamic upstream registry flush response does not match the request'')), m')
           else (Inr (), m')))"

definition HTTPClient :: "'m transport \<Rightarrow> 'm client" where
  "HTTPClient T =
     \<lparr>c_Status = plain GET ''/plugins/dynamic_rules/status'' (t_status T),
      c_Validate = (\<lambda>s. plain POST ''/plugins/dynamic_rules/validate'' (t_validate T s)),
      c_Apply = (\<lambda>s. plain PUT ''/plugins/dynamic_rules/snapshot'' (t_snapshot T s)),
      c_RegistryStatus = RegistryStatus T,
      c_RegistryRuntimeStatus = RegistryRuntimeStatus_call T,
      c_ApplyRegistry = ApplyRegistry T,
      c_FlushRegistry = FlushRegistry T,
      c_AddressFamilyStatus = plain GET ''/plugins/address_family/status'' (t_family_status T),
      c_ApplyAddressFamily = (\<lambda>s. plain PUT ''/plugins/address_family/snapshot'' (t_family_snapshot T s))\<rparr>"

section \<open>The registry checks, declaratively\<close>

definition group_ids :: "RegistrySnapshot \<Rightarrow> string list" where
  "group_ids s = map g_ID (elems (rg_Groups s))"

lemma registry_groups_ok_iff:
  "registry_groups_ok d seen b gs \<longleftrightarrow>
     distinct (map g_ID gs) \<and> '''' \<notin> g_ID ` set gs \<and> set seen \<inter> g_ID ` set gs = {}
     \<and> (if d \<in> g_ID ` set gs then \<exists>g \<in> set gs. g_ID g = d \<and> g_Enabled g else b)"
proof (induction d seen b gs rule: registry_groups_ok.induct)
  case (1 d seen b)
  then show ?case by simp
next
  case (2 d seen b g gs)
  show ?case
  proof (cases "g_ID g = '''' \<or> g_ID g \<in> set seen")
    case True
    then show ?thesis by auto
  next
    case False
    with 2 have IH: "registry_groups_ok d (g_ID g # seen) (if g_ID g = d then g_Enabled g else b) gs \<longleftrightarrow>
        distinct (map g_ID gs) \<and> '''' \<notin> g_ID ` set gs \<and> set (g_ID g # seen) \<inter> g_ID ` set gs = {}
        \<and> (if d \<in> g_ID ` set gs then \<exists>g \<in> set gs. g_ID g = d \<and> g_Enabled g
           else if g_ID g = d then g_Enabled g else b)"
      by simp
    from False show ?thesis by (auto simp: IH) (metis imageI)
  qed
qed

lemma validRegistrySnapshot_iff:
  "validRegistrySnapshot s v \<longleftrightarrow>
     rg_SchemaVersion s \<in> {1, 2} \<and> rg_Version s = v \<and> v \<noteq> 0 \<and> rg_ExpectedCurrentVersion s = 0
     \<and> rg_DefaultGroupID s \<noteq> '''' \<and> distinct (group_ids s) \<and> '''' \<notin> set (group_ids s)
     \<and> (\<exists>g \<in> set (elems (rg_Groups s)). g_ID g = rg_DefaultGroupID s \<and> g_Enabled g)"
  unfolding validRegistrySnapshot_def registry_groups_ok_iff group_ids_def
  by (cases "elems (rg_Groups s) = []") (auto simp: image_iff)

section \<open>Outcomes of a request\<close>

text \<open>
  A reply after which a write may or may not have taken effect: no response, a status outside
  2xx and 4xx, or a 2xx whose body does not confirm it.
\<close>

fun ambiguous :: "'b reply \<Rightarrow> bool" where
  "ambiguous (BuildFailed t) = False"
| "ambiguous (DoFailed t) = True"
| "ambiguous (Response code st t b) =
     (if code = 409 then False
      else if code < 200 \<or> 300 \<le> code then code < 400 \<or> 500 \<le> code
      else (case b of Decoded v \<Rightarrow> False | _ \<Rightarrow> True))"

lemmas request_cases = request_def Let_def unknown_def

lemma request_read_definite:
  "\<not> is_write meth path \<Longrightarrow> request meth path r = Inl e \<Longrightarrow>
     \<not> errors_Is e ErrUnknown \<and> \<not> errors_Is e ErrRejected"
  by (auto simp: request_cases split: reply.splits body.splits if_splits)

lemma request_unknown_iff:
  "request meth path r = Inl e \<Longrightarrow> errors_Is e ErrUnknown \<longleftrightarrow> is_write meth path \<and> ambiguous r"
  by (auto simp: request_cases split: reply.splits body.splits if_splits)

lemma request_rejected_iff:
  "request meth path r = Inl e \<Longrightarrow> errors_Is e ErrRejected \<longleftrightarrow>
     is_write meth path \<and> (\<exists>code st t b. r = Response code st t b \<and> 400 \<le> code \<and> code < 500 \<and> code \<noteq> 409)"
  by (auto simp: request_cases split: reply.splits body.splits if_splits)

lemma request_conflict_iff:
  "request meth path r = Inl e \<Longrightarrow>
     errors_Is e ErrConflict \<longleftrightarrow> (\<exists>st t b. r = Response 409 st t b)"
  by (auto simp: request_cases split: reply.splits body.splits if_splits)

lemma request_Inr_iff:
  "request meth path r = Inr v \<longleftrightarrow>
     (\<exists>code st t. r = Response code st t (Decoded v) \<and> 200 \<le> code \<and> code < 300)"
  by (auto simp: request_def Let_def split: reply.splits body.splits if_splits)

lemma is_write_simps [simp]: "is_write POST path" "is_write PUT path"
  by (simp_all add: is_write_def)

section \<open>The contract of a client\<close>

text \<open>
  What the services rely on: reads never report an unknown outcome, and a registry that is
  returned, read or applied, has passed \<open>validRegistrySnapshot\<close>.
\<close>

locale mosdns_client =
  fixes C :: "'m client"
  assumes status_definite: "c_Status C m = (Inl e, m') \<Longrightarrow> \<not> errors_Is e ErrUnknown"
    and registry_definite: "c_RegistryStatus C m = (Inl e, m') \<Longrightarrow> \<not> errors_Is e ErrUnknown"
    and registry_valid: "c_RegistryStatus C m = (Inr s, m') \<Longrightarrow> validRegistrySnapshot s (rg_Version s)"
    and apply_valid: "c_ApplyRegistry C s m = (Inr s', m') \<Longrightarrow> validRegistrySnapshot s' (rg_Version s)"
begin

lemma registry_version_pos: "c_RegistryStatus C m = (Inr s, m') \<Longrightarrow> rg_Version s \<noteq> 0"
  by (drule registry_valid) (simp add: validRegistrySnapshot_iff)

lemma registry_ids_distinct:
  "c_RegistryStatus C m = (Inr s, m') \<Longrightarrow> distinct (group_ids s) \<and> '''' \<notin> set (group_ids s)"
  by (drule registry_valid) (simp add: validRegistrySnapshot_iff)

lemma registry_default_enabled:
  "c_RegistryStatus C m = (Inr s, m') \<Longrightarrow>
     \<exists>g \<in> set (elems (rg_Groups s)). g_ID g = rg_DefaultGroupID s \<and> g_Enabled g"
  by (drule registry_valid) (simp add: validRegistrySnapshot_iff)

lemma applied_version: "c_ApplyRegistry C s m = (Inr s', m') \<Longrightarrow> rg_Version s' = rg_Version s"
  by (drule apply_valid) (simp add: validRegistrySnapshot_iff)

end

lemma get_status_paths [simp]:
  "\<not> is_write GET ''/plugins/dynamic_rules/status''"
  "\<not> is_write GET ''/plugins/dynamic_upstreams/status''"
  by (simp_all add: is_write_def HasSuffix_def HasPrefix_def)

interpretation http: mosdns_client "HTTPClient T" for T :: "'m transport"
proof unfold_locales
  fix m m' :: 'm and e
  assume "c_Status (HTTPClient T) m = (Inl e, m')"
  then show "\<not> errors_Is e ErrUnknown"
    by (auto simp: HTTPClient_def plain_def dest!: request_read_definite [rotated] split: prod.splits)
next
  fix m m' :: 'm and e
  assume "c_RegistryStatus (HTTPClient T) m = (Inl e, m')"
  then show "\<not> errors_Is e ErrUnknown"
    by (auto simp: HTTPClient_def plain_def RegistryStatus_def dest!: request_read_definite [rotated]
        split: prod.splits sum.splits if_splits)
next
  fix m m' :: 'm and s
  assume "c_RegistryStatus (HTTPClient T) m = (Inr s, m')"
  then show "validRegistrySnapshot s (rg_Version s)"
    by (auto simp: HTTPClient_def RegistryStatus_def split: prod.splits sum.splits if_splits)
next
  fix m m' :: 'm and s s'
  assume "c_ApplyRegistry (HTTPClient T) s m = (Inr s', m')"
  then show "validRegistrySnapshot s' (rg_Version s)"
    by (auto simp: HTTPClient_def ApplyRegistry_def split: prod.splits sum.splits if_splits)
qed

end
