(* ===== verification/Tables.thy ===== *)
theory Tables
  imports GoStrings
begin

text \<open>
  The tables of \<open>baselineSchema\<close> beside those of the rule service: devices, the raw query
  log, the hourly statistics, administrators and sessions, with the audit log; and the two
  shapes of table the schema has, an AUTOINCREMENT table (\<open>'r table\<close>, rows with their ids) and a
  table with a natural key that is written with \<open>INSERT ... ON CONFLICT DO UPDATE\<close>
  (an association list and \<open>upsert\<close>).
\<close>

section \<open>AUTOINCREMENT tables\<close>

text \<open>\<open>tb_seq\<close> is the counter of \<open>sqlite_sequence\<close>: ids are never used again after a DELETE.\<close>

record 'r table =
  tb_seq :: int
  tb_rows :: "(int \<times> 'r) list"

definition empty_table :: "'r table" where
  "empty_table = \<lparr>tb_seq = 0, tb_rows = []\<rparr>"

definition insert_row :: "'r \<Rightarrow> 'r table \<Rightarrow> 'r table" where
  "insert_row r t = \<lparr>tb_seq = tb_seq t + 1, tb_rows = tb_rows t @ [(tb_seq t + 1, r)]\<rparr>"

definition insert_rows :: "'r list \<Rightarrow> 'r table \<Rightarrow> 'r table" where
  "insert_rows rs t = fold insert_row rs t"

definition delete_where :: "(int \<Rightarrow> 'r \<Rightarrow> bool) \<Rightarrow> 'r table \<Rightarrow> 'r table" where
  "delete_where P t = t\<lparr>tb_rows := filter (\<lambda>(i, r). \<not> P i r) (tb_rows t)\<rparr>"

definition update_where :: "(int \<Rightarrow> 'r \<Rightarrow> bool) \<Rightarrow> ('r \<Rightarrow> 'r) \<Rightarrow> 'r table \<Rightarrow> 'r table" where
  "update_where P f t = t\<lparr>tb_rows := map (\<lambda>(i, r). (i, if P i r then f r else r)) (tb_rows t)\<rparr>"

definition auto_ok :: "'r table \<Rightarrow> bool" where
  "auto_ok t = (distinct (map fst (tb_rows t)) \<and> (\<forall>(i, r) \<in> set (tb_rows t). 1 \<le> i \<and> i \<le> tb_seq t)
     \<and> 0 \<le> tb_seq t)"

lemma auto_ok_empty [simp]: "auto_ok empty_table"
  by (simp add: auto_ok_def empty_table_def)

lemma auto_ok_insert [simp]: "auto_ok t \<Longrightarrow> auto_ok (insert_row r t)"
  by (fastforce simp: auto_ok_def insert_row_def)

lemma auto_ok_inserts [simp]: "auto_ok t \<Longrightarrow> auto_ok (insert_rows rs t)"
  by (induction rs arbitrary: t) (simp_all add: insert_rows_def)

lemma auto_ok_delete [simp]: "auto_ok t \<Longrightarrow> auto_ok (delete_where P t)"
  by (auto simp: auto_ok_def delete_where_def intro: distinct_map_filter)

lemma auto_ok_update [simp]: "auto_ok t \<Longrightarrow> auto_ok (update_where P f t)"
proof -
  have "fst \<circ> (\<lambda>(i, r). (i, if P i r then f r else r)) = fst" by auto
  then show "auto_ok t \<Longrightarrow> auto_ok (update_where P f t)"
    by (auto simp: auto_ok_def update_where_def)
qed

lemma insert_rows_Nil [simp]: "insert_rows [] t = t"
  by (simp add: insert_rows_def)

lemma insert_rows_single: "insert_row r t = insert_rows [r] t"
  by (simp add: insert_rows_def)

section \<open>Tables with a natural key\<close>

text \<open>\<open>INSERT INTO t VALUES(k, v) ON CONFLICT(k) DO UPDATE SET v = merge v excluded.v\<close>\<close>

fun upsert :: "('v \<Rightarrow> 'v \<Rightarrow> 'v) \<Rightarrow> 'k \<Rightarrow> 'v \<Rightarrow> ('k \<times> 'v) list \<Rightarrow> ('k \<times> 'v) list" where
  "upsert merge k v [] = [(k, v)]"
| "upsert merge k v ((k', v') # xs) =
     (if k' = k then (k, merge v' v) # xs else (k', v') # upsert merge k v xs)"

lemma map_of_upsert:
  "map_of (upsert m k v xs) = (map_of xs)(k \<mapsto> (case map_of xs k of None \<Rightarrow> v | Some v' \<Rightarrow> m v' v))"
  by (induction xs) auto

lemma set_keys_upsert: "fst ` set (upsert m k v xs) = insert k (fst ` set xs)"
  by (induction m k v xs rule: upsert.induct) (auto simp: insert_commute)

lemma distinct_upsert: "distinct (map fst xs) \<Longrightarrow> distinct (map fst (upsert m k v xs))"
proof (induction xs)
  case (Cons x xs)
  obtain a b where "x = (a, b)" by (cases x)
  with Cons show ?case by (cases "a = k") (simp_all add: set_keys_upsert)
qed simp

text \<open>A measure that the merge adds up is added up over the table.\<close>

lemma sum_upsert:
  fixes f :: "'v \<Rightarrow> int"
  assumes "\<And>v'. f (m v' v) = f v' + f v"
  shows "(\<Sum>(k', v') \<leftarrow> upsert m k v xs. f v') = (\<Sum>(k', v') \<leftarrow> xs. f v') + f v"
  using assms by (induction xs) auto

section \<open>Rows\<close>

record audit_row =
  au_admin_id :: int
  au_action :: string
  au_resource_type :: string
  au_resource_id :: string
  au_request_id :: string
  au_client_ip :: string
  au_result :: string
  au_error_code :: string
  au_created_at_ms :: int

record device_row =
  dv_ip :: string
  dv_mac :: "string option"
  dv_hostname :: "string option"
  dv_display_name :: "string option"
  dv_note :: string
  dv_source :: string
  dv_first_seen_at_ms :: int
  dv_last_seen_at_ms :: int
  dv_updated_at_ms :: int

text \<open>
  The columns of \<open>dns_queries\<close> that \<open>Event\<close> and \<open>StoredEvent\<close> have as fields too. The
  ingestion binds every one of them, so the nullable ones are not NULL; \<open>answer_min_ttl_seconds\<close>
  is NULL when the event has none.
\<close>

record query_cols =
  q_EventID :: string
  q_TimestampMS :: int
  q_ClientIP :: string
  q_Protocol :: string
  q_QName :: string
  q_QType :: "16 word"
  q_QClass :: "16 word"
  q_RCode :: int
  q_Route :: string
  q_RouteSource :: string
  q_UpstreamGroup :: string
  q_UpstreamTag :: string
  q_CacheHit :: bool
  q_Snapshot :: uint64
  q_AccessRuleID :: int
  q_RouteRuleID :: int
  q_AnswerRuleID :: int
  q_SubscriptionSourceID :: int
  q_SubscriptionBindingID :: int
  q_SubscriptionSourceName :: string
  q_SubscriptionCategories :: "string list"
  q_AnswerCount :: int
  q_AnswerMinTTLSeconds :: "int option"
  q_LatencyUS :: int
  q_ErrorCode :: string
  q_ErrorText :: string

record query_row = query_cols +
  q_result_class :: string
  q_created_at_ms :: int

record admin_row =
  ad_username :: string
  ad_password_hash :: string
  ad_disabled :: bool
  ad_created_at_ms :: int
  ad_updated_at_ms :: int

record session_row =
  se_token_hash :: string
  se_admin_id :: int
  se_csrf_hash :: string
  se_client_ip :: string
  se_user_agent :: string
  se_created_at_ms :: int
  se_last_seen_at_ms :: int
  se_expires_at_ms :: int

text \<open>The values of the hourly tables; a table holds the columns that concern it.\<close>

record stat =
  sc_query_count :: int
  sc_error_count :: int
  sc_cache_hit_count :: int
  sc_latency_sum_us :: int

record max_stat = stat +
  sc_latency_max_us :: int

record global_stat = max_stat +
  sc_success_count :: int
  sc_negative_answer_count :: int
  sc_policy_block_count :: int
  sc_processing_error_count :: int

record hourly =
  h_global :: "((int \<times> string \<times> 16 word \<times> int) \<times> global_stat) list"
  h_domain :: "((int \<times> string \<times> string) \<times> stat) list"
  h_client :: "((int \<times> string \<times> string) \<times> stat) list"
  h_client_domain :: "((int \<times> string \<times> string \<times> string) \<times> int) list"
  h_upstream_group :: "((int \<times> string) \<times> max_stat) list"
  h_latency_bucket :: "((int \<times> int) \<times> int) list"

definition empty_hourly :: hourly where
  "empty_hourly = \<lparr>h_global = [], h_domain = [], h_client = [], h_client_domain = [],
     h_upstream_group = [], h_latency_bucket = []\<rparr>"

end
