(* ===== verification/Store.thy ===== *)
theory Store
  imports MosdnsClient Tables "HOL-Library.Product_Lexorder"
begin

text \<open>
  The SQLite store (\<open>internal/storage\<close>) as the services see it: the tables of
  \<open>baselineSchema\<close>, with their CHECK, UNIQUE, PRIMARY KEY and
  FOREIGN KEY clauses, and the world a service method runs in: the database, the faults its
  statements meet, the clock readings and the state outside the controller. A statement that
  fails changes nothing; a transaction that does not commit changes nothing. Columns that hold
  JSON (\<open>snapshot_json\<close>, \<open>rules_json\<close>, \<open>domains_json\<close>, the address lists) are the values
  encoded.
\<close>

section \<open>Rows\<close>

record Rule =
  r_ID :: int
  r_Category :: string
  r_Action :: string
  r_UpstreamGroupID :: string
  r_MatchType :: string
  r_Pattern :: string
  r_Priority :: int
  r_Source :: string
  r_Comment :: string
  r_Enabled :: bool
  r_CreatedAtMS :: int
  r_UpdatedAtMS :: int
  r_ExpectedUpstreamRegistryVersion :: "uint64 option"
  r_IPv4Addresses :: "string list"
  r_IPv6Addresses :: "string list"
  r_TTL :: nat

datatype version_status = Pending | Unknown | Active | Superseded | Failed

record version_row =
  vv_version :: nat
  vv_checksum :: string
  vv_status :: version_status
  vv_previous_version :: nat
  vv_rollback_from :: "nat option"
  vv_rule_count :: nat
  vv_regexp_rule_count :: nat
  vv_snapshot :: Snapshot
  vv_rules :: "Rule list"
  vv_created_by :: "int option"
  vv_error_code :: "string option"
  vv_error_message :: "string option"
  vv_created_at_ms :: int
  vv_activated_at_ms :: "int option"

text \<open>
  A row of \<open>domain_rules\<close>: \<open>dr_rule\<close> holds the columns that \<open>Rule\<close> has too, but for
  \<open>upstream_group_id\<close>, which is NULL outside the route category.
\<close>

record drule_row =
  dr_version :: nat
  dr_upstream_group_id :: "string option"
  dr_normalized_pattern :: string
  dr_rule :: Rule

record sub_row =
  su_id :: int
  su_category :: string
  su_action :: string
  su_kind :: string
  su_name :: string
  su_source_url :: string
  su_refresh_interval_seconds :: int
  su_enabled :: bool
  su_content_checksum :: string
  su_rule_count :: nat
  su_last_checked_at_ms :: int
  su_last_success_at_ms :: int
  su_last_error :: string
  su_created_at_ms :: int
  su_updated_at_ms :: int
  su_domains :: "string list"

record binding_row =
  bi_id :: int
  bi_subscription_id :: int
  bi_upstream_group_id :: string
  bi_priority :: int
  bi_created_at_ms :: int
  bi_updated_at_ms :: int

text \<open>\<open>d_sub_seq\<close> and \<open>d_bind_seq\<close> are the AUTOINCREMENT counters of \<open>sqlite_sequence\<close>.\<close>

record db =
  d_versions :: "version_row list"
  d_rules :: "drule_row list"
  d_subs :: "sub_row list"
  d_bindings :: "binding_row list"
  d_state :: "string \<Rightarrow> string option"
  d_audit :: "audit_row table"
  d_sub_seq :: int
  d_bind_seq :: int
  d_devices :: "device_row table"
  d_queries :: "query_row table"
  d_hourly :: hourly
  d_admins :: "admin_row table"
  d_sessions :: "session_row list"

definition empty_db :: db where
  "empty_db = \<lparr>d_versions = [], d_rules = [], d_subs = [], d_bindings = [], d_state = (\<lambda>_. None),
     d_audit = empty_table, d_sub_seq = 0, d_bind_seq = 0, d_devices = empty_table,
     d_queries = empty_table, d_hourly = empty_hourly, d_admins = empty_table, d_sessions = []\<rparr>"

section \<open>Constraints of the schema\<close>

text \<open>SQLite's \<open>trim(x)\<close> removes spaces only.\<close>

definition sql_trim :: "string \<Rightarrow> string" where
  "sql_trim s = rev (dropWhile (\<lambda>c. c = CHR '' '') (rev (dropWhile (\<lambda>c. c = CHR '' '') s)))"

definition drule_check :: "drule_row \<Rightarrow> bool" where
  "drule_check d =
     (let r = dr_rule d; c = r_Category r; a = r_Action r; g = dr_upstream_group_id d; ttl = r_TTL r in
      c \<in> set [''access'', ''route'', ''logging'', ''answer'']
      \<and> r_MatchType r \<in> set [''full'', ''domain'', ''regexp'']
      \<and> 0 \<le> r_Priority r \<and> r_Priority r \<le> 1000 \<and> ttl \<le> 86400
      \<and> ((c = ''access'' \<and> (a = ''allow'' \<or> a = ''block'') \<and> g = None \<and> ttl = 0)
         \<or> (c = ''route'' \<and> a = ''upstream'' \<and> (case g of None \<Rightarrow> False | Some x \<Rightarrow> sql_trim x \<noteq> '''') \<and> ttl = 0)
         \<or> (c = ''logging'' \<and> a = ''no_log'' \<and> g = None \<and> ttl = 0)
         \<or> (c = ''answer'' \<and> a = ''static'' \<and> g = None \<and> 1 \<le> ttl)))"

definition drule_key :: "drule_row \<Rightarrow> string \<times> string \<times> string" where
  "drule_key d = (dr_normalized_pattern d, r_MatchType (dr_rule d), r_Category (dr_rule d))"

definition sub_check :: "sub_row \<Rightarrow> bool" where
  "sub_check s =
     ((su_category s = ''access'' \<and> (su_action s = ''allow'' \<or> su_action s = ''block'')
        \<or> su_category s = ''route'' \<and> su_action s = ''upstream'')
      \<and> (su_kind s = ''url'' \<or> su_kind s = ''upload'')
      \<and> 900 \<le> su_refresh_interval_seconds s \<and> su_refresh_interval_seconds s \<le> 2592000)"

definition binding_check :: "binding_row \<Rightarrow> bool" where
  "binding_check b = (sql_trim (bi_upstream_group_id b) \<noteq> '''' \<and> 0 \<le> bi_priority b \<and> bi_priority b \<le> 1000)"

section \<open>The world of a service method\<close>

text \<open>
  \<open>w_faults\<close> says which of the coming database calls fail (none once it is used up);
  \<open>w_clock\<close> holds the coming readings of \<open>time.Now()\<close> in milliseconds, \<open>w_now\<close> the last one.
  A wall clock may go back: nothing is assumed about the readings.
\<close>

record 'm world =
  w_db :: db
  w_faults :: "bool list"
  w_now :: int
  w_clock :: "int list"
  w_ext :: 'm

definition faulty :: "'m world \<Rightarrow> bool" where
  "faulty w = (case w_faults w of [] \<Rightarrow> False | b # _ \<Rightarrow> b)"

definition pop_fault :: "'m world \<Rightarrow> 'm world" where
  "pop_fault w = w\<lparr>w_faults := tl (w_faults w)\<rparr>"

definition db_run :: "(db \<Rightarrow> error + 'a \<times> db) \<Rightarrow> (error, 'm world, 'a) prog" where
  "db_run u = (\<lambda>w. if faulty w then (Inl Fault, pop_fault w)
     else (case u (w_db w) of
             Inl e \<Rightarrow> (Inl e, pop_fault w)
           | Inr (a, d) \<Rightarrow> (Inr a, (pop_fault w)\<lparr>w_db := d\<rparr>)))"

definition db_query :: "(db \<Rightarrow> error + 'a) \<Rightarrow> (error, 'm world, 'a) prog" where
  "db_query q = db_run (\<lambda>d. case q d of Inl e \<Rightarrow> Inl e | Inr a \<Rightarrow> Inr (a, d))"

definition db_exec :: "(db \<Rightarrow> error + db) \<Rightarrow> (error, 'm world, unit) prog" where
  "db_exec u = db_run (\<lambda>d. case u d of Inl e \<Rightarrow> Inl e | Inr d' \<Rightarrow> Inr ((), d'))"

text \<open>
  A transaction: \<open>BeginTx\<close>, the body, \<open>Commit\<close>, with \<open>defer tx.Rollback()\<close>. Unless all of it
  succeeds the tables are those of the beginning.
\<close>

definition transaction :: "(error, 'm world, 'a) prog \<Rightarrow> (error, 'm world, 'a) prog" where
  "transaction body = (\<lambda>w.
     case bindM (db_query (\<lambda>d. Inr ())) (\<lambda>_. bindM body (\<lambda>a.
            bindM (db_query (\<lambda>d. Inr ())) (\<lambda>_. returnM a))) w of
       (r, w') \<Rightarrow> (case r of Inl e \<Rightarrow> (Inl e, w'\<lparr>w_db := w_db w\<rparr>) | Inr a \<Rightarrow> (Inr a, w')))"

definition time_now :: "(error, 'm world, int) prog" where
  "time_now = (\<lambda>w. case w_clock w of
       [] \<Rightarrow> (Inr (w_now w), w)
     | t # ts \<Rightarrow> (Inr t, w\<lparr>w_now := t, w_clock := ts\<rparr>))"

definition call :: "('m \<Rightarrow> (error + 'a) \<times> 'm) \<Rightarrow> (error, 'm world, 'a) prog" where
  "call f = (\<lambda>w. case f (w_ext w) of (r, m) \<Rightarrow> (r, w\<lparr>w_ext := m\<rparr>))"

section \<open>Rules for the primitives\<close>

lemma wp_db_run [wp_simps]:
  "wp (db_run u) E Q w =
     (if faulty w then E Fault (pop_fault w)
      else (case u (w_db w) of
              Inl e \<Rightarrow> E e (pop_fault w)
            | Inr (a, d) \<Rightarrow> Q a ((pop_fault w)\<lparr>w_db := d\<rparr>)))"
  by (simp add: wp_def db_run_def split: sum.splits prod.splits)

lemma pop_fault_db [simp]: "(pop_fault w)\<lparr>w_db := w_db w\<rparr> = pop_fault w"
  by (simp add: pop_fault_def)

lemma pop_fault_sel [simp]:
  "w_db (pop_fault w) = w_db w" "w_ext (pop_fault w) = w_ext w"
  "w_now (pop_fault w) = w_now w" "w_clock (pop_fault w) = w_clock w"
  by (simp_all add: pop_fault_def)

lemma wp_db_query [wp_simps]:
  "wp (db_query q) E Q w =
     (if faulty w then E Fault (pop_fault w)
      else (case q (w_db w) of Inl e \<Rightarrow> E e (pop_fault w) | Inr a \<Rightarrow> Q a (pop_fault w)))"
  by (simp add: db_query_def wp_db_run split: sum.splits)

lemma wp_db_exec [wp_simps]:
  "wp (db_exec u) E Q w =
     (if faulty w then E Fault (pop_fault w)
      else (case u (w_db w) of
              Inl e \<Rightarrow> E e (pop_fault w)
            | Inr d \<Rightarrow> Q () ((pop_fault w)\<lparr>w_db := d\<rparr>)))"
  by (simp add: db_exec_def wp_db_run split: sum.splits)

lemma wp_time_now [wp_simps]:
  "wp time_now E Q w =
     (case w_clock w of [] \<Rightarrow> Q (w_now w) w | t # ts \<Rightarrow> Q t (w\<lparr>w_now := t, w_clock := ts\<rparr>))"
  by (simp add: wp_def time_now_def split: list.splits)

lemma wp_call [wp_simps]:
  "wp (call f) E Q w =
     (case f (w_ext w) of (r, m) \<Rightarrow>
        (case r of Inl e \<Rightarrow> E e (w\<lparr>w_ext := m\<rparr>) | Inr a \<Rightarrow> Q a (w\<lparr>w_ext := m\<rparr>)))"
  by (simp add: wp_def call_def split: prod.splits sum.splits)

lemma wp_transaction [wp_simps]:
  "wp (transaction body) E Q w =
     wp (db_query (\<lambda>d. Inr ()))
       (\<lambda>e w'. E e (w'\<lparr>w_db := w_db w\<rparr>))
       (\<lambda>_. wp body (\<lambda>e w'. E e (w'\<lparr>w_db := w_db w\<rparr>))
          (\<lambda>a. wp (db_query (\<lambda>d. Inr ())) (\<lambda>e w'. E e (w'\<lparr>w_db := w_db w\<rparr>)) (\<lambda>_. Q a))) w"
proof -
  let ?m = "bindM (db_query (\<lambda>d. Inr ())) (\<lambda>_. bindM body (\<lambda>a.
              bindM (db_query (\<lambda>d. Inr ())) (\<lambda>_. returnM a)))"
  have "wp (transaction body) E Q w = wp ?m (\<lambda>e w'. E e (w'\<lparr>w_db := w_db w\<rparr>)) Q w"
    by (simp add: wp_def transaction_def split: prod.splits sum.splits)
  then show ?thesis by (simp only: wp_bindM wp_returnM)
qed

text \<open>
  Introduction rules that hide which statement meets a fault: a statement fails, with a
  fault or its own error, and leaves the tables alone, or has its effect.
\<close>

lemma wp_db_run_I [wp_intros]:
  assumes "\<And>e w'. w_db w' = w_db w \<Longrightarrow> w_ext w' = w_ext w \<Longrightarrow> e = Fault \<or> u (w_db w) = Inl e \<Longrightarrow> E e w'"
    and "\<And>a d w'. u (w_db w) = Inr (a, d) \<Longrightarrow> w_db w' = d \<Longrightarrow> w_ext w' = w_ext w \<Longrightarrow> Q a w'"
  shows "wp (db_run u) E Q w"
  using assms by (auto simp: wp_db_run split: sum.splits prod.splits)

lemma wp_db_query_I [wp_intros]:
  assumes "\<And>e w'. w_db w' = w_db w \<Longrightarrow> w_ext w' = w_ext w \<Longrightarrow> e = Fault \<or> q (w_db w) = Inl e \<Longrightarrow> E e w'"
    and "\<And>a w'. q (w_db w) = Inr a \<Longrightarrow> w_db w' = w_db w \<Longrightarrow> w_ext w' = w_ext w \<Longrightarrow> Q a w'"
  shows "wp (db_query q) E Q w"
  using assms by (auto simp: wp_db_query split: sum.splits)

lemma wp_db_exec_I [wp_intros]:
  assumes "\<And>e w'. w_db w' = w_db w \<Longrightarrow> w_ext w' = w_ext w \<Longrightarrow> e = Fault \<or> u (w_db w) = Inl e \<Longrightarrow> E e w'"
    and "\<And>d w'. u (w_db w) = Inr d \<Longrightarrow> w_db w' = d \<Longrightarrow> w_ext w' = w_ext w \<Longrightarrow> Q () w'"
  shows "wp (db_exec u) E Q w"
  using assms by (auto simp: wp_db_exec split: sum.splits)

lemma wp_time_now_I [wp_intros]:
  assumes "\<And>t w'. w_db w' = w_db w \<Longrightarrow> w_ext w' = w_ext w \<Longrightarrow> Q t w'"
  shows "wp time_now E Q w"
  using assms by (auto simp: wp_time_now split: list.splits)

lemma wp_call_I [wp_intros]:
  assumes "\<And>e m w'. f (w_ext w) = (Inl e, m) \<Longrightarrow> w_db w' = w_db w \<Longrightarrow> w_ext w' = m \<Longrightarrow> E e w'"
    and "\<And>a m w'. f (w_ext w) = (Inr a, m) \<Longrightarrow> w_db w' = w_db w \<Longrightarrow> w_ext w' = m \<Longrightarrow> Q a w'"
  shows "wp (call f) E Q w"
  using assms by (auto simp: wp_call split: prod.splits sum.splits)

lemma wp_transaction_I [wp_intros]:
  assumes "\<And>w'. w_db w' = w_db w \<Longrightarrow> w_ext w' = w_ext w \<Longrightarrow> E Fault w'"
    and "\<And>s. w_db s = w_db w \<Longrightarrow> w_ext s = w_ext w \<Longrightarrow>
      wp body (\<lambda>e w'. E e (w'\<lparr>w_db := w_db w\<rparr>))
        (\<lambda>a w'. \<forall>w''. w_db w'' = w_db w' \<longrightarrow> w_ext w'' = w_ext w' \<longrightarrow>
           E Fault (w''\<lparr>w_db := w_db w\<rparr>) \<and> Q a w'') s"
  shows "wp (transaction body) E Q w"
  unfolding wp_transaction using assms(1)
  by (intro wp_intros) (auto intro!: wp_mono [OF assms(2)] wp_intros)

text \<open>A predicate of the tables, as a predicate of the world.\<close>

definition onDB :: "(db \<Rightarrow> bool) \<Rightarrow> 'm world \<Rightarrow> bool" where
  "onDB J w = J (w_db w)"

lemma onDB_iff [simp]: "onDB J w = J (w_db w)"
  by (simp add: onDB_def)

lemma stable_db_query [stable_intros]: "stable (onDB J) (db_query q)"
  by (simp add: stable_wp wp_db_query split: sum.splits)

lemma stable_db_exec [stable_intros]:
  "(\<And>d d'. J d \<Longrightarrow> u d = Inr d' \<Longrightarrow> J d') \<Longrightarrow> stable (onDB J) (db_exec u)"
  by (simp add: stable_wp wp_db_exec split: sum.splits)

lemma stable_db_run [stable_intros]:
  "(\<And>d a d'. J d \<Longrightarrow> u d = Inr (a, d') \<Longrightarrow> J d') \<Longrightarrow> stable (onDB J) (db_run u)"
  by (auto simp: stable_wp wp_db_run split: sum.splits)

lemma stable_time_now [stable_intros]: "stable (onDB J) time_now"
  by (simp add: stable_wp wp_time_now split: list.splits)

lemma stable_call [stable_intros]: "stable (onDB J) (call f)"
  by (simp add: stable_wp wp_call split: prod.splits sum.splits)

text \<open>Inside a transaction the predicate may fail; it has to hold again at the commit.\<close>

lemma stable_transaction:
  assumes "\<And>w. J (w_db w) \<Longrightarrow> wp body (\<lambda>_ _. True) (\<lambda>_ w'. J (w_db w')) w"
  shows "stable (onDB J) (transaction body)"
proof (unfold stable_wp, intro allI impI)
  fix w :: "'a world"
  assume "onDB J w"
  then have J: "J (w_db w)" by simp
  have "wp (db_query (\<lambda>d. Inr ())) (\<lambda>e w'. True) (\<lambda>_. onDB J) w'" if "J (w_db w')" for w'
    using that by (simp add: wp_db_query)
  moreover have "wp body (\<lambda>_ _. True) (\<lambda>_ w'. J (w_db w')) (pop_fault w)"
    using J by (intro assms) simp
  ultimately have "wp body (\<lambda>e w'. True)
      (\<lambda>a. wp (db_query (\<lambda>d. Inr ())) (\<lambda>e w'. True) (\<lambda>_. onDB J)) (pop_fault w)"
    by (blast intro: wp_mono)
  then show "wp (transaction body) (\<lambda>_. onDB J) (\<lambda>_. onDB J) w"
    using J by (simp add: wp_transaction wp_db_query)
qed

end
