(* ===== verification/RuleCheck.thy ===== *)
theory RuleCheck
  imports Store "HOL-Library.Multiset"
begin

text \<open>
  The pure part of \<open>internal/rules/service.go\<close>: normalisation of patterns and addresses, the
  validation of a complete rule list (which also rewrites the rules to their normal form) and
  the generation of the snapshot that is sent to mosdns. The lemmas say what an accepted list
  looks like, that validation is idempotent, and that a snapshot holds exactly the enabled
  rules, in order.
\<close>

text \<open>The JSON encoding of a snapshot is a parameter: only equality of checksums matters.\<close>

record rlib = golib +
  lib_Marshal :: "Snapshot \<Rightarrow> string"

section \<open>Patterns and addresses\<close>

definition normalize :: "rlib \<Rightarrow> string \<Rightarrow> string \<Rightarrow> error + string" where
  "normalize L pattern matchType =
     (let p = TrimSpace pattern in
      if matchType = ''regexp'' then
        (if p = '''' then Inl (Msg ''regexp is empty'') else Inr p)
      else if matchType \<noteq> ''full'' \<and> matchType \<noteq> ''domain'' then Inl (Msg ''invalid match type'')
      else
        (let p = TrimSuffix (ToLower L p) ''.'' in
         if p = '''' \<or> Contains p ''*'' then Inl (Msg ''invalid domain pattern'')
         else
           (case lib_ToASCII L p of
              Inl e \<Rightarrow> Inl e
            | Inr ascii \<Rightarrow>
                (if 253 < length ascii \<or> \<not> ValidString ascii then Inl (Msg ''invalid domain length'')
                 else if list_ex (\<lambda>l. l = '''' \<or> 63 < length l) (Split CHR ''.'' ascii)
                   then Inl (Msg ''invalid domain label'')
                 else Inr (ToLower L ascii)))))"

fun normalizeIPs_loop :: "rlib \<Rightarrow> bool \<Rightarrow> string list \<Rightarrow> string list \<Rightarrow> error + string list" where
  "normalizeIPs_loop L want4 out [] = Inr out"
| "normalizeIPs_loop L want4 out (value # vs) =
     (let err = Inl (Msg ((if want4 then ''invalid IPv4 address '' else ''invalid IPv6 address '')
                            @ lib_Quote L value)) in
      case lib_ParseAddr L (TrimSpace value) of
        None \<Rightarrow> err
      | Some (is4, n) \<Rightarrow>
          (if is4 \<noteq> want4 then err
           else if n \<in> set out then normalizeIPs_loop L want4 out vs
           else normalizeIPs_loop L want4 (out @ [n]) vs))"

definition normalizeIPs :: "rlib \<Rightarrow> string list \<Rightarrow> bool \<Rightarrow> error + string list" where
  "normalizeIPs L values want4 =
     (if 16 < length values then Inl (Msg ''address family exceeds 16 entries'')
      else (case normalizeIPs_loop L want4 [] values of Inl e \<Rightarrow> Inl e | Inr out \<Rightarrow> Inr (sort out)))"

section \<open>Validation of the rule list\<close>

definition validAction :: "string \<Rightarrow> string \<Rightarrow> bool" where
  "validAction category action =
     ((category = ''access'' \<and> (action = ''allow'' \<or> action = ''block''))
      \<or> (category = ''route'' \<and> action = ''upstream'')
      \<or> (category = ''logging'' \<and> action = ''no_log'')
      \<or> (category = ''answer'' \<and> action = ''static''))"

definition isSubscriptionRule :: "Rule \<Rightarrow> bool" where
  "isSubscriptionRule r = HasPrefix (r_Source r) ''subscription:''"

definition hasRouteRules :: "Rule list \<Rightarrow> bool" where
  "hasRouteRules rules = list_ex (\<lambda>r. r_Category r = ''route'') rules"

text \<open>The body of the loop of \<open>validateRules\<close>, up to the check for duplicates.\<close>

definition check_group :: "Rule \<Rightarrow> error + Rule" where
  "check_group r =
     (if r_Category r = ''route'' then
        (let g = TrimSpace (r_UpstreamGroupID r) in
         if g = '''' then Inl (Msg ''route rules require upstream_group_id'')
         else Inr (r\<lparr>r_UpstreamGroupID := g\<rparr>))
      else if TrimSpace (r_UpstreamGroupID r) \<noteq> '''' then
        Inl (Msg ''only route rules may include upstream_group_id'')
      else Inr r)"

definition check_answer :: "rlib \<Rightarrow> Rule \<Rightarrow> error + Rule" where
  "check_answer L r =
     (if r_Category r = ''answer'' then
        (if r_TTL r < 1 \<or> 86400 < r_TTL r then Inl (Msg ''ttl must be between 1 and 86400'')
         else (case normalizeIPs L (r_IPv4Addresses r) True of
                 Inl e \<Rightarrow> Inl e
               | Inr v4 \<Rightarrow>
                   (case normalizeIPs L (r_IPv6Addresses r) False of
                      Inl e \<Rightarrow> Inl e
                    | Inr v6 \<Rightarrow>
                        (if length v4 + length v6 = 0
                         then Inl (Msg ''static answer requires at least one address'')
                         else Inr (r\<lparr>r_IPv4Addresses := v4, r_IPv6Addresses := v6\<rparr>)))))
      else if r_IPv4Addresses r \<noteq> [] \<or> r_IPv6Addresses r \<noteq> [] \<or> r_TTL r \<noteq> 0 then
        Inl (Msg ''address fields are only valid for answer rules'')
      else Inr r)"

definition check_pattern :: "rlib \<Rightarrow> Rule \<Rightarrow> error + Rule" where
  "check_pattern L r =
     (case normalize L (r_Pattern r) (r_MatchType r) of
        Inl e \<Rightarrow> Inl e
      | Inr n \<Rightarrow>
          (if r_MatchType r = ''regexp'' then
             (if 512 < length n then Inl (Msg ''regexp exceeds 512 bytes'')
              else (case lib_Compile L n of Some e \<Rightarrow> Inl e | None \<Rightarrow> Inr (r\<lparr>r_Pattern := n\<rparr>)))
           else Inr (r\<lparr>r_Pattern := n\<rparr>)))"

definition check_rule :: "rlib \<Rightarrow> Rule \<Rightarrow> error + Rule" where
  "check_rule L r =
     (if r_Priority r < 0 \<or> 1000 < r_Priority r then Inl (Msg ''priority must be between 0 and 1000'')
      else if 500 < RuneCount (r_Comment r) then Inl (Msg ''comment exceeds 500 characters'')
      else if \<not> validAction (r_Category r) (r_Action r) then Inl (Msg ''invalid category/action'')
      else (case check_group r of
              Inl e \<Rightarrow> Inl e
            | Inr r \<Rightarrow>
                (case check_answer L r of
                   Inl e \<Rightarrow> Inl e
                 | Inr r \<Rightarrow> check_pattern L r)))"

definition rule_key :: "Rule \<Rightarrow> string" where
  "rule_key r = r_Category r @ [CHR 0x00] @ r_MatchType r @ [CHR 0x00] @ r_Pattern r"

fun validate_loop :: "rlib \<Rightarrow> string list \<Rightarrow> nat \<Rightarrow> Rule list \<Rightarrow> error + Rule list" where
  "validate_loop L seen regexps [] =
     (if 500 < regexps then Inl (Msg ''regexp rule limit exceeded'') else Inr [])"
| "validate_loop L seen regexps (r # rs) =
     (case check_rule L r of
        Inl e \<Rightarrow> Inl e
      | Inr r' \<Rightarrow>
          (let regexps = (if r_MatchType r' = ''regexp'' then regexps + 1 else regexps); key = rule_key r' in
           if key \<in> set seen then Inl (Msg ''duplicate rule pattern in category'')
           else (case validate_loop L (key # seen) regexps rs of
                   Inl e \<Rightarrow> Inl e
                 | Inr rs' \<Rightarrow> Inr (r' # rs'))))"

definition validateRules :: "rlib \<Rightarrow> Rule list \<Rightarrow> error + Rule list" where
  "validateRules L rules =
     (if 200000 < length rules then Inl (Msg ''rule limit exceeded'')
      else validate_loop L [] 0 rules)"

section \<open>Snapshots\<close>

definition toWire :: "Rule \<Rightarrow> WireRule" where
  "toWire r = \<lparr>w_ID = r_ID r, w_Category = r_Category r, w_Action = r_Action r,
     w_UpstreamGroupID = r_UpstreamGroupID r, w_MatchType = r_MatchType r, w_Pattern = r_Pattern r,
     w_Priority = r_Priority r, w_Source = r_Source r, w_Comment = r_Comment r,
     w_IPv4Addresses = r_IPv4Addresses r, w_IPv6Addresses = r_IPv6Addresses r, w_TTL = r_TTL r\<rparr>"

text \<open>The order of \<open>sort.Slice\<close>: category, priority, match type, pattern, then the unique id.\<close>

definition wire_key :: "WireRule \<Rightarrow> string \<times> int \<times> string \<times> string \<times> int" where
  "wire_key w = (w_Category w, w_Priority w, w_MatchType w, w_Pattern w, w_ID w)"

definition snapshotChecksum :: "rlib \<Rightarrow> Snapshot \<Rightarrow> string" where
  "snapshotChecksum L s = ''sha256:'' @ lib_Sum L (lib_Marshal L (s\<lparr>sn_Checksum := ''''\<rparr>))"

definition buildSnapshot ::
  "rlib \<Rightarrow> int \<Rightarrow> nat \<Rightarrow> nat \<Rightarrow> Rule list \<Rightarrow> SubscriptionSet list \<Rightarrow> Snapshot" where
  "buildSnapshot L now version current rules sets =
     (let wire = sort_key wire_key (map toWire (filter r_Enabled rules));
          snap = \<lparr>sn_SchemaVersion = 5, sn_Version = version, sn_ExpectedCurrentVersion = current,
                  sn_GeneratedAt = now, sn_Checksum = '''', sn_BlockRCode = 3, sn_Rules = wire,
                  sn_SubscriptionSets = sets\<rparr>
      in snap\<lparr>sn_Checksum := snapshotChecksum L snap\<rparr>)"

definition snapshotRuleCount :: "Snapshot \<Rightarrow> nat" where
  "snapshotRuleCount s =
     length (sn_Rules s) + sum_list (map (\<lambda>set. length (ss_Domains set)) (sn_SubscriptionSets s))"

definition regexpCount :: "WireRule list \<Rightarrow> nat" where
  "regexpCount rs = length (filter (\<lambda>r. w_MatchType r = ''regexp'') rs)"

definition subscriptionSetsEqual :: "SubscriptionSet list \<Rightarrow> SubscriptionSet list \<Rightarrow> bool" where
  "subscriptionSetsEqual a b = (if length a = 0 \<and> length b = 0 then True else a = b)"

definition nullableGroupID :: "Rule \<Rightarrow> string option" where
  "nullableGroupID r = (if r_Category r \<noteq> ''route'' then None else Some (r_UpstreamGroupID r))"

definition nullableVersion :: "nat \<Rightarrow> nat option" where
  "nullableVersion v = (if v = 0 then None else Some v)"

definition nullableAdminID :: "int \<Rightarrow> int option" where
  "nullableAdminID i = (if i = 0 then None else Some i)"

section \<open>What an accepted rule looks like\<close>

definition addresses_wf :: "rlib \<Rightarrow> bool \<Rightarrow> string list \<Rightarrow> bool" where
  "addresses_wf L want4 ns =
     (length ns \<le> 16 \<and> sorted ns \<and> distinct ns \<and> (\<forall>n \<in> set ns. \<exists>s. TrimSpace s = s \<and> lib_ParseAddr L s = Some (want4, n)))"

definition rule_wf :: "rlib \<Rightarrow> Rule \<Rightarrow> bool" where
  "rule_wf L r =
     (0 \<le> r_Priority r \<and> r_Priority r \<le> 1000 \<and> RuneCount (r_Comment r) \<le> 500
      \<and> validAction (r_Category r) (r_Action r)
      \<and> (if r_Category r = ''route''
         then r_UpstreamGroupID r \<noteq> '''' \<and> TrimSpace (r_UpstreamGroupID r) = r_UpstreamGroupID r
         else TrimSpace (r_UpstreamGroupID r) = '''')
      \<and> (if r_Category r = ''answer''
         then 1 \<le> r_TTL r \<and> r_TTL r \<le> 86400 \<and> r_IPv4Addresses r @ r_IPv6Addresses r \<noteq> []
              \<and> addresses_wf L True (r_IPv4Addresses r) \<and> addresses_wf L False (r_IPv6Addresses r)
         else r_TTL r = 0 \<and> r_IPv4Addresses r = [] \<and> r_IPv6Addresses r = [])
      \<and> r_MatchType r \<in> {''full'', ''domain'', ''regexp''}
      \<and> (\<exists>p. normalize L p (r_MatchType r) = Inr (r_Pattern r))
      \<and> (r_MatchType r = ''regexp'' \<longrightarrow> length (r_Pattern r) \<le> 512 \<and> lib_Compile L (r_Pattern r) = None))"

text \<open>The columns that validation never rewrites: a rule with the other four blanked.\<close>

definition rule_core :: "Rule \<Rightarrow> Rule" where
  "rule_core r = r\<lparr>r_UpstreamGroupID := [], r_Pattern := [], r_IPv4Addresses := [], r_IPv6Addresses := []\<rparr>"

definition same_rule :: "Rule \<Rightarrow> Rule \<Rightarrow> bool" where
  "same_rule r r' = (rule_core r' = rule_core r)"

lemma rule_core_sel [simp]:
  "r_ID (rule_core r) = r_ID r" "r_Category (rule_core r) = r_Category r"
  "r_Action (rule_core r) = r_Action r" "r_MatchType (rule_core r) = r_MatchType r"
  "r_Priority (rule_core r) = r_Priority r" "r_Source (rule_core r) = r_Source r"
  "r_Comment (rule_core r) = r_Comment r" "r_Enabled (rule_core r) = r_Enabled r"
  "r_CreatedAtMS (rule_core r) = r_CreatedAtMS r" "r_UpdatedAtMS (rule_core r) = r_UpdatedAtMS r"
  "r_TTL (rule_core r) = r_TTL r"
  "r_ExpectedUpstreamRegistryVersion (rule_core r) = r_ExpectedUpstreamRegistryVersion r"
  by (simp_all add: rule_core_def)

lemma rule_core_upd [simp]:
  "rule_core (r\<lparr>r_UpstreamGroupID := g\<rparr>) = rule_core r" "rule_core (r\<lparr>r_Pattern := p\<rparr>) = rule_core r"
  "rule_core (r\<lparr>r_IPv4Addresses := v\<rparr>) = rule_core r" "rule_core (r\<lparr>r_IPv6Addresses := v\<rparr>) = rule_core r"
  by (simp_all add: rule_core_def)

lemma same_rule_sel:
  assumes "same_rule r r'"
  shows "r_ID r' = r_ID r" "r_Category r' = r_Category r" "r_Action r' = r_Action r"
    "r_MatchType r' = r_MatchType r" "r_Priority r' = r_Priority r" "r_Source r' = r_Source r"
    "r_Comment r' = r_Comment r" "r_Enabled r' = r_Enabled r" "r_CreatedAtMS r' = r_CreatedAtMS r"
    "r_UpdatedAtMS r' = r_UpdatedAtMS r" "r_TTL r' = r_TTL r"
    "r_ExpectedUpstreamRegistryVersion r' = r_ExpectedUpstreamRegistryVersion r"
  using assms unfolding same_rule_def by (metis rule_core_sel)+

lemma same_rule_refl [simp]: "same_rule r r"
  by (simp add: same_rule_def)

lemma same_rule_trans: "same_rule r s \<Longrightarrow> same_rule s t \<Longrightarrow> same_rule r t"
  by (simp add: same_rule_def)

lemma normalize_matchType:
  "normalize L p mt = Inr n \<Longrightarrow> mt \<in> {''full'', ''domain'', ''regexp''}"
  by (auto simp: normalize_def Let_def split: if_splits)

lemma normalizeIPs_loop_sound:
  "normalizeIPs_loop L w out vs = Inr ns \<Longrightarrow> distinct out \<Longrightarrow>
     distinct ns \<and> length ns \<le> length out + length vs
     \<and> (\<forall>n \<in> set ns. n \<in> set out \<or> (\<exists>s. TrimSpace s = s \<and> lib_ParseAddr L s = Some (w, n)))"
proof (induction L w out vs rule: normalizeIPs_loop.induct)
  case (1 L w out)
  then show ?case by simp
next
  case (2 L w out v vs)
  then obtain n where P: "lib_ParseAddr L (TrimSpace v) = Some (w, n)"
    by (auto simp: Let_def split: option.splits prod.splits if_splits)
  with 2 show ?case by (cases "n \<in> set out") fastforce+
qed

lemma normalizeIPs_sound: "normalizeIPs L vs w = Inr ns \<Longrightarrow> addresses_wf L w ns"
  using normalizeIPs_loop_sound [of L w "[]" vs]
  by (auto simp: normalizeIPs_def addresses_wf_def split: if_splits sum.splits)

lemma check_group_sound:
  "check_group r = Inr r' \<Longrightarrow> same_rule r r' \<and>
     (if r_Category r' = ''route''
      then r_UpstreamGroupID r' \<noteq> '''' \<and> TrimSpace (r_UpstreamGroupID r') = r_UpstreamGroupID r'
      else TrimSpace (r_UpstreamGroupID r') = '''')
     \<and> r_Pattern r' = r_Pattern r \<and> r_IPv4Addresses r' = r_IPv4Addresses r
     \<and> r_IPv6Addresses r' = r_IPv6Addresses r"
  by (auto simp: check_group_def same_rule_def Let_def split: if_splits)

lemma check_answer_sound:
  "check_answer L r = Inr r' \<Longrightarrow> same_rule r r' \<and>
     (if r_Category r' = ''answer''
      then 1 \<le> r_TTL r' \<and> r_TTL r' \<le> 86400 \<and> r_IPv4Addresses r' @ r_IPv6Addresses r' \<noteq> []
           \<and> addresses_wf L True (r_IPv4Addresses r') \<and> addresses_wf L False (r_IPv6Addresses r')
      else r_TTL r' = 0 \<and> r_IPv4Addresses r' = [] \<and> r_IPv6Addresses r' = [])
     \<and> r_Pattern r' = r_Pattern r \<and> r_UpstreamGroupID r' = r_UpstreamGroupID r"
  by (auto simp: check_answer_def same_rule_def normalizeIPs_sound split: if_splits sum.splits)

lemma check_pattern_sound:
  "check_pattern L r = Inr r' \<Longrightarrow> \<exists>n. r' = r\<lparr>r_Pattern := n\<rparr> \<and> normalize L (r_Pattern r) (r_MatchType r) = Inr n
     \<and> (r_MatchType r = ''regexp'' \<longrightarrow> length n \<le> 512 \<and> lib_Compile L n = None)"
  by (auto simp: check_pattern_def split: if_splits sum.splits option.splits)

lemma check_rule_sound:
  assumes "check_rule L r = Inr r'"
  shows "same_rule r r' \<and> rule_wf L r'"
proof -
  obtain r1 r2 where 1: "check_group r = Inr r1" and 2: "check_answer L r1 = Inr r2"
    and 3: "check_pattern L r2 = Inr r'"
    and 4: "0 \<le> r_Priority r" "r_Priority r \<le> 1000" "RuneCount (r_Comment r) \<le> 500"
      "validAction (r_Category r) (r_Action r)"
    using assms by (auto simp: check_rule_def split: if_splits sum.splits)
  note s1 = check_group_sound [OF 1] and s2 = check_answer_sound [OF 2]
  obtain n where n: "r' = r2\<lparr>r_Pattern := n\<rparr>" "normalize L (r_Pattern r2) (r_MatchType r2) = Inr n"
    "r_MatchType r2 = ''regexp'' \<longrightarrow> length n \<le> 512 \<and> lib_Compile L n = None"
    using check_pattern_sound [OF 3] by blast
  have core: "same_rule r r1" "same_rule r1 r2" using s1 s2 by blast+
  note sel = same_rule_sel [OF core(1)] same_rule_sel [OF core(2)]
  have "same_rule r r'" using core n(1) by (simp add: same_rule_def)
  moreover have "rule_wf L r'"
    unfolding rule_wf_def using s1 s2 n 4 sel normalize_matchType [OF n(2)] by (auto split: if_splits)
  ultimately show ?thesis by blast
qed

lemma validate_loop_sound:
  "validate_loop L seen k rules = Inr out \<Longrightarrow>
     list_all2 same_rule rules out \<and> list_all (rule_wf L) out
     \<and> distinct (map rule_key out) \<and> set seen \<inter> rule_key ` set out = {}
     \<and> k + length (filter (\<lambda>r. r_MatchType r = ''regexp'') out) \<le> 500"
proof (induction L seen k rules arbitrary: out rule: validate_loop.induct)
  case (1 L seen k)
  then show ?case by (auto split: if_splits)
next
  case (2 L seen k r rs)
  then obtain r' rs' where r': "check_rule L r = Inr r'" and new: "rule_key r' \<notin> set seen"
    and rs': "validate_loop L (rule_key r' # seen)
        (if r_MatchType r' = ''regexp'' then k + 1 else k) rs = Inr rs'"
    and out: "out = r' # rs'"
    by (auto simp: Let_def split: sum.splits if_splits)
  from "2.IH" [OF r' refl refl new rs'] check_rule_sound [OF r'] new out show ?case
    by (auto split: if_splits)
qed

lemma validateRules_sound:
  assumes "validateRules L rules = Inr out"
  shows "list_all2 same_rule rules out \<and> list_all (rule_wf L) out \<and> distinct (map rule_key out)
     \<and> length out \<le> 200000 \<and> length (filter (\<lambda>r. r_MatchType r = ''regexp'') out) \<le> 500"
proof -
  have v: "validate_loop L [] 0 rules = Inr out" and len: "length rules \<le> 200000"
    using assms by (auto simp: validateRules_def split: if_splits)
  from validate_loop_sound [OF v] have s: "list_all2 same_rule rules out" by blast
  with len have "length out \<le> 200000" by (simp add: list_all2_lengthD)
  with validate_loop_sound [OF v] show ?thesis by simp
qed

section \<open>Keys\<close>

lemma validAction_category:
  "validAction c a \<Longrightarrow> c \<in> {''access'', ''route'', ''logging'', ''answer''}"
  by (auto simp: validAction_def)

lemma sep_inj:
  fixes x :: char
  assumes "x \<notin> set a" and "x \<notin> set b"
  shows "a @ x # u = b @ x # v \<longleftrightarrow> a = b \<and> u = v"
proof
  assume eq: "a @ x # u = b @ x # v"
  then have "Split x (a @ x # u) = Split x (b @ x # v)" by simp
  then have "a = b" by (simp add: Split_append assms)
  with eq show "a = b \<and> u = v" by simp
qed simp

text \<open>The NUL-separated key of an accepted rule determines its three parts.\<close>

lemma rule_key_inj:
  assumes "rule_wf L r" and "rule_wf L s"
  shows "rule_key r = rule_key s \<longleftrightarrow>
     r_Category r = r_Category s \<and> r_MatchType r = r_MatchType s \<and> r_Pattern r = r_Pattern s"
proof -
  have nul: "CHR 0x00 \<notin> set (r_Category x)" "CHR 0x00 \<notin> set (r_MatchType x)" if "rule_wf L x" for x
    using that by (auto simp: rule_wf_def dest!: validAction_category)
  show ?thesis using nul [OF assms(1)] nul [OF assms(2)] by (auto simp: rule_key_def sep_inj)
qed

section \<open>Validation is idempotent\<close>

text \<open>
  What the two parsers document: \<open>idna.Lookup.ToASCII\<close> returns letters, digits, hyphens and
  dots and leaves its own (lower-cased) results alone; the \<open>netip.Addr.String\<close> of an address
  parses back to that address. The address is parsed from a string without blanks at its ends
  (\<open>normalizeIPs\<close> trims its input first), so the text starts with a digit or a colon and ends
  with a digit or with the zone it was given, and has no blanks at its ends either. Nothing is
  asked of strings that end in a blank, which \<open>ParseAddr\<close> accepts as a zone.
\<close>

definition ldh :: "char \<Rightarrow> bool" where
  "ldh c = (let n = (of_char c :: nat) in
     48 \<le> n \<and> n \<le> 57 \<or> 65 \<le> n \<and> n \<le> 90 \<or> 97 \<le> n \<and> n \<le> 122 \<or> n = 45 \<or> n = 46)"

definition lib_ok :: "rlib \<Rightarrow> bool" where
  "lib_ok L =
     ((\<forall>p a. lib_ToASCII L p = Inr a \<longrightarrow>
         list_all ldh a \<and> lib_ToASCII L (map lower_byte a) = Inr (map lower_byte a))
      \<and> (\<forall>s b n. TrimSpace s = s \<longrightarrow> lib_ParseAddr L s = Some (b, n) \<longrightarrow>
           TrimSpace n = n \<and> lib_ParseAddr L n = Some (b, n)))"

lemma ldh_ascii: "list_all ldh a \<Longrightarrow> list_all ascii_byte a"
  by (auto simp: list_all_iff ldh_def ascii_byte_def Let_def)

lemma ldh_lower: "list_all ldh a \<Longrightarrow> list_all ldh (map lower_byte a)"
  by (auto simp: list_all_iff ldh_def lower_byte_def Let_def)

lemma ldh_no_space: "p \<in> set space_runes \<Longrightarrow> list_all ldh a \<Longrightarrow> hd p \<notin> set a \<and> last p \<notin> set a"
  by (auto simp: space_runes_def list_all_iff ldh_def Let_def)

lemma ldh_TrimSpace: "list_all ldh a \<Longrightarrow> TrimSpace a = a"
  by (rule TrimSpace_id) (rule ldh_no_space)

lemma ldh_no_star: "list_all ldh a \<Longrightarrow> \<not> Contains a ''*''"
  by (auto simp: Contains_iff list_all_iff ldh_def Let_def)

lemma ToLower_ascii: "list_all ascii_byte s \<Longrightarrow> ToLower L s = map lower_byte s"
  by (simp add: ToLower_def)

lemma rune_widths_ascii: "\<forall>n \<in> set ns. n < 128 \<Longrightarrow> None \<notin> set (rune_widths ns)"
  by (induction ns rule: rune_widths.induct) auto

lemma ascii_ValidString: "list_all ascii_byte s \<Longrightarrow> ValidString s"
  by (auto simp: ValidString_def ascii_byte_def list_all_iff intro!: rune_widths_ascii)

lemma lower_byte_dot [simp]: "lower_byte c = CHR ''.'' \<longleftrightarrow> c = CHR ''.''"
proof
  assume "lower_byte c = CHR ''.''"
  then have "(of_char (lower_byte c) :: nat) = 46" by simp
  then have "(of_char c :: nat) = 46" by (auto simp: lower_byte_def Let_def split: if_splits)
  then have "char_of (of_char c :: nat) = (char_of (46 :: nat) :: char)" by simp
  moreover have "(char_of (46 :: nat) :: char) = CHR ''.''" by code_simp
  ultimately show "c = CHR ''.''" by simp
qed (simp add: lower_byte_def)

lemma Split_map_lower: "Split CHR ''.'' (map lower_byte a) = map (map lower_byte) (Split CHR ''.'' a)"
  by (induction a) (auto split: list.splits)

lemma Split_snoc_sep: "Split c (s @ [c]) = Split c s @ [[]]"
  by (induction s) (auto split: list.splits)

lemma labels_no_dot_suffix:
  assumes "\<not> list_ex (\<lambda>l. l = [] \<or> 63 < length l) (Split CHR ''.'' a)"
  shows "TrimSuffix a ''.'' = a"
proof -
  have "\<not> HasSuffix a ''.''"
  proof
    assume "HasSuffix a ''.''"
    then obtain t where "rev a = ''.'' @ t" by (auto simp: HasSuffix_def HasPrefix_iff)
    then have "a = rev t @ [CHR ''.'']" by (simp add: rev_swap)
    with Split_snoc_sep [of "CHR ''.''" "rev t"] assms show False by (auto simp: list_ex_iff)
  qed
  then show ?thesis by (simp add: TrimSuffix_def)
qed

lemma normalize_idem:
  assumes ok: "lib_ok L" and n: "normalize L p mt = Inr n"
  shows "normalize L n mt = Inr n"
proof (cases "mt = ''regexp''")
  case True
  with n show ?thesis by (auto simp: normalize_def Let_def split: if_splits)
next
  case False
  with n obtain q a where mt: "mt = ''full'' \<or> mt = ''domain''" and a: "lib_ToASCII L q = Inr a"
    and len: "length a \<le> 253" and lab: "\<not> list_ex (\<lambda>l. l = [] \<or> 63 < length l) (Split CHR ''.'' a)"
    and na: "n = ToLower L a"
    by (auto simp: normalize_def Let_def split: if_splits sum.splits)
  from ok a have ldh: "list_all ldh a" and fixpt: "lib_ToASCII L (map lower_byte a) = Inr (map lower_byte a)"
    unfolding lib_ok_def by blast+
  have nlow: "n = map lower_byte a" using na ToLower_ascii [OF ldh_ascii [OF ldh]] by simp
  have lab2: "\<not> list_ex (\<lambda>l. l = [] \<or> 63 < length l) (Split CHR ''.'' n)"
    using lab by (simp add: nlow Split_map_lower list_ex_iff)
  have "a \<noteq> []" using lab by auto
  note ldh2 = ldh_lower [OF ldh]
  have low: "ToLower L n = n"
    using ToLower_ascii [OF ldh_ascii [OF ldh2]] by (simp add: nlow comp_def)
  show ?thesis
    using mt \<open>a \<noteq> []\<close> len lab2 low fixpt labels_no_dot_suffix [OF lab2] ldh_TrimSpace [OF ldh2]
      ldh_no_star [OF ldh2] ascii_ValidString [OF ldh_ascii [OF ldh2]]
    by (auto simp: normalize_def Let_def nlow)
qed

lemma normalizeIPs_loop_idem:
  "\<forall>n \<in> set vs. lib_ParseAddr L (TrimSpace n) = Some (w, n) \<Longrightarrow> distinct (out @ vs) \<Longrightarrow>
     normalizeIPs_loop L w out vs = Inr (out @ vs)"
  by (induction vs arbitrary: out) auto

lemma normalizeIPs_idem:
  assumes "lib_ok L" and "addresses_wf L w ns"
  shows "normalizeIPs L ns w = Inr ns"
proof -
  have "\<forall>n \<in> set ns. lib_ParseAddr L (TrimSpace n) = Some (w, n)"
    using assms unfolding lib_ok_def addresses_wf_def by metis
  with assms(2) show ?thesis
    by (auto simp: normalizeIPs_def addresses_wf_def normalizeIPs_loop_idem sorted_sort_id)
qed

lemma check_rule_idem:
  assumes "lib_ok L" and "rule_wf L r"
  shows "check_rule L r = Inr r"
proof -
  obtain p where p: "normalize L p (r_MatchType r) = Inr (r_Pattern r)"
    using assms(2) by (auto simp: rule_wf_def)
  have "check_group r = Inr r" using assms(2) by (auto simp: check_group_def rule_wf_def Let_def)
  moreover have "check_answer L r = Inr r"
    using assms by (auto simp: check_answer_def rule_wf_def normalizeIPs_idem split: if_splits)
  moreover have "check_pattern L r = Inr r"
    using assms(2) normalize_idem [OF assms(1) p] by (auto simp: check_pattern_def rule_wf_def)
  ultimately show ?thesis using assms(2) by (simp add: check_rule_def rule_wf_def)
qed

lemma validate_loop_idem:
  assumes "lib_ok L"
  shows "list_all (rule_wf L) rs \<Longrightarrow> distinct (map rule_key rs) \<Longrightarrow> set seen \<inter> rule_key ` set rs = {} \<Longrightarrow>
     k + length (filter (\<lambda>r. r_MatchType r = ''regexp'') rs) \<le> 500 \<Longrightarrow> validate_loop L seen k rs = Inr rs"
proof (induction rs arbitrary: seen k)
  case Nil
  then show ?case by simp
next
  case (Cons r rs)
  then have "validate_loop L (rule_key r # seen) (if r_MatchType r = ''regexp'' then k + 1 else k) rs = Inr rs"
    by (intro Cons.IH) (auto split: if_splits)
  with Cons.prems show ?case by (simp add: Let_def check_rule_idem [OF assms])
qed

lemma validateRules_idem:
  assumes "lib_ok L" and "validateRules L rules = Inr out"
  shows "validateRules L out = Inr out"
  using validateRules_sound [OF assms(2)] validate_loop_idem [OF assms(1), of out "[]" 0]
  by (simp add: validateRules_def)

section \<open>The snapshot holds exactly the enabled rules, in order\<close>

lemma buildSnapshot_sel [simp]:
  "sn_Version (buildSnapshot L now v c rules sets) = v"
  "sn_ExpectedCurrentVersion (buildSnapshot L now v c rules sets) = c"
  "sn_SubscriptionSets (buildSnapshot L now v c rules sets) = sets"
  "sn_Rules (buildSnapshot L now v c rules sets) = sort_key wire_key (map toWire (filter r_Enabled rules))"
  by (simp_all add: buildSnapshot_def Let_def)

lemma snapshotChecksum_self: "sn_Checksum (buildSnapshot L now v c rules sets)
     = snapshotChecksum L (buildSnapshot L now v c rules sets)"
  by (simp add: buildSnapshot_def Let_def snapshotChecksum_def)

lemma mset_buildSnapshot:
  "mset (sn_Rules (buildSnapshot L now v c rules sets)) = image_mset toWire (filter_mset r_Enabled (mset rules))"
  by simp

lemma sorted_buildSnapshot:
  "sorted (map wire_key (sn_Rules (buildSnapshot L now v c rules sets)))"
  by simp

text \<open>
  With distinct ids the key orders the rules strictly, so the result does not depend on the
  sorting algorithm: any sorted rearrangement of the enabled rules is the snapshot's list.
\<close>

lemma inj_on_wire_key:
  assumes "distinct (map r_ID rules)"
  shows "inj_on wire_key (set (map toWire (filter r_Enabled rules)))"
proof (rule inj_onI)
  fix x y
  assume xy: "x \<in> set (map toWire (filter r_Enabled rules))" "y \<in> set (map toWire (filter r_Enabled rules))"
    and k: "wire_key x = wire_key y"
  then obtain r s where "r \<in> set rules" "s \<in> set rules" "x = toWire r" "y = toWire s" by auto
  moreover with k have "r_ID r = r_ID s" by (simp add: wire_key_def toWire_def)
  ultimately show "x = y" using assms by (metis distinct_map inj_onD)
qed

lemma buildSnapshot_unique:
  assumes "distinct (map r_ID rules)"
    and "mset xs = image_mset toWire (filter_mset r_Enabled (mset rules))"
    and "sorted (map wire_key xs)"
  shows "xs = sn_Rules (buildSnapshot L now v c rules sets)"
proof -
  have "mset (map toWire (filter r_Enabled rules)) = mset xs" using assms(2) by simp
  then have "sort_key wire_key (map toWire (filter r_Enabled rules)) = xs"
    using inj_on_wire_key [OF assms(1)] assms(3) by (rule sort_key_inj_key_eq)
  then show ?thesis by simp
qed

end
