(* ===== verification/Strconv.thy ===== *)
theory Strconv
  imports GoStrings
begin

text \<open>
  The functions of package \<open>strconv\<close> that the controller stores numbers and flags with
  (\<open>FormatInt\<close>, \<open>Itoa\<close>, \<open>FormatBool\<close> and their parsers), in base 10 and 64 bits, with the
  round trips. \<open>Atoi\<close> is \<open>ParseInt\<close> on a 64-bit platform, \<open>fmt.Sprint\<close> of an integer is
  \<open>FormatInt\<close>, and \<open>fmt.Sscan\<close> into an \<open>int64\<close> is read as \<open>ParseInt\<close>: the controller only
  scans back what it printed.
\<close>

definition digit_char :: "nat \<Rightarrow> char" where
  "digit_char n = char_of (48 + n)"

definition char_digit :: "char \<Rightarrow> nat option" where
  "char_digit c = (let n = of_char c in if 48 \<le> n \<and> n \<le> 57 then Some (n - 48) else None)"

fun show_nat :: "nat \<Rightarrow> string" where
  "show_nat n = (if n < 10 then [digit_char n] else show_nat (n div 10) @ [digit_char (n mod 10)])"

declare show_nat.simps [simp del]

fun parse_digits :: "nat \<Rightarrow> string \<Rightarrow> nat option" where
  "parse_digits acc [] = Some acc"
| "parse_digits acc (c # s) =
     (case char_digit c of None \<Rightarrow> None | Some d \<Rightarrow> parse_digits (10 * acc + d) s)"

definition FormatInt :: "int \<Rightarrow> string" where
  "FormatInt i = (if i < 0 then CHR ''-'' # show_nat (nat (- i)) else show_nat (nat i))"

definition int64_min :: int where "int64_min = - 9223372036854775808"
definition int64_max :: int where "int64_max = 9223372036854775807"

definition ParseInt :: "string \<Rightarrow> error + int" where
  "ParseInt s =
     (let neg = (take 1 s = ''-'');
          ds = (if take 1 s = ''-'' \<or> take 1 s = ''+'' then drop 1 s else s);
          err = Inl (Msg (''strconv.ParseInt: parsing '' @ s)) in
      if ds = [] then err
      else (case parse_digits 0 ds of
              None \<Rightarrow> err
            | Some n \<Rightarrow>
                (let i = (if neg then - int n else int n) in
                 if int64_min \<le> i \<and> i \<le> int64_max then Inr i else err)))"

definition FormatBool :: "bool \<Rightarrow> string" where
  "FormatBool b = (if b then ''true'' else ''false'')"

definition ParseBool :: "string \<Rightarrow> error + bool" where
  "ParseBool s =
     (if s \<in> set [''1'', ''t'', ''T'', ''TRUE'', ''true'', ''True''] then Inr True
      else if s \<in> set [''0'', ''f'', ''F'', ''FALSE'', ''false'', ''False''] then Inr False
      else Inl (Msg (''strconv.ParseBool: parsing '' @ s)))"

section \<open>Round trips\<close>

lemma of_char_digit: "n < 10 \<Longrightarrow> of_char (digit_char n) = 48 + n"
  by (simp add: digit_char_def)

lemma char_digit_digit_char [simp]: "n < 10 \<Longrightarrow> char_digit (digit_char n) = Some n"
  by (simp add: char_digit_def digit_char_def Let_def)

lemma parse_digits_append:
  "parse_digits acc (s @ t) =
     (case parse_digits acc s of None \<Rightarrow> None | Some a \<Rightarrow> parse_digits a t)"
  by (induction acc s rule: parse_digits.induct) (auto split: option.splits)

lemma parse_show_nat: "parse_digits 0 (show_nat n) = Some n"
proof (induction n rule: show_nat.induct)
  case (1 n)
  show ?case
  proof (cases "n < 10")
    case True
    then show ?thesis by (simp add: show_nat.simps [of n])
  next
    case False
    with 1 have "parse_digits 0 (show_nat (n div 10)) = Some (n div 10)" by simp
    with False show ?thesis by (simp add: show_nat.simps [of n] parse_digits_append)
  qed
qed

lemma show_nat_nonempty [simp]: "show_nat n \<noteq> []"
  by (simp add: show_nat.simps [of n])

lemma show_nat_digits: "c \<in> set (show_nat n) \<Longrightarrow> char_digit c \<noteq> None"
  by (induction n rule: show_nat.induct) (subst (asm) (2) show_nat.simps, auto split: if_splits)

lemma show_nat_no_sign:
  "take 1 (show_nat n) \<noteq> ''-''" "take 1 (show_nat n) \<noteq> ''+''"
proof -
  obtain c s where cs: "show_nat n = c # s" by (cases "show_nat n") auto
  then have "char_digit c \<noteq> None" using show_nat_digits [of c n] by simp
  then show "take 1 (show_nat n) \<noteq> ''-''" "take 1 (show_nat n) \<noteq> ''+''"
    by (auto simp: cs char_digit_def Let_def)
qed

lemma ParseInt_FormatInt [simp]:
  assumes "int64_min \<le> i" and "i \<le> int64_max"
  shows "ParseInt (FormatInt i) = Inr i"
proof (cases "i < 0")
  case True
  with assms show ?thesis
    by (simp add: ParseInt_def FormatInt_def Let_def parse_show_nat)
next
  case False
  with assms show ?thesis
    by (simp add: ParseInt_def FormatInt_def Let_def parse_show_nat show_nat_no_sign
        del: One_nat_def)
qed

lemma ParseBool_FormatBool [simp]: "ParseBool (FormatBool b) = Inr b"
  by (simp add: ParseBool_def FormatBool_def)

lemma FormatInt_colon: "CHR '':'' \<notin> set (FormatInt i)"
proof -
  have "CHR '':'' \<notin> set (show_nat n)" for n
    using show_nat_digits [of "CHR '':''" n] by (auto simp: char_digit_def Let_def)
  then show ?thesis by (simp add: FormatInt_def)
qed

lemma ParseInt_range: "ParseInt s = Inr i \<Longrightarrow> int64_min \<le> i \<and> i \<le> int64_max"
  by (auto simp: ParseInt_def Let_def split: if_splits option.splits)

end
