(* ===== verification/Publish.thy ===== *)
theory Publish
  imports RuleCheck Strconv
begin

text \<open>
  The publication state machine of \<open>internal/rules/service.go\<close>: a candidate version is
  inserted as pending, validated and applied by mosdns, and then made active together with the
  rows of \<open>domain_rules\<close> in one transaction, or marked failed or unknown; \<open>Reconcile\<close> settles
  pending and unknown candidates against the runtime. SQL statements are functions on \<open>db\<close>;
  the calls to mosdns go to an arbitrary client.
\<close>

section \<open>Statements on rule_versions and domain_rules\<close>

text \<open>An \<open>UPDATE\<close> of \<open>rule_versions\<close>; \<open>uq_rule_versions_active\<close> allows one active row.\<close>

definition upd_versions ::
  "(version_row \<Rightarrow> bool) \<Rightarrow> (version_row \<Rightarrow> version_row) \<Rightarrow> db \<Rightarrow> error + db" where
  "upd_versions p f d =
     (let vs = map (\<lambda>v. if p v then f v else v) (d_versions d) in
      if 1 < length (filter (\<lambda>v. vv_status v = Active) vs) then Inl Constraint
      else Inr (d\<lparr>d_versions := vs\<rparr>))"

definition insert_version :: "version_row \<Rightarrow> db \<Rightarrow> error + db" where
  "insert_version row d =
     (if list_ex (\<lambda>v. vv_version v = vv_version row \<or> vv_checksum v = vv_checksum row) (d_versions d)
      then Inl Constraint
      else Inr (d\<lparr>d_versions := d_versions d @ [row]\<rparr>))"

definition first_row :: "('r \<Rightarrow> bool) \<Rightarrow> 'r list \<Rightarrow> error + 'r" where
  "first_row p rows = (case find p rows of None \<Rightarrow> Inl ErrNoRows | Some r \<Rightarrow> Inr r)"

definition select_version :: "nat \<Rightarrow> db \<Rightarrow> error + version_row" where
  "select_version v d = first_row (\<lambda>r. vv_version r = v) (d_versions d)"

definition select_active :: "db \<Rightarrow> error + version_row" where
  "select_active d = first_row (\<lambda>r. vv_status r = Active) (d_versions d)"

definition select_max_version :: "db \<Rightarrow> error + nat" where
  "select_max_version d = Inr (fold max (map vv_version (d_versions d)) 0 + 1)"

definition insert_drule :: "drule_row \<Rightarrow> db \<Rightarrow> error + db" where
  "insert_drule row d =
     (if \<not> drule_check row
         \<or> list_ex (\<lambda>x. r_ID (dr_rule x) = r_ID (dr_rule row) \<or> drule_key x = drule_key row) (d_rules d)
         \<or> \<not> list_ex (\<lambda>v. vv_version v = dr_version row) (d_versions d)
      then Inl Constraint
      else Inr (d\<lparr>d_rules := d_rules d @ [row]\<rparr>))"

definition insert_audit :: "audit_row \<Rightarrow> db \<Rightarrow> error + db" where
  "insert_audit row d = Inr (d\<lparr>d_audit := insert_row row (d_audit d)\<rparr>)"

text \<open>The values stored for a rule, and the rule read back from a row.\<close>

definition drule_of :: "nat \<Rightarrow> string \<Rightarrow> Rule \<Rightarrow> drule_row" where
  "drule_of version normalized r =
     \<lparr>dr_version = version, dr_upstream_group_id = nullableGroupID r, dr_normalized_pattern = normalized,
      dr_rule = r\<lparr>r_UpstreamGroupID := [], r_ExpectedUpstreamRegistryVersion := None\<rparr>\<rparr>"

definition rule_of :: "drule_row \<Rightarrow> Rule" where
  "rule_of d = (dr_rule d)\<lparr>r_UpstreamGroupID := (case dr_upstream_group_id d of None \<Rightarrow> [] | Some g \<Rightarrow> g)\<rparr>"

text \<open>
  \<open>source NOT LIKE 'subscription:%'\<close>: SQLite's \<open>LIKE\<close> ignores the case of ASCII letters.
\<close>

definition sql_like_subscription :: "string \<Rightarrow> bool" where
  "sql_like_subscription s = HasPrefix (map lower_byte s) ''subscription:''"

definition drule_order :: "drule_row \<Rightarrow> string \<times> int \<times> string \<times> string \<times> int" where
  "drule_order d = (r_Category (dr_rule d), r_Priority (dr_rule d), r_MatchType (dr_rule d),
     dr_normalized_pattern d, r_ID (dr_rule d))"

definition select_rules :: "db \<Rightarrow> error + Rule list" where
  "select_rules d = Inr (map rule_of
     (filter (\<lambda>x. \<not> sql_like_subscription (r_Source (dr_rule x))) (sort_key drule_order (d_rules d))))"

definition allRules :: "(error, 'm world, Rule list) prog" where
  "allRules = db_query select_rules"

section \<open>Subscription sets of a snapshot\<close>

type_synonym source_row = "sub_row \<times> binding_row option"

definition source_priority :: "source_row \<Rightarrow> int" where
  "source_priority x = (case snd x of None \<Rightarrow> 100 | Some b \<Rightarrow> bi_priority b)"

text \<open>
  \<open>rule_subscriptions s LEFT JOIN subscription_bindings b\<close>, ordered by
  \<open>COALESCE(b.priority,100),s.id\<close>; \<open>subscription_id\<close> is UNIQUE.
\<close>

definition binding_of :: "db \<Rightarrow> int \<Rightarrow> binding_row option" where
  "binding_of d sid = find (\<lambda>b. bi_subscription_id b = sid) (d_bindings d)"

definition select_sources :: "db \<Rightarrow> error + source_row list" where
  "select_sources d = Inr (sort_key (\<lambda>x. (source_priority x, su_id (fst x)))
     (map (\<lambda>s. (s, binding_of d (su_id s))) (d_subs d)))"

fun sets_loop :: "source_row list \<Rightarrow> error + SubscriptionSet list" where
  "sets_loop [] = Inr []"
| "sets_loop ((s, b) # rest) =
     (if \<not> su_enabled s then sets_loop rest
      else if su_category s = ''route'' \<and> b = None then Inl (Msg ''route subscription has no binding'')
      else if length (su_domains s) = 0 then sets_loop rest
      else
        (let set = \<lparr>ss_SourceID = su_id s, ss_SourceName = su_name s, ss_Category = su_category s,
                    ss_Action = su_action s, ss_BindingID = 0, ss_UpstreamGroupID = [],
                    ss_Priority = 100, ss_Domains = sort (su_domains s)\<rparr>;
             set = (case (su_category s = ''route'', b) of
                      (True, Some bd) \<Rightarrow> set\<lparr>ss_BindingID := bi_id bd,
                         ss_UpstreamGroupID := bi_upstream_group_id bd, ss_Priority := bi_priority bd\<rparr>
                    | _ \<Rightarrow> set)
         in case sets_loop rest of Inl e \<Rightarrow> Inl e | Inr sets \<Rightarrow> Inr (set # sets)))"

definition subscriptionSets :: "(error, 'm world, SubscriptionSet list) prog" where
  "subscriptionSets = bindM (db_query select_sources) (\<lambda>sources. liftM (sets_loop sources))"

section \<open>Versions\<close>

record Version =
  v_Version :: nat
  v_Checksum :: string
  v_Status :: "version_status option"
  v_RuleCount :: nat
  v_CreatedAtMS :: int
  v_ErrorCode :: string

definition noVersion :: Version where
  "noVersion = \<lparr>v_Version = 0, v_Checksum = [], v_Status = None, v_RuleCount = 0, v_CreatedAtMS = 0,
     v_ErrorCode = []\<rparr>"

definition activeVersion :: "(error, 'm world, nat) prog" where
  "activeVersion = bindM (attemptM (db_query select_active)) (\<lambda>r.
     case r of
       Inr row \<Rightarrow> returnM (vv_version row)
     | Inl e \<Rightarrow> (if errors_Is e ErrNoRows then returnM 0 else throwM e))"

definition nextVersion :: "(error, 'm world, nat) prog" where
  "nextVersion = db_query select_max_version"

definition fail :: "nat \<Rightarrow> string \<Rightarrow> error \<Rightarrow> (error, 'm world, 'a) prog" where
  "fail version code cause =
     bindM (db_exec (upd_versions (\<lambda>v. vv_version v = version)
        (\<lambda>v. v\<lparr>vv_status := Failed, vv_error_code := Some code, vv_error_message := Some (Error cause)\<rparr>)))
     (\<lambda>_. throwM cause)"

text \<open>The inserts of \<open>finalizeWithRules\<close> run inside its transaction.\<close>

definition finalize_rule :: "rlib \<Rightarrow> nat \<Rightarrow> Rule \<Rightarrow> (error, 'm world, unit) prog" where
  "finalize_rule L version r =
     bindM (liftM (normalize L (r_Pattern r) (r_MatchType r))) (\<lambda>normalized.
     db_exec (insert_drule (drule_of version normalized r)))"

definition finalize_body ::
  "rlib \<Rightarrow> nat \<Rightarrow> Rule list \<Rightarrow> int \<Rightarrow> string \<Rightarrow> string \<Rightarrow> (error, 'm world, unit) prog" where
  "finalize_body L version rules adminID requestID ip =
     bindM (db_exec (upd_versions (\<lambda>v. vv_status v = Active) (\<lambda>v. v\<lparr>vv_status := Superseded\<rparr>))) (\<lambda>_.
     bindM time_now (\<lambda>now.
     bindM (db_exec (upd_versions (\<lambda>v. vv_version v = version)
        (\<lambda>v. v\<lparr>vv_status := Active, vv_activated_at_ms := Some now, vv_error_code := None,
               vv_error_message := None\<rparr>))) (\<lambda>_.
     bindM (db_exec (\<lambda>d. Inr (d\<lparr>d_rules := []\<rparr>))) (\<lambda>_.
     bindM (db_query (\<lambda>d. Inr ())) (\<lambda>_. \<comment> \<open>PrepareContext\<close>
     bindM (traverseM (finalize_rule L version) rules) (\<lambda>_.
     if adminID \<noteq> 0 then
       bindM time_now (\<lambda>now. db_exec (insert_audit
         \<lparr>au_admin_id = adminID, au_action = ''publish'', au_resource_type = ''rule_version'',
          au_resource_id = [], au_request_id = requestID, au_client_ip = ip, au_result = ''success'',
          au_error_code = [], au_created_at_ms = now\<rparr>))
     else returnM ()))))))"

definition finalizeWithRules ::
  "rlib \<Rightarrow> nat \<Rightarrow> Rule list \<Rightarrow> int \<Rightarrow> string \<Rightarrow> string \<Rightarrow> (error, 'm world, unit) prog" where
  "finalizeWithRules L version rules adminID requestID ip =
     transaction (finalize_body L version rules adminID requestID ip)"

definition finalize :: "rlib \<Rightarrow> nat \<Rightarrow> (error, 'm world, unit) prog" where
  "finalize L version =
     bindM (db_query (select_version version)) (\<lambda>row.
     finalizeWithRules L version (vv_rules row) 0 ''reconcile'' [])"

section \<open>Publication\<close>

text \<open>The groups a list of rules routes to; enabled groups of the registry are struck off.\<close>

definition route_targets :: "Rule list \<Rightarrow> string list" where
  "route_targets rules = map (\<lambda>r. TrimSpace (r_UpstreamGroupID r)) (filter (\<lambda>r. r_Category r = ''route'') rules)"

definition strike_enabled :: "UpstreamGroup list \<Rightarrow> string list \<Rightarrow> string list" where
  "strike_enabled groups targets = fold (\<lambda>g ts. if g_Enabled g then removeAll (g_ID g) ts else ts) groups targets"

definition validateRouteTargets ::
  "'m client \<Rightarrow> Rule list \<Rightarrow> uint64 option \<Rightarrow> (error, 'm world, unit) prog" where
  "validateRouteTargets C rules expected =
     (let targets = route_targets rules in
      if targets = [] then returnM ()
      else bindM (call (c_RegistryStatus C)) (\<lambda>registry.
        if expected \<noteq> None \<and> Some (rg_Version registry) \<noteq> expected then throwM ErrConflict
        else guardM (strike_enabled (elems (rg_Groups registry)) targets = [])
               (Msg ''upstream group must exist and be enabled'')))"

definition persist_rule :: "Rule \<Rightarrow> Rule" where
  "persist_rule r = r\<lparr>r_ExpectedUpstreamRegistryVersion := None\<rparr>"

text \<open>
  The first half of \<open>publish\<close>, up to the insertion of the pending row; the rules returned are
  the validated ones, as \<open>validateRules\<close> rewrites the slice in place.
\<close>

definition publish_prepare ::
  "rlib \<Rightarrow> 'm client \<Rightarrow> Rule list \<Rightarrow> int \<Rightarrow> nat \<Rightarrow>
     (error, 'm world, Rule list \<times> nat \<times> Snapshot \<times> Version) prog" where
  "publish_prepare L C rules adminID rollbackFrom =
     bindM subscriptionSets (\<lambda>sets.
     bindM (liftM (validateRules L rules)) (\<lambda>rules.
     bindM (validateRouteTargets C rules None) (\<lambda>_.
     bindM activeVersion (\<lambda>current.
     bindM nextVersion (\<lambda>version.
     bindM time_now (\<lambda>generated.
     bindM time_now (\<lambda>now.
       let snapshot = buildSnapshot L generated version current rules sets;
           count = snapshotRuleCount snapshot in
       bindM (db_exec (insert_version
         \<lparr>vv_version = version, vv_checksum = sn_Checksum snapshot, vv_status = Pending,
          vv_previous_version = current, vv_rollback_from = nullableVersion rollbackFrom,
          vv_rule_count = count, vv_regexp_rule_count = regexpCount (sn_Rules snapshot),
          vv_snapshot = snapshot, vv_rules = map persist_rule rules, vv_created_by = nullableAdminID adminID,
          vv_error_code = None, vv_error_message = None, vv_created_at_ms = now, vv_activated_at_ms = None\<rparr>)) (\<lambda>_.
       returnM (rules, current, snapshot,
         \<lparr>v_Version = version, v_Checksum = sn_Checksum snapshot, v_Status = Some Pending,
          v_RuleCount = count, v_CreatedAtMS = now, v_ErrorCode = []\<rparr>)))))))))"

text \<open>The outcome of \<open>Apply\<close> is not known: ask the runtime at once.\<close>

definition publish_unknown ::
  "rlib \<Rightarrow> 'm client \<Rightarrow> Rule list \<Rightarrow> nat \<Rightarrow> Snapshot \<Rightarrow> Version \<Rightarrow> error \<Rightarrow> int \<Rightarrow> string \<Rightarrow> string \<Rightarrow>
     (Version \<times> error, 'm world, Version) prog" where
  "publish_unknown L C rules current snapshot v err adminID requestID ip =
     (let version = v_Version v in
      bindM (attemptM (db_exec (upd_versions (\<lambda>r. vv_version r = version)
         (\<lambda>r. r\<lparr>vv_status := Unknown, vv_error_code := Some ''PUBLISH_UNKNOWN''\<rparr>)))) (\<lambda>_.
      let v = v\<lparr>v_Status := Some Unknown\<rparr> in
      bindM (attemptM (call (c_Status C))) (\<lambda>runtime.
      case runtime of
        Inl _ \<Rightarrow> throwM (v, err)
      | Inr st \<Rightarrow>
          (if st_SnapshotVersion st = version \<and> st_Checksum st = sn_Checksum snapshot then
             bindM (mapErr (Pair v) (finalizeWithRules L version rules adminID requestID ip)) (\<lambda>_.
             returnM (v\<lparr>v_Status := Some Active\<rparr>))
           else if st_SnapshotVersion st = current then
             mapErr (Pair v) (fail version ''APPLY_TIMEOUT_NOT_APPLIED''
               (Msg ''mosdns retained previous snapshot''))
           else throwM (v, err)))))"

definition publish_apply ::
  "rlib \<Rightarrow> 'm client \<Rightarrow> Rule list \<Rightarrow> nat \<Rightarrow> Snapshot \<Rightarrow> Version \<Rightarrow> int \<Rightarrow> string \<Rightarrow> string \<Rightarrow>
     (Version \<times> error, 'm world, Version) prog" where
  "publish_apply L C rules current snapshot v adminID requestID ip =
     (let version = v_Version v in
      bindM (attemptM (call (c_Apply C snapshot))) (\<lambda>applied.
      case applied of
        Inl err \<Rightarrow>
          (if errors_Is err ErrUnknown then
             publish_unknown L C rules current snapshot v err adminID requestID ip
           else mapErr (Pair v) (fail version ''APPLY_FAILED'' err))
      | Inr ap \<Rightarrow>
          (if \<not> ap_Applied ap \<or> ap_Version ap \<noteq> version \<or> ap_Checksum ap \<noteq> sn_Checksum snapshot then
             mapErr (Pair v) (fail version ''APPLY_RESPONSE_INVALID'' (Msg ''invalid apply response''))
           else
             bindM (mapErr (Pair v) (finalizeWithRules L version rules adminID requestID ip)) (\<lambda>_.
             returnM (v\<lparr>v_Status := Some Active\<rparr>)))))"

definition publish ::
  "rlib \<Rightarrow> 'm client \<Rightarrow> Rule list \<Rightarrow> int \<Rightarrow> string \<Rightarrow> string \<Rightarrow> nat \<Rightarrow>
     (Version \<times> error, 'm world, Version) prog" where
  "publish L C rules adminID requestID ip rollbackFrom =
     bindM (mapErr (Pair noVersion) (publish_prepare L C rules adminID rollbackFrom))
       (\<lambda>(rules, current, snapshot, v).
     bindM (attemptM (call (c_Validate C snapshot))) (\<lambda>validation.
     case validation of
       Inl err \<Rightarrow> mapErr (Pair v) (fail (v_Version v) ''VALIDATION_FAILED'' err)
     | Inr vr \<Rightarrow>
         (if \<not> vr_Valid vr then
            mapErr (Pair v) (fail (v_Version v) ''VALIDATION_FAILED'' (Msg ''mosdns rejected snapshot''))
          else if vr_Checksum vr \<noteq> sn_Checksum snapshot then
            mapErr (Pair v) (fail (v_Version v) ''CHECKSUM_MISMATCH''
              (Msg ''mosdns returned a different checksum''))
          else publish_apply L C rules current snapshot v adminID requestID ip)))"

section \<open>Reconciliation\<close>

text \<open>A result \<open>(state, err)\<close> with a non-nil error is \<open>Inl (state, err)\<close>.\<close>

definition republish ::
  "rlib \<Rightarrow> 'm client \<Rightarrow> string \<Rightarrow> string \<Rightarrow> (string \<times> error, 'm world, string) prog" where
  "republish L C onListError requestID =
     bindM (mapErr (Pair onListError) allRules) (\<lambda>current.
     bindM (mapErr (\<lambda>(_, e). (''republished'', e)) (publish L C current 0 requestID [] 0)) (\<lambda>_.
     returnM ''republished''))"

definition reconcile_candidate ::
  "rlib \<Rightarrow> 'm client \<Rightarrow> nat \<Rightarrow> (string \<times> error, 'm world, string) prog" where
  "reconcile_candidate L C version =
     bindM (mapErr (Pair ''matched_candidate'') subscriptionSets) (\<lambda>sets.
     bindM (mapErr (Pair ''matched_candidate'') (finalize L version)) (\<lambda>_.
     bindM (mapErr (Pair ''matched_candidate'') (db_query (select_version version))) (\<lambda>candidate.
     if subscriptionSetsEqual (sn_SubscriptionSets (vv_snapshot candidate)) sets
     then returnM ''matched_candidate''
     else republish L C ''matched_candidate'' ''reconcile_candidate_sources'')))"

definition reconcile_active ::
  "rlib \<Rightarrow> 'm client \<Rightarrow> Status \<Rightarrow> (string \<times> error, 'm world, string) prog" where
  "reconcile_active L C runtime =
     bindM (attemptM (db_query select_active)) (\<lambda>r.
     case r of
       Inl err \<Rightarrow>
         (if errors_Is err ErrNoRows \<and> st_SnapshotVersion runtime = 0
          then republish L C '''' ''reconcile_initial''
          else throwM ('''', err))
     | Inr active \<Rightarrow>
         (if vv_version active < st_SnapshotVersion runtime then
            throwM (''degraded'', Msg (''runtime version '' @ show_nat (st_SnapshotVersion runtime)
                                        @ '' is not a known candidate''))
          else if st_SnapshotVersion runtime < vv_version active then republish L C '''' ''reconcile''
          else if st_Checksum runtime \<noteq> vv_checksum active then
            throwM (''degraded'', Msg ''runtime checksum does not match active version'')
          else
            bindM (mapErr (Pair '''') (db_query (select_version (vv_version active)))) (\<lambda>row.
            bindM (mapErr (Pair '''') subscriptionSets) (\<lambda>sets.
            if \<not> subscriptionSetsEqual (sn_SubscriptionSets (vv_snapshot row)) sets
            then republish L C '''' ''reconcile_sources''
            else returnM ''unchanged''))))"

definition select_candidate :: "nat \<Rightarrow> db \<Rightarrow> error + version_row" where
  "select_candidate v d =
     first_row (\<lambda>r. (vv_status r = Pending \<or> vv_status r = Unknown) \<and> vv_version r = v) (d_versions d)"

definition Reconcile :: "rlib \<Rightarrow> 'm client \<Rightarrow> (string \<times> error, 'm world, string) prog" where
  "Reconcile L C =
     bindM (mapErr (Pair '''') (call (c_Status C))) (\<lambda>runtime.
     bindM (attemptM (db_query (select_candidate (st_SnapshotVersion runtime)))) (\<lambda>r.
     case r of
       Inl _ \<Rightarrow> reconcile_active L C runtime
     | Inr row \<Rightarrow>
         (if vv_checksum row = st_Checksum runtime then reconcile_candidate L C (vv_version row)
          else reconcile_active L C runtime)))"

end
