(* ===== verification/PublishSpec.thy ===== *)
theory PublishSpec
  imports Publish
begin

text \<open>
  The contract of publication: what \<open>finalizeWithRules\<close>, \<open>publish\<close> and \<open>Reconcile\<close> do to the
  tables, stated without their intermediate steps.
\<close>

section \<open>Activation\<close>

definition activate :: "nat \<Rightarrow> int \<Rightarrow> version_row \<Rightarrow> version_row" where
  "activate version now r =
     (if vv_version r = version
      then r\<lparr>vv_status := Active, vv_activated_at_ms := Some now, vv_error_code := None, vv_error_message := None\<rparr>
      else if vv_status r = Active then r\<lparr>vv_status := Superseded\<rparr> else r)"

definition rows_for :: "rlib \<Rightarrow> nat \<Rightarrow> Rule list \<Rightarrow> drule_row list \<Rightarrow> bool" where
  "rows_for L version rules rows = list_all2
     (\<lambda>r row. \<exists>n. normalize L (r_Pattern r) (r_MatchType r) = Inr n \<and> row = drule_of version n r) rules rows"

text \<open>What the constraints of \<open>domain_rules\<close> enforce on its rows.\<close>

definition rows_sound :: "drule_row list \<Rightarrow> bool" where
  "rows_sound rows = (distinct (map (\<lambda>x. r_ID (dr_rule x)) rows) \<and> distinct (map drule_key rows)
     \<and> list_all drule_check rows)"

definition activated :: "rlib \<Rightarrow> nat \<Rightarrow> Rule list \<Rightarrow> db \<Rightarrow> db \<Rightarrow> bool" where
  "activated L version rules d d' = (\<exists>now rows audit. rows_for L version rules rows
     \<and> rows_sound rows \<and> d' = d\<lparr>d_versions := map (activate version now) (d_versions d), d_rules := rows,
               d_audit := insert_rows audit (d_audit d)\<rparr>)"

lemma wp_finalize_rules:
  "wp (traverseM (finalize_rule L version) rules) (\<lambda>_ w'. w_ext w' = w_ext w)
     (\<lambda>_ w'. w_ext w' = w_ext w \<and> (\<exists>rows. rows_for L version rules rows
        \<and> (rows_sound (d_rules (w_db w)) \<longrightarrow> rows_sound (d_rules (w_db w) @ rows))
        \<and> w_db w' = (w_db w)\<lparr>d_rules := d_rules (w_db w) @ rows\<rparr>)) w"
proof (induction rules arbitrary: w)
  case Nil
  then show ?case by (simp add: wp_simps rows_for_def)
next
  case (Cons r rules)
  show ?case
  proof (cases "normalize L (r_Pattern r) (r_MatchType r)")
    case (Inl e)
    then show ?thesis by (simp add: finalize_rule_def wp_simps)
  next
    case (Inr n)
    let ?row = "drule_of version n r"
    let ?d = "w_db w"
    show ?thesis
    proof (cases "faulty w \<or> (\<forall>d. insert_drule ?row ?d \<noteq> Inr d)")
      case True
      then show ?thesis using Inr by (auto simp: finalize_rule_def wp_simps split: sum.splits)
    next
      case False
      then have ins: "insert_drule ?row ?d = Inr (?d\<lparr>d_rules := d_rules ?d @ [?row]\<rparr>)"
        by (auto simp: insert_drule_def split: if_splits)
      have sound: "rows_sound (d_rules ?d) \<Longrightarrow> rows_sound (d_rules ?d @ [?row])"
        using False by (auto simp: insert_drule_def rows_sound_def list_ex_iff image_iff split: if_splits)
      let ?w = "(pop_fault w)\<lparr>w_db := ?d\<lparr>d_rules := d_rules ?d @ [?row]\<rparr>\<rparr>"
      have "wp (traverseM (finalize_rule L version) (r # rules)) E Q w
          = wp (traverseM (finalize_rule L version) rules) E Q ?w" for E Q
        using False Inr by (simp add: finalize_rule_def wp_simps ins)
      then show ?thesis
        by (simp only:) (rule wp_mono [OF Cons.IH [of ?w]], auto simp: rows_for_def list_all2_Cons1 Inr sound)
    qed
  qed
qed

lemma wp_finalize_rules_I [wp_intros]:
  assumes "\<And>e w'. w_ext w' = w_ext w \<Longrightarrow> E e w'"
    and "\<And>rows w'. w_ext w' = w_ext w \<Longrightarrow> rows_for L version rules rows \<Longrightarrow>
      (rows_sound (d_rules (w_db w)) \<Longrightarrow> rows_sound (d_rules (w_db w) @ rows)) \<Longrightarrow>
      w_db w' = (w_db w)\<lparr>d_rules := d_rules (w_db w) @ rows\<rparr> \<Longrightarrow> Q () w'"
  shows "wp (traverseM (finalize_rule L version) rules) E Q w"
  using assms by (auto intro: wp_mono [OF wp_finalize_rules])

lemma upd_versions_Inr:
  "upd_versions p f d = Inr d' \<Longrightarrow> d' = d\<lparr>d_versions := map (\<lambda>v. if p v then f v else v) (d_versions d)\<rparr>"
  by (auto simp: upd_versions_def Let_def split: if_splits)

lemma activate_steps:
  "map ((\<lambda>v. if vv_version v = version
            then v\<lparr>vv_status := Active, vv_activated_at_ms := Some now, vv_error_code := None,
                    vv_error_message := None\<rparr> else v)
        \<circ> (\<lambda>v. if vv_status v = Active then v\<lparr>vv_status := Superseded\<rparr> else v)) vs
   = map (activate version now) vs"
  by (auto simp: activate_def)

lemma rows_sound_Nil [simp]: "rows_sound []"
  by (simp add: rows_sound_def)

lemma activatedI:
  assumes "rows_for L version rules rows" and "rows_sound rows"
    and "d' = d\<lparr>d_versions := map (activate version now) (d_versions d), d_rules := rows,
           d_audit := insert_rows audit (d_audit d)\<rparr>"
  shows "activated L version rules d d'"
  using assms unfolding activated_def by blast

lemma activatedI0:
  assumes "rows_for L version rules rows" and "rows_sound rows"
    and "d' = d\<lparr>d_versions := map (activate version now) (d_versions d), d_rules := rows\<rparr>"
  shows "activated L version rules d d'"
  using assms by (intro activatedI [where audit = "[]"]) simp_all

lemma wp_finalizeWithRules [wp_intros]:
  assumes "\<And>e w'. w_db w' = w_db w \<Longrightarrow> w_ext w' = w_ext w \<Longrightarrow> E e w'"
    and "\<And>w'. activated L version rules (w_db w) (w_db w') \<Longrightarrow> w_ext w' = w_ext w \<Longrightarrow> Q () w'"
  shows "wp (finalizeWithRules L version rules adminID requestID ip) E Q w"
  unfolding finalizeWithRules_def finalize_body_def
  by (intro wp_intros)
    (auto dest!: upd_versions_Inr simp: insert_audit_def insert_rows_single activate_steps
      intro!: assms intro: activatedI activatedI0)

section \<open>What the queries return\<close>

definition source_sets :: "db \<Rightarrow> error + SubscriptionSet list" where
  "source_sets d = (case select_sources d of Inl e \<Rightarrow> Inl e | Inr sources \<Rightarrow> sets_loop sources)"

definition next_version :: "db \<Rightarrow> nat" where
  "next_version d = fold max (map vv_version (d_versions d)) 0 + 1"

definition active_of :: "db \<Rightarrow> nat" where
  "active_of d = (case find (\<lambda>r. vv_status r = Active) (d_versions d) of None \<Rightarrow> 0 | Some r \<Rightarrow> vv_version r)"

lemma wp_subscriptionSets [wp_intros]:
  assumes "\<And>e w'. w_db w' = w_db w \<Longrightarrow> w_ext w' = w_ext w \<Longrightarrow> E e w'"
    and "\<And>sets w'. source_sets (w_db w) = Inr sets \<Longrightarrow> w_db w' = w_db w \<Longrightarrow> w_ext w' = w_ext w \<Longrightarrow> Q sets w'"
  shows "wp subscriptionSets E Q w"
  unfolding subscriptionSets_def
  by (intro wp_intros) (auto intro: assms simp: source_sets_def)

lemma wp_activeVersion [wp_intros]:
  assumes "\<And>e w'. w_db w' = w_db w \<Longrightarrow> w_ext w' = w_ext w \<Longrightarrow> E e w'"
    and "\<And>v w'. v = active_of (w_db w) \<Longrightarrow> w_db w' = w_db w \<Longrightarrow> w_ext w' = w_ext w \<Longrightarrow> Q v w'"
  shows "wp activeVersion E Q w"
  unfolding activeVersion_def
  by (intro wp_intros) (auto intro: assms simp: active_of_def select_active_def first_row_def split: option.splits)

lemma wp_nextVersion [wp_intros]:
  assumes "\<And>e w'. w_db w' = w_db w \<Longrightarrow> w_ext w' = w_ext w \<Longrightarrow> E e w'"
    and "\<And>v w'. v = next_version (w_db w) \<Longrightarrow> w_db w' = w_db w \<Longrightarrow> w_ext w' = w_ext w \<Longrightarrow> Q v w'"
  shows "wp nextVersion E Q w"
  unfolding nextVersion_def
  by (intro wp_intros) (auto intro: assms simp: next_version_def select_max_version_def)

lemma wp_allRules [wp_intros]:
  assumes "\<And>e w'. w_db w' = w_db w \<Longrightarrow> w_ext w' = w_ext w \<Longrightarrow> E e w'"
    and "\<And>rules w'. select_rules (w_db w) = Inr rules \<Longrightarrow> w_db w' = w_db w \<Longrightarrow> w_ext w' = w_ext w \<Longrightarrow> Q rules w'"
  shows "wp allRules E Q w"
  unfolding allRules_def
  by (intro wp_intros) (auto intro: assms)

lemma fold_max_ge: "(x :: nat) \<in> set xs \<or> x \<le> a \<Longrightarrow> x \<le> fold max xs a"
  by (induction xs arbitrary: a) (auto simp: max_def)

lemma next_version_gt: "r \<in> set (d_versions d) \<Longrightarrow> vv_version r < next_version d"
  by (simp add: next_version_def less_Suc_eq_le fold_max_ge)

lemma next_version_pos: "0 < next_version d"
  by (simp add: next_version_def)

text \<open>Every target of a route is the id of an enabled group of a registry that mosdns returned.\<close>

definition routes_ok :: "'m client \<Rightarrow> Rule list \<Rightarrow> uint64 option \<Rightarrow> bool" where
  "routes_ok C rules expected =
     (route_targets rules = [] \<or>
      (\<exists>m reg m'. c_RegistryStatus C m = (Inr reg, m') \<and> (expected = None \<or> expected = Some (rg_Version reg))
        \<and> (\<forall>t \<in> set (route_targets rules). \<exists>g \<in> set (elems (rg_Groups reg)). g_ID g = t \<and> g_Enabled g)))"

lemma set_strike_enabled:
  "set (strike_enabled gs ts) = set ts - {g_ID g |g. g \<in> set gs \<and> g_Enabled g}"
  by (induction gs arbitrary: ts) (auto simp: strike_enabled_def)

lemma strike_enabled_Nil:
  "strike_enabled gs ts = [] \<longleftrightarrow> (\<forall>t \<in> set ts. \<exists>g \<in> set gs. g_ID g = t \<and> g_Enabled g)"
proof -
  have "strike_enabled gs ts = [] \<longleftrightarrow> set (strike_enabled gs ts) = {}" by simp
  then show ?thesis unfolding set_strike_enabled by auto
qed

lemma wp_validateRouteTargets [wp_intros]:
  assumes "\<And>e w'. w_db w' = w_db w \<Longrightarrow> E e w'"
    and "\<And>w'. w_db w' = w_db w \<Longrightarrow> routes_ok C rules expected \<Longrightarrow> Q () w'"
  shows "wp (validateRouteTargets C rules expected) E Q w"
proof -
  have "routes_ok C rules expected" if "route_targets rules = []"
    using that by (simp add: routes_ok_def)
  moreover have "routes_ok C rules expected"
    if "c_RegistryStatus C m = (Inr reg, m')" "expected = None \<or> expected = Some (rg_Version reg)"
      "\<forall>t \<in> set (route_targets rules). \<exists>g \<in> set (elems (rg_Groups reg)). g_ID g = t \<and> g_Enabled g"
    for m reg m'
    using that unfolding routes_ok_def by blast
  ultimately show ?thesis
    unfolding validateRouteTargets_def
    by (intro wp_intros) (auto intro: assms simp: strike_enabled_Nil)
qed

section \<open>The candidate row\<close>

definition version_of :: "version_row \<Rightarrow> Version" where
  "version_of r = \<lparr>v_Version = vv_version r, v_Checksum = vv_checksum r, v_Status = Some (vv_status r),
     v_RuleCount = vv_rule_count r, v_CreatedAtMS = vv_created_at_ms r,
     v_ErrorCode = (case vv_error_code r of None \<Rightarrow> [] | Some c \<Rightarrow> c)\<rparr>"

definition candidate :: "rlib \<Rightarrow> Rule list \<Rightarrow> db \<Rightarrow> Rule list \<Rightarrow> version_row \<Rightarrow> bool" where
  "candidate L rules d rs row =
     (validateRules L rules = Inr rs
      \<and> vv_version row = next_version d \<and> vv_previous_version row = active_of d
      \<and> vv_status row = Pending \<and> vv_error_code row = None \<and> vv_error_message row = None
      \<and> vv_rules row = map persist_rule rs
      \<and> (\<exists>sets now. source_sets d = Inr sets
           \<and> vv_snapshot row = buildSnapshot L now (next_version d) (active_of d) rs sets)
      \<and> vv_checksum row = sn_Checksum (vv_snapshot row)
      \<and> vv_rule_count row = snapshotRuleCount (vv_snapshot row)
      \<and> vv_checksum row \<notin> vv_checksum ` set (d_versions d))"

definition staged :: "db \<Rightarrow> version_row \<Rightarrow> db" where
  "staged d row = d\<lparr>d_versions := d_versions d @ [row]\<rparr>"

lemma insert_version_Inr:
  "insert_version row d = Inr d' \<Longrightarrow> d' = staged d row \<and> vv_checksum row \<notin> vv_checksum ` set (d_versions d)"
  by (auto simp: insert_version_def staged_def list_ex_iff split: if_splits)

lemma wp_publish_prepare [wp_intros]:
  assumes "\<And>e w'. w_db w' = w_db w \<Longrightarrow> E e w'"
    and "\<And>rs row w'. candidate L rules (w_db w) rs row \<Longrightarrow> routes_ok C rs None \<Longrightarrow>
      w_db w' = staged (w_db w) row \<Longrightarrow> Q (rs, vv_previous_version row, vv_snapshot row, version_of row) w'"
  shows "wp (publish_prepare L C rules adminID rollbackFrom) E Q w"
proof -
  have Q: "Q (rs, active_of (w_db w), snap, v) w'"
    if "candidate L rules (w_db w) rs row" "routes_ok C rs None" "w_db w' = staged (w_db w) row"
      "snap = vv_snapshot row" "v = version_of row" for rs row w' snap v
    using assms(2) [OF that(1,2,3)] that(1,4,5) by (simp add: candidate_def)
  show ?thesis
    unfolding publish_prepare_def
    by (intro wp_intros) (auto intro: assms(1) intro!: Q dest!: insert_version_Inr simp: candidate_def version_of_def)
qed

section \<open>The contract of publish\<close>

abbreviation restate :: "version_row \<Rightarrow> version_status \<Rightarrow> string option \<Rightarrow> string option \<Rightarrow> version_row" where
  "restate row s c m \<equiv> row\<lparr>vv_status := s, vv_error_code := c, vv_error_message := m\<rparr>"

text \<open>mosdns confirmed that it runs the snapshot of the row, in its reply or in its status.\<close>

definition confirmed :: "'m client \<Rightarrow> version_row \<Rightarrow> bool" where
  "confirmed C row =
     ((\<exists>m ap m'. c_Apply C (vv_snapshot row) m = (Inr ap, m') \<and> ap_Applied ap
         \<and> ap_Version ap = vv_version row \<and> ap_Checksum ap = vv_checksum row)
      \<or> (\<exists>m e m' st m''. c_Apply C (vv_snapshot row) m = (Inl e, m') \<and> errors_Is e ErrUnknown
         \<and> c_Status C m' = (Inr st, m'') \<and> st_SnapshotVersion st = vv_version row
         \<and> st_Checksum st = vv_checksum row))"

text \<open>
  The answers on which a candidate is given up: it did not validate, its application failed
  with a definite error or an answer that does not match, or the runtime kept the old version.
\<close>

definition refused :: "'m client \<Rightarrow> version_row \<Rightarrow> bool" where
  "refused C row =
     ((\<exists>m e m'. c_Validate C (vv_snapshot row) m = (Inl e, m'))
      \<or> (\<exists>m vr m'. c_Validate C (vv_snapshot row) m = (Inr vr, m')
           \<and> (\<not> vr_Valid vr \<or> vr_Checksum vr \<noteq> vv_checksum row))
      \<or> (\<exists>m e m'. c_Apply C (vv_snapshot row) m = (Inl e, m') \<and> \<not> errors_Is e ErrUnknown)
      \<or> (\<exists>m ap m'. c_Apply C (vv_snapshot row) m = (Inr ap, m')
           \<and> (\<not> ap_Applied ap \<or> ap_Version ap \<noteq> vv_version row \<or> ap_Checksum ap \<noteq> vv_checksum row))
      \<or> (\<exists>m e m' st m''. c_Apply C (vv_snapshot row) m = (Inl e, m') \<and> errors_Is e ErrUnknown
           \<and> c_Status C m' = (Inr st, m'') \<and> st_SnapshotVersion st = vv_previous_version row))"

lemma refusedI:
  "c_Validate C (vv_snapshot row) m = (Inl e, m') \<Longrightarrow> refused C row"
  "c_Validate C (vv_snapshot row) m = (Inr vr, m') \<Longrightarrow>
     \<not> vr_Valid vr \<or> vr_Checksum vr \<noteq> vv_checksum row \<Longrightarrow> refused C row"
  "c_Apply C (vv_snapshot row) m = (Inl e, m') \<Longrightarrow> \<not> errors_Is e ErrUnknown \<Longrightarrow> refused C row"
  "c_Apply C (vv_snapshot row) m = (Inr ap, m') \<Longrightarrow>
     \<not> ap_Applied ap \<or> ap_Version ap \<noteq> vv_version row \<or> ap_Checksum ap \<noteq> vv_checksum row \<Longrightarrow> refused C row"
  "c_Apply C (vv_snapshot row) m = (Inl e, m') \<Longrightarrow> errors_Is e ErrUnknown \<Longrightarrow>
     c_Status C m' = (Inr st, m'') \<Longrightarrow> st_SnapshotVersion st = vv_previous_version row \<Longrightarrow> refused C row"
  unfolding refused_def by blast+

definition validated :: "'m client \<Rightarrow> version_row \<Rightarrow> bool" where
  "validated C row = (\<exists>m vr m'. c_Validate C (vv_snapshot row) m = (Inr vr, m') \<and> vr_Valid vr
     \<and> vr_Checksum vr = vv_checksum row)"

definition publish_failed :: "rlib \<Rightarrow> 'm client \<Rightarrow> Rule list \<Rightarrow> db \<Rightarrow> Version \<Rightarrow> error \<Rightarrow> db \<Rightarrow> bool" where
  "publish_failed L C rules d v e d' =
     ((d' = d \<and> v = noVersion)
      \<or> (\<exists>rs row s c m. candidate L rules d rs row \<and> d' = staged d (restate row s c m)
           \<and> (s = Pending \<or> s = Unknown \<or> s = Failed \<and> refused C row)
           \<and> v_Version v = vv_version row
           \<and> (errors_Is e ErrUnknown \<and> s = Failed \<longrightarrow> (\<exists>m m'. c_Validate C (vv_snapshot row) m = (Inl e, m')))))"

definition published :: "rlib \<Rightarrow> 'm client \<Rightarrow> Rule list \<Rightarrow> db \<Rightarrow> Version \<Rightarrow> db \<Rightarrow> bool" where
  "published L C rules d v d' =
     (\<exists>rs row s c m. candidate L rules d rs row \<and> routes_ok C rs None \<and> validated C row \<and> confirmed C row
        \<and> activated L (vv_version row) rs (staged d (restate row s c m)) d'
        \<and> s \<in> {Pending, Unknown} \<and> v = (version_of row)\<lparr>v_Status := Some Active\<rparr>)"

lemma find_snoc: "find p (xs @ [x]) = (case find p xs of None \<Rightarrow> (if p x then Some x else None) | Some y \<Rightarrow> Some y)"
  by (induction xs) auto

lemma candidate_fresh:
  assumes "candidate L rules d rs row" and "x \<in> set (d_versions d)"
  shows "vv_version x \<noteq> vv_version row"
  using assms next_version_gt [of x d] by (auto simp: candidate_def)

lemma upd_staged:
  assumes "candidate L rules d rs row" and "vv_version row' = vv_version row"
    and "upd_versions (\<lambda>r. vv_version r = vv_version row) f (staged d row') = Inr d'"
  shows "d' = staged d (f row')"
proof -
  have "map (\<lambda>r. if vv_version r = vv_version row then f r else r) (d_versions d) = d_versions d"
    using candidate_fresh [OF assms(1)] by (simp add: map_idI)
  with upd_versions_Inr [OF assms(3)] assms(2) show ?thesis by (simp add: staged_def)
qed

lemma upd_versions_Inl: "upd_versions p f d = Inl e \<Longrightarrow> e = Constraint"
  by (simp add: upd_versions_def Let_def split: if_splits)

lemma wp_fail_staged:
  assumes "candidate L rules d rs row" and "vv_version row' = vv_version row" and "w_db w = staged d row'"
    and "n = vv_version row"
    and "\<And>e w'. w_db w' = staged d row' \<Longrightarrow> e = Fault \<or> e = Constraint \<Longrightarrow> E e w'"
    and "\<And>w'. w_db w' = staged d (restate row' Failed (Some code) (Some (Error cause))) \<Longrightarrow> E cause w'"
  shows "wp (fail n code cause) E Q w"
  unfolding fail_def assms(4)
  by (intro wp_intros)
    (auto simp: assms(3) dest: upd_versions_Inl upd_staged [OF assms(1,2)] intro!: assms(5,6))

lemma version_of_sel [simp]:
  "v_Version (version_of row) = vv_version row" "v_Checksum (version_of row) = vv_checksum row"
  by (simp_all add: version_of_def)

lemma publish_failedI:
  assumes "candidate L rules d rs row" and "d' = staged d (restate row s c m)"
    and "s = Pending \<or> s = Unknown \<or> s = Failed \<and> refused C row" and "v_Version v = vv_version row"
    and "errors_Is e ErrUnknown \<Longrightarrow> s = Failed \<Longrightarrow> \<exists>m m'. c_Validate C (vv_snapshot row) m = (Inl e, m')"
  shows "publish_failed L C rules d v e d'"
  using assms unfolding publish_failed_def by blast

lemma publishedI:
  assumes "candidate L rules d rs row" and "routes_ok C rs None" and "validated C row" and "confirmed C row"
    and "activated L (vv_version row) rs (staged d (restate row s c m)) d'"
    and "s = Pending \<or> s = Unknown" and "v = (version_of row)\<lparr>v_Status := Some Active\<rparr>"
  shows "published L C rules d v d'"
  using assms unfolding published_def by blast

lemma candidate_checksum: "candidate L rules d rs row \<Longrightarrow> sn_Checksum (vv_snapshot row) = vv_checksum row"
  by (simp add: candidate_def)

lemma candidate_restate: "candidate L rules d rs row \<Longrightarrow> restate row Pending None None = row"
  by (simp add: candidate_def)

lemma db_errors_definite [simp]: "\<not> errors_Is Fault ErrUnknown" "\<not> errors_Is Constraint ErrUnknown"
  "\<not> errors_Is (Msg t) ErrUnknown"
  by simp_all

lemma wp_publish_unknown:
  fixes w :: "'m world"
  assumes cand: "candidate L rules d rs row" and w: "w_db w = staged d row"
    and ap: "c_Apply C (vv_snapshot row) m = (Inl err, w_ext w)" and un: "errors_Is err ErrUnknown"
    and ro: "routes_ok C rs None" and va: "validated C row"
  shows "wp (publish_unknown L C rs (vv_previous_version row) (vv_snapshot row) (version_of row) err adminID requestID ip)
     (\<lambda>(v, e) w'. publish_failed L C rules d v e (w_db w')) (\<lambda>v w'. published L C rules d v (w_db w')) w"
proof -
  have ck: "sn_Checksum (vv_snapshot row) = vv_checksum row" using cand by (simp add: candidate_def)
  note row0 = candidate_restate [OF cand]
  let ?v = "(version_of row)\<lparr>v_Status := Some Unknown\<rparr>"
  have failed: "publish_failed L C rules d ?v e (staged d (restate row Pending c m))"
    "publish_failed L C rules d ?v e (staged d (restate row Unknown c m))" for e c m
    by (auto intro!: publish_failedI [OF cand])
  have refusedE: "publish_failed L C rules d ?v (Msg t) (staged d (restate row Failed c m))"
    if "c_Status C (w_ext w) = (Inr st, m')" and "st_SnapshotVersion st = vv_previous_version row" for c m t st m'
    using refusedI(5) [OF ap un that] by (auto intro!: publish_failedI [OF cand])
  have settled: "published L C rules d ((version_of row)\<lparr>v_Status := Some Active\<rparr>) (w_db w')"
    if "activated L (vv_version row) rs (staged d (restate row s c m)) (w_db w')" "s = Pending \<or> s = Unknown"
      "c_Status C (w_ext w) = (Inr st, m')" "st_SnapshotVersion st = vv_version row"
      "st_Checksum st = vv_checksum row" for w' s c m st m'
  proof -
    have "confirmed C row" unfolding confirmed_def using that(3-5) ap un by blast
    with that(1,2) cand ro va show ?thesis by (intro publishedI) simp_all
  qed
  have mark: "wp (attemptM (db_exec (upd_versions (\<lambda>r. vv_version r = vv_version row)
         (\<lambda>r. r\<lparr>vv_status := Unknown, vv_error_code := Some ''PUBLISH_UNKNOWN''\<rparr>)))) E Q w"
    if "\<And>r w' s c m. w_db w' = staged d (restate row s c m) \<Longrightarrow> s = Pending \<or> s = Unknown \<Longrightarrow>
      w_ext w' = w_ext w \<Longrightarrow> Q r w'" for E and Q :: "error + unit \<Rightarrow> 'm world \<Rightarrow> bool"
  proof (intro wp_intros)
    fix e and w' :: "'m world" assume "w_db w' = w_db w" "w_ext w' = w_ext w"
    then show "Q (Inl e) w'" using that [of w' None None Pending] by (simp add: row0 w)
  next
    fix d' and w' :: "'m world" assume "upd_versions (\<lambda>r. vv_version r = vv_version row)
         (\<lambda>r. r\<lparr>vv_status := Unknown, vv_error_code := Some ''PUBLISH_UNKNOWN''\<rparr>) (w_db w) = Inr d'"
      "w_db w' = d'" "w_ext w' = w_ext w"
    then show "Q (Inr ()) w'"
      using that [of w' "vv_error_message row" "Some ''PUBLISH_UNKNOWN''" Unknown]
      by (auto simp: w dest: upd_staged [OF cand refl])
  qed
  show ?thesis
    unfolding publish_unknown_def Let_def version_of_sel
    by (rule wp_bindM_I, rule mark)
      (intro wp_intros wp_fail_staged [OF cand], auto simp: ck intro: failed refusedE settled)
qed

lemma publish_failed_pending:
  assumes "candidate L rules d rs row"
  shows "publish_failed L C rules d (version_of row) e (staged d row)"
  by (rule publish_failedI [where s = Pending and c = None and m = None, OF assms])
    (simp_all add: candidate_restate [OF assms])

lemma publish_failed_refused:
  assumes "candidate L rules d rs row" and "refused C row"
    and "\<not> errors_Is e ErrUnknown \<or> (\<exists>mm mm'. c_Validate C (vv_snapshot row) mm = (Inl e, mm'))"
  shows "publish_failed L C rules d (version_of row) e (staged d (restate row Failed c m))"
  using assms by (intro publish_failedI [OF assms(1) refl]) auto

lemma validatedI:
  "c_Validate C (vv_snapshot row) m = (Inr vr, m') \<Longrightarrow> vr_Valid vr \<Longrightarrow> vr_Checksum vr = vv_checksum row \<Longrightarrow>
     validated C row"
  unfolding validated_def by blast

lemma wp_publish_apply:
  assumes cand: "candidate L rules d rs row" and w: "w_db w = staged d row"
    and ro: "routes_ok C rs None" and va: "validated C row"
  shows "wp (publish_apply L C rs (vv_previous_version row) (vv_snapshot row) (version_of row) adminID requestID ip)
     (\<lambda>(v, e) w'. publish_failed L C rules d v e (w_db w')) (\<lambda>v w'. published L C rules d v (w_db w')) w"
proof -
  note row0 = candidate_restate [OF cand]
  have settled: "published L C rules d ((version_of row)\<lparr>v_Status := Some Active\<rparr>) (w_db w')"
    if "activated L (vv_version row) rs (staged d row) (w_db w')"
      "c_Apply C (vv_snapshot row) m = (Inr ap, m')" "ap_Applied ap"
      "ap_Version ap = vv_version row" "ap_Checksum ap = vv_checksum row" for w' m ap m'
  proof -
    have "confirmed C row" unfolding confirmed_def using that(2-5) by blast
    with that(1) cand ro va row0 show ?thesis
      by (intro publishedI [where s = Pending and c = None and m = None]) simp_all
  qed
  show ?thesis
    unfolding publish_apply_def Let_def version_of_sel
    by (intro wp_intros wp_publish_unknown [OF cand _ _ _ ro va] wp_fail_staged [OF cand])
      (auto simp: candidate_checksum [OF cand] w
        intro: settled refusedI intro!: publish_failed_pending [OF cand] publish_failed_refused [OF cand])
qed

theorem publish_spec:
  "wp (publish L C rules adminID requestID ip rollbackFrom)
     (\<lambda>(v, e) w'. publish_failed L C rules (w_db w) v e (w_db w'))
     (\<lambda>v w'. published L C rules (w_db w) v (w_db w')) w"
proof -
  have early: "publish_failed L C rules (w_db w) noVersion e (w_db w')" if "w_db w' = w_db w" for e w'
    using that by (simp add: publish_failed_def)
  show ?thesis
    unfolding publish_def
    by (intro wp_intros wp_fail_staged)
      (auto simp: candidate_checksum intro: early refusedI validatedI publish_failed_pending
        intro!: publish_failed_refused wp_publish_apply)
qed

end
