(* ===== verification/VersionHistory.thy ===== *)
theory VersionHistory
  imports PublishSpec
begin

text \<open>
  The version history as a state machine. \<open>pub_step\<close> is what one operation of any service may
  do to the tables: append a candidate, activate a pending or unknown candidate together with
  its rules, or leave versions and rules alone. Its invariant (ascending versions, one active
  version, rule table equal to the rules of the active version, every stored list valid) and
  the life cycle of a version are proved by rule induction; \<open>publish\<close> and \<open>Reconcile\<close> are shown
  to take such steps only.
\<close>

section \<open>Steps\<close>

inductive pub_step :: "rlib \<Rightarrow> db \<Rightarrow> db \<Rightarrow> bool" for L :: rlib where
  stage: "candidate L rules d rs row \<Longrightarrow> s \<in> {Pending, Unknown, Failed} \<Longrightarrow>
     pub_step L d (staged d (restate row s c m))"
| activate: "x \<in> set (d_versions d) \<Longrightarrow> vv_status x \<in> {Pending, Unknown} \<Longrightarrow>
     map persist_rule rs = vv_rules x \<Longrightarrow> activated L (vv_version x) rs d d' \<Longrightarrow> pub_step L d d'"
| other: "d_versions d' = d_versions d \<Longrightarrow> d_rules d' = d_rules d \<Longrightarrow> pub_step L d d'"

abbreviation pub_steps :: "rlib \<Rightarrow> db \<Rightarrow> db \<Rightarrow> bool" where
  "pub_steps L \<equiv> (pub_step L)\<^sup>*\<^sup>*"

inductive_cases pub_stepE: "pub_step L d d'"

section \<open>The invariant\<close>

definition row_ok :: "rlib \<Rightarrow> version_row \<Rightarrow> bool" where
  "row_ok L x =
     (list_all (rule_wf L) (vv_rules x) \<and> distinct (map rule_key (vv_rules x))
      \<and> map persist_rule (vv_rules x) = vv_rules x \<and> length (vv_rules x) \<le> 200000
      \<and> length (filter (\<lambda>r. r_MatchType r = ''regexp'') (vv_rules x)) \<le> 500
      \<and> sn_Version (vv_snapshot x) = vv_version x
      \<and> sn_Rules (vv_snapshot x) = sort_key wire_key (map toWire (filter r_Enabled (vv_rules x)))
      \<and> vv_checksum x = snapshotChecksum L (vv_snapshot x)
      \<and> vv_previous_version x < vv_version x)"

definition actives :: "db \<Rightarrow> version_row list" where
  "actives d = filter (\<lambda>x. vv_status x = Active) (d_versions d)"

definition table_ok :: "rlib \<Rightarrow> db \<Rightarrow> bool" where
  "table_ok L d = (case actives d of
       [] \<Rightarrow> d_rules d = []
     | [a] \<Rightarrow> rows_for L (vv_version a) (vv_rules a) (d_rules d) \<and> rows_sound (d_rules d)
     | _ \<Rightarrow> False)"

definition store_ok :: "rlib \<Rightarrow> db \<Rightarrow> bool" where
  "store_ok L d =
     (sorted_wrt (<) (0 # map vv_version (d_versions d)) \<and> distinct (map vv_checksum (d_versions d))
      \<and> list_all (row_ok L) (d_versions d) \<and> table_ok L d)"

lemma store_ok_empty: "store_ok L empty_db"
  by (simp add: store_ok_def empty_db_def table_ok_def actives_def)

lemma persist_rule_sel [simp]:
  "r_ID (persist_rule r) = r_ID r" "r_Enabled (persist_rule r) = r_Enabled r"
  "r_Category (persist_rule r) = r_Category r" "r_Pattern (persist_rule r) = r_Pattern r"
  "r_MatchType (persist_rule r) = r_MatchType r" "r_Source (persist_rule r) = r_Source r"
  by (simp_all add: persist_rule_def)

lemma persist_rule_idem [simp]: "persist_rule (persist_rule r) = persist_rule r"
  by (simp add: persist_rule_def)

lemma rule_wf_persist [simp]: "rule_wf L (persist_rule r) = rule_wf L r"
  by (simp add: persist_rule_def rule_wf_def)

lemma rule_key_persist [simp]: "rule_key (persist_rule r) = rule_key r"
  by (simp add: rule_key_def)

lemma toWire_persist [simp]: "toWire (persist_rule r) = toWire r"
  by (simp add: toWire_def persist_rule_def)

lemma drule_of_persist [simp]: "drule_of v n (persist_rule r) = drule_of v n r"
  by (simp add: drule_of_def persist_rule_def nullableGroupID_def)

lemma rows_for_persist: "rows_for L v (map persist_rule rs) rows = rows_for L v rs rows"
  by (simp add: rows_for_def list_all2_map1)

lemma active_of_less:
  "sorted_wrt (<) (0 # map vv_version (d_versions d)) \<Longrightarrow> active_of d < next_version d"
  by (auto simp: active_of_def find_Some_iff next_version_pos intro: next_version_gt split: option.splits)

lemma candidate_row_ok:
  assumes "candidate L rules d rs row"
  shows "row_ok L (restate row s c m)"
proof -
  from assms obtain sets now where snap: "vv_snapshot row = buildSnapshot L now (next_version d) (active_of d) rs sets"
    by (auto simp: candidate_def)
  have "active_of d < next_version d"
    by (auto simp: active_of_def find_Some_iff next_version_pos intro: next_version_gt split: option.splits)
  then show ?thesis
    using assms validateRules_sound [of L rules rs]
    by (auto simp: candidate_def row_ok_def snap list_all_iff comp_def filter_map snapshotChecksum_self)
qed

lemma activate_sel [simp]:
  "vv_version (activate v now x) = vv_version x" "vv_checksum (activate v now x) = vv_checksum x"
  "vv_rules (activate v now x) = vv_rules x" "vv_snapshot (activate v now x) = vv_snapshot x"
  "vv_previous_version (activate v now x) = vv_previous_version x"
  "vv_created_at_ms (activate v now x) = vv_created_at_ms x"
  "vv_rollback_from (activate v now x) = vv_rollback_from x"
  "vv_status (activate v now x) =
     (if vv_version x = v then Active else if vv_status x = Active then Superseded else vv_status x)"
  by (simp_all add: activate_def)

lemma row_ok_activate [simp]: "row_ok L (activate v now x) = row_ok L x"
  by (simp add: row_ok_def)

lemma strict_sorted_distinct:
  "sorted_wrt (<) (0 # map vv_version vs) \<Longrightarrow> distinct (map vv_version vs)"
  using strict_sorted_iff by fastforce

lemma actives_activate:
  assumes "sorted_wrt (<) (0 # map vv_version (d_versions d))" and "x \<in> set (d_versions d)"
    and "d_versions d' = map (activate (vv_version x) now) (d_versions d)"
  shows "actives d' = [activate (vv_version x) now x]"
proof -
  have "actives d' = map (activate (vv_version x) now) (filter (\<lambda>y. vv_version y = vv_version x) (d_versions d))"
    using assms(3) by (auto simp: actives_def filter_map comp_def intro!: arg_cong [where f = "map _"] filter_cong)
  then show ?thesis using filter_key_single [OF strict_sorted_distinct [OF assms(1)] assms(2)] by simp
qed

lemma store_ok_step:
  assumes "pub_step L d d'" and ok: "store_ok L d"
  shows "store_ok L d'"
  using assms(1)
proof (cases rule: pub_step.cases)
  case (stage rules rs row s c m)
  have sorted: "sorted_wrt (<) (0 # map vv_version (d_versions d'))"
    using ok stage next_version_gt next_version_pos
    by (auto simp: store_ok_def staged_def sorted_wrt_append candidate_def)
  have "actives d' = actives d" using stage by (auto simp: actives_def staged_def)
  moreover have "d_rules d' = d_rules d" using stage by (simp add: staged_def)
  ultimately have "table_ok L d' = table_ok L d" unfolding table_ok_def by (simp only:)
  moreover have "row_ok L (restate row s c m)" by (rule candidate_row_ok [OF stage(2)])
  moreover have "vv_checksum row \<notin> vv_checksum ` set (d_versions d)"
    using stage(2) unfolding candidate_def by blast
  ultimately show ?thesis
    using ok sorted by (simp add: store_ok_def stage(1) staged_def)
next
  case (activate x rs)
  from activate(4) obtain now rows audit where rows: "rows_for L (vv_version x) rs rows" "rows_sound rows"
    and d': "d' = d\<lparr>d_versions := map (PublishSpec.activate (vv_version x) now) (d_versions d), d_rules := rows,
               d_audit := insert_rows audit (d_audit d)\<rparr>"
    by (auto simp: activated_def)
  have "actives d' = [PublishSpec.activate (vv_version x) now x]"
    using ok activate(1) by (intro actives_activate) (simp_all add: store_ok_def d')
  moreover have "rows_for L (vv_version x) (vv_rules x) rows"
    using rows rows_for_persist [of L _ rs] activate(3) by simp
  moreover note rows(2)
  ultimately show ?thesis
    using ok by (auto simp: store_ok_def d' table_ok_def comp_def list_all_iff)
next
  case other
  then have "table_ok L d' = table_ok L d" unfolding table_ok_def actives_def by (simp only:)
  then show ?thesis using ok other by (simp add: store_ok_def)
qed

lemma store_ok_steps: "pub_steps L d d' \<Longrightarrow> store_ok L d \<Longrightarrow> store_ok L d'"
  by (induction rule: rtranclp_induct) (auto intro: store_ok_step)

section \<open>The life cycle of a version\<close>

text \<open>What never changes in the row of a version, and the one-way path of its status.\<close>

definition same_version :: "version_row \<Rightarrow> version_row \<Rightarrow> bool" where
  "same_version x y =
     (vv_version y = vv_version x \<and> vv_checksum y = vv_checksum x \<and> vv_rules y = vv_rules x
      \<and> vv_snapshot y = vv_snapshot x \<and> vv_previous_version y = vv_previous_version x
      \<and> vv_rollback_from y = vv_rollback_from x \<and> vv_created_at_ms y = vv_created_at_ms x)"

fun later_status :: "version_status \<Rightarrow> version_status set" where
  "later_status Pending = {Pending, Active, Superseded}"
| "later_status Unknown = {Unknown, Active, Superseded}"
| "later_status Active = {Active, Superseded}"
| "later_status Superseded = {Superseded}"
| "later_status Failed = {Failed}"

definition ages :: "version_row \<Rightarrow> version_row \<Rightarrow> bool" where
  "ages x y = (same_version x y \<and> vv_status y \<in> later_status (vv_status x))"

definition history_extends :: "db \<Rightarrow> db \<Rightarrow> bool" where
  "history_extends d d' = (\<exists>old new. d_versions d' = old @ new \<and> list_all2 ages (d_versions d) old
     \<and> (\<forall>u \<in> vv_version ` set (d_versions d). \<forall>v \<in> vv_version ` set new. u < v))"

lemma ages_refl [simp]: "ages x x"
  by (cases "vv_status x") (simp_all add: ages_def same_version_def)

lemma ages_trans: "ages x y \<Longrightarrow> ages y z \<Longrightarrow> ages x z"
  by (cases "vv_status x"; cases "vv_status y") (auto simp: ages_def same_version_def)

lemma list_all2_ages_refl [simp]: "list_all2 ages xs xs"
  by (simp add: list.rel_refl)

lemma list_all2_ages_versions: "list_all2 ages xs ys \<Longrightarrow> map vv_version ys = map vv_version xs"
  by (induction rule: list_all2_induct) (auto simp: ages_def same_version_def)

lemma history_extends_trans:
  assumes "history_extends d e" and "history_extends e f"
  shows "history_extends d f"
proof -
  from assms(1) obtain o1 n1 where 1: "d_versions e = o1 @ n1" "list_all2 ages (d_versions d) o1"
      "\<forall>u \<in> vv_version ` set (d_versions d). \<forall>v \<in> vv_version ` set n1. u < v"
    by (auto simp: history_extends_def)
  from assms(2) obtain o2 n2 where 2: "d_versions f = o2 @ n2" "list_all2 ages (o1 @ n1) o2"
      "\<forall>u \<in> vv_version ` set (o1 @ n1). \<forall>v \<in> vv_version ` set n2. u < v"
    unfolding history_extends_def 1(1) by blast
  from 2(2) obtain u v where 3: "o2 = u @ v" "list_all2 ages o1 u" "list_all2 ages n1 v"
    by (auto simp: list_all2_append1)
  have vs: "vv_version ` set (d_versions d) = vv_version ` set o1"
    "vv_version ` set n1 = vv_version ` set v"
    using list_all2_ages_versions [OF 1(2)] list_all2_ages_versions [OF 3(3)] by (metis set_map)+
  have "list_all2 ages (d_versions d) u"
    using 1(2) 3(2) by (rule list_all2_trans [rotated 1]) (rule ages_trans)
  moreover have "\<forall>x \<in> vv_version ` set (d_versions d). \<forall>y \<in> vv_version ` set (v @ n2). x < y"
    using 1(3) 2(3) unfolding vs set_append image_Un by blast
  ultimately show ?thesis
    unfolding history_extends_def 2(1) 3(1) append_assoc by blast
qed

lemma candidate_fresh_less:
  "candidate L rules d rs row \<Longrightarrow> x \<in> set (d_versions d) \<Longrightarrow> vv_version x < vv_version row"
  using next_version_gt [of x d] unfolding candidate_def by metis

lemma history_extends_step:
  assumes "pub_step L d d'" and ok: "store_ok L d"
  shows "history_extends d d'"
  using assms(1)
proof (cases rule: pub_step.cases)
  case (stage rules rs row s c m)
  then have "d_versions d' = d_versions d @ [restate row s c m]" by (simp add: staged_def)
  then show ?thesis
    using candidate_fresh_less [OF stage(2)] unfolding history_extends_def
    by (intro exI [of _ "d_versions d"] exI [of _ "[restate row s c m]"]) simp
next
  case (activate x rs)
  from activate(4) obtain now rows audit where "d' = d\<lparr>d_versions :=
      map (PublishSpec.activate (vv_version x) now) (d_versions d), d_rules := rows, d_audit := insert_rows audit (d_audit d)\<rparr>"
    by (auto simp: activated_def)
  then have vs: "d_versions d' = map (PublishSpec.activate (vv_version x) now) (d_versions d)" by simp
  have inj: "y = x" if "y \<in> set (d_versions d)" "vv_version y = vv_version x" for y
    using that activate(1) ok strict_sorted_distinct by (metis distinct_map inj_onD store_ok_def)
  have "ages y (PublishSpec.activate (vv_version x) now y)" if "y \<in> set (d_versions d)" for y
    using inj [OF that] activate(2) by (cases "vv_status y") (auto simp: ages_def same_version_def)
  then have "list_all2 ages (d_versions d) (d_versions d')"
    by (simp add: vs list_all2_map2 list.rel_refl_strong)
  then show ?thesis unfolding history_extends_def by (intro exI [of _ "d_versions d'"] exI [of _ "[]"]) simp
next
  case other
  then show ?thesis unfolding history_extends_def by (intro exI [of _ "d_versions d"] exI [of _ "[]"]) simp
qed

lemma history_extends_steps: "pub_steps L d d' \<Longrightarrow> store_ok L d \<Longrightarrow> history_extends d d'"
proof (induction rule: rtranclp_induct)
  case base
  then show ?case unfolding history_extends_def by (intro exI [of _ "d_versions d"] exI [of _ "[]"]) simp
next
  case (step e f)
  then show ?case using history_extends_step history_extends_trans store_ok_steps by metis
qed

section \<open>Operations take steps only\<close>

definition evolves :: "rlib \<Rightarrow> ('e, 'm world, 'a) prog \<Rightarrow> bool" where
  "evolves L m = (\<forall>w. store_ok L (w_db w) \<longrightarrow> pub_steps L (w_db w) (w_db (snd (m w))))"

lemma evolves_wp:
  "evolves L m \<longleftrightarrow> (\<forall>w. store_ok L (w_db w) \<longrightarrow>
     wp m (\<lambda>_ w'. pub_steps L (w_db w) (w_db w')) (\<lambda>_ w'. pub_steps L (w_db w) (w_db w')) w)"
  by (simp add: evolves_def wp_def case_prod_beta split: sum.splits)

lemma evolvesI:
  "(\<And>w. store_ok L (w_db w) \<Longrightarrow>
     wp m (\<lambda>_ w'. pub_steps L (w_db w) (w_db w')) (\<lambda>_ w'. pub_steps L (w_db w) (w_db w')) w) \<Longrightarrow> evolves L m"
  by (simp add: evolves_wp)

lemma evolves_steps: "evolves L m \<Longrightarrow> store_ok L (w_db w) \<Longrightarrow> m w = (r, w') \<Longrightarrow> pub_steps L (w_db w) (w_db w')"
  by (auto simp: evolves_def dest: spec [where x = w])

named_theorems evolves_intros \<open>rules that a program takes publication steps only\<close>

lemma evolves_returnM [evolves_intros]: "evolves L (returnM a)"
  by (simp add: evolves_def returnM_def)

lemma evolves_throwM [evolves_intros]: "evolves L (throwM e)"
  by (simp add: evolves_def throwM_def)

lemma evolves_guardM [evolves_intros]: "evolves L (guardM b e)"
  by (simp add: guardM_def evolves_returnM evolves_throwM)

lemma evolves_liftM [evolves_intros]: "evolves L (liftM r)"
  by (cases r) (simp_all add: liftM_def evolves_returnM evolves_throwM)

lemma evolves_bindM [evolves_intros]:
  assumes "evolves L m" and "\<And>a. evolves L (f a)"
  shows "evolves L (bindM m f)"
proof -
  have "pub_steps L (w_db w) (w_db (snd (f a t)))"
    if "store_ok L (w_db w)" "m w = (Inr a, t)" for w a t
  proof -
    have mt: "pub_steps L (w_db w) (w_db t)" using evolves_steps [OF assms(1) that] .
    moreover have "store_ok L (w_db t)" using mt that(1) by (rule store_ok_steps)
    ultimately show ?thesis using assms(2) [of a] unfolding evolves_def by (meson rtranclp_trans)
  qed
  then show ?thesis
    using evolves_steps [OF assms(1)]
    by (fastforce simp: evolves_def bindM_def split: prod.splits sum.splits)
qed

lemma evolves_attemptM [evolves_intros]: "evolves L m \<Longrightarrow> evolves L (attemptM m)"
  by (simp add: evolves_wp wp_attemptM)

lemma evolves_mapErr [evolves_intros]: "evolves L m \<Longrightarrow> evolves L (mapErr g m)"
  by (simp add: evolves_wp wp_mapErr)

lemma evolves_if [evolves_intros]: "evolves L m \<Longrightarrow> evolves L n \<Longrightarrow> evolves L (if b then m else n)"
  by simp

lemma evolves_case_option [evolves_intros]:
  "evolves L m \<Longrightarrow> (\<And>a. evolves L (n a)) \<Longrightarrow> evolves L (case x of None \<Rightarrow> m | Some a \<Rightarrow> n a)"
  by (cases x) auto

lemma evolves_case_sum [evolves_intros]:
  "(\<And>a. evolves L (m a)) \<Longrightarrow> (\<And>a. evolves L (n a)) \<Longrightarrow>
     evolves L (case x of Inl e \<Rightarrow> m e | Inr a \<Rightarrow> n a)"
  by (cases x) auto

lemma evolves_case_prod [evolves_intros]:
  "(\<And>a b. evolves L (m a b)) \<Longrightarrow> evolves L (case x of (a, b) \<Rightarrow> m a b)"
  by (cases x) auto

lemma evolves_Let [evolves_intros]: "evolves L (f a) \<Longrightarrow> evolves L (Let a f)"
  by simp

lemma evolves_traverseM [evolves_intros]: "(\<And>x. evolves L (f x)) \<Longrightarrow> evolves L (traverseM f xs)"
  by (induction xs) (auto intro: evolves_intros)

lemma evolves_db_query [evolves_intros]: "evolves L (db_query q)"
  by (rule evolvesI) (intro wp_intros, simp_all)

lemma evolves_time_now [evolves_intros]: "evolves L time_now"
  by (rule evolvesI) (intro wp_intros, simp_all)

lemma evolves_call [evolves_intros]: "evolves L (call f)"
  by (rule evolvesI) (intro wp_intros, simp_all)

lemma evolves_db_exec [evolves_intros]:
  "(\<And>d d'. u d = Inr d' \<Longrightarrow> d_versions d' = d_versions d \<and> d_rules d' = d_rules d) \<Longrightarrow> evolves L (db_exec u)"
  by (rule evolvesI) (intro wp_intros, auto intro!: r_into_rtranclp pub_step.other)

lemma evolves_db_run [evolves_intros]:
  "(\<And>d a d'. u d = Inr (a, d') \<Longrightarrow> d_versions d' = d_versions d \<and> d_rules d' = d_rules d) \<Longrightarrow> evolves L (db_run u)"
  by (rule evolvesI) (intro wp_intros, auto intro!: r_into_rtranclp pub_step.other)

lemma evolves_transaction [evolves_intros]:
  fixes m :: "(error, 'm world, 'a) prog"
  assumes "evolves L m"
  shows "evolves L (transaction m)"
proof (rule evolvesI, rule wp_transaction_I)
  fix w w' :: "'m world"
  assume "store_ok L (w_db w)" "w_db w' = w_db w"
  then show "pub_steps L (w_db w) (w_db w')" by simp
next
  fix w s :: "'m world"
  assume "store_ok L (w_db w)" "w_db s = w_db w"
  then have "wp m (\<lambda>_ w'. pub_steps L (w_db w) (w_db w')) (\<lambda>_ w'. pub_steps L (w_db w) (w_db w')) s"
    using assms unfolding evolves_wp by metis
  then show "wp m (\<lambda>e w'. pub_steps L (w_db w) (w_db (w'\<lparr>w_db := w_db w\<rparr>)))
      (\<lambda>a w'. \<forall>w''. w_db w'' = w_db w' \<longrightarrow> w_ext w'' = w_ext w' \<longrightarrow>
         pub_steps L (w_db w) (w_db (w''\<lparr>w_db := w_db w\<rparr>)) \<and> pub_steps L (w_db w) (w_db w'')) s"
    by (rule wp_mono) auto
qed

section \<open>Publication and reconciliation\<close>

lemma published_steps:
  assumes "published L C rules d v d'"
  shows "pub_steps L d d'"
proof -
  from assms obtain rs row s c m where cand: "candidate L rules d rs row" and s: "s \<in> {Pending, Unknown}"
    and act: "activated L (vv_version row) rs (staged d (restate row s c m)) d'"
    unfolding published_def by blast
  have "pub_step L d (staged d (restate row s c m))" using s by (intro stage [OF cand]) auto
  moreover have "pub_step L (staged d (restate row s c m)) d'"
    using s act cand by (intro activate [where x = "restate row s c m"]) (auto simp: staged_def candidate_def)
  ultimately show ?thesis by (meson r_into_rtranclp rtranclp_trans)
qed

lemma publish_failed_steps:
  assumes "publish_failed L C rules d v e d'"
  shows "pub_steps L d d'"
  using assms by (fastforce simp: publish_failed_def intro: stage)

lemma evolves_publish [evolves_intros]: "evolves L (publish L C rules adminID requestID ip rollbackFrom)"
  by (rule evolvesI, rule wp_mono [OF publish_spec])
    (auto intro: published_steps publish_failed_steps)

lemma evolves_republish [evolves_intros]: "evolves L (republish L C s requestID)"
  unfolding republish_def allRules_def by (intro evolves_intros)

lemma first_row_Inr: "first_row p rows = Inr r \<Longrightarrow> r \<in> set rows \<and> p r"
  by (auto simp: first_row_def find_Some_iff split: option.splits)

lemma select_version_unique:
  assumes "store_ok L d" and "x \<in> set (d_versions d)" and "select_version (vv_version x) d = Inr y"
  shows "y = x"
proof -
  have "y \<in> set (d_versions d)" "vv_version y = vv_version x"
    using assms(3) by (auto simp: select_version_def dest!: first_row_Inr)
  moreover have "distinct (map vv_version (d_versions d))"
    using assms(1) strict_sorted_distinct by (auto simp: store_ok_def)
  ultimately show ?thesis using assms(2) by (metis distinct_map inj_onD)
qed

lemma wp_finalize:
  assumes "store_ok L (w_db w)" and "x \<in> set (d_versions (w_db w))"
    and "\<And>e w'. w_db w' = w_db w \<Longrightarrow> w_ext w' = w_ext w \<Longrightarrow> E e w'"
    and "\<And>w'. activated L (vv_version x) (vv_rules x) (w_db w) (w_db w') \<Longrightarrow> w_ext w' = w_ext w \<Longrightarrow> Q () w'"
  shows "wp (finalize L (vv_version x)) E Q w"
  unfolding finalize_def
  by (intro wp_intros) (auto intro: assms(3,4) dest: select_version_unique [OF assms(1,2)])

lemma activate_pending:
  assumes "store_ok L d" and "x \<in> set (d_versions d)" and "vv_status x \<in> {Pending, Unknown}"
    and "activated L (vv_version x) (vv_rules x) d d'"
  shows "pub_step L d d'"
proof (rule pub_step.activate [OF assms(2,3) _ assms(4)])
  show "map persist_rule (vv_rules x) = vv_rules x"
    using assms(1,2) by (simp add: store_ok_def list_all_iff row_ok_def)
qed

lemma evolves_reconcile_candidate:
  assumes ok: "store_ok L (w_db w)" and x: "x \<in> set (d_versions (w_db w))" "vv_status x \<in> {Pending, Unknown}"
  shows "wp (reconcile_candidate L C (vv_version x)) (\<lambda>_ w'. pub_steps L (w_db w) (w_db w'))
     (\<lambda>_ w'. pub_steps L (w_db w) (w_db w')) w"
proof -
  have tail: "wp (bindM (mapErr (Pair ''matched_candidate'') (db_query (select_version (vv_version x)))) (\<lambda>candidate.
       if subscriptionSetsEqual (sn_SubscriptionSets (vv_snapshot candidate)) sets
       then returnM ''matched_candidate''
       else republish L C ''matched_candidate'' ''reconcile_candidate_sources''))
      (\<lambda>_ w'. pub_steps L (w_db w) (w_db w')) (\<lambda>_ w'. pub_steps L (w_db w) (w_db w')) s"
    if "pub_step L (w_db w) (w_db s)" for s sets
  proof -
    have "store_ok L (w_db s)" using store_ok_step [OF that ok] .
    moreover have "evolves L (bindM (mapErr (Pair ''matched_candidate'') (db_query (select_version (vv_version x)))) (\<lambda>candidate.
       if subscriptionSetsEqual (sn_SubscriptionSets (vv_snapshot candidate)) sets
       then returnM ''matched_candidate''
       else republish L C ''matched_candidate'' ''reconcile_candidate_sources''))"
      by (intro evolves_intros)
    ultimately show ?thesis
      unfolding evolves_wp using that by (fastforce elim: wp_mono intro: converse_rtranclp_into_rtranclp)
  qed
  show ?thesis
    unfolding reconcile_candidate_def
    by (rule wp_bindM_I, rule wp_mapErr_I, rule wp_subscriptionSets, simp,
        rule wp_bindM_I, rule wp_mapErr_I, rule wp_finalize [of L], simp_all add: ok x(1))
      (rule tail, rule activate_pending [OF ok x])
qed

lemma evolves_reconcile_active [evolves_intros]: "evolves L (reconcile_active L C st)"
  unfolding reconcile_active_def subscriptionSets_def by (intro evolves_intros)

lemma evolves_Reconcile [evolves_intros]: "evolves L (Reconcile L C)"
proof (rule evolvesI)
  fix w :: "'a world" assume ok: "store_ok L (w_db w)"
  have active: "wp (reconcile_active L C st) (\<lambda>_ w'. pub_steps L (w_db w) (w_db w'))
      (\<lambda>_ w'. pub_steps L (w_db w) (w_db w')) s" if "w_db s = w_db w" for s st
    using evolves_reconcile_active [of L C st] ok that unfolding evolves_wp by metis
  have cand: "wp (reconcile_candidate L C (vv_version x)) (\<lambda>_ w'. pub_steps L (w_db w) (w_db w'))
      (\<lambda>_ w'. pub_steps L (w_db w) (w_db w')) s"
    if "w_db s = w_db w" "select_candidate v (w_db w) = Inr x" for s v x
    using first_row_Inr that evolves_reconcile_candidate [of L s x C] ok
    by (force simp: select_candidate_def)
  show "wp (Reconcile L C) (\<lambda>_ w'. pub_steps L (w_db w) (w_db w')) (\<lambda>_ w'. pub_steps L (w_db w) (w_db w')) w"
    unfolding Reconcile_def
    by (intro wp_intros) (auto intro: active cand)
qed

end
