(* ===== verification/RuleService.thy ===== *)
theory RuleService
  imports VersionHistory
begin

text \<open>
  The operations of \<open>rules.Service\<close> that administrators call (\<open>internal/rules/service.go\<close>):
  creating, updating, deleting, importing and switching rules, rolling back, and reading the
  history. Each builds the next complete rule list from the stored one and publishes it. The
  lemmas say what list is published on every branch, that rule ids are never reused, and that
  an update is refused when the rule changed since it was loaded.
\<close>

text \<open>The methods return \<open>(Version, error)\<close>; before publication the version is the zero value.\<close>

abbreviation early :: "(error, 'm world, 'a) prog \<Rightarrow> (Version \<times> error, 'm world, 'a) prog" where
  "early m \<equiv> mapErr (Pair noVersion) m"

definition subscription_source_error :: error where
  "subscription_source_error = Msg ''subscription rules must be managed through their source''"

section \<open>Route writes\<close>

fun common_expected :: "uint64 option \<Rightarrow> Rule list \<Rightarrow> error + uint64 option" where
  "common_expected expected [] = Inr expected"
| "common_expected expected (r # rs) =
     (if r_Category r \<noteq> ''route'' then common_expected expected rs
      else (case r_ExpectedUpstreamRegistryVersion r of
          None \<Rightarrow> Inl (Msg ''route rules require expected_upstream_registry_version'')
        | Some v \<Rightarrow>
            (if expected \<noteq> None \<and> expected \<noteq> Some v
             then Inl (Msg ''route rules must use one expected_upstream_registry_version'')
             else common_expected (Some v) rs)))"

definition validateRouteWrite :: "'m client \<Rightarrow> Rule list \<Rightarrow> (error, 'm world, unit) prog" where
  "validateRouteWrite C rules =
     bindM (liftM (common_expected None rules)) (\<lambda>expected. validateRouteTargets C rules expected)"

section \<open>Rule ids\<close>

definition next_rule_id :: string where "next_rule_id = ''next_rule_id''"

definition state_insert_ignore :: "string \<Rightarrow> string \<Rightarrow> db \<Rightarrow> error + db" where
  "state_insert_ignore k v d =
     (case d_state d k of Some _ \<Rightarrow> Inr d | None \<Rightarrow> Inr (d\<lparr>d_state := (d_state d)(k \<mapsto> v)\<rparr>))"

definition state_select :: "string \<Rightarrow> db \<Rightarrow> error + string" where
  "state_select k d = (case d_state d k of None \<Rightarrow> Inl ErrNoRows | Some v \<Rightarrow> Inr v)"

definition state_update :: "string \<Rightarrow> string \<Rightarrow> db \<Rightarrow> error + db" where
  "state_update k v d =
     (case d_state d k of None \<Rightarrow> Inr d | Some _ \<Rightarrow> Inr (d\<lparr>d_state := (d_state d)(k \<mapsto> v)\<rparr>))"

text \<open>\<open>first++\<close> on an \<open>int64\<close> wraps.\<close>

definition inc64 :: "int \<Rightarrow> int" where
  "inc64 i = (if i = int64_max then int64_min else i + 1)"

fun count_up :: "nat \<Rightarrow> int \<Rightarrow> int list" where
  "count_up 0 first = []"
| "count_up (Suc n) first = inc64 first # count_up n (inc64 first)"

definition reserveRuleIDs :: "nat \<Rightarrow> (error, 'm world, int list) prog" where
  "reserveRuleIDs n =
     bindM (guardM (1 \<le> n) (Msg ''rule ID count must be greater than zero'')) (\<lambda>_.
     bindM time_now (\<lambda>_.
     bindM (db_exec (state_insert_ignore next_rule_id ''0'')) (\<lambda>_.
     bindM (db_query (state_select next_rule_id)) (\<lambda>raw.
     bindM (liftM (ParseInt raw)) (\<lambda>first.
       let ids = count_up n first in
       bindM time_now (\<lambda>_.
       bindM (db_exec (state_update next_rule_id (FormatInt (last ids)))) (\<lambda>_.
       returnM ids)))))))"

definition nextRuleID :: "(error, 'm world, int) prog" where
  "nextRuleID = bindM (reserveRuleIDs 1) (\<lambda>ids. returnM (hd ids))"

section \<open>Operations\<close>

definition Create ::
  "rlib \<Rightarrow> 'm client \<Rightarrow> Rule \<Rightarrow> int \<Rightarrow> string \<Rightarrow> string \<Rightarrow> (Version \<times> error, 'm world, Version) prog" where
  "Create L C r adminID requestID ip =
     bindM (early (guardM (\<not> isSubscriptionRule r) subscription_source_error)) (\<lambda>_.
     bindM (early (validateRouteWrite C [r])) (\<lambda>_.
     bindM (early allRules) (\<lambda>rules.
     bindM (early nextRuleID) (\<lambda>i.
     bindM (early time_now) (\<lambda>now.
       let r = r\<lparr>r_ID := i, r_CreatedAtMS := now, r_UpdatedAtMS := now,
                 r_Source := (if r_Source r = '''' then ''manual'' else r_Source r)\<rparr> in
       publish L C (rules @ [r]) adminID requestID ip 0)))))"

text \<open>
  The loop of \<open>Update\<close> walks over all rules; ids are unique, so it changes one. The clock is
  read for that rule only.
\<close>

fun update_loop :: "int \<Rightarrow> Rule \<Rightarrow> Rule list \<Rightarrow> (error, 'm world, bool \<times> Rule list) prog" where
  "update_loop i patch [] = returnM (False, [])"
| "update_loop i patch (r # rs) =
     (if r_ID r = i then
        (if isSubscriptionRule r then throwM subscription_source_error
         else if r_UpdatedAtMS patch = 0 \<or> r_UpdatedAtMS patch \<noteq> r_UpdatedAtMS r then throwM ErrRuleConflict
         else
           bindM time_now (\<lambda>now.
             let patch = patch\<lparr>r_ID := i, r_CreatedAtMS := r_CreatedAtMS r,
                   r_UpdatedAtMS := (if now \<le> r_UpdatedAtMS r then r_UpdatedAtMS r + 1 else now),
                   r_Source := (if r_Source patch = '''' then r_Source r else r_Source patch)\<rparr> in
             bindM (update_loop i patch rs) (\<lambda>(_, rest). returnM (True, patch # rest))))
      else bindM (update_loop i patch rs) (\<lambda>(found, rest). returnM (found, r # rest)))"

definition Update ::
  "rlib \<Rightarrow> 'm client \<Rightarrow> int \<Rightarrow> Rule \<Rightarrow> int \<Rightarrow> string \<Rightarrow> string \<Rightarrow> (Version \<times> error, 'm world, Version) prog" where
  "Update L C i patch adminID requestID ip =
     bindM (early allRules) (\<lambda>rules.
     bindM (early (validateRouteWrite C [patch])) (\<lambda>_.
     bindM (early (update_loop i patch rules)) (\<lambda>(found, rules).
     bindM (early (guardM found ErrNoRows)) (\<lambda>_.
     publish L C rules adminID requestID ip 0))))"

fun delete_loop :: "int \<Rightarrow> Rule list \<Rightarrow> error + bool \<times> Rule list" where
  "delete_loop i [] = Inr (False, [])"
| "delete_loop i (r # rs) =
     (if r_ID r = i then
        (if isSubscriptionRule r then Inl subscription_source_error
         else (case delete_loop i rs of Inl e \<Rightarrow> Inl e | Inr (_, out) \<Rightarrow> Inr (True, out)))
      else (case delete_loop i rs of Inl e \<Rightarrow> Inl e | Inr (found, out) \<Rightarrow> Inr (found, r # out)))"

definition Delete ::
  "rlib \<Rightarrow> 'm client \<Rightarrow> int \<Rightarrow> int \<Rightarrow> string \<Rightarrow> string \<Rightarrow> (Version \<times> error, 'm world, Version) prog" where
  "Delete L C i adminID requestID ip =
     bindM (early allRules) (\<lambda>rules.
     bindM (early (liftM (delete_loop i rules))) (\<lambda>(found, out).
     bindM (early (guardM found ErrNoRows)) (\<lambda>_.
     publish L C out adminID requestID ip 0)))"

definition Rollback ::
  "rlib \<Rightarrow> 'm client \<Rightarrow> nat \<Rightarrow> uint64 option \<Rightarrow> int \<Rightarrow> string \<Rightarrow> string \<Rightarrow>
     (Version \<times> error, 'm world, Version) prog" where
  "Rollback L C source expected adminID requestID ip =
     bindM (early (db_query (select_version source))) (\<lambda>row.
       let rules = vv_rules row in
       bindM (early (guardM (\<not> (hasRouteRules rules \<and> expected = None))
         (Msg ''route rollback requires expected_upstream_registry_version''))) (\<lambda>_.
       bindM (early (validateRouteTargets C rules expected)) (\<lambda>_.
       publish L C rules adminID requestID ip source)))"

definition select_versions :: "db \<Rightarrow> error + Version list" where
  "select_versions d = Inr (map version_of (rev (sort_key vv_version (d_versions d))))"

definition Versions :: "(error, 'm world, Version list) prog" where
  "Versions = db_query select_versions"

definition getVersion :: "nat \<Rightarrow> (error, 'm world, Snapshot) prog" where
  "getVersion version = bindM (db_query (select_version version)) (\<lambda>row. returnM (vv_snapshot row))"

definition List :: "(error, 'm world, Rule list) prog" where
  "List = db_query select_rules"

text \<open>The loop of \<open>Batch\<close>: the ids met, the routes among the selected rules, and the new list.\<close>

fun batch_loop :: "string \<Rightarrow> int list \<Rightarrow> Rule list \<Rightarrow> error + nat \<times> Rule list \<times> Rule list" where
  "batch_loop operation ids [] = Inr (0, [], [])"
| "batch_loop operation ids (r # rs) =
     (let rest = batch_loop operation ids rs;
          keep = (\<lambda>n routes x. case rest of Inl e \<Rightarrow> Inl e
             | Inr (found, selected, out) \<Rightarrow> Inr (n + found, routes @ selected, x @ out)) in
      if r_ID r \<notin> set ids then keep 0 [] [r]
      else if isSubscriptionRule r then Inl subscription_source_error
      else
        (let routes = (if r_Category r = ''route'' then [r] else []) in
         if operation = ''enable'' then keep 1 routes [r\<lparr>r_Enabled := True\<rparr>]
         else if operation = ''disable'' then keep 1 routes [r\<lparr>r_Enabled := False\<rparr>]
         else if operation = ''delete'' then keep 1 routes []
         else Inl (Msg ''unsupported batch operation'')))"

definition Batch ::
  "rlib \<Rightarrow> 'm client \<Rightarrow> string \<Rightarrow> int list \<Rightarrow> uint64 option \<Rightarrow> int \<Rightarrow> string \<Rightarrow> string \<Rightarrow>
     (Version \<times> error, 'm world, Version) prog" where
  "Batch L C operation ids expected adminID requestID ip =
     bindM (early (guardM (ids \<noteq> []) (Msg ''ids must not be empty''))) (\<lambda>_.
     bindM (early allRules) (\<lambda>rules.
     bindM (early (liftM (batch_loop operation ids rules))) (\<lambda>(found, selectedRoutes, out).
     bindM (early (guardM (found = length (remdups ids)) ErrNoRows)) (\<lambda>_.
     bindM (early
       (if selectedRoutes \<noteq> [] then
          (if expected = None
           then throwM (Msg ''route batch operations require expected_upstream_registry_version'')
           else validateRouteTargets C selectedRoutes expected)
        else returnM ())) (\<lambda>_.
     publish L C out adminID requestID ip 0)))))"

fun import_loop :: "Rule list \<Rightarrow> int list \<Rightarrow> (error, 'm world, Rule list) prog" where
  "import_loop (r # rs) (i # is) =
     (if isSubscriptionRule r then throwM subscription_source_error
      else
        bindM time_now (\<lambda>now.
          let r = r\<lparr>r_ID := i, r_CreatedAtMS := now, r_UpdatedAtMS := now,
                    r_Source := (if r_Source r = '''' then ''import'' else r_Source r)\<rparr> in
          bindM (import_loop rs is) (\<lambda>rest. returnM (r # rest))))"
| "import_loop _ _ = returnM []"

definition Import ::
  "rlib \<Rightarrow> 'm client \<Rightarrow> Rule list \<Rightarrow> int \<Rightarrow> string \<Rightarrow> string \<Rightarrow> (Version \<times> error, 'm world, Version) prog" where
  "Import L C incoming adminID requestID ip =
     bindM (early allRules) (\<lambda>current.
     bindM (early (validateRouteWrite C incoming)) (\<lambda>_.
     bindM (early (reserveRuleIDs (length incoming))) (\<lambda>ids.
     bindM (early (import_loop incoming ids)) (\<lambda>added.
     publish L C (current @ added) adminID requestID ip 0))))"

section \<open>Every operation takes publication steps\<close>

lemma state_ops_frame:
  "state_insert_ignore k v d = Inr d' \<Longrightarrow> d_versions d' = d_versions d \<and> d_rules d' = d_rules d"
  "state_update k v d = Inr d' \<Longrightarrow> d_versions d' = d_versions d \<and> d_rules d' = d_rules d"
  by (auto simp: state_insert_ignore_def state_update_def split: option.splits)

lemma evolves_validateRouteTargets [evolves_intros]: "evolves L (validateRouteTargets C rules expected)"
  unfolding validateRouteTargets_def by (intro evolves_intros)

lemma evolves_validateRouteWrite [evolves_intros]: "evolves L (validateRouteWrite C rules)"
  unfolding validateRouteWrite_def by (intro evolves_intros)

lemma evolves_allRules [evolves_intros]: "evolves L allRules"
  unfolding allRules_def by (intro evolves_intros)

lemma evolves_reserveRuleIDs [evolves_intros]: "evolves L (reserveRuleIDs n)"
  unfolding reserveRuleIDs_def by (intro evolves_intros state_ops_frame)

lemma evolves_update_loop [evolves_intros]: "evolves L (update_loop i patch rules)"
  by (induction rules arbitrary: patch) (auto intro!: evolves_intros simp: Let_def)

lemma evolves_import_loop [evolves_intros]: "evolves L (import_loop rules is)"
  by (induction rules "is" rule: import_loop.induct) (auto intro!: evolves_intros simp: Let_def)

lemma evolves_Create [evolves_intros]: "evolves L (Create L C r adminID requestID ip)"
  unfolding Create_def nextRuleID_def by (intro evolves_intros)

lemma evolves_Update [evolves_intros]: "evolves L (Update L C i patch adminID requestID ip)"
  unfolding Update_def by (intro evolves_intros)

lemma evolves_Delete [evolves_intros]: "evolves L (Delete L C i adminID requestID ip)"
  unfolding Delete_def by (intro evolves_intros)

lemma evolves_Rollback [evolves_intros]: "evolves L (Rollback L C source expected adminID requestID ip)"
  unfolding Rollback_def by (intro evolves_intros)

lemma evolves_Batch [evolves_intros]: "evolves L (Batch L C operation ids expected adminID requestID ip)"
  unfolding Batch_def by (intro evolves_intros)

lemma evolves_Import [evolves_intros]: "evolves L (Import L C incoming adminID requestID ip)"
  unfolding Import_def by (intro evolves_intros)

section \<open>The stored list\<close>

text \<open>A rule as \<open>List\<close> returns it after publication, and whether \<open>List\<close> shows it at all.\<close>

definition stored_rule :: "Rule \<Rightarrow> Rule" where
  "stored_rule r = (persist_rule r)\<lparr>r_UpstreamGroupID :=
     (if r_Category r = ''route'' then r_UpstreamGroupID r else [])\<rparr>"

definition visible :: "Rule \<Rightarrow> bool" where
  "visible r = (\<not> sql_like_subscription (r_Source r))"

lemma rule_of_drule_of: "rule_of (drule_of v n r) = stored_rule r"
  by (simp add: rule_of_def drule_of_def stored_rule_def persist_rule_def nullableGroupID_def)

lemma lower_byte_prefix: "HasPrefix s p \<Longrightarrow> HasPrefix (map lower_byte s) (map lower_byte p)"
  by (auto simp: HasPrefix_def take_map)

lemma subscription_not_visible: "isSubscriptionRule r \<Longrightarrow> \<not> visible r"
  using lower_byte_prefix [of "r_Source r" "''subscription:''"]
  by (simp add: isSubscriptionRule_def visible_def sql_like_subscription_def lower_byte_def)

lemma rows_for_rules:
  assumes "rows_for L v rs rows"
  shows "map rule_of rows = map stored_rule rs" "map (r_Source \<circ> dr_rule) rows = map r_Source rs"
    "map (r_ID \<circ> dr_rule) rows = map r_ID rs"
  using assms unfolding rows_for_def
  by (induction rule: list_all2_induct) (auto simp: rule_of_drule_of, auto simp: drule_of_def)

lemma visible_row: "visible (rule_of x) = (\<not> sql_like_subscription (r_Source (dr_rule x)))"
  by (simp add: visible_def rule_of_def)

lemma mset_select_rules:
  assumes "select_rules d = Inr rules"
  shows "mset rules = filter_mset visible (image_mset rule_of (mset (d_rules d)))"
proof -
  have "rules = map rule_of (filter (\<lambda>x. visible (rule_of x)) (sort_key drule_order (d_rules d)))"
    using assms by (simp add: select_rules_def visible_row)
  then show ?thesis by (simp add: filter_mset_image_mset comp_def)
qed

lemma select_rules_visible: "select_rules d = Inr rules \<Longrightarrow> r \<in> set rules \<Longrightarrow> visible r"
  using mset_select_rules [of d rules] by (metis filter_mset_eq_conv in_multiset_in_set mem_Collect_eq set_mset_filter)

lemma select_rules_not_subscription:
  "select_rules d = Inr rules \<Longrightarrow> r \<in> set rules \<Longrightarrow> \<not> isSubscriptionRule r"
  using select_rules_visible subscription_not_visible by blast

lemma table_ok_ids: "table_ok L d \<Longrightarrow> distinct (map (r_ID \<circ> dr_rule) (d_rules d))"
  by (auto simp: table_ok_def rows_sound_def comp_def split: list.splits)

lemma select_rules_distinct:
  assumes "store_ok L d" and "select_rules d = Inr rules"
  shows "distinct (map r_ID rules)"
proof -
  have "distinct (map (r_ID \<circ> dr_rule) (sort_key drule_order (d_rules d)))"
    using table_ok_ids [of L d] assms(1) by (simp add: store_ok_def distinct_map)
  then show ?thesis
    using assms(2) distinct_map_filter [of "r_ID \<circ> dr_rule"]
    by (auto simp: select_rules_def rule_of_def comp_def)
qed

text \<open>After a publication the list shows the visible rules of the published list.\<close>

lemma published_list:
  assumes "published L C rules d v d'" and "select_rules d' = Inr out"
  shows "\<exists>rs. validateRules L rules = Inr rs \<and> mset out = filter_mset visible (image_mset stored_rule (mset rs))"
proof -
  from assms(1) obtain rs row e where "candidate L rules d rs row" "activated L (vv_version row) rs e d'"
    unfolding published_def by blast
  then obtain rows where "rows_for L (vv_version row) rs rows" "d_rules d' = rows"
    by (auto simp: activated_def)
  then have "mset (map rule_of (d_rules d')) = mset (map stored_rule rs)"
    by (simp add: rows_for_rules(1))
  with mset_select_rules [OF assms(2)] \<open>candidate L rules d rs row\<close> show ?thesis
    by (auto simp: candidate_def)
qed

section \<open>What each operation publishes\<close>

lemma delete_loop_eq:
  "delete_loop i rules =
     (if \<exists>r \<in> set rules. r_ID r = i \<and> isSubscriptionRule r then Inl subscription_source_error
      else Inr (i \<in> r_ID ` set rules, filter (\<lambda>r. r_ID r \<noteq> i) rules))"
  by (induction rules) (auto split: if_splits)

definition switch :: "string \<Rightarrow> Rule \<Rightarrow> Rule" where
  "switch operation r = (if operation = ''enable'' then r\<lparr>r_Enabled := True\<rparr>
     else if operation = ''disable'' then r\<lparr>r_Enabled := False\<rparr> else r)"

lemma batch_loop_ok:
  assumes "batch_loop operation ids rules = Inr (found, routes, out)"
  shows "found = length (filter (\<lambda>r. r_ID r \<in> set ids) rules)
     \<and> routes = filter (\<lambda>r. r_ID r \<in> set ids \<and> r_Category r = ''route'') rules
     \<and> out = map (\<lambda>r. if r_ID r \<in> set ids then switch operation r else r)
          (filter (\<lambda>r. r_ID r \<notin> set ids \<or> operation \<noteq> ''delete'') rules)"
  using assms
  by (induction rules arbitrary: found routes out)
    (auto simp: Let_def switch_def split: if_splits sum.splits prod.splits)

definition patched :: "int \<Rightarrow> int \<Rightarrow> Rule \<Rightarrow> Rule \<Rightarrow> Rule" where
  "patched i now patch r = patch\<lparr>r_ID := i, r_CreatedAtMS := r_CreatedAtMS r,
     r_UpdatedAtMS := (if now \<le> r_UpdatedAtMS r then r_UpdatedAtMS r + 1 else now),
     r_Source := (if r_Source patch = '''' then r_Source r else r_Source patch)\<rparr>"

lemma patched_sel [simp]:
  "r_ID (patched i now patch r) = i" "r_CreatedAtMS (patched i now patch r) = r_CreatedAtMS r"
  by (simp_all add: patched_def)

lemma patched_newer: "r_UpdatedAtMS r < r_UpdatedAtMS (patched i now patch r)"
  by (simp add: patched_def)

lemma wp_update_loop_other:
  assumes "i \<notin> r_ID ` set rules" and "Q (False, rules) w"
  shows "wp (update_loop i patch rules) E Q w"
  using assms
proof (induction rules arbitrary: Q)
  case (Cons r rules)
  then have "wp (update_loop i patch rules) E (\<lambda>a. wp (case a of (found, rest) \<Rightarrow> returnM (found, r # rest)) E Q) w"
    by (intro Cons.IH) (auto intro!: wp_intros)
  with Cons.prems(1) show ?case by (auto intro: wp_bindM_I)
qed (auto intro: wp_intros)

lemma wp_update_loop:
  fixes w :: "'m world"
  assumes "distinct (map r_ID rules)"
    and "\<And>e w'. w_db w' = w_db w \<Longrightarrow> w_ext w' = w_ext w \<Longrightarrow>
      \<exists>r \<in> set rules. r_ID r = i \<and> (isSubscriptionRule r \<and> e = subscription_source_error
         \<or> \<not> isSubscriptionRule r \<and> e = ErrRuleConflict
           \<and> (r_UpdatedAtMS patch = 0 \<or> r_UpdatedAtMS patch \<noteq> r_UpdatedAtMS r)) \<Longrightarrow> E e w'"
    and "\<And>w'. w_db w' = w_db w \<Longrightarrow> w_ext w' = w_ext w \<Longrightarrow> i \<notin> r_ID ` set rules \<Longrightarrow> Q (False, rules) w'"
    and "\<And>w' r now. w_db w' = w_db w \<Longrightarrow> w_ext w' = w_ext w \<Longrightarrow> r \<in> set rules \<Longrightarrow> r_ID r = i \<Longrightarrow>
      \<not> isSubscriptionRule r \<Longrightarrow> r_UpdatedAtMS patch = r_UpdatedAtMS r \<Longrightarrow> r_UpdatedAtMS patch \<noteq> 0 \<Longrightarrow>
      Q (True, map (\<lambda>x. if r_ID x = i then patched i now patch x else x) rules) w'"
  shows "wp (update_loop i patch rules) E Q w"
  using assms
proof (induction rules arbitrary: Q)
  case Nil
  then show ?case by (auto intro!: wp_intros)
next
  case (Cons x rules)
  show ?case
  proof (cases "r_ID x = i")
    case True
    with Cons.prems(1) have i: "i \<notin> r_ID ` set rules" by auto
    have id: "map (\<lambda>x. if r_ID x = i then patched i now patch x else x) rules = rules" for now
      by (rule map_idI) (use i in auto)
    show ?thesis
      using True i id Cons.prems(2) Cons.prems(4) [of _ x]
      by (auto intro!: wp_intros wp_update_loop_other simp: patched_def [symmetric])
  next
    case False
    have "wp (update_loop i patch rules) E
        (\<lambda>a. wp (case a of (found, rest) \<Rightarrow> returnM (found, x # rest)) E Q) w"
    proof (rule Cons.IH)
      fix w' :: "'m world" and r now
      assume "w_db w' = w_db w" "w_ext w' = w_ext w" "r \<in> set rules" "r_ID r = i" "\<not> isSubscriptionRule r"
        "r_UpdatedAtMS patch = r_UpdatedAtMS r" "r_UpdatedAtMS patch \<noteq> 0"
      with False show "wp (case (True, map (\<lambda>x. if r_ID x = i then patched i now patch x else x) rules) of
          (found, rest) \<Rightarrow> returnM (found, x # rest)) E Q w'"
        using Cons.prems(4) [of w' r now] by (simp add: wp_returnM)
    qed (use False Cons.prems in \<open>auto intro!: wp_intros\<close>)
    with False show ?thesis by (simp add: wp_bindM)
  qed
qed

text \<open>
  \<open>Update\<close> in one rule: it fails before the publication and leaves the tables alone, or what it
  does is the publication of the list with the one rule patched.
\<close>

lemma wp_validateRouteWrite [wp_intros]:
  assumes "\<And>e w'. w_db w' = w_db w \<Longrightarrow> E e w'"
    and "\<And>w' expected. w_db w' = w_db w \<Longrightarrow> common_expected None rules = Inr expected \<Longrightarrow>
      routes_ok C rules expected \<Longrightarrow> Q () w'"
  shows "wp (validateRouteWrite C rules) E Q w"
  unfolding validateRouteWrite_def by (intro wp_intros) (auto intro: assms)

lemma wp_publish:
  assumes "\<And>v e w'. publish_failed L C rules (w_db w) v e (w_db w') \<Longrightarrow> E (v, e) w'"
    and "\<And>v w'. published L C rules (w_db w) v (w_db w') \<Longrightarrow> Q v w'"
  shows "wp (publish L C rules adminID requestID ip rollbackFrom) E Q w"
  using assms by (auto intro: wp_mono [OF publish_spec])

lemma Update_spec:
  assumes ok: "store_ok L (w_db w)"
    and "\<And>e w'. w_db w' = w_db w \<Longrightarrow> E (noVersion, e) w'"
    and "\<And>rules r now v e w'. select_rules (w_db w) = Inr rules \<Longrightarrow> r \<in> set rules \<Longrightarrow> r_ID r = i \<Longrightarrow>
      publish_failed L C (map (\<lambda>x. if r_ID x = i then patched i now patch x else x) rules) (w_db w) v e (w_db w') \<Longrightarrow> E (v, e) w'"
    and "\<And>rules r now v w'. select_rules (w_db w) = Inr rules \<Longrightarrow> r \<in> set rules \<Longrightarrow> r_ID r = i \<Longrightarrow>
      r_UpdatedAtMS patch = r_UpdatedAtMS r \<Longrightarrow>
      published L C (map (\<lambda>x. if r_ID x = i then patched i now patch x else x) rules) (w_db w) v (w_db w') \<Longrightarrow> Q v w'"
  shows "wp (Update L C i patch adminID requestID ip) E Q w"
  unfolding Update_def
  by (intro wp_intros wp_update_loop wp_publish)
    (auto intro: assms select_rules_distinct [OF ok])

lemma Batch_spec:
  assumes "\<And>e w'. w_db w' = w_db w \<Longrightarrow> E (noVersion, e) w'"
    and "\<And>rules routes out v e w'. select_rules (w_db w) = Inr rules \<Longrightarrow>
      batch_loop operation ids rules = Inr (length (remdups ids), routes, out) \<Longrightarrow>
      publish_failed L C out (w_db w) v e (w_db w') \<Longrightarrow> E (v, e) w'"
    and "\<And>rules routes out v w'. select_rules (w_db w) = Inr rules \<Longrightarrow>
      batch_loop operation ids rules = Inr (length (remdups ids), routes, out) \<Longrightarrow>
      published L C out (w_db w) v (w_db w') \<Longrightarrow> Q v w'"
  shows "wp (Batch L C operation ids expected adminID requestID ip) E Q w"
  unfolding Batch_def
  by (intro wp_intros wp_publish) (auto intro: assms)

lemma Delete_spec:
  assumes "\<And>e w'. w_db w' = w_db w \<Longrightarrow> E (noVersion, e) w'"
    and "\<And>rules v e w'. select_rules (w_db w) = Inr rules \<Longrightarrow> i \<in> r_ID ` set rules \<Longrightarrow>
      publish_failed L C (filter (\<lambda>r. r_ID r \<noteq> i) rules) (w_db w) v e (w_db w') \<Longrightarrow> E (v, e) w'"
    and "\<And>rules v w'. select_rules (w_db w) = Inr rules \<Longrightarrow> i \<in> r_ID ` set rules \<Longrightarrow>
      published L C (filter (\<lambda>r. r_ID r \<noteq> i) rules) (w_db w) v (w_db w') \<Longrightarrow> Q v w'"
  shows "wp (Delete L C i adminID requestID ip) E Q w"
  unfolding Delete_def
  by (intro wp_intros wp_publish) (auto intro: assms simp: delete_loop_eq split: if_splits)

lemma Rollback_spec:
  assumes "\<And>e w'. w_db w' = w_db w \<Longrightarrow> E (noVersion, e) w'"
    and "\<And>row v e w'. select_version source (w_db w) = Inr row \<Longrightarrow>
      publish_failed L C (vv_rules row) (w_db w) v e (w_db w') \<Longrightarrow> E (v, e) w'"
    and "\<And>row v w'. select_version source (w_db w) = Inr row \<Longrightarrow>
      published L C (vv_rules row) (w_db w) v (w_db w') \<Longrightarrow> Q v w'"
  shows "wp (Rollback L C source expected adminID requestID ip) E Q w"
  unfolding Rollback_def
  by (intro wp_intros wp_publish) (auto intro: assms)

end
