(* ===== verification/RuleEffects.thy ===== *)
theory RuleEffects
  imports RuleService
begin

text \<open>
  What the administrator sees after an operation of the rule service: the list that \<open>List\<close>
  returns, the optimistic lock on \<open>updated_at_ms\<close>, the freshness of rule ids, and the fact that
  a confirmed candidate can always be made active.
\<close>

section \<open>Published lists\<close>

lemma published_rules:
  assumes "published L C rules d v d'" and "select_rules d' = Inr out" and "y \<in> set out"
  shows "\<exists>x \<in> set rules. \<exists>r. same_rule x r \<and> y = stored_rule r \<and> visible r"
proof -
  from published_list [OF assms(1,2)] obtain rs where rs: "validateRules L rules = Inr rs"
    and out: "mset out = filter_mset visible (image_mset stored_rule (mset rs))" by blast
  have "y \<in> set_mset (filter_mset visible (image_mset stored_rule (mset rs)))"
    using assms(3) by (simp flip: out)
  then obtain r where r: "r \<in> set rs" "y = stored_rule r" "visible y" by auto
  moreover have "visible (stored_rule r) = visible r" by (simp add: visible_def stored_rule_def)
  moreover have "list_all2 same_rule rules rs" using validateRules_sound [OF rs] by simp
  then obtain x where "x \<in> set rules" "same_rule x r"
    using r(1) by (metis in_set_conv_nth list_all2_conv_all_nth)
  ultimately show ?thesis by blast
qed

lemma stored_rule_sel [simp]:
  "r_ID (stored_rule r) = r_ID r" "r_UpdatedAtMS (stored_rule r) = r_UpdatedAtMS r"
  "r_Source (stored_rule r) = r_Source r" "r_Enabled (stored_rule r) = r_Enabled r"
  "r_CreatedAtMS (stored_rule r) = r_CreatedAtMS r"
  by (simp_all add: stored_rule_def persist_rule_def)

section \<open>The list after a publication, exactly\<close>

lemma validate_loop_check:
  "validate_loop L seen k rules = Inr out \<Longrightarrow> list_all2 (\<lambda>r r'. check_rule L r = Inr r') rules out"
  by (induction L seen k rules arbitrary: out rule: validate_loop.induct)
    (auto simp: Let_def split: if_splits sum.splits)

lemma validateRules_check:
  "validateRules L rules = Inr out \<Longrightarrow> list_all2 (\<lambda>r r'. check_rule L r = Inr r') rules out"
  by (auto simp: validateRules_def split: if_splits dest: validate_loop_check)

text \<open>The order of \<open>List\<close>, on rules.\<close>

definition rule_order :: "Rule \<Rightarrow> string \<times> int \<times> string \<times> string \<times> int" where
  "rule_order r = (r_Category r, r_Priority r, r_MatchType r, r_Pattern r, r_ID r)"

definition canonical :: "rlib \<Rightarrow> Rule list \<Rightarrow> bool" where
  "canonical L rules = (list_all (\<lambda>r. rule_wf L r \<and> stored_rule r = r \<and> visible r) rules
     \<and> distinct (map rule_key rules) \<and> length rules \<le> 200000
     \<and> length (filter (\<lambda>r. r_MatchType r = ''regexp'') rules) \<le> 500 \<and> distinct (map r_ID rules))"

lemma list_all2_set2: "list_all2 P xs ys \<Longrightarrow> y \<in> set ys \<Longrightarrow> \<exists>x \<in> set xs. P x y"
  by (induction rule: list_all2_induct) auto

lemma insort_key_cong: "(\<And>y. y \<in> insert x (set xs) \<Longrightarrow> k y = k' y) \<Longrightarrow> insort_key k x xs = insort_key k' x xs"
  by (induction xs) auto

lemma sort_key_cong: "(\<And>y. y \<in> set xs \<Longrightarrow> k y = k' y) \<Longrightarrow> sort_key k xs = sort_key k' xs"
  by (induction xs) (auto intro: insort_key_cong)

lemma stored_rule_idem [simp]: "stored_rule (stored_rule r) = stored_rule r"
  by (simp add: stored_rule_def persist_rule_def)

lemma TrimSpace_Nil [simp]: "TrimSpace [] = []"
proof -
  have "TrimLeftRunes rs [] = []" for rs
    by (subst TrimLeftRunes.simps) (auto simp: HasPrefix_def find_Some_iff split: option.splits)
  then show ?thesis by (simp add: TrimSpace_def)
qed

lemma stored_rule_wf: "rule_wf L r \<Longrightarrow> rule_wf L (stored_rule r)"
  by (auto simp: rule_wf_def stored_rule_def persist_rule_def)

lemma visible_stored [simp]: "visible (stored_rule r) = visible r"
  by (simp add: visible_def)

lemma stored_rule_fields [simp]:
  "rule_key (stored_rule r) = rule_key r" "r_MatchType (stored_rule r) = r_MatchType r"
  "rule_order (stored_rule r) = rule_order r"
  by (simp_all add: rule_key_def rule_order_def stored_rule_def persist_rule_def)

lemma normalized_is_pattern:
  assumes "lib_ok L" and "rule_wf L r" and "normalize L (r_Pattern r) (r_MatchType r) = Inr n"
  shows "n = r_Pattern r"
  using assms normalize_idem [OF assms(1)] by (auto simp: rule_wf_def)

lemma rows_for_order:
  assumes "lib_ok L" and "list_all (rule_wf L) rs" and "rows_for L v rs rows" and "x \<in> set rows"
  shows "drule_order x = rule_order (rule_of x)"
proof -
  from assms(3,4) obtain r n where r: "r \<in> set rs" "normalize L (r_Pattern r) (r_MatchType r) = Inr n" "x = drule_of v n r"
    unfolding rows_for_def by (blast dest: list_all2_set2)
  with normalized_is_pattern [OF assms(1) _ r(2)] assms(2) have "n = r_Pattern r" by (simp add: list_all_iff)
  with r(3) show ?thesis by (simp add: rule_of_drule_of) (simp add: drule_order_def rule_order_def drule_of_def)
qed

lemma table_list:
  assumes "lib_ok L" and "list_all (rule_wf L) rs" and "rows_for L v rs (d_rules d)"
  shows "select_rules d = Inr (sort_key rule_order (filter visible (map stored_rule rs)))"
proof -
  have "sort_key drule_order (d_rules d) = sort_key (\<lambda>x. rule_order (rule_of x)) (d_rules d)"
    using rows_for_order [OF assms] by (intro sort_key_cong) simp
  then have "map rule_of (sort_key drule_order (d_rules d)) = sort_key rule_order (map stored_rule rs)"
    by (simp add: sort_key_map [symmetric] rows_for_rules(1) [OF assms(3)])
  then have "filter visible (map rule_of (sort_key drule_order (d_rules d)))
      = sort_key rule_order (filter visible (map stored_rule rs))"
    by (simp only: filter_sort)
  then show ?thesis by (simp add: select_rules_def visible_row [symmetric] filter_map comp_def)
qed

lemma list_after_publish:
  assumes "lib_ok L" and "published L C rules d v d'"
  shows "\<exists>rs. validateRules L rules = Inr rs
     \<and> select_rules d' = Inr (sort_key rule_order (filter visible (map stored_rule rs)))
     \<and> distinct (map r_ID rs)"
proof -
  from assms(2) obtain rs row e where cand: "candidate L rules d rs row"
    and act: "activated L (vv_version row) rs e d'"
    unfolding published_def by blast
  from cand have v: "validateRules L rules = Inr rs" by (simp add: candidate_def)
  from act have rows: "rows_for L (vv_version row) rs (d_rules d')" "rows_sound (d_rules d')" by (auto simp: activated_def)
  have "list_all (rule_wf L) rs" using validateRules_sound [OF v] by simp
  from table_list [OF assms(1) this rows(1)] v rows(2) rows_for_rules(3) [OF rows(1)] show ?thesis
    by (auto simp: rows_sound_def comp_def)
qed

text \<open>What \<open>List\<close> returns is canonical: validating and publishing it again changes nothing.\<close>

lemma table_ok_rows:
  assumes "store_ok L d" and "d_rules d \<noteq> []"
  shows "\<exists>a \<in> set (d_versions d). vv_status a = Active \<and> rows_for L (vv_version a) (vv_rules a) (d_rules d)
     \<and> rows_sound (d_rules d) \<and> row_ok L a"
proof -
  from assms obtain a where "actives d = [a]" "rows_for L (vv_version a) (vv_rules a) (d_rules d)"
      "rows_sound (d_rules d)"
    by (auto simp: store_ok_def table_ok_def split: list.splits)
  moreover from this(1) have "a \<in> set (d_versions d)" "vv_status a = Active"
    unfolding actives_def by (metis (mono_tags, lifting) filter_eq_ConsD in_set_conv_decomp)+
  ultimately show ?thesis using assms(1) by (auto simp: store_ok_def list_all_iff)
qed

lemma distinct_map_sort_filter:
  "distinct (map k xs) \<Longrightarrow> distinct (map k (sort_key f (filter P xs)))"
  by (simp add: distinct_map inj_on_def)

lemma length_filter_filter: "length (filter P (filter Q xs)) \<le> length (filter P xs)"
  by (induction xs) auto

lemma canonical_sort:
  assumes "list_all (rule_wf L) rs" and "distinct (map rule_key rs)" and "length rs \<le> 200000"
    and "length (filter (\<lambda>r. r_MatchType r = ''regexp'') rs) \<le> 500" and "distinct (map r_ID rs)"
  shows "canonical L (sort_key rule_order (filter visible (map stored_rule rs)))"
proof -
  let ?ys = "filter visible (map stored_rule rs)"
  have "map rule_key (map stored_rule rs) = map rule_key rs" "map r_ID (map stored_rule rs) = map r_ID rs"
    by simp_all
  with assms(2,5) have "distinct (map rule_key (sort_key rule_order ?ys))" "distinct (map r_ID (sort_key rule_order ?ys))"
    by (metis distinct_map_sort_filter)+
  moreover have "length ?ys \<le> 200000" by (rule le_trans [OF length_filter_le]) (simp add: assms(3))
  moreover have "length (filter (\<lambda>r. r_MatchType r = ''regexp'') ?ys) \<le> 500"
    using assms(4) length_filter_filter [of "\<lambda>r. r_MatchType r = ''regexp''" visible "map stored_rule rs"]
    by (simp add: filter_map comp_def)
  moreover have "length (filter P (sort_key rule_order ?ys)) = length (filter P ?ys)" for P
    by (simp only: filter_sort length_sort)
  ultimately show ?thesis
    using assms(1) unfolding canonical_def by (auto simp: list_all_iff stored_rule_wf)
qed

lemma select_rules_canonical:
  assumes "lib_ok L" and "store_ok L d" and "select_rules d = Inr rules"
  shows "canonical L rules" and "sorted (map rule_order rules)"
proof -
  have "canonical L rules \<and> sorted (map rule_order rules)"
  proof (cases "d_rules d = []")
    case True
    with assms(3) show ?thesis by (simp add: select_rules_def canonical_def)
  next
    case False
    with table_ok_rows [OF assms(2)] obtain a where rows: "rows_for L (vv_version a) (vv_rules a) (d_rules d)"
        "rows_sound (d_rules d)" and ok: "row_ok L a" by blast
    have ids: "distinct (map r_ID (vv_rules a))"
      using rows(2) rows_for_rules(3) [OF rows(1)] by (simp add: rows_sound_def comp_def)
    have "rules = sort_key rule_order (filter visible (map stored_rule (vv_rules a)))"
      using table_list [OF assms(1) _ rows(1)] ok assms(3) by (simp add: row_ok_def)
    then show ?thesis using canonical_sort [of L "vv_rules a"] ok ids by (simp add: row_ok_def)
  qed
  then show "canonical L rules" and "sorted (map rule_order rules)" by simp_all
qed

lemma validateRules_canonical:
  assumes "lib_ok L" and "canonical L rules"
  shows "validateRules L rules = Inr rules"
  using assms validate_loop_idem [OF assms(1), of rules "[]" 0]
  by (auto simp: canonical_def validateRules_def list_all_iff)

text \<open>Publishing a canonical, sorted list makes it the list.\<close>

lemma publish_canonical:
  assumes "lib_ok L" and "canonical L rules" and "published L C rules d v d'"
  shows "select_rules d' = Inr (sort_key rule_order rules)"
proof -
  have "filter visible (map stored_rule rules) = rules"
    using assms(2) by (auto simp: canonical_def list_all_iff filter_map_eq_self map_idI)
  with list_after_publish [OF assms(1,3)] validateRules_canonical [OF assms(1,2)] show ?thesis by auto
qed

lemma canonical_filter: "canonical L rules \<Longrightarrow> canonical L (filter P rules)"
  using length_filter_filter [of "\<lambda>r. r_MatchType r = ''regexp''" P rules]
  by (auto simp: canonical_def list_all_iff distinct_map_filter intro: le_trans [OF length_filter_le])

lemma Delete_exact:
  assumes "lib_ok L" and "store_ok L (w_db w)" and "select_rules (w_db w) = Inr rules"
    and "Delete L C i adminID requestID ip w = (Inr v, w')"
  shows "select_rules (w_db w') = Inr (filter (\<lambda>r. r_ID r \<noteq> i) rules)"
proof -
  note can = select_rules_canonical [OF assms(1-3)]
  have "published L C (filter (\<lambda>r. r_ID r \<noteq> i) rules) (w_db w) v (w_db w')"
    using wp_Inr [OF Delete_spec [where E = "\<lambda>_ _. True" and w = w and
        Q = "\<lambda>v w'. published L C (filter (\<lambda>r. r_ID r \<noteq> i) rules) (w_db w) v (w_db w')"] assms(4)] assms(3)
    by auto
  from publish_canonical [OF assms(1) canonical_filter [OF can(1)] this] can(2) show ?thesis
    by (simp add: sort_key_id_if_sorted sorted_filter)
qed

lemma switch_fields [simp]:
  "rule_order (switch operation r) = rule_order r" "rule_key (switch operation r) = rule_key r"
  "rule_wf L (switch operation r) = rule_wf L r" "visible (switch operation r) = visible r"
  "r_MatchType (switch operation r) = r_MatchType r" "r_ID (switch operation r) = r_ID r"
  "r_UpdatedAtMS (switch operation r) = r_UpdatedAtMS r" "r_CreatedAtMS (switch operation r) = r_CreatedAtMS r"
  by (simp_all add: switch_def rule_order_def rule_key_def rule_wf_def visible_def)

lemma stored_switch [simp]: "stored_rule (switch operation r) = switch operation (stored_rule r)"
  by (simp add: switch_def stored_rule_def persist_rule_def)

lemma canonical_switch:
  "canonical L rules \<Longrightarrow> canonical L (map (\<lambda>r. if P r then switch operation r else r) rules)"
  by (auto simp: canonical_def list_all_iff comp_def if_distrib filter_map cong: if_cong)

lemma Batch_exact:
  assumes "lib_ok L" and "store_ok L (w_db w)" and "select_rules (w_db w) = Inr rules"
    and "Batch L C operation ids expected adminID requestID ip w = (Inr v, w')"
  shows "select_rules (w_db w') = Inr
     (if operation = ''delete'' then filter (\<lambda>r. r_ID r \<notin> set ids) rules
      else map (\<lambda>r. if r_ID r \<in> set ids then switch operation r else r) rules)"
proof -
  note can = select_rules_canonical [OF assms(1-3)]
  let ?out = "map (\<lambda>r. if r_ID r \<in> set ids then switch operation r else r)
      (filter (\<lambda>r. r_ID r \<notin> set ids \<or> operation \<noteq> ''delete'') rules)"
  have pub: "published L C ?out (w_db w) v (w_db w')"
    using wp_Inr [OF Batch_spec [where E = "\<lambda>_ _. True" and w = w and
        Q = "\<lambda>v w'. published L C ?out (w_db w) v (w_db w')"] assms(4)] assms(3) batch_loop_ok
    by fastforce
  have out: "canonical L ?out" by (intro canonical_switch canonical_filter can(1))
  have "map rule_order ?out = map rule_order (filter (\<lambda>r. r_ID r \<notin> set ids \<or> operation \<noteq> ''delete'') rules)"
    by simp
  then have "sorted (map rule_order ?out)" using can(2) by (simp only: sorted_filter)
  then have "select_rules (w_db w') = Inr ?out"
    using publish_canonical [OF assms(1) out pub] by (simp only: sort_key_id_if_sorted)
  then show ?thesis by (auto intro!: map_idI)
qed

section \<open>Rule ids\<close>

definition rule_counter :: "db \<Rightarrow> int" where
  "rule_counter d = (case d_state d next_rule_id of None \<Rightarrow> 0
     | Some s \<Rightarrow> (case ParseInt s of Inl _ \<Rightarrow> 0 | Inr i \<Rightarrow> i))"

definition ids_ok :: "db \<Rightarrow> bool" where
  "ids_ok d = (\<forall>x \<in> set (d_versions d). \<forall>r \<in> set (vv_rules x). r_ID r \<le> rule_counter d)"

lemma count_up_eq: "first + int n \<le> int64_max \<Longrightarrow> count_up n first = map (\<lambda>k. first + 1 + int k) [0..<n]"
proof (induction n arbitrary: first)
  case (Suc n)
  then have "count_up n (first + 1) = map (\<lambda>k. first + 1 + 1 + int k) [0..<n]" by simp
  moreover have "inc64 first = first + 1" using Suc.prems by (simp add: inc64_def)
  moreover have "map (\<lambda>k. first + 1 + int k) [0..<Suc n] = (first + 1) # map (\<lambda>k. first + 1 + 1 + int k) [0..<n]"
    by (simp add: upt_conv_Cons map_Suc_upt [symmetric] del: upt_Suc)
  ultimately show ?case by simp
qed simp

lemma wp_reserveRuleIDs [wp_intros]:
  assumes "\<And>e w'. d_versions (w_db w') = d_versions (w_db w) \<Longrightarrow> d_rules (w_db w') = d_rules (w_db w) \<Longrightarrow> E e w'"
    and "\<And>ids w'. ids = count_up n (rule_counter (w_db w)) \<Longrightarrow> 1 \<le> n \<Longrightarrow>
      w_db w' = (w_db w)\<lparr>d_state := (d_state (w_db w))(next_rule_id \<mapsto> FormatInt (last ids))\<rparr> \<Longrightarrow>
      int64_min \<le> rule_counter (w_db w) \<Longrightarrow> Q ids w'"
  shows "wp (reserveRuleIDs n) E Q w"
proof -
  have zero: "ParseInt ''0'' = Inr 0" by code_simp
  have min: "int64_min \<le> 0" by (simp add: int64_min_def)
  have ins: "d' = (if d_state d k = None then d\<lparr>d_state := (d_state d)(k \<mapsto> v)\<rparr> else d)"
    if "state_insert_ignore k v d = Inr d'" for k v d d'
    using that by (auto simp: state_insert_ignore_def split: option.splits)
  have upd: "d' = (if d_state d k = None then d else d\<lparr>d_state := (d_state d)(k \<mapsto> v)\<rparr>)"
    if "state_update k v d = Inr d'" for k v d d'
    using that by (auto simp: state_update_def split: option.splits)
  show ?thesis
    unfolding reserveRuleIDs_def
    by (intro wp_intros)
      (auto simp: state_select_def rule_counter_def zero min
        split: option.splits if_splits intro!: assms(2) intro: assms(1) dest: ParseInt_range dest!: ins upd)
qed

lemma count_up_ne: "1 \<le> n \<Longrightarrow> count_up n i \<noteq> []"
  by (cases n) simp_all

lemma reserved_counter:
  assumes "rule_counter d + int n \<le> int64_max" and "int64_min \<le> rule_counter d" and "1 \<le> n"
    and "d' = d\<lparr>d_state := (d_state d)(next_rule_id \<mapsto> FormatInt (last (count_up n (rule_counter d))))\<rparr>"
  shows "rule_counter d' = rule_counter d + int n"
proof -
  have "last (count_up n (rule_counter d)) = rule_counter d + int n"
    using assms(1,3) by (simp add: count_up_eq last_map)
  then show ?thesis using assms(1,2) by (simp add: assms(4) rule_counter_def)
qed

text \<open>The rule that \<open>Create\<close> adds.\<close>

definition new_rule :: "int \<Rightarrow> int \<Rightarrow> Rule \<Rightarrow> Rule" where
  "new_rule i now r = r\<lparr>r_ID := i, r_CreatedAtMS := now, r_UpdatedAtMS := now,
     r_Source := (if r_Source r = '''' then ''manual'' else r_Source r)\<rparr>"

lemma Create_spec:
  assumes "\<And>e w'. d_versions (w_db w') = d_versions (w_db w) \<Longrightarrow> d_rules (w_db w') = d_rules (w_db w) \<Longrightarrow>
      E (noVersion, e) w'"
    and "\<And>v e w'. E (v, e) w'"
    and "\<And>rules now d v w'. \<not> isSubscriptionRule r \<Longrightarrow> select_rules (w_db w) = Inr rules \<Longrightarrow>
      int64_min \<le> rule_counter (w_db w) \<Longrightarrow>
      d = (w_db w)\<lparr>d_state := (d_state (w_db w))(next_rule_id \<mapsto> FormatInt (inc64 (rule_counter (w_db w))))\<rparr> \<Longrightarrow>
      published L C (rules @ [new_rule (inc64 (rule_counter (w_db w))) now r]) d v (w_db w') \<Longrightarrow> Q v w'"
  shows "wp (Create L C r adminID requestID ip) E Q w"
  unfolding Create_def nextRuleID_def new_rule_def [symmetric] Let_def
  by (intro wp_intros wp_publish) (auto intro: assms)

lemma select_rules_frame: "d_rules d' = d_rules d \<Longrightarrow> select_rules d' = select_rules d"
  by (simp add: select_rules_def)

lemma store_ok_frame:
  "d_versions d' = d_versions d \<Longrightarrow> d_rules d' = d_rules d \<Longrightarrow> store_ok L d' = store_ok L d"
  unfolding store_ok_def table_ok_def actives_def by (simp only:)

lemma validateRules_append:
  assumes "lib_ok L" and "list_all (rule_wf L) rules" and "validateRules L (rules @ [r]) = Inr rs"
  shows "\<exists>r'. check_rule L r = Inr r' \<and> rs = rules @ [r']"
proof -
  from validateRules_check [OF assms(3)] obtain us vs where rs: "rs = us @ vs"
    and us: "list_all2 (\<lambda>r r'. check_rule L r = Inr r') rules us"
    and vs: "list_all2 (\<lambda>r r'. check_rule L r = Inr r') [r] vs"
    by (auto simp: list_all2_append1)
  from us assms(2) have "us = rules"
    by (induction rule: list_all2_induct) (auto simp: check_rule_idem [OF assms(1)])
  with rs vs show ?thesis by (auto simp: list_all2_Cons1)
qed

lemma Create_exact:
  assumes "lib_ok L" and "store_ok L (w_db w)" and "select_rules (w_db w) = Inr rules"
    and "Create L C r adminID requestID ip w = (Inr v, w')"
  shows "\<exists>r' now out. check_rule L (new_rule (inc64 (rule_counter (w_db w))) now r) = Inr r'
     \<and> select_rules (w_db w') = Inr out
     \<and> mset out = mset rules + (if visible r' then {#stored_rule r'#} else {#})"
proof -
  note can = select_rules_canonical [OF assms(1-3)]
  have "\<exists>now d. published L C (rules @ [new_rule (inc64 (rule_counter (w_db w))) now r]) d v (w_db w')"
    by (rule wp_Inr [OF Create_spec [where E = "\<lambda>_ _. True"] assms(4)]) (use assms(3) in auto)
  then obtain now d where pub: "published L C (rules @ [new_rule (inc64 (rule_counter (w_db w))) now r]) d v (w_db w')"
    by blast
  from list_after_publish [OF assms(1) pub] obtain rs
    where v: "validateRules L (rules @ [new_rule (inc64 (rule_counter (w_db w))) now r]) = Inr rs"
      and out: "select_rules (w_db w') = Inr (sort_key rule_order (filter visible (map stored_rule rs)))" by blast
  have "list_all (rule_wf L) rules" using can(1) by (auto simp: canonical_def list_all_iff)
  from validateRules_append [OF assms(1) this v] obtain r'
    where r': "check_rule L (new_rule (inc64 (rule_counter (w_db w))) now r) = Inr r'" "rs = rules @ [r']" by blast
  have "filter visible (map stored_rule rules) = rules"
    using can(1) by (auto simp: canonical_def list_all_iff filter_map_eq_self map_idI)
  with out r' show ?thesis by (intro exI [of _ r'] exI [of _ now]) simp
qed

section \<open>Rollback\<close>

definition list_of_version :: "version_row \<Rightarrow> Rule list" where
  "list_of_version x = sort_key rule_order (filter visible (map stored_rule (vv_rules x)))"

lemma active_list:
  assumes "lib_ok L" and "store_ok L d" and "x \<in> set (d_versions d)" and "vv_status x = Active"
  shows "select_rules d = Inr (list_of_version x)"
proof -
  have "x \<in> set (actives d)" using assms(3,4) by (simp add: actives_def)
  then have "rows_for L (vv_version x) (vv_rules x) (d_rules d)"
    using assms(2) by (auto simp: store_ok_def table_ok_def split: list.splits)
  moreover have "list_all (rule_wf L) (vv_rules x)"
    using assms(2,3) by (auto simp: store_ok_def list_all_iff row_ok_def)
  ultimately show ?thesis unfolding list_of_version_def by (intro table_list [OF assms(1)])
qed

lemma version_revalidates:
  assumes "lib_ok L" and "row_ok L x"
  shows "validateRules L (vv_rules x) = Inr (vv_rules x)"
  using assms(2) validate_loop_idem [OF assms(1), of "vv_rules x" "[]" 0]
  by (simp add: row_ok_def validateRules_def)

lemma Rollback_list:
  assumes "lib_ok L" and "store_ok L (w_db w)" and "x \<in> set (d_versions (w_db w))"
    and "Rollback L C (vv_version x) expected adminID requestID ip w = (Inr v, w')"
  shows "select_rules (w_db w') = Inr (list_of_version x)"
proof -
  have "published L C (vv_rules x) (w_db w) v (w_db w')"
    using wp_Inr [OF Rollback_spec [where E = "\<lambda>_ _. True" and w = w and
        Q = "\<lambda>v w'. published L C (vv_rules x) (w_db w) v (w_db w')"] assms(4)]
      select_version_unique [OF assms(2,3)] by blast
  moreover have "row_ok L x" using assms(2,3) by (auto simp: store_ok_def list_all_iff)
  ultimately show ?thesis
    using list_after_publish [OF assms(1)] version_revalidates [OF assms(1)]
    by (fastforce simp: list_of_version_def)
qed

section \<open>The optimistic lock\<close>

lemma Update_success:
  assumes "store_ok L (w_db w)" and "Update L C i patch adminID requestID ip w = (Inr v, w')"
  shows "\<exists>rules r now. select_rules (w_db w) = Inr rules \<and> r \<in> set rules \<and> r_ID r = i
     \<and> r_UpdatedAtMS patch = r_UpdatedAtMS r
     \<and> published L C (map (\<lambda>x. if r_ID x = i then patched i now patch x else x) rules) (w_db w) v (w_db w')"
  using wp_Inr [OF Update_spec [OF assms(1), where E = "\<lambda>_ _. True" and Q = "\<lambda>v w'. \<exists>rules r now.
       select_rules (w_db w) = Inr rules \<and> r \<in> set rules \<and> r_ID r = i \<and> r_UpdatedAtMS patch = r_UpdatedAtMS r
       \<and> published L C (map (\<lambda>x. if r_ID x = i then patched i now patch x else x) rules) (w_db w) v (w_db w')"]
     assms(2)] by blast

lemma Update_advances:
  assumes ok: "store_ok L (w_db w)" and u: "Update L C i patch adminID requestID ip w = (Inr v, w')"
    and out: "select_rules (w_db w') = Inr out" and y: "y \<in> set out" "r_ID y = i"
  shows "r_UpdatedAtMS patch < r_UpdatedAtMS y"
proof -
  from Update_success [OF ok u] obtain rules r now where rules: "select_rules (w_db w) = Inr rules"
    and r: "r \<in> set rules" "r_ID r = i" "r_UpdatedAtMS patch = r_UpdatedAtMS r"
    and pub: "published L C (map (\<lambda>x. if r_ID x = i then patched i now patch x else x) rules) (w_db w) v (w_db w')"
    by blast
  from published_rules [OF pub out y(1)] obtain x z where x: "x \<in> set rules"
    and z: "same_rule (if r_ID x = i then patched i now patch x else x) z" "y = stored_rule z" by auto
  have "r_ID x = i" using z y(2) same_rule_sel(1) [OF z(1)] by (simp split: if_splits)
  then have "x = r" using x r select_rules_distinct [OF ok rules] by (metis distinct_map inj_onD)
  then show ?thesis
    using z r same_rule_sel(10) [OF z(1)] patched_newer [of r i now patch] \<open>r_ID x = i\<close> by simp
qed

end
