(* ===== verification/Subscriptions.thy ===== *)
theory Subscriptions
  imports RuleEffects
begin

text \<open>
  Rule subscriptions (\<open>internal/rules/subscriptions.go\<close>): lists of domains that are uploaded or
  downloaded, stored next to the rules, and become part of every snapshot. Each operation first
  changes the source tables, then publishes, and undoes its change when the publication is
  known to have failed. URL parsing and the HTTP GET are parameters; the operation that downloads
  is split where its lock is released, so that other operations may run in between.
\<close>

section \<open>Data\<close>

record SubscriptionBinding =
  sb_ID :: int
  sb_UpstreamGroupID :: string
  sb_Priority :: int
  sb_createdAtMS :: int
  sb_updatedAtMS :: int

record Subscription =
  sub_ID :: int
  sub_Category :: string
  sub_Action :: string
  sub_Kind :: string
  sub_Name :: string
  sub_SourceURL :: string
  sub_RefreshIntervalSeconds :: int
  sub_Enabled :: bool
  sub_RuleCount :: nat
  sub_LastCheckedAtMS :: int
  sub_LastSuccessAtMS :: int
  sub_LastError :: string
  sub_CreatedAtMS :: int
  sub_UpdatedAtMS :: int
  sub_Binding :: "SubscriptionBinding option"

definition noSubscription :: Subscription where
  "noSubscription = \<lparr>sub_ID = 0, sub_Category = [], sub_Action = [], sub_Kind = [], sub_Name = [], sub_SourceURL = [],
     sub_RefreshIntervalSeconds = 0, sub_Enabled = False, sub_RuleCount = 0, sub_LastCheckedAtMS = 0,
     sub_LastSuccessAtMS = 0, sub_LastError = [], sub_CreatedAtMS = 0, sub_UpdatedAtMS = 0, sub_Binding = None\<rparr>"

record SubscriptionInput =
  in_Category :: string
  in_Action :: string
  in_Name :: string
  in_SourceURL :: string
  in_RefreshIntervalSeconds :: int
  in_Enabled :: bool
  in_UpstreamGroupID :: string
  in_Priority :: "int option"
  in_ExpectedUpstreamRegistryVersion :: "uint64 option"

record BindingInput =
  bn_UpstreamGroupID :: string
  bn_Priority :: int
  bn_ExpectedUpstreamRegistryVersion :: uint64

section \<open>Statements on the source tables\<close>

text \<open>
  \<open>AUTOINCREMENT\<close>: without an id the row gets the successor of the largest one ever used.
  \<open>ON DELETE CASCADE\<close> removes the binding with its subscription.
\<close>

definition insert_sub :: "(int \<Rightarrow> sub_row) \<Rightarrow> db \<Rightarrow> error + int \<times> db" where
  "insert_sub mk d =
     (let i = d_sub_seq d + 1 in
      if \<not> sub_check (mk i) then Inl Constraint
      else Inr (i, d\<lparr>d_subs := d_subs d @ [mk i], d_sub_seq := i\<rparr>))"

definition reinsert_sub :: "sub_row \<Rightarrow> db \<Rightarrow> error + db" where
  "reinsert_sub row d =
     (if \<not> sub_check row \<or> list_ex (\<lambda>s. su_id s = su_id row) (d_subs d) then Inl Constraint
      else Inr (d\<lparr>d_subs := d_subs d @ [row], d_sub_seq := max (d_sub_seq d) (su_id row)\<rparr>))"

definition binding_conflict :: "db \<Rightarrow> binding_row \<Rightarrow> bool" where
  "binding_conflict d b = (\<not> binding_check b
     \<or> list_ex (\<lambda>x. bi_id x = bi_id b \<or> bi_subscription_id x = bi_subscription_id b) (d_bindings d)
     \<or> \<not> list_ex (\<lambda>s. su_id s = bi_subscription_id b) (d_subs d))"

definition insert_binding :: "(int \<Rightarrow> binding_row) \<Rightarrow> db \<Rightarrow> error + db" where
  "insert_binding mk d =
     (let i = d_bind_seq d + 1 in
      if binding_conflict d (mk i) then Inl Constraint
      else Inr (d\<lparr>d_bindings := d_bindings d @ [mk i], d_bind_seq := i\<rparr>))"

definition reinsert_binding :: "binding_row \<Rightarrow> db \<Rightarrow> error + db" where
  "reinsert_binding b d =
     (if binding_conflict d b then Inl Constraint
      else Inr (d\<lparr>d_bindings := d_bindings d @ [b], d_bind_seq := max (d_bind_seq d) (bi_id b)\<rparr>))"

definition delete_sub :: "int \<Rightarrow> db \<Rightarrow> error + db" where
  "delete_sub i d = Inr (d\<lparr>d_subs := filter (\<lambda>s. su_id s \<noteq> i) (d_subs d),
     d_bindings := filter (\<lambda>b. bi_subscription_id b \<noteq> i) (d_bindings d)\<rparr>)"

definition update_sub :: "int \<Rightarrow> (sub_row \<Rightarrow> sub_row) \<Rightarrow> db \<Rightarrow> error + db" where
  "update_sub i f d =
     (let subs = map (\<lambda>s. if su_id s = i then f s else s) (d_subs d) in
      if \<not> list_all sub_check subs then Inl Constraint else Inr (d\<lparr>d_subs := subs\<rparr>))"

definition update_binding :: "int \<Rightarrow> (binding_row \<Rightarrow> binding_row) \<Rightarrow> db \<Rightarrow> error + db" where
  "update_binding sid f d =
     (let bs = map (\<lambda>b. if bi_subscription_id b = sid then f b else b) (d_bindings d) in
      if \<not> list_all binding_check bs then Inl Constraint else Inr (d\<lparr>d_bindings := bs\<rparr>))"

definition subscription_of :: "sub_row \<Rightarrow> binding_row option \<Rightarrow> Subscription" where
  "subscription_of s b = \<lparr>sub_ID = su_id s, sub_Category = su_category s, sub_Action = su_action s, sub_Kind = su_kind s,
     sub_Name = su_name s, sub_SourceURL = su_source_url s, sub_RefreshIntervalSeconds = su_refresh_interval_seconds s,
     sub_Enabled = su_enabled s, sub_RuleCount = su_rule_count s, sub_LastCheckedAtMS = su_last_checked_at_ms s,
     sub_LastSuccessAtMS = su_last_success_at_ms s, sub_LastError = su_last_error s, sub_CreatedAtMS = su_created_at_ms s,
     sub_UpdatedAtMS = su_updated_at_ms s,
     sub_Binding = (case b of None \<Rightarrow> None
       | Some x \<Rightarrow> Some \<lparr>sb_ID = bi_id x, sb_UpstreamGroupID = bi_upstream_group_id x, sb_Priority = bi_priority x,
           sb_createdAtMS = bi_created_at_ms x, sb_updatedAtMS = bi_updated_at_ms x\<rparr>)\<rparr>"

definition select_sub :: "int \<Rightarrow> db \<Rightarrow> error + sub_row" where
  "select_sub i d = first_row (\<lambda>s. su_id s = i) (d_subs d)"

definition select_subscription :: "int \<Rightarrow> db \<Rightarrow> error + Subscription" where
  "select_subscription i d = (case select_sub i d of Inl e \<Rightarrow> Inl e
     | Inr s \<Rightarrow> Inr (subscription_of s (binding_of d i)))"

definition subscription :: "int \<Rightarrow> (error, 'm world, Subscription) prog" where
  "subscription i = db_query (select_subscription i)"

definition select_subscriptions :: "string \<Rightarrow> string \<Rightarrow> db \<Rightarrow> error + Subscription list" where
  "select_subscriptions category action d =
     Inr (map (\<lambda>s. subscription_of s (binding_of d (su_id s)))
       (filter (\<lambda>s. category = '''' \<and> action = '''' \<or> su_category s = category \<and> su_action s = action)
         (sort_key (\<lambda>s. (su_created_at_ms s, su_id s)) (d_subs d))))"

definition Subscriptions :: "string \<Rightarrow> string \<Rightarrow> (error, 'm world, Subscription list) prog" where
  "Subscriptions category action =
     bindM (guardM (category = '''' \<and> action = '''' \<or> validAction category action)
        (Msg ''invalid category/action'')) (\<lambda>_.
     db_query (select_subscriptions category action))"

section \<open>Validation and parsing\<close>

text \<open>\<open>time.Duration(n) * time.Second\<close>: a product of signed 64-bit integers.\<close>

definition seconds :: "int \<Rightarrow> int" where
  "seconds n = sint (word_of_int n * word_of_int 1000000000 :: int64)"

definition minRefreshInterval :: int where "minRefreshInterval = 900 * 1000000000"
definition maxRefreshInterval :: int where "maxRefreshInterval = 2592000 * 1000000000"
definition maxSubscriptionSize :: nat where "maxSubscriptionSize = 20971520"

definition validateSubscriptionInput :: "SubscriptionInput \<Rightarrow> string \<Rightarrow> error + unit" where
  "validateSubscriptionInput i kind =
     (if \<not> validAction (in_Category i) (in_Action i) \<or> in_Category i = ''logging'' then
        Inl (Msg ''invalid subscription category/action'')
      else if TrimSpace (in_Name i) = '''' \<or> 128 < RuneCount (in_Name i) then
        Inl (Msg ''subscription name must contain 1..128 characters'')
      else if kind = ''url'' \<and> TrimSpace (in_SourceURL i) = '''' then
        Inl (Msg ''subscription source_url is required'')
      else if seconds (in_RefreshIntervalSeconds i) < minRefreshInterval
           \<or> maxRefreshInterval < seconds (in_RefreshIntervalSeconds i) then
        Inl (Msg ''refresh_interval_seconds must be between 900 and 2592000'')
      else Inr ())"

fun parse_lines :: "rlib \<Rightarrow> string list \<Rightarrow> string list \<Rightarrow> error + string list" where
  "parse_lines L patterns [] = Inr patterns"
| "parse_lines L patterns (raw # rest) =
     (let line = TrimSpace (TrimSuffix raw [CHR 0x0D]) in
      if line = '''' \<or> HasPrefix line ''#'' then parse_lines L patterns rest
      else (case normalize L line ''domain'' of
              Inl e \<Rightarrow> Inl (Wrap e (''invalid subscription domain '' @ lib_Quote L line @ '': '' @ Error e))
            | Inr pattern \<Rightarrow>
                (if pattern \<in> set patterns then parse_lines L patterns rest
                 else parse_lines L (patterns @ [pattern]) rest)))"

definition parseSubscription :: "rlib \<Rightarrow> string \<Rightarrow> error + string list" where
  "parseSubscription L body =
     (if length body = 0 \<or> maxSubscriptionSize < length body then
        Inl (Msg ''subscription file must contain 1..20971520 bytes'')
      else (case parse_lines L [] (Split (CHR 0x0A) body) of
              Inl e \<Rightarrow> Inl e
            | Inr patterns \<Rightarrow>
                (if length patterns = 0 then Inl (Msg ''subscription file contains no domains'') else Inr patterns)))"

definition checksum :: "rlib \<Rightarrow> string \<Rightarrow> string" where
  "checksum L body = ''sha256:'' @ lib_Sum L body"

definition truncateError :: "error \<Rightarrow> string" where
  "truncateError e = (let value = Error e in if 500 < length value then take 500 value else value)"

text \<open>
  The download: \<open>f_Parse\<close> is \<open>url.ParseRequestURI\<close> (scheme, host, \<open>String()\<close>), \<open>f_Get\<close> the GET
  request (status code and text, the body up to the limit or a read error, the final URL).
\<close>

datatype get_reply = GetFailed string | Got int string "string + string" string

record 'm fetcher =
  f_Parse :: "string \<Rightarrow> (string \<times> string \<times> string) option"
  f_Get :: "string \<Rightarrow> 'm \<Rightarrow> get_reply \<times> 'm"

definition check_download :: "get_reply \<Rightarrow> error + string \<times> string" where
  "check_download r = (case r of
       GetFailed t \<Rightarrow> Inl (Wrap (Msg t) (''download subscription: '' @ t))
     | Got code status body url \<Rightarrow>
         (if code \<noteq> 200 then Inl (Msg (''download subscription: HTTP '' @ status))
          else (case body of
              Inl t \<Rightarrow> Inl (Wrap (Msg t) (''read subscription: '' @ t))
            | Inr full \<Rightarrow>
                (let body = take (maxSubscriptionSize + 1) full in
                 if length body = 0 \<or> maxSubscriptionSize < length body then
                   Inl (Msg ''subscription file must contain 1..20971520 bytes'')
                 else Inr (body, url)))))"

definition downloadSubscription :: "'m fetcher \<Rightarrow> string \<Rightarrow> (error, 'm world, string \<times> string) prog" where
  "downloadSubscription F sourceURL =
     (case f_Parse F (TrimSpace sourceURL) of
        None \<Rightarrow> throwM (Msg ''subscription source_url must be an HTTP(S) URL'')
      | Some (scheme, host, url) \<Rightarrow>
          (if scheme \<noteq> ''http'' \<and> scheme \<noteq> ''https'' \<or> host = '''' then
             throwM (Msg ''subscription source_url must be an HTTP(S) URL'')
           else call (\<lambda>m. case f_Get F url m of (r, m') \<Rightarrow> (check_download r, m'))))"

section \<open>Bindings\<close>

definition validateBinding :: "'m client \<Rightarrow> string \<Rightarrow> int \<Rightarrow> uint64 \<Rightarrow> (error, 'm world, unit) prog" where
  "validateBinding C groupID priority expected =
     bindM (guardM (0 \<le> priority \<and> priority \<le> 1000) (Msg ''priority must be between 0 and 1000'')) (\<lambda>_.
     bindM (call (c_RegistryStatus C)) (\<lambda>registry.
     bindM (guardM (rg_Version registry = expected) ErrConflict) (\<lambda>_.
     guardM (list_ex (\<lambda>g. g_ID g = TrimSpace groupID \<and> g_Enabled g) (elems (rg_Groups registry)))
       (Msg ''upstream group must exist and be enabled''))))"

definition validateSubscriptionBinding :: "'m client \<Rightarrow> SubscriptionInput \<Rightarrow> (error, 'm world, unit) prog" where
  "validateSubscriptionBinding C i =
     (if in_Category i = ''access'' then
        guardM (TrimSpace (in_UpstreamGroupID i) = '''' \<and> in_Priority i = None
                \<and> in_ExpectedUpstreamRegistryVersion i = None)
          (Msg ''access subscriptions must not include a binding'')
      else (case (in_Priority i, in_ExpectedUpstreamRegistryVersion i) of
              (Some p, Some v) \<Rightarrow>
                (if TrimSpace (in_UpstreamGroupID i) = '''' then
                   throwM (Msg ''route subscriptions require upstream_group_id, priority, and expected_upstream_registry_version'')
                 else validateBinding C (in_UpstreamGroupID i) p v)
            | _ \<Rightarrow> throwM (Msg ''route subscriptions require upstream_group_id, priority, and expected_upstream_registry_version'')))"

section \<open>Compensation\<close>

text \<open>\<open>errors.Join(cause, restore())\<close>.\<close>

definition join_result :: "error \<Rightarrow> error + unit \<Rightarrow> error" where
  "join_result cause r = (case r of Inl e \<Rightarrow> Join cause e | Inr _ \<Rightarrow> cause)"

definition run_restore :: "error \<Rightarrow> (error, 'm world, unit) prog \<Rightarrow> ('e, 'm world, error) prog" where
  "run_restore cause restore = bindM (attemptM restore) (\<lambda>r. returnM (join_result cause r))"

definition failed_before_apply :: "version_row \<Rightarrow> bool" where
  "failed_before_apply row =
     (vv_status row = Failed \<and> vv_error_code row \<in> Some ` set
        [''VALIDATION_FAILED'', ''CHECKSUM_MISMATCH'', ''APPLY_FAILED'', ''APPLY_TIMEOUT_NOT_APPLIED''])"

definition restoreSubscriptionMutation ::
  "'m client \<Rightarrow> Version \<Rightarrow> error \<Rightarrow> (error, 'm world, unit) prog \<Rightarrow> ('e, 'm world, error) prog" where
  "restoreSubscriptionMutation C v cause restore =
     (if v_Version v = 0 then run_restore cause restore
      else
        bindM (attemptM (db_query (select_version (v_Version v)))) (\<lambda>r.
        case r of
          Inl _ \<Rightarrow> returnM (Join cause ErrUnknown)
        | Inr row \<Rightarrow>
            bindM (attemptM (call (c_Status C))) (\<lambda>st.
            let runs = (\<lambda>p. case st of Inl _ \<Rightarrow> False | Inr s \<Rightarrow> p s) in
            if runs (\<lambda>s. st_SnapshotVersion s = v_Version v \<and> st_Checksum s = vv_checksum row)
            then returnM (Join cause ErrUnknown)
            else if failed_before_apply row \<or> runs (\<lambda>s. st_SnapshotVersion s = vv_previous_version row)
            then run_restore cause restore
            else returnM (Join cause ErrUnknown))))"

type_synonym sub_failure = "Subscription \<times> Version \<times> error"

definition nosub :: "error \<Rightarrow> sub_failure" where
  "nosub e = (noSubscription, noVersion, e)"

text \<open>The error path that follows a failed publication in every operation on a subscription.\<close>

definition mutation_failed ::
  "'m client \<Rightarrow> int \<Rightarrow> Version \<Rightarrow> error \<Rightarrow> (error, 'm world, unit) prog \<Rightarrow> (sub_failure, 'm world, 'a) prog" where
  "mutation_failed C i v cause restore =
     bindM (restoreSubscriptionMutation C v cause restore) (\<lambda>err.
     if errors_Is err ErrUnknown then
       bindM (attemptM (subscription i)) (\<lambda>r. case r of
         Inl e \<Rightarrow> throwM (noSubscription, v, Join err e)
       | Inr item \<Rightarrow> throwM (item, v, err))
     else throwM (noSubscription, v, err))"

definition publish_all :: "rlib \<Rightarrow> 'm client \<Rightarrow> int \<Rightarrow> string \<Rightarrow> string \<Rightarrow> (Version \<times> error, 'm world, Version) prog" where
  "publish_all L C adminID requestID ip =
     bindM (early allRules) (\<lambda>rules. publish L C rules adminID requestID ip 0)"

definition publish_or_restore ::
  "rlib \<Rightarrow> 'm client \<Rightarrow> int \<Rightarrow> (error, 'm world, unit) prog \<Rightarrow> int \<Rightarrow> string \<Rightarrow> string \<Rightarrow>
     (sub_failure, 'm world, Subscription \<times> Version) prog" where
  "publish_or_restore L C i restore adminID requestID ip =
     bindM (attemptM (publish_all L C adminID requestID ip)) (\<lambda>r.
     case r of
       Inl (v, cause) \<Rightarrow> mutation_failed C i v cause restore
     | Inr v \<Rightarrow>
         bindM (mapErr (\<lambda>e. (noSubscription, v, e)) (subscription i)) (\<lambda>item. returnM (item, v)))"

section \<open>Operations\<close>

definition new_source :: "rlib \<Rightarrow> SubscriptionInput \<Rightarrow> string \<Rightarrow> string \<Rightarrow> string list \<Rightarrow> int \<Rightarrow> int \<Rightarrow> sub_row" where
  "new_source L input kind body patterns now = (\<lambda>i.
     \<lparr>su_id = i, su_category = in_Category input, su_action = in_Action input, su_kind = kind,
      su_name = TrimSpace (in_Name input), su_source_url = in_SourceURL input,
      su_refresh_interval_seconds = in_RefreshIntervalSeconds input, su_enabled = in_Enabled input,
      su_content_checksum = checksum L body, su_rule_count = length patterns,
      su_last_checked_at_ms = now, su_last_success_at_ms = now, su_last_error = [],
      su_created_at_ms = now, su_updated_at_ms = now, su_domains = patterns\<rparr>)"

definition new_binding :: "SubscriptionInput \<Rightarrow> int \<Rightarrow> int \<Rightarrow> int \<Rightarrow> binding_row" where
  "new_binding input now i = (\<lambda>b.
     \<lparr>bi_id = b, bi_subscription_id = i, bi_upstream_group_id = TrimSpace (in_UpstreamGroupID input),
      bi_priority = the (in_Priority input), bi_created_at_ms = now, bi_updated_at_ms = now\<rparr>)"

text \<open>A route without priority does not get past \<open>validateSubscriptionBinding\<close>.\<close>

definition insert_source ::
  "rlib \<Rightarrow> SubscriptionInput \<Rightarrow> string \<Rightarrow> string \<Rightarrow> string list \<Rightarrow> int \<Rightarrow> (error, 'm world, int) prog" where
  "insert_source L input kind body patterns now =
     transaction
       (bindM (db_run (insert_sub (new_source L input kind body patterns now))) (\<lambda>i.
        bindM (if in_Category input = ''route'' then db_exec (insert_binding (new_binding input now i)) else returnM ())
          (\<lambda>_. returnM i)))"

definition createSubscription ::
  "rlib \<Rightarrow> 'm client \<Rightarrow> SubscriptionInput \<Rightarrow> string \<Rightarrow> string \<Rightarrow> int \<Rightarrow> string \<Rightarrow> string \<Rightarrow>
     (sub_failure, 'm world, Subscription \<times> Version) prog" where
  "createSubscription L C input kind body adminID requestID ip =
     bindM (mapErr nosub (liftM (parseSubscription L body))) (\<lambda>patterns.
     bindM (mapErr nosub (validateSubscriptionBinding C input)) (\<lambda>_.
     bindM (mapErr nosub time_now) (\<lambda>now.
     bindM (mapErr nosub (insert_source L input kind body patterns now)) (\<lambda>i.
     publish_or_restore L C i (db_exec (delete_sub i)) adminID requestID ip))))"

definition default_interval :: "SubscriptionInput \<Rightarrow> SubscriptionInput" where
  "default_interval i = (if in_RefreshIntervalSeconds i = 0 then i\<lparr>in_RefreshIntervalSeconds := 86400\<rparr> else i)"

definition CreateURLSubscription ::
  "rlib \<Rightarrow> 'm client \<Rightarrow> 'm fetcher \<Rightarrow> SubscriptionInput \<Rightarrow> int \<Rightarrow> string \<Rightarrow> string \<Rightarrow>
     (sub_failure, 'm world, Subscription \<times> Version) prog" where
  "CreateURLSubscription L C F input adminID requestID ip =
     (let input = default_interval input in
      bindM (mapErr nosub (liftM (validateSubscriptionInput input ''url''))) (\<lambda>_.
      bindM (mapErr nosub (downloadSubscription F (in_SourceURL input))) (\<lambda>(body, url).
      createSubscription L C (input\<lparr>in_SourceURL := url\<rparr>) ''url'' body adminID requestID ip)))"

definition CreateUploadSubscription ::
  "rlib \<Rightarrow> 'm client \<Rightarrow> SubscriptionInput \<Rightarrow> string \<Rightarrow> string \<Rightarrow> int \<Rightarrow> string \<Rightarrow> string \<Rightarrow>
     (sub_failure, 'm world, Subscription \<times> Version) prog" where
  "CreateUploadSubscription L C input filename body adminID requestID ip =
     (let input = default_interval input in
      bindM (mapErr nosub (guardM (HasSuffix (ToLower L (TrimSpace filename)) ''.txt'')
         (Msg ''subscription upload must be a .txt file''))) (\<lambda>_.
      let input = (if in_Name input = '''' then input\<lparr>in_Name := filename\<rparr> else input) in
      bindM (mapErr nosub (liftM (validateSubscriptionInput input ''upload''))) (\<lambda>_.
      createSubscription L C input ''upload'' body adminID requestID ip)))"

text \<open>A change time strictly after the last one.\<close>

definition touch :: "int \<Rightarrow> int \<Rightarrow> int" where
  "touch now previous = (if now \<le> previous then previous + 1 else now)"

definition SetSubscriptionEnabled ::
  "rlib \<Rightarrow> 'm client \<Rightarrow> int \<Rightarrow> bool \<Rightarrow> int \<Rightarrow> string \<Rightarrow> string \<Rightarrow>
     (sub_failure, 'm world, Subscription \<times> Version) prog" where
  "SetSubscriptionEnabled L C i enabled adminID requestID ip =
     bindM (mapErr nosub (subscription i)) (\<lambda>item.
     if sub_Enabled item = enabled then returnM (item, noVersion)
     else
       bindM (mapErr nosub time_now) (\<lambda>now.
       bindM (mapErr nosub (db_exec (update_sub i (\<lambda>s. s\<lparr>su_enabled := enabled,
          su_updated_at_ms := touch now (sub_UpdatedAtMS item)\<rparr>)))) (\<lambda>_.
       publish_or_restore L C i
         (db_exec (update_sub i (\<lambda>s. s\<lparr>su_enabled := sub_Enabled item, su_updated_at_ms := sub_UpdatedAtMS item\<rparr>)))
         adminID requestID ip)))"

definition UpdateSubscriptionBinding ::
  "rlib \<Rightarrow> 'm client \<Rightarrow> int \<Rightarrow> BindingInput \<Rightarrow> int \<Rightarrow> string \<Rightarrow> string \<Rightarrow>
     (sub_failure, 'm world, Subscription \<times> Version) prog" where
  "UpdateSubscriptionBinding L C i input adminID requestID ip =
     bindM (mapErr nosub (subscription i)) (\<lambda>item.
     case sub_Binding item of
       None \<Rightarrow> throwM (nosub (Msg ''subscription is not a route subscription''))
     | Some b \<Rightarrow>
         bindM (mapErr nosub (guardM (sub_Category item = ''route'')
            (Msg ''subscription is not a route subscription''))) (\<lambda>_.
         bindM (mapErr nosub (validateBinding C (bn_UpstreamGroupID input) (bn_Priority input)
            (bn_ExpectedUpstreamRegistryVersion input))) (\<lambda>_.
         if sb_UpstreamGroupID b = TrimSpace (bn_UpstreamGroupID input) \<and> sb_Priority b = bn_Priority input
         then returnM (item, noVersion)
         else
           bindM (mapErr nosub time_now) (\<lambda>now.
           bindM (mapErr nosub (db_exec (update_binding i (\<lambda>x. x\<lparr>bi_upstream_group_id := TrimSpace (bn_UpstreamGroupID input),
              bi_priority := bn_Priority input, bi_updated_at_ms := now\<rparr>)))) (\<lambda>_.
           publish_or_restore L C i
             (db_exec (update_binding i (\<lambda>x. x\<lparr>bi_upstream_group_id := sb_UpstreamGroupID b,
                bi_priority := sb_Priority b, bi_updated_at_ms := sb_updatedAtMS b\<rparr>)))
             adminID requestID ip)))))"

definition restore_deleted :: "Subscription \<Rightarrow> string \<Rightarrow> string list \<Rightarrow> (error, 'm world, unit) prog" where
  "restore_deleted item contentChecksum domains =
     bindM (db_exec (reinsert_sub
       \<lparr>su_id = sub_ID item, su_category = sub_Category item, su_action = sub_Action item, su_kind = sub_Kind item,
        su_name = sub_Name item, su_source_url = sub_SourceURL item,
        su_refresh_interval_seconds = sub_RefreshIntervalSeconds item, su_enabled = sub_Enabled item,
        su_content_checksum = contentChecksum, su_rule_count = sub_RuleCount item,
        su_last_checked_at_ms = sub_LastCheckedAtMS item, su_last_success_at_ms = sub_LastSuccessAtMS item,
        su_last_error = sub_LastError item, su_created_at_ms = sub_CreatedAtMS item,
        su_updated_at_ms = sub_UpdatedAtMS item, su_domains = domains\<rparr>)) (\<lambda>_.
     case sub_Binding item of
       None \<Rightarrow> returnM ()
     | Some b \<Rightarrow> db_exec (reinsert_binding
         \<lparr>bi_id = sb_ID b, bi_subscription_id = sub_ID item, bi_upstream_group_id = sb_UpstreamGroupID b,
          bi_priority = sb_Priority b, bi_created_at_ms = sb_createdAtMS b, bi_updated_at_ms = sb_updatedAtMS b\<rparr>))"

definition DeleteSubscription ::
  "rlib \<Rightarrow> 'm client \<Rightarrow> int \<Rightarrow> int \<Rightarrow> string \<Rightarrow> string \<Rightarrow> (Version \<times> error, 'm world, Version) prog" where
  "DeleteSubscription L C i adminID requestID ip =
     bindM (early (subscription i)) (\<lambda>item.
     bindM (early (db_query (select_sub i))) (\<lambda>row1.
     bindM (early (db_query (select_sub i))) (\<lambda>row2.
     bindM (early (db_exec (delete_sub i))) (\<lambda>_.
     bindM (attemptM (publish_all L C adminID requestID ip)) (\<lambda>r.
     case r of
       Inl (v, cause) \<Rightarrow>
         bindM (restoreSubscriptionMutation C v cause
            (restore_deleted item (su_content_checksum row2) (su_domains row1))) (\<lambda>err. throwM (v, err))
     | Inr v \<Rightarrow> returnM v)))))"

section \<open>Refreshing\<close>

type_synonym refresh_failure = "Subscription \<times> Version option \<times> error"

definition norefresh :: "error \<Rightarrow> refresh_failure" where
  "norefresh e = (noSubscription, None, e)"

text \<open>\<open>sourceChecksum\<close> ignores its error and is then empty.\<close>

definition sourceChecksum :: "int \<Rightarrow> ('e, 'm world, string) prog" where
  "sourceChecksum i = bindM (attemptM (db_query (select_sub i))) (\<lambda>r.
     returnM (case r of Inl _ \<Rightarrow> [] | Inr s \<Rightarrow> su_content_checksum s))"

definition subscriptionFailure :: "Subscription \<Rightarrow> error \<Rightarrow> ('e, 'm world, error) prog" where
  "subscriptionFailure item cause =
     bindM (attemptM (subscription (sub_ID item))) (\<lambda>r. case r of
       Inl e \<Rightarrow> returnM (Join cause e)
     | Inr current \<Rightarrow>
         (if sub_UpdatedAtMS current \<noteq> sub_UpdatedAtMS item then returnM (Join cause ErrConflict)
          else
            bindM (attemptM time_now) (\<lambda>t.
            let now = (case t of Inl _ \<Rightarrow> 0 | Inr t \<Rightarrow> touch t (sub_UpdatedAtMS item)) in
            run_restore cause (db_exec (update_sub (sub_ID item) (\<lambda>s. s\<lparr>su_last_checked_at_ms := now,
              su_last_error := truncateError cause, su_updated_at_ms := now\<rparr>))))))"

text \<open>
  Before the locks are taken: read the row, download, parse. A failure is recorded in the row
  unless it changed meanwhile.
\<close>

definition refresh_fetch ::
  "rlib \<Rightarrow> 'm fetcher \<Rightarrow> int \<Rightarrow> (refresh_failure, 'm world, Subscription \<times> string \<times> string \<times> string list) prog" where
  "refresh_fetch L F i =
     bindM (mapErr norefresh (subscription i)) (\<lambda>item.
     bindM (mapErr norefresh (guardM (sub_Kind item = ''url'') (Msg ''uploaded subscriptions cannot be refreshed''))) (\<lambda>_.
     bindM (attemptM (downloadSubscription F (sub_SourceURL item))) (\<lambda>r. case r of
       Inl e \<Rightarrow> bindM (subscriptionFailure item e) (\<lambda>err. throwM (norefresh err))
     | Inr (body, url) \<Rightarrow>
         (case parseSubscription L body of
            Inl e \<Rightarrow> bindM (subscriptionFailure item e) (\<lambda>err. throwM (norefresh err))
          | Inr patterns \<Rightarrow> returnM (item, body, url, patterns)))))"

definition refresh_unchanged ::
  "int \<Rightarrow> string \<Rightarrow> int \<Rightarrow> (refresh_failure, 'm world, Subscription \<times> Version option) prog" where
  "refresh_unchanged i url now =
     bindM (attemptM (db_exec (update_sub i (\<lambda>s. s\<lparr>su_source_url := url, su_last_checked_at_ms := now,
        su_last_error := [], su_updated_at_ms := now\<rparr>)))) (\<lambda>u.
     bindM (attemptM (subscription i)) (\<lambda>g.
     case errors_Join (case u of Inl e \<Rightarrow> Some e | Inr _ \<Rightarrow> None) (case g of Inl e \<Rightarrow> Some e | Inr _ \<Rightarrow> None) of
       None \<Rightarrow> returnM (case g of Inl _ \<Rightarrow> noSubscription | Inr s \<Rightarrow> s, None)
     | Some e \<Rightarrow> throwM (case g of Inl _ \<Rightarrow> noSubscription | Inr s \<Rightarrow> s, None, e)))"

text \<open>The publication that ends a refresh; a failure of \<open>allRules\<close> leaves the version nil.\<close>

definition refresh_publish ::
  "rlib \<Rightarrow> 'm client \<Rightarrow> int \<Rightarrow> (error, 'm world, unit) prog \<Rightarrow> int \<Rightarrow> string \<Rightarrow> string \<Rightarrow>
     (refresh_failure, 'm world, Subscription \<times> Version option) prog" where
  "refresh_publish L C i restore adminID requestID ip =
     bindM (attemptM allRules) (\<lambda>r. case r of
       Inl e \<Rightarrow> bindM (restoreSubscriptionMutation C noVersion e restore) (\<lambda>err. throwM (norefresh err))
     | Inr rules \<Rightarrow>
         bindM (attemptM (publish L C rules adminID requestID ip 0)) (\<lambda>p. case p of
           Inl (v, cause) \<Rightarrow> mapErr (\<lambda>(s, v, e). (s, Some v, e)) (mutation_failed C i v cause restore)
         | Inr v \<Rightarrow> bindM (mapErr (\<lambda>e. (noSubscription, Some v, e)) (subscription i)) (\<lambda>item. returnM (item, Some v))))"

definition refresh_commit ::
  "rlib \<Rightarrow> 'm client \<Rightarrow> Subscription \<times> string \<times> string \<times> string list \<Rightarrow> int \<Rightarrow> string \<Rightarrow> string \<Rightarrow>
     (refresh_failure, 'm world, Subscription \<times> Version option) prog" where
  "refresh_commit L C = (\<lambda>(seen, body, url, patterns) adminID requestID ip.
     bindM (mapErr norefresh (subscription (sub_ID seen))) (\<lambda>item.
     let i = sub_ID item in
     if sub_UpdatedAtMS item \<noteq> sub_UpdatedAtMS seen then throwM (item, None, ErrConflict)
     else
       bindM (mapErr norefresh time_now) (\<lambda>t.
       let now = touch t (sub_UpdatedAtMS item) in
       bindM (sourceChecksum i) (\<lambda>current.
       if checksum L body = current then refresh_unchanged i url now
       else
         bindM (mapErr norefresh (db_query (select_sub i))) (\<lambda>previous.
         bindM (sourceChecksum i) (\<lambda>previousChecksum.
         bindM (mapErr norefresh (db_exec (update_sub i (\<lambda>s. s\<lparr>su_source_url := url,
            su_content_checksum := checksum L body, su_rule_count := length patterns,
            su_last_checked_at_ms := now, su_last_success_at_ms := now, su_last_error := [],
            su_updated_at_ms := now, su_domains := patterns\<rparr>)))) (\<lambda>_.
         refresh_publish L C i
           (db_exec (update_sub i (\<lambda>s. s\<lparr>su_source_url := sub_SourceURL item,
              su_content_checksum := previousChecksum, su_rule_count := sub_RuleCount item,
              su_last_checked_at_ms := sub_LastCheckedAtMS item, su_last_success_at_ms := sub_LastSuccessAtMS item,
              su_last_error := sub_LastError item, su_updated_at_ms := sub_UpdatedAtMS item,
              su_domains := su_domains previous\<rparr>)))
           adminID requestID ip)))))))"

definition RefreshSubscription ::
  "rlib \<Rightarrow> 'm client \<Rightarrow> 'm fetcher \<Rightarrow> int \<Rightarrow> int \<Rightarrow> string \<Rightarrow> string \<Rightarrow>
     (refresh_failure, 'm world, Subscription \<times> Version option) prog" where
  "RefreshSubscription L C F i adminID requestID ip =
     bindM (refresh_fetch L F i) (\<lambda>fetched. refresh_commit L C fetched adminID requestID ip)"

definition refresh_due :: "int \<Rightarrow> Subscription \<Rightarrow> bool" where
  "refresh_due now item = (sub_Kind item = ''url'' \<and> sub_Enabled item
     \<and> sub_RefreshIntervalSeconds item * 1000 \<le> now - sub_LastCheckedAtMS item)"

definition RefreshDue :: "rlib \<Rightarrow> 'm client \<Rightarrow> 'm fetcher \<Rightarrow> ('e, 'm world, unit) prog" where
  "RefreshDue L C F =
     bindM (attemptM (Subscriptions [] [])) (\<lambda>r. case r of
       Inl _ \<Rightarrow> returnM ()
     | Inr items \<Rightarrow>
         bindM (attemptM time_now) (\<lambda>t. case t of
           Inl _ \<Rightarrow> returnM ()
         | Inr now \<Rightarrow> traverseM (\<lambda>item.
             if refresh_due now item
             then bindM (attemptM (RefreshSubscription L C F (sub_ID item) 0 ''subscription_refresh'' []))
                    (\<lambda>_. returnM ())
             else returnM ()) items))"

end
