(* ===== verification/SubscriptionEffects.thy ===== *)
theory SubscriptionEffects
  imports Subscriptions
begin

text \<open>
  What the operations on subscriptions guarantee: the tables of sources and bindings stay
  consistent, a publication that is known to have failed leaves them as they were, and a
  successful one leaves the active snapshot with exactly the enabled sources. Changes that can
  be undone are an interface (\<open>source_change\<close>) with one instance per operation.
\<close>

section \<open>The source tables\<close>

definition source_row_ok :: "sub_row \<Rightarrow> bool" where
  "source_row_ok s = (sub_check s \<and> su_rule_count s = length (su_domains s) \<and> su_domains s \<noteq> [] \<and> distinct (su_domains s))"

definition sources_ok :: "db \<Rightarrow> bool" where
  "sources_ok d =
     (distinct (map su_id (d_subs d)) \<and> (\<forall>s \<in> set (d_subs d). su_id s \<le> d_sub_seq d)
      \<and> distinct (map bi_id (d_bindings d)) \<and> (\<forall>b \<in> set (d_bindings d). bi_id b \<le> d_bind_seq d)
      \<and> distinct (map bi_subscription_id (d_bindings d))
      \<and> list_all binding_check (d_bindings d) \<and> list_all source_row_ok (d_subs d)
      \<and> (\<forall>b \<in> set (d_bindings d). \<exists>s \<in> set (d_subs d). su_id s = bi_subscription_id b \<and> su_category s = ''route''))"

text \<open>Row order is not observable: every query orders its result by unique keys.\<close>

definition same_sources :: "db \<Rightarrow> db \<Rightarrow> bool" where
  "same_sources d d' = (mset (d_subs d') = mset (d_subs d) \<and> mset (d_bindings d') = mset (d_bindings d))"

definition untouched :: "db \<Rightarrow> db \<Rightarrow> bool" where
  "untouched d d' = (d_subs d' = d_subs d \<and> d_bindings d' = d_bindings d
     \<and> d_sub_seq d' = d_sub_seq d \<and> d_bind_seq d' = d_bind_seq d)"

lemma sources_ok_empty: "sources_ok empty_db"
  by (simp add: sources_ok_def empty_db_def)

lemma untouched_refl [simp]: "untouched d d"
  by (simp add: untouched_def)

lemma untouched_trans: "untouched d e \<Longrightarrow> untouched e f \<Longrightarrow> untouched d f"
  by (simp add: untouched_def)

lemma untouched_same: "untouched d e \<Longrightarrow> same_sources d e"
  by (simp add: untouched_def same_sources_def)

lemma untouched_ok: "untouched d e \<Longrightarrow> sources_ok e = sources_ok d"
  by (simp add: untouched_def sources_ok_def)

lemma same_sources_refl [simp]: "same_sources d d"
  by (simp add: same_sources_def)

lemma same_sources_trans: "same_sources d e \<Longrightarrow> same_sources e f \<Longrightarrow> same_sources d f"
  by (simp add: same_sources_def)

lemma published_untouched: "published L C rules d v d' \<Longrightarrow> untouched d d'"
  by (auto simp: published_def activated_def staged_def untouched_def)

lemma publish_failed_untouched: "publish_failed L C rules d v e d' \<Longrightarrow> untouched d d'"
  by (auto simp: publish_failed_def staged_def untouched_def)

lemma untouched_source_sets: "untouched d d' \<Longrightarrow> source_sets d' = source_sets d"
  by (simp add: untouched_def source_sets_def select_sources_def binding_of_def)

text \<open>The active snapshot has exactly the enabled sources of the tables.\<close>

definition in_sync :: "db \<Rightarrow> bool" where
  "in_sync d = (\<exists>a. actives d = [a] \<and> source_sets d = Inr (sn_SubscriptionSets (vv_snapshot a)))"

lemma published_in_sync:
  assumes "published L C rules d v d'" and ok: "store_ok L d"
  shows "in_sync d'"
proof -
  from assms(1) obtain rs row s c m where cand: "candidate L rules d rs row"
    and s: "s \<in> {Pending, Unknown}"
    and act: "activated L (vv_version row) rs (staged d (restate row s c m)) d'"
    unfolding published_def by blast
  let ?x = "restate row s c m"
  from act obtain now rows audit where "d' = (staged d ?x)\<lparr>d_versions :=
      map (activate (vv_version row) now) (d_versions (staged d ?x)), d_rules := rows, d_audit := insert_rows audit (d_audit (staged d ?x))\<rparr>"
    unfolding activated_def by blast
  then have vs: "d_versions d' = map (activate (vv_version ?x) now) (d_versions (staged d ?x))" by simp
  have "store_ok L (staged d ?x)"
    using s by (intro store_ok_step [OF stage [OF cand] ok]) auto
  then have "actives d' = [activate (vv_version ?x) now ?x]"
    by (intro actives_activate [OF _ _ vs]) (simp_all add: store_ok_def staged_def)
  moreover have "source_sets d = Inr (sn_SubscriptionSets (vv_snapshot row))"
    using cand by (auto simp: candidate_def)
  moreover have "source_sets d' = source_sets d"
    by (rule untouched_source_sets [OF published_untouched [OF assms(1)]])
  ultimately show ?thesis by (simp add: in_sync_def)
qed

text \<open>
  How an operation ends that changed the source tables from \<open>d\<close> to \<open>d1\<close> and then published.
  A failed one has restored the tables, or met a database failure; or it kept the change, and
  says that the outcome is unknown, or did publish it.
\<close>

definition change_failed :: "db \<Rightarrow> db \<Rightarrow> error \<Rightarrow> db \<Rightarrow> bool" where
  "change_failed d d1 e d' = (same_sources d d' \<or> errors_Is e Fault
     \<or> untouched d1 d' \<and> (errors_Is e ErrUnknown \<or> in_sync d'))"

definition change_done :: "db \<Rightarrow> db \<Rightarrow> bool" where
  "change_done d1 d' = (untouched d1 d' \<and> in_sync d')"

section \<open>Compensation\<close>

lemma wp_run_restore:
  assumes "wp restore (\<lambda>e. Q (Join cause e)) (\<lambda>_. Q cause) w"
  shows "wp (run_restore cause restore) E Q w"
  using assms unfolding run_restore_def
  by (simp add: wp_bindM wp_attemptM wp_returnM join_result_def)

lemma wp_restoreSubscriptionMutation:
  assumes "\<And>s. w_db s = w_db w \<Longrightarrow> wp restore (\<lambda>e. Q (Join cause e)) (\<lambda>_. Q cause) s"
    and "\<And>w'. w_db w' = w_db w \<Longrightarrow> Q (Join cause ErrUnknown) w'"
  shows "wp (restoreSubscriptionMutation C v cause restore) E Q w"
  unfolding restoreSubscriptionMutation_def Let_def
  by (intro wp_intros wp_run_restore) (auto intro: assms)

lemma wp_report:
  fixes w :: "'m world"
  assumes "\<And>item err' w'. w_db w' = w_db w \<Longrightarrow> (\<And>t. errors_Is err t \<Longrightarrow> errors_Is err' t) \<Longrightarrow> E (item, v, err') w'"
  shows "wp (if errors_Is err ErrUnknown then
       bindM (attemptM (subscription i)) (\<lambda>r. case r of
         Inl e \<Rightarrow> throwM (noSubscription, v, Join err e)
       | Inr item \<Rightarrow> throwM (item, v, err))
     else throwM (noSubscription, v, err)) E Q w"
  unfolding subscription_def using assms by (intro wp_intros) auto

lemma wp_mutation_failed:
  fixes w :: "'m world"
  assumes "\<And>s. w_db s = w_db w \<Longrightarrow>
      wp restore (\<lambda>e w'. \<forall>item err w''. w_db w'' = w_db w' \<longrightarrow> errors_Is err e \<longrightarrow> E (item, v, err) w'')
        (\<lambda>_ w'. \<forall>item err w''. w_db w'' = w_db w' \<longrightarrow> E (item, v, err) w'') s"
    and "\<And>item err w'. w_db w' = w_db w \<Longrightarrow> errors_Is err ErrUnknown \<Longrightarrow> E (item, v, err) w'"
  shows "wp (mutation_failed C i v cause restore) E Q w"
  unfolding mutation_failed_def
proof (rule wp_bindM_I, rule wp_restoreSubscriptionMutation)
  fix s :: "'m world" assume "w_db s = w_db w"
  from assms(1) [OF this] show "wp restore
      (\<lambda>e. wp (if errors_Is (Join cause e) ErrUnknown then
         bindM (attemptM (subscription i)) (\<lambda>r. case r of
           Inl e' \<Rightarrow> throwM (noSubscription, v, Join (Join cause e) e')
         | Inr item \<Rightarrow> throwM (item, v, Join cause e))
       else throwM (noSubscription, v, Join cause e)) E Q)
      (\<lambda>_. wp (if errors_Is cause ErrUnknown then
         bindM (attemptM (subscription i)) (\<lambda>r. case r of
           Inl e' \<Rightarrow> throwM (noSubscription, v, Join cause e')
         | Inr item \<Rightarrow> throwM (item, v, cause))
       else throwM (noSubscription, v, cause)) E Q) s"
    by (rule wp_mono) (rule wp_report, simp)+
next
  fix w' :: "'m world" assume "w_db w' = w_db w"
  with assms(2) show "wp (if errors_Is (Join cause ErrUnknown) ErrUnknown then
       bindM (attemptM (subscription i)) (\<lambda>r. case r of
         Inl e' \<Rightarrow> throwM (noSubscription, v, Join (Join cause ErrUnknown) e')
       | Inr item \<Rightarrow> throwM (item, v, Join cause ErrUnknown))
     else throwM (noSubscription, v, Join cause ErrUnknown)) E Q w'"
    by (intro wp_report) auto
qed

text \<open>
  A change of the source tables that can be undone: \<open>captured d k\<close> says what the operation read
  before (its copy of the row), \<open>forward k\<close> is the change, \<open>restore k\<close> the compensation. On tables
  that only publication has touched since, the compensation brings the sources back, unless the
  database fails.
\<close>

locale source_change =
  fixes captured :: "db \<Rightarrow> 'k \<Rightarrow> bool"
    and forward :: "'k \<Rightarrow> db \<Rightarrow> error + db"
    and restore :: "'k \<Rightarrow> (error, 'm world, unit) prog"
  assumes undo: "sources_ok d \<Longrightarrow> captured d k \<Longrightarrow> forward k d = Inr d' \<Longrightarrow> untouched d' (w_db w) \<Longrightarrow>
      wp (restore k) (\<lambda>e _. e = Fault) (\<lambda>_ w'. same_sources d (w_db w')) w"
begin

lemma restored:
  fixes w :: "'m world"
  assumes ok: "sources_ok d" and cap: "captured d k" and fwd: "forward k d = Inr d1" and un: "untouched d1 (w_db w)"
    and E: "\<And>e w'. change_failed d d1 e (w_db w') \<Longrightarrow> Q e w'"
  shows "wp (restoreSubscriptionMutation C v cause (restore k)) E' Q w"
proof (rule wp_restoreSubscriptionMutation)
  fix s :: "'m world" assume "w_db s = w_db w"
  then have "wp (restore k) (\<lambda>e _. e = Fault) (\<lambda>_ w'. same_sources d (w_db w')) s"
    using un by (intro undo [OF ok cap fwd]) simp
  then show "wp (restore k) (\<lambda>e. Q (Join cause e)) (\<lambda>_. Q cause) s"
    by (rule wp_mono) (auto intro!: E simp: change_failed_def)
next
  fix w' :: "'m world" assume "w_db w' = w_db w"
  then show "Q (Join cause ErrUnknown) w'" using un by (intro E) (simp add: change_failed_def)
qed

lemma reported:
  fixes w :: "'m world"
  assumes ok: "sources_ok d" and cap: "captured d k" and fwd: "forward k d = Inr d1" and un: "untouched d1 (w_db w)"
    and E: "\<And>x e w'. change_failed d d1 e (w_db w') \<Longrightarrow> E (x, v, e) w'"
  shows "wp (mutation_failed C i v cause (restore k)) E Q w"
proof (rule wp_mutation_failed)
  fix s :: "'m world" assume "w_db s = w_db w"
  then have "wp (restore k) (\<lambda>e _. e = Fault) (\<lambda>_ w'. same_sources d (w_db w')) s"
    using un by (intro undo [OF ok cap fwd]) simp
  then show "wp (restore k)
      (\<lambda>e w'. \<forall>item err w''. w_db w'' = w_db w' \<longrightarrow> errors_Is err e \<longrightarrow> E (item, v, err) w'')
      (\<lambda>_ w'. \<forall>item err w''. w_db w'' = w_db w' \<longrightarrow> E (item, v, err) w'') s"
    by (rule wp_mono) (auto intro!: E simp: change_failed_def)
next
  fix item err and w' :: "'m world" assume "w_db w' = w_db w" "errors_Is err ErrUnknown"
  then show "E (item, v, err) w'" using un by (intro E) (simp add: change_failed_def)
qed

lemma failure_restores:
  fixes w :: "'m world"
  assumes ok: "sources_ok d" and cap: "captured d k" and fwd: "forward k d = Inr (w_db w)" and st: "store_ok L (w_db w)"
  shows "wp (publish_or_restore L C i (restore k) adminID requestID ip)
     (\<lambda>(x, v, e) w'. change_failed d (w_db w) e (w_db w')) (\<lambda>_ w'. change_done (w_db w) (w_db w')) w"
  unfolding publish_or_restore_def publish_all_def subscription_def
  by (intro wp_intros wp_publish reported [OF ok cap fwd])
    (auto simp: change_failed_def change_done_def dest: published_untouched publish_failed_untouched published_in_sync [OF _ st])

end

section \<open>The changes and their compensation\<close>

text \<open>Enabling: what is captured is the subscription read, and the time of the change.\<close>

lemma find_Some_eq: "find p xs = Some x \<Longrightarrow> x \<in> set xs \<and> p x"
  by (auto simp: find_Some_iff)

lemma select_sub_Inr: "select_sub i d = Inr s \<Longrightarrow> s \<in> set (d_subs d) \<and> su_id s = i"
  by (auto simp: select_sub_def dest: first_row_Inr)

lemma unique_id: "distinct (map f xs) \<Longrightarrow> x \<in> set xs \<Longrightarrow> y \<in> set xs \<Longrightarrow> f x = f y \<Longrightarrow> x = y"
  by (metis distinct_map inj_onD)

lemma sources_ok_checks:
  "sources_ok d \<Longrightarrow> list_all sub_check (d_subs d)" "sources_ok d \<Longrightarrow> list_all binding_check (d_bindings d)"
  "sources_ok d \<Longrightarrow> distinct (map su_id (d_subs d))" "sources_ok d \<Longrightarrow> distinct (map bi_subscription_id (d_bindings d))"
  by (auto simp: sources_ok_def source_row_ok_def list_all_iff)

lemma update_sub_Inr:
  "update_sub i f d = Inr d' \<Longrightarrow> d' = d\<lparr>d_subs := map (\<lambda>s. if su_id s = i then f s else s) (d_subs d)\<rparr>"
  by (simp add: update_sub_def Let_def split: if_splits)

lemma update_binding_Inr:
  "update_binding i f d = Inr d' \<Longrightarrow>
     d' = d\<lparr>d_bindings := map (\<lambda>b. if bi_subscription_id b = i then f b else b) (d_bindings d)\<rparr>"
  by (simp add: update_binding_def Let_def split: if_splits)

lemma update_sub_undo:
  assumes "list_all sub_check (d_subs d)" and "d_subs e = map (\<lambda>s. if su_id s = i then f s else s) (d_subs d)"
    and "\<And>s. s \<in> set (d_subs d) \<Longrightarrow> su_id s = i \<Longrightarrow> g (f s) = s \<and> su_id (f s) = i"
  shows "update_sub i g e = Inr (e\<lparr>d_subs := d_subs d\<rparr>)"
proof -
  have "map (\<lambda>s. if su_id s = i then g s else s) (d_subs e) = d_subs d"
    unfolding assms(2) map_map comp_def by (rule map_idI) (use assms(3) in auto)
  with assms(1) show ?thesis by (simp add: update_sub_def)
qed

lemma update_binding_undo:
  assumes "list_all binding_check (d_bindings d)"
    and "d_bindings e = map (\<lambda>b. if bi_subscription_id b = i then f b else b) (d_bindings d)"
    and "\<And>b. b \<in> set (d_bindings d) \<Longrightarrow> bi_subscription_id b = i \<Longrightarrow> g (f b) = b \<and> bi_subscription_id (f b) = i"
  shows "update_binding i g e = Inr (e\<lparr>d_bindings := d_bindings d\<rparr>)"
proof -
  have "map (\<lambda>b. if bi_subscription_id b = i then g b else b) (d_bindings e) = d_bindings d"
    unfolding assms(2) map_map comp_def by (rule map_idI) (use assms(3) in auto)
  with assms(1) show ?thesis by (simp add: update_binding_def)
qed

lemma wp_undo:
  assumes "u (w_db w) = Inr r" and "same_sources d r"
  shows "wp (db_exec u) (\<lambda>e _. e = Fault) (\<lambda>_ w'. same_sources d (w_db w')) w"
  using assms by (intro wp_intros) auto

definition enable_captured :: "db \<Rightarrow> int \<times> Subscription \<times> bool \<times> int \<Rightarrow> bool" where
  "enable_captured d = (\<lambda>(i, item, enabled, now). select_subscription i d = Inr item)"

definition enable_forward :: "int \<times> Subscription \<times> bool \<times> int \<Rightarrow> db \<Rightarrow> error + db" where
  "enable_forward = (\<lambda>(i, item, enabled, now).
     update_sub i (\<lambda>s. s\<lparr>su_enabled := enabled, su_updated_at_ms := touch now (sub_UpdatedAtMS item)\<rparr>))"

definition enable_restore :: "int \<times> Subscription \<times> bool \<times> int \<Rightarrow> (error, 'm world, unit) prog" where
  "enable_restore = (\<lambda>(i, item, enabled, now).
     db_exec (update_sub i (\<lambda>s. s\<lparr>su_enabled := sub_Enabled item, su_updated_at_ms := sub_UpdatedAtMS item\<rparr>)))"

lemma select_subscription_Inr:
  "select_subscription i d = Inr item \<Longrightarrow>
     \<exists>s \<in> set (d_subs d). su_id s = i \<and> item = subscription_of s (binding_of d i) \<and> select_sub i d = Inr s"
  by (auto simp: select_subscription_def split: sum.splits dest: select_sub_Inr)

interpretation enable: source_change enable_captured enable_forward enable_restore
proof (unfold_locales, clarsimp simp: enable_captured_def enable_forward_def enable_restore_def)
  fix d d' i item enabled now and w :: "'a world"
  assume ok: "sources_ok d" and sel: "select_subscription i d = Inr item"
    and fwd: "update_sub i (\<lambda>s. s\<lparr>su_enabled := enabled, su_updated_at_ms := touch now (sub_UpdatedAtMS item)\<rparr>) d = Inr d'"
    and un: "untouched d' (w_db w)"
  from select_subscription_Inr [OF sel] obtain s where s: "s \<in> set (d_subs d)" "su_id s = i"
    and item: "item = subscription_of s (binding_of d i)" by blast
  have "x = s" if "x \<in> set (d_subs d)" "su_id x = i" for x
    using that s unique_id [OF sources_ok_checks(3) [OF ok]] by blast
  then have "update_sub i (\<lambda>s. s\<lparr>su_enabled := sub_Enabled item, su_updated_at_ms := sub_UpdatedAtMS item\<rparr>) (w_db w)
      = Inr ((w_db w)\<lparr>d_subs := d_subs d\<rparr>)"
    using update_sub_Inr [OF fwd] un
    by (intro update_sub_undo [OF sources_ok_checks(1) [OF ok],
          where f = "\<lambda>s. s\<lparr>su_enabled := enabled, su_updated_at_ms := touch now (sub_UpdatedAtMS item)\<rparr>"])
      (auto simp: untouched_def item subscription_of_def)
  then show "wp (db_exec (update_sub i (\<lambda>s. s\<lparr>su_enabled := sub_Enabled item, su_updated_at_ms := sub_UpdatedAtMS item\<rparr>)))
      (\<lambda>e _. e = Fault) (\<lambda>_ w'. same_sources d (w_db w')) w"
    by (rule wp_undo) (use un update_sub_Inr [OF fwd] in \<open>simp add: same_sources_def untouched_def\<close>)
qed

definition binding_captured :: "db \<Rightarrow> int \<times> SubscriptionBinding \<times> string \<times> int \<times> int \<Rightarrow> bool" where
  "binding_captured d = (\<lambda>(i, b, g, p, now).
     \<exists>item. select_subscription i d = Inr item \<and> sub_Binding item = Some b)"

definition binding_forward :: "int \<times> SubscriptionBinding \<times> string \<times> int \<times> int \<Rightarrow> db \<Rightarrow> error + db" where
  "binding_forward = (\<lambda>(i, b, g, p, now). update_binding i (\<lambda>x. x\<lparr>bi_upstream_group_id := g, bi_priority := p, bi_updated_at_ms := now\<rparr>))"

definition binding_restore :: "int \<times> SubscriptionBinding \<times> string \<times> int \<times> int \<Rightarrow> (error, 'm world, unit) prog" where
  "binding_restore = (\<lambda>(i, b, g, p, now). db_exec (update_binding i (\<lambda>x. x\<lparr>bi_upstream_group_id := sb_UpstreamGroupID b,
     bi_priority := sb_Priority b, bi_updated_at_ms := sb_updatedAtMS b\<rparr>)))"

lemma subscription_of_binding:
  "sub_Binding (subscription_of s b) = Some x \<longleftrightarrow> (\<exists>r. b = Some r \<and> x = \<lparr>sb_ID = bi_id r,
     sb_UpstreamGroupID = bi_upstream_group_id r, sb_Priority = bi_priority r,
     sb_createdAtMS = bi_created_at_ms r, sb_updatedAtMS = bi_updated_at_ms r\<rparr>)"
  by (auto simp: subscription_of_def split: option.splits)

interpretation rebind: source_change binding_captured binding_forward binding_restore
proof (unfold_locales, clarsimp simp: binding_captured_def binding_forward_def binding_restore_def)
  fix d d' i b g p now item and w :: "'a world"
  assume ok: "sources_ok d" and sel: "select_subscription i d = Inr item" and b: "sub_Binding item = Some b"
    and fwd: "update_binding i (\<lambda>x. x\<lparr>bi_upstream_group_id := g, bi_priority := p, bi_updated_at_ms := now\<rparr>) d = Inr d'"
    and un: "untouched d' (w_db w)"
  from select_subscription_Inr [OF sel] b obtain r where r: "binding_of d i = Some r"
    and br: "b = \<lparr>sb_ID = bi_id r, sb_UpstreamGroupID = bi_upstream_group_id r, sb_Priority = bi_priority r,
      sb_createdAtMS = bi_created_at_ms r, sb_updatedAtMS = bi_updated_at_ms r\<rparr>"
    by (auto simp: subscription_of_binding)
  have "r \<in> set (d_bindings d)" "bi_subscription_id r = i" using r by (auto simp: binding_of_def dest: find_Some_eq)
  then have "x = r" if "x \<in> set (d_bindings d)" "bi_subscription_id x = i" for x
    using that unique_id [OF sources_ok_checks(4) [OF ok]] by blast
  then have "update_binding i (\<lambda>x. x\<lparr>bi_upstream_group_id := sb_UpstreamGroupID b, bi_priority := sb_Priority b,
      bi_updated_at_ms := sb_updatedAtMS b\<rparr>) (w_db w) = Inr ((w_db w)\<lparr>d_bindings := d_bindings d\<rparr>)"
    using update_binding_Inr [OF fwd] un
    by (intro update_binding_undo [OF sources_ok_checks(2) [OF ok],
          where f = "\<lambda>x. x\<lparr>bi_upstream_group_id := g, bi_priority := p, bi_updated_at_ms := now\<rparr>"])
      (auto simp: untouched_def br)
  then show "wp (db_exec (update_binding i (\<lambda>x. x\<lparr>bi_upstream_group_id := sb_UpstreamGroupID b, bi_priority := sb_Priority b,
      bi_updated_at_ms := sb_updatedAtMS b\<rparr>))) (\<lambda>e _. e = Fault) (\<lambda>_ w'. same_sources d (w_db w')) w"
    by (rule wp_undo) (use un update_binding_Inr [OF fwd] in \<open>simp add: same_sources_def untouched_def\<close>)
qed

type_synonym create_key = "int \<times> (int \<Rightarrow> sub_row) \<times> (int \<Rightarrow> int \<Rightarrow> binding_row) option"

definition create_captured :: "db \<Rightarrow> create_key \<Rightarrow> bool" where
  "create_captured d = (\<lambda>(i, mk, mb). i = d_sub_seq d + 1 \<and> su_id (mk i) = i
     \<and> (case mb of None \<Rightarrow> True | Some f \<Rightarrow> \<forall>b. bi_subscription_id (f i b) = i))"

definition create_forward :: "create_key \<Rightarrow> db \<Rightarrow> error + db" where
  "create_forward = (\<lambda>(i, mk, mb) d. case insert_sub mk d of Inl e \<Rightarrow> Inl e
     | Inr (j, d1) \<Rightarrow> (case mb of None \<Rightarrow> Inr d1 | Some f \<Rightarrow> insert_binding (f j) d1))"

definition create_restore :: "create_key \<Rightarrow> (error, 'm world, unit) prog" where
  "create_restore = (\<lambda>(i, mk, mb). db_exec (delete_sub i))"

interpretation create: source_change create_captured create_forward create_restore
proof (unfold_locales, clarsimp simp: create_captured_def create_forward_def create_restore_def split: sum.splits)
  fix d d' d1 j mk mb and w :: "'a world"
  assume ok: "sources_ok d" and ins: "insert_sub mk d = Inr (j, d1)" and un: "untouched d' (w_db w)"
    and mk: "su_id (mk (d_sub_seq d + 1)) = d_sub_seq d + 1"
    and mb: "case mb of None \<Rightarrow> True | Some f \<Rightarrow> \<forall>b. bi_subscription_id (f (d_sub_seq d + 1) b) = d_sub_seq d + 1"
    and fwd: "(case mb of None \<Rightarrow> Inr d1 | Some f \<Rightarrow> insert_binding (f j) d1) = Inr d'"
  let ?i = "d_sub_seq d + 1"
  have d1: "j = ?i" "d1 = d\<lparr>d_subs := d_subs d @ [mk ?i], d_sub_seq := ?i\<rparr>"
    using ins by (auto simp: insert_sub_def Let_def split: if_splits)
  have old: "su_id s \<noteq> ?i" if "s \<in> set (d_subs d)" for s using ok that by (auto simp: sources_ok_def)
  have oldb: "bi_subscription_id b \<noteq> ?i" if "b \<in> set (d_bindings d)" for b
    using ok that old unfolding sources_ok_def by metis
  have keep: "filter (\<lambda>s. su_id s \<noteq> ?i) (d_subs d) = d_subs d"
    "filter (\<lambda>b. bi_subscription_id b \<noteq> ?i) (d_bindings d) = d_bindings d"
    by (rule filter_map_eq_self, erule old) (rule filter_map_eq_self, erule oldb)
  have "filter (\<lambda>s. su_id s \<noteq> ?i) (d_subs d') = d_subs d \<and> filter (\<lambda>b. bi_subscription_id b \<noteq> ?i) (d_bindings d') = d_bindings d"
  proof (cases mb)
    case None
    then have "d' = d\<lparr>d_subs := d_subs d @ [mk ?i], d_sub_seq := ?i\<rparr>" using fwd by (simp add: d1)
    then show ?thesis using mk keep by simp
  next
    case (Some f)
    then have "d' = d1\<lparr>d_bindings := d_bindings d1 @ [f ?i (d_bind_seq d1 + 1)], d_bind_seq := d_bind_seq d1 + 1\<rparr>"
      using fwd by (simp add: insert_binding_def d1(1) Let_def split: if_splits)
    then show ?thesis using Some mk mb keep by (simp add: d1)
  qed
  then have "delete_sub ?i (w_db w) = Inr ((w_db w)\<lparr>d_subs := d_subs d, d_bindings := d_bindings d\<rparr>)"
    using un by (simp add: delete_sub_def untouched_def)
  then show "wp (db_exec (delete_sub ?i)) (\<lambda>e _. e = Fault) (\<lambda>_ w'. same_sources d (w_db w')) w"
    by (rule wp_undo) (simp add: same_sources_def)
qed

type_synonym refresh_key = "int \<times> Subscription \<times> sub_row \<times> string \<times> string \<times> string list \<times> int"

definition refresh_captured :: "db \<Rightarrow> refresh_key \<Rightarrow> bool" where
  "refresh_captured d = (\<lambda>(i, item, row, url, ck, patterns, now).
     select_subscription i d = Inr item \<and> select_sub i d = Inr row)"

definition refresh_forward :: "refresh_key \<Rightarrow> db \<Rightarrow> error + db" where
  "refresh_forward = (\<lambda>(i, item, row, url, ck, patterns, now). update_sub i (\<lambda>s. s\<lparr>su_source_url := url,
     su_content_checksum := ck, su_rule_count := length patterns, su_last_checked_at_ms := now,
     su_last_success_at_ms := now, su_last_error := [], su_updated_at_ms := now, su_domains := patterns\<rparr>))"

definition refresh_restore :: "refresh_key \<Rightarrow> (error, 'm world, unit) prog" where
  "refresh_restore = (\<lambda>(i, item, row, url, ck, patterns, now). db_exec (update_sub i (\<lambda>s. s\<lparr>su_source_url := sub_SourceURL item,
     su_content_checksum := su_content_checksum row, su_rule_count := sub_RuleCount item,
     su_last_checked_at_ms := sub_LastCheckedAtMS item, su_last_success_at_ms := sub_LastSuccessAtMS item,
     su_last_error := sub_LastError item, su_updated_at_ms := sub_UpdatedAtMS item,
     su_domains := su_domains row\<rparr>)))"

interpretation refresh: source_change refresh_captured refresh_forward refresh_restore
proof (unfold_locales, clarsimp simp: refresh_captured_def refresh_forward_def refresh_restore_def)
  fix d d' i url ck patterns now and item :: Subscription and row :: sub_row and w :: "'a world"
  let ?f = "\<lambda>s. s\<lparr>su_source_url := url, su_content_checksum := ck, su_rule_count := length patterns,
     su_last_checked_at_ms := now, su_last_success_at_ms := now, su_last_error := [], su_updated_at_ms := now,
     su_domains := patterns\<rparr>"
  let ?g = "\<lambda>s. s\<lparr>su_source_url := sub_SourceURL item,
     su_content_checksum := su_content_checksum row, su_rule_count := sub_RuleCount item,
     su_last_checked_at_ms := sub_LastCheckedAtMS item, su_last_success_at_ms := sub_LastSuccessAtMS item,
     su_last_error := sub_LastError item, su_updated_at_ms := sub_UpdatedAtMS item, su_domains := su_domains row\<rparr>"
  assume ok: "sources_ok d" and sel: "select_subscription i d = Inr item" "select_sub i d = Inr row"
    and fwd: "update_sub i ?f d = Inr d'" and un: "untouched d' (w_db w)"
  have row: "row \<in> set (d_subs d)" "su_id row = i" using select_sub_Inr [OF sel(2)] by simp_all
  have item: "item = subscription_of row (binding_of d i)" using select_subscription_Inr [OF sel(1)] sel(2) by auto
  have "x = row" if "x \<in> set (d_subs d)" "su_id x = i" for x
    using that row unique_id [OF sources_ok_checks(3) [OF ok]] by blast
  then have "update_sub i ?g (w_db w) = Inr ((w_db w)\<lparr>d_subs := d_subs d\<rparr>)"
    using update_sub_Inr [OF fwd] un
    by (intro update_sub_undo [OF sources_ok_checks(1) [OF ok], where f = ?f])
      (auto simp: untouched_def item subscription_of_def)
  then show "wp (db_exec (update_sub i ?g)) (\<lambda>e _. e = Fault) (\<lambda>_ w'. same_sources d (w_db w')) w"
    by (rule wp_undo) (use un update_sub_Inr [OF fwd] in \<open>simp add: same_sources_def untouched_def\<close>)
qed

definition delete_captured :: "db \<Rightarrow> int \<times> Subscription \<times> sub_row \<Rightarrow> bool" where
  "delete_captured d = (\<lambda>(i, item, row). select_subscription i d = Inr item \<and> select_sub i d = Inr row)"

definition delete_forward :: "int \<times> Subscription \<times> sub_row \<Rightarrow> db \<Rightarrow> error + db" where
  "delete_forward = (\<lambda>(i, item, row). delete_sub i)"

definition delete_restore :: "int \<times> Subscription \<times> sub_row \<Rightarrow> (error, 'm world, unit) prog" where
  "delete_restore = (\<lambda>(i, item, row). restore_deleted item (su_content_checksum row) (su_domains row))"

lemma mset_remove_unique:
  assumes "distinct (map f xs)" and "x \<in> set xs"
  shows "mset (filter (\<lambda>y. f y \<noteq> f x) xs @ [x]) = mset xs"
proof -
  have "filter (\<lambda>y. f y = f x) xs = [x]" by (rule filter_key_single [OF assms])
  moreover have "mset (filter (\<lambda>y. f y \<noteq> f x) xs) + mset (filter (\<lambda>y. f y = f x) xs) = mset xs"
    by (induction xs) auto
  ultimately show ?thesis by simp
qed

lemma sub_row_eta:
  "\<lparr>su_id = su_id s, su_category = su_category s, su_action = su_action s, su_kind = su_kind s, su_name = su_name s,
     su_source_url = su_source_url s, su_refresh_interval_seconds = su_refresh_interval_seconds s,
     su_enabled = su_enabled s, su_content_checksum = su_content_checksum s, su_rule_count = su_rule_count s,
     su_last_checked_at_ms = su_last_checked_at_ms s, su_last_success_at_ms = su_last_success_at_ms s,
     su_last_error = su_last_error s, su_created_at_ms = su_created_at_ms s, su_updated_at_ms = su_updated_at_ms s,
     su_domains = su_domains s\<rparr> = (s :: sub_row)"
  by (cases s) simp

lemma restore_deleted_eq:
  assumes "su_id row = i" and "\<And>r. binding_of d i = Some r \<Longrightarrow> bi_subscription_id r = i"
  shows "restore_deleted (subscription_of row (binding_of d i)) (su_content_checksum row) (su_domains row)
     = bindM (db_exec (reinsert_sub row)) (\<lambda>_. case binding_of d i of None \<Rightarrow> returnM ()
         | Some r \<Rightarrow> db_exec (reinsert_binding r))"
proof (cases "binding_of d i")
  case None
  then show ?thesis by (simp add: restore_deleted_def subscription_of_def sub_row_eta)
next
  case (Some r)
  from assms(2) [OF this] have "bi_subscription_id r = su_id row" by (simp add: assms(1))
  then have "\<lparr>bi_id = bi_id r, bi_subscription_id = su_id row, bi_upstream_group_id = bi_upstream_group_id r,
      bi_priority = bi_priority r, bi_created_at_ms = bi_created_at_ms r, bi_updated_at_ms = bi_updated_at_ms r\<rparr> = r"
    by (cases r) simp
  with Some show ?thesis by (simp add: restore_deleted_def subscription_of_def sub_row_eta)
qed

lemma wp_undo2:
  fixes w :: "'m world"
  assumes "u (w_db w) = Inr r" and "u' r = Inr r'" and "same_sources d r'"
  shows "wp (bindM (db_exec u) (\<lambda>_. db_exec u')) (\<lambda>e _. e = Fault) (\<lambda>_ w'. same_sources d (w_db w')) w"
  using assms by (intro wp_intros) auto

interpretation delete: source_change delete_captured delete_forward delete_restore
proof (unfold_locales, clarsimp simp: delete_captured_def delete_forward_def delete_restore_def)
  fix d d' i and item :: Subscription and row :: sub_row and w :: "'a world"
  assume ok: "sources_ok d" and sel: "select_subscription i d = Inr item" "select_sub i d = Inr row"
    and fwd: "delete_sub i d = Inr d'" and un: "untouched d' (w_db w)"
  have row: "row \<in> set (d_subs d)" "su_id row = i" using select_sub_Inr [OF sel(2)] by simp_all
  have item: "item = subscription_of row (binding_of d i)" using select_subscription_Inr [OF sel(1)] sel(2) by auto
  have w: "d_subs (w_db w) = filter (\<lambda>s. su_id s \<noteq> i) (d_subs d)"
    "d_bindings (w_db w) = filter (\<lambda>b. bi_subscription_id b \<noteq> i) (d_bindings d)"
    using fwd un by (auto simp: delete_sub_def untouched_def)
  define e where "e = (w_db w)\<lparr>d_subs := d_subs (w_db w) @ [row], d_sub_seq := max (d_sub_seq (w_db w)) (su_id row)\<rparr>"
  have ins: "reinsert_sub row (w_db w) = Inr e"
    using sources_ok_checks(1) [OF ok] row by (auto simp: reinsert_sub_def w e_def list_ex_iff list_all_iff)
  have subs: "mset (d_subs e) = mset (d_subs d)"
    using mset_remove_unique [OF sources_ok_checks(3) [OF ok] row(1)] by (simp add: w e_def row(2))
  have b: "bi_subscription_id r = i" "r \<in> set (d_bindings d)" if "binding_of d i = Some r" for r
    using that by (auto simp: binding_of_def dest: find_Some_eq)
  have "wp (bindM (db_exec (reinsert_sub row)) (\<lambda>_. case binding_of d i of None \<Rightarrow> returnM ()
         | Some r \<Rightarrow> db_exec (reinsert_binding r))) (\<lambda>e _. e = Fault) (\<lambda>_ w'. same_sources d (w_db w')) w"
  proof (cases "binding_of d i")
    case None
    then have "filter (\<lambda>b. bi_subscription_id b \<noteq> i) (d_bindings d) = d_bindings d"
      by (auto simp: binding_of_def find_None_iff filter_map_eq_self)
    then have "same_sources d e" using subs by (simp add: same_sources_def e_def w)
    then show ?thesis
      using None ins by (simp add: wp_simps)
  next
    case (Some r)
    have ids: "bi_id x \<noteq> bi_id r" if "x \<in> set (d_bindings d)" "bi_subscription_id x \<noteq> i" for x
      using that b [OF Some] ok unique_id [of bi_id "d_bindings d" x r] by (auto simp: sources_ok_def)
    have eb: "d_bindings e = filter (\<lambda>b. bi_subscription_id b \<noteq> i) (d_bindings d)" by (simp add: e_def w)
    have "row \<in> set (d_subs e)" by (simp add: e_def)
    then have "\<not> binding_conflict e r"
      using sources_ok_checks(2) [OF ok] b [OF Some] row(2) ids
      by (auto simp: binding_conflict_def eb list_ex_iff list_all_iff)
    then have bind: "reinsert_binding r e = Inr (e\<lparr>d_bindings := d_bindings e @ [r], d_bind_seq := max (d_bind_seq e) (bi_id r)\<rparr>)"
      by (simp add: reinsert_binding_def)
    have "mset (d_bindings e @ [r]) = mset (d_bindings d)"
      using mset_remove_unique [OF sources_ok_checks(4) [OF ok] b(2) [OF Some]] b(1) [OF Some] by (simp add: eb)
    then have "wp (bindM (db_exec (reinsert_sub row)) (\<lambda>_. db_exec (reinsert_binding r)))
        (\<lambda>e _. e = Fault) (\<lambda>_ w'. same_sources d (w_db w')) w"
      by (intro wp_undo2 [where r = e and w = w and u = "reinsert_sub row" and u' = "reinsert_binding r", OF ins bind]) (simp add: same_sources_def subs)
    then show ?thesis
      by (simp add: Some)
  qed
  then show "wp (restore_deleted item (su_content_checksum row) (su_domains row)) (\<lambda>e _. e = Fault)
      (\<lambda>_ w'. same_sources d (w_db w')) w"
    by (simp add: item restore_deleted_eq [OF row(2) b(1)])
qed

section \<open>Operations keep the history\<close>

lemma source_frames:
  "insert_sub mk d = Inr (i, d') \<Longrightarrow> d_versions d' = d_versions d \<and> d_rules d' = d_rules d"
  "reinsert_sub row d = Inr d' \<Longrightarrow> d_versions d' = d_versions d \<and> d_rules d' = d_rules d"
  "insert_binding mb d = Inr d' \<Longrightarrow> d_versions d' = d_versions d \<and> d_rules d' = d_rules d"
  "reinsert_binding b d = Inr d' \<Longrightarrow> d_versions d' = d_versions d \<and> d_rules d' = d_rules d"
  "delete_sub j d = Inr d' \<Longrightarrow> d_versions d' = d_versions d \<and> d_rules d' = d_rules d"
  "update_sub j f d = Inr d' \<Longrightarrow> d_versions d' = d_versions d \<and> d_rules d' = d_rules d"
  "update_binding j g d = Inr d' \<Longrightarrow> d_versions d' = d_versions d \<and> d_rules d' = d_rules d"
  by (auto simp: insert_sub_def reinsert_sub_def insert_binding_def reinsert_binding_def delete_sub_def
      update_sub_def update_binding_def Let_def split: if_splits)

lemma evolves_source_writes [evolves_intros]:
  "evolves L (db_run (insert_sub mk))" "evolves L (db_exec (reinsert_sub row))" "evolves L (db_exec (insert_binding mb))"
  "evolves L (db_exec (reinsert_binding b))" "evolves L (db_exec (delete_sub j))"
  "evolves L (db_exec (update_sub j f))" "evolves L (db_exec (update_binding j g))"
  by (intro evolves_db_run evolves_db_exec source_frames; assumption)+

lemma evolves_subscription [evolves_intros]: "evolves L (subscription i)"
  unfolding subscription_def by (intro evolves_intros)

lemma evolves_publish_all [evolves_intros]: "evolves L (publish_all L C a b c)"
  unfolding publish_all_def by (intro evolves_intros)

lemma evolves_run_restore [evolves_intros]: "evolves L restore \<Longrightarrow> evolves L (run_restore cause restore)"
  unfolding run_restore_def by (intro evolves_intros)

lemma evolves_restoreSubscriptionMutation [evolves_intros]:
  "evolves L restore \<Longrightarrow> evolves L (restoreSubscriptionMutation C v cause restore)"
  unfolding restoreSubscriptionMutation_def by (intro evolves_intros)

lemma evolves_mutation_failed [evolves_intros]: "evolves L restore \<Longrightarrow> evolves L (mutation_failed C i v cause restore)"
  unfolding mutation_failed_def by (intro evolves_intros)

lemma evolves_publish_or_restore [evolves_intros]:
  "evolves L restore \<Longrightarrow> evolves L (publish_or_restore L C i restore a b c)"
  unfolding publish_or_restore_def by (intro evolves_intros)

lemma evolves_validateSubscriptionBinding [evolves_intros]: "evolves L (validateSubscriptionBinding C input)"
  unfolding validateSubscriptionBinding_def validateBinding_def by (intro evolves_intros)

lemma evolves_downloadSubscription [evolves_intros]: "evolves L (downloadSubscription F url)"
  unfolding downloadSubscription_def by (intro evolves_intros)

lemma evolves_createSubscription [evolves_intros]: "evolves L (createSubscription L C input kind body a b c)"
  unfolding createSubscription_def insert_source_def by (intro evolves_intros)

lemma evolves_CreateURLSubscription [evolves_intros]: "evolves L (CreateURLSubscription L C F input a b c)"
  unfolding CreateURLSubscription_def by (intro evolves_intros)

lemma evolves_CreateUploadSubscription [evolves_intros]: "evolves L (CreateUploadSubscription L C input fn body a b c)"
  unfolding CreateUploadSubscription_def by (intro evolves_intros)

lemma evolves_SetSubscriptionEnabled [evolves_intros]: "evolves L (SetSubscriptionEnabled L C i enabled a b c)"
  unfolding SetSubscriptionEnabled_def by (intro evolves_intros)

lemma evolves_UpdateSubscriptionBinding [evolves_intros]: "evolves L (UpdateSubscriptionBinding L C i input a b c)"
  unfolding UpdateSubscriptionBinding_def validateBinding_def by (intro evolves_intros)

lemma evolves_DeleteSubscription [evolves_intros]: "evolves L (DeleteSubscription L C i a b c)"
  unfolding DeleteSubscription_def restore_deleted_def by (intro evolves_intros)

lemma evolves_subscriptionFailure [evolves_intros]: "evolves L (subscriptionFailure item cause)"
  unfolding subscriptionFailure_def by (intro evolves_intros)

lemma evolves_refresh_fetch [evolves_intros]: "evolves L (refresh_fetch L F i)"
  unfolding refresh_fetch_def by (intro evolves_intros)

lemma evolves_refresh_commit [evolves_intros]: "evolves L (refresh_commit L C seen a b c)"
proof (cases seen)
  case (fields item body url patterns)
  show ?thesis
    unfolding fields refresh_commit_def prod.case refresh_unchanged_def refresh_publish_def sourceChecksum_def
    by (intro evolves_intros)
qed

lemma evolves_RefreshSubscription [evolves_intros]: "evolves L (RefreshSubscription L C F i a b c)"
  unfolding RefreshSubscription_def by (intro evolves_intros)

lemma evolves_RefreshDue [evolves_intros]: "evolves L (RefreshDue L C F)"
  unfolding RefreshDue_def Subscriptions_def by (intro evolves_intros)

section \<open>Operations on sources\<close>

lemma store_ok_source_frame: "store_ok L d \<Longrightarrow> d_versions d' = d_versions d \<and> d_rules d' = d_rules d \<Longrightarrow> store_ok L d'"
  by (rule store_ok_step [OF pub_step.other]) auto

lemma SetSubscriptionEnabled_spec:
  fixes w :: "'m world"
  assumes st: "store_ok L (w_db w)" and ok: "sources_ok (w_db w)"
    and E0: "\<And>e w'. w_db w' = w_db w \<Longrightarrow> E (nosub e) w'"
    and Q0: "\<And>item w'. select_subscription i (w_db w) = Inr item \<Longrightarrow> sub_Enabled item = enabled \<Longrightarrow>
      w_db w' = w_db w \<Longrightarrow> Q (item, noVersion) w'"
    and E1: "\<And>item now d1 s v e w'. select_subscription i (w_db w) = Inr item \<Longrightarrow>
      enable_forward (i, item, enabled, now) (w_db w) = Inr d1 \<Longrightarrow>
      change_failed (w_db w) d1 e (w_db w') \<Longrightarrow> E (s, v, e) w'"
    and Q1: "\<And>item now d1 s v w'. select_subscription i (w_db w) = Inr item \<Longrightarrow>
      enable_forward (i, item, enabled, now) (w_db w) = Inr d1 \<Longrightarrow> change_done d1 (w_db w') \<Longrightarrow> Q (s, v) w'"
  shows "wp (SetSubscriptionEnabled L C i enabled adminID requestID ip) E Q w"
proof -
  have run: "wp (publish_or_restore L C i (db_exec (update_sub i (\<lambda>s. s\<lparr>su_enabled := sub_Enabled item,
       su_updated_at_ms := sub_UpdatedAtMS item\<rparr>))) adminID requestID ip) E Q s"
    if item: "select_subscription i (w_db w) = Inr item"
      and u: "\<exists>now. update_sub i (\<lambda>s. s\<lparr>su_enabled := enabled, su_updated_at_ms := touch now (sub_UpdatedAtMS item)\<rparr>)
             (w_db w) = Inr (w_db s)"
    for s :: "'m world" and item
  proof -
    obtain now where f: "enable_forward (i, item, enabled, now) (w_db w) = Inr (w_db s)"
      using u by (auto simp: enable_forward_def)
    have "store_ok L (w_db s)" using u store_ok_source_frame [OF st source_frames(6)] by blast
    then have "wp (publish_or_restore L C i (enable_restore (i, item, enabled, now)) adminID requestID ip)
       (\<lambda>(x, v, e) w'. change_failed (w_db w) (w_db s) e (w_db w')) (\<lambda>_ w'. change_done (w_db s) (w_db w')) s"
      using enable.failure_restores [where k = "(i, item, enabled, now)" and w = s and L = L, OF ok] item f
      by (simp add: enable_captured_def)
    then show ?thesis
      unfolding enable_restore_def prod.case by (rule wp_mono) (auto intro: E1 [OF item f] Q1 [OF item f])
  qed
  show ?thesis
    unfolding SetSubscriptionEnabled_def subscription_def
    by (intro wp_intros run) (auto intro: E0 Q0)
qed

lemma UpdateSubscriptionBinding_spec:
  fixes w :: "'m world"
  assumes st: "store_ok L (w_db w)" and ok: "sources_ok (w_db w)"
    and E0: "\<And>e w'. w_db w' = w_db w \<Longrightarrow> E (nosub e) w'"
    and Q0: "\<And>item b w'. select_subscription i (w_db w) = Inr item \<Longrightarrow> sub_Binding item = Some b \<Longrightarrow>
      sb_UpstreamGroupID b = TrimSpace (bn_UpstreamGroupID input) \<Longrightarrow> sb_Priority b = bn_Priority input \<Longrightarrow>
      w_db w' = w_db w \<Longrightarrow> Q (item, noVersion) w'"
    and E1: "\<And>b now d1 s v e w'. binding_forward (i, b, TrimSpace (bn_UpstreamGroupID input), bn_Priority input, now)
         (w_db w) = Inr d1 \<Longrightarrow> change_failed (w_db w) d1 e (w_db w') \<Longrightarrow> E (s, v, e) w'"
    and Q1: "\<And>b now d1 s v w'. binding_forward (i, b, TrimSpace (bn_UpstreamGroupID input), bn_Priority input, now)
         (w_db w) = Inr d1 \<Longrightarrow> change_done d1 (w_db w') \<Longrightarrow> Q (s, v) w'"
  shows "wp (UpdateSubscriptionBinding L C i input adminID requestID ip) E Q w"
proof -
  let ?g = "TrimSpace (bn_UpstreamGroupID input)" and ?p = "bn_Priority input"
  have run: "wp (publish_or_restore L C i (db_exec (update_binding i (\<lambda>x. x\<lparr>bi_upstream_group_id := sb_UpstreamGroupID b,
       bi_priority := sb_Priority b, bi_updated_at_ms := sb_updatedAtMS b\<rparr>))) adminID requestID ip) E Q s"
    if item: "\<exists>item. select_subscription i (w_db w) = Inr item \<and> sub_Binding item = Some b"
      and u: "\<exists>now. update_binding i (\<lambda>x. x\<lparr>bi_upstream_group_id := ?g, bi_priority := ?p, bi_updated_at_ms := now\<rparr>)
             (w_db w) = Inr (w_db s)"
    for s :: "'m world" and b
  proof -
    obtain now where f: "binding_forward (i, b, ?g, ?p, now) (w_db w) = Inr (w_db s)"
      using u by (auto simp: binding_forward_def)
    have "store_ok L (w_db s)" using u store_ok_source_frame [OF st source_frames(7)] by blast
    then have "wp (publish_or_restore L C i (binding_restore (i, b, ?g, ?p, now)) adminID requestID ip)
       (\<lambda>(x, v, e) w'. change_failed (w_db w) (w_db s) e (w_db w')) (\<lambda>_ w'. change_done (w_db s) (w_db w')) s"
      using rebind.failure_restores [where k = "(i, b, ?g, ?p, now)" and w = s and L = L, OF ok] item f
      by (simp add: binding_captured_def)
    then show ?thesis
      unfolding binding_restore_def prod.case by (rule wp_mono) (auto intro: E1 [OF f] Q1 [OF f])
  qed
  show ?thesis
    unfolding UpdateSubscriptionBinding_def subscription_def validateBinding_def
    by (intro wp_intros run) (auto intro: E0 Q0)
qed

lemma DeleteSubscription_spec:
  fixes w :: "'m world"
  assumes st: "store_ok L (w_db w)" and ok: "sources_ok (w_db w)"
    and E0: "\<And>e w'. w_db w' = w_db w \<Longrightarrow> E (noVersion, e) w'"
    and E1: "\<And>d1 v e w'. delete_sub i (w_db w) = Inr d1 \<Longrightarrow> change_failed (w_db w) d1 e (w_db w') \<Longrightarrow> E (v, e) w'"
    and Q1: "\<And>d1 v w'. delete_sub i (w_db w) = Inr d1 \<Longrightarrow> change_done d1 (w_db w') \<Longrightarrow> Q v w'"
  shows "wp (DeleteSubscription L C i adminID requestID ip) E Q w"
proof -
  have undo: "wp (restoreSubscriptionMutation C v cause (restore_deleted item (su_content_checksum row') (su_domains row)))
      E' (\<lambda>e. wp (throwM (v', e)) E Q) s"
    if item: "select_subscription i (w_db w) = Inr item" "select_sub i (w_db w) = Inr row"
      and "select_sub i (w_db w) = Inr row'" and u: "\<exists>d1. delete_sub i (w_db w) = Inr d1 \<and> untouched d1 (w_db s)"
    for s :: "'m world" and v v' cause item row row' and E' :: "Version \<times> error \<Rightarrow> 'm world \<Rightarrow> bool"
  proof -
    from u obtain d1 where d1: "delete_sub i (w_db w) = Inr d1" "untouched d1 (w_db s)" by blast
    have "wp (restoreSubscriptionMutation C v cause (delete_restore (i, item, row))) E' (\<lambda>e. E (v', e)) s"
      using d1 item by (intro delete.restored [OF ok, where ?d1.0 = d1] E1) (auto simp: delete_captured_def delete_forward_def)
    then show ?thesis using that(2,3) by (simp add: wp_throwM delete_restore_def)
  qed
  have finish: "Q v w'" if "published L C rules (w_db t) v (w_db w')" "delete_sub i (w_db w) = Inr (w_db t)"
    for rules v and t w' :: "'m world"
    using that published_untouched [OF that(1)] published_in_sync [OF that(1) store_ok_source_frame [OF st source_frames(5) [OF that(2)]]]
    by (intro Q1) (auto simp: change_done_def)
  show ?thesis
    unfolding DeleteSubscription_def subscription_def publish_all_def
    by (intro wp_intros wp_publish undo)
      (auto intro: E0 finish published_untouched publish_failed_untouched)
qed

text \<open>Creation: the subscription and its binding appear together.\<close>

definition create_key_of :: "rlib \<Rightarrow> SubscriptionInput \<Rightarrow> string \<Rightarrow> string \<Rightarrow> string list \<Rightarrow> int \<Rightarrow> int \<Rightarrow> create_key" where
  "create_key_of L input kind body patterns now i = (i, new_source L input kind body patterns now,
     if in_Category input = ''route'' then Some (new_binding input now) else None)"

lemma wp_insert_source:
  assumes "\<And>e w'. w_db w' = w_db w \<Longrightarrow> E e w'"
    and "\<And>i w'. i = d_sub_seq (w_db w) + 1 \<Longrightarrow>
      create_forward (create_key_of L input kind body patterns now i) (w_db w) = Inr (w_db w') \<Longrightarrow> Q i w'"
  shows "wp (insert_source L input kind body patterns now) E Q w"
  unfolding insert_source_def
  by (intro wp_intros)
    (auto intro!: assms simp: create_forward_def create_key_of_def insert_sub_def Let_def split: if_splits)

lemma create_captured_key:
  "i = d_sub_seq d + 1 \<Longrightarrow> create_captured d (create_key_of L input kind body patterns now i)"
  by (simp add: create_captured_def create_key_of_def new_source_def new_binding_def)

lemma create_forward_frame:
  "create_forward k d = Inr d' \<Longrightarrow> d_versions d' = d_versions d \<and> d_rules d' = d_rules d"
  by (cases k) (auto simp: create_forward_def insert_sub_def insert_binding_def Let_def
      split: sum.splits option.splits if_splits)

lemma createSubscription_spec:
  fixes w :: "'m world"
  assumes st: "store_ok L (w_db w)" and ok: "sources_ok (w_db w)"
    and E0: "\<And>e w'. w_db w' = w_db w \<Longrightarrow> E (nosub e) w'"
    and E1: "\<And>i patterns now d1 s v e w'. parseSubscription L body = Inr patterns \<Longrightarrow> i = d_sub_seq (w_db w) + 1 \<Longrightarrow>
      create_forward (create_key_of L input kind body patterns now i) (w_db w) = Inr d1 \<Longrightarrow>
      change_failed (w_db w) d1 e (w_db w') \<Longrightarrow> E (s, v, e) w'"
    and Q1: "\<And>i patterns now d1 s v w'. parseSubscription L body = Inr patterns \<Longrightarrow> i = d_sub_seq (w_db w) + 1 \<Longrightarrow>
      create_forward (create_key_of L input kind body patterns now i) (w_db w) = Inr d1 \<Longrightarrow>
      change_done d1 (w_db w') \<Longrightarrow> Q (s, v) w'"
  shows "wp (createSubscription L C input kind body adminID requestID ip) E Q w"
proof -
  have run: "wp (publish_or_restore L C i (db_exec (delete_sub i)) adminID requestID ip) E Q s"
    if p: "parseSubscription L body = Inr patterns" and i: "i = d_sub_seq (w_db w) + 1"
      and u: "\<exists>now. create_forward (create_key_of L input kind body patterns now i) (w_db w) = Inr (w_db s)"
    for s :: "'m world" and i patterns
  proof -
    obtain now where f: "create_forward (create_key_of L input kind body patterns now i) (w_db w) = Inr (w_db s)"
      using u by blast
    have "store_ok L (w_db s)" using store_ok_source_frame [OF st create_forward_frame [OF f]] .
    then have "wp (publish_or_restore L C i (create_restore (create_key_of L input kind body patterns now i)) adminID requestID ip)
       (\<lambda>(x, v, e) w'. change_failed (w_db w) (w_db s) e (w_db w')) (\<lambda>_ w'. change_done (w_db s) (w_db w')) s"
      by (intro create.failure_restores [OF ok create_captured_key [OF i] f])
    then show ?thesis
      unfolding create_restore_def create_key_of_def prod.case
      by (rule wp_mono) (auto intro: E1 [OF p i f] Q1 [OF p i f])
  qed
  have noop: "wp (validateSubscriptionBinding C input) (\<lambda>e. E (nosub e)) P s"
    if "w_db s = w_db w" "\<And>s'. w_db s' = w_db w \<Longrightarrow> P () s'" for P and s :: "'m world"
    unfolding validateSubscriptionBinding_def validateBinding_def
    by (intro wp_intros) (auto intro: E0 simp: that)
  show ?thesis
    unfolding createSubscription_def
    by (intro wp_intros noop wp_insert_source run) (auto intro: E0)
qed

text \<open>
  A refresh commits only on the row it read before the download. The same content touches the
  row's times and URL; other content is a change like those above.
\<close>

definition refresh_touch :: "int \<Rightarrow> string \<Rightarrow> int \<Rightarrow> db \<Rightarrow> error + db" where
  "refresh_touch i url now = update_sub i (\<lambda>s. s\<lparr>su_source_url := url, su_last_checked_at_ms := now,
     su_last_error := [], su_updated_at_ms := now\<rparr>)"

lemma wp_sourceChecksum:
  assumes "\<And>c w'. w_db w' = w_db w \<Longrightarrow> (\<And>row. select_sub i (w_db w) = Inr row \<Longrightarrow> c = [] \<or> c = su_content_checksum row) \<Longrightarrow> Q c w'"
  shows "wp (sourceChecksum i) E Q w"
  unfolding sourceChecksum_def by (intro wp_intros) (auto intro!: assms)

lemma sourceChecksum_total: "\<not> faulty w \<Longrightarrow> select_sub i (w_db w) = Inr row \<Longrightarrow>
    sourceChecksum i w = (Inr (su_content_checksum row), pop_fault w)"
  by (simp add: sourceChecksum_def bindM_def attemptM_def db_query_def db_run_def returnM_def)

lemma select_subscription_id: "select_subscription i d = Inr item \<Longrightarrow> sub_ID item = i"
  by (auto dest!: select_subscription_Inr simp: subscription_of_def)

text \<open>
  \<open>sourceChecksum\<close> hides a failed read behind the empty string, so a compensation may restore
  the row with its checksum forgotten.
\<close>

definition with_checksum :: "int \<Rightarrow> string \<Rightarrow> db \<Rightarrow> db" where
  "with_checksum i c d = d\<lparr>d_subs := map (\<lambda>s. if su_id s = i then s\<lparr>su_content_checksum := c\<rparr> else s) (d_subs d)\<rparr>"

lemma with_checksum_same:
  assumes "sources_ok d" and "select_sub i d = Inr row"
  shows "with_checksum i (su_content_checksum row) d = d"
proof -
  have "s\<lparr>su_content_checksum := su_content_checksum row\<rparr> = s" if "s \<in> set (d_subs d)" "su_id s = i" for s
    using that select_sub_Inr [OF assms(2)] unique_id [OF sources_ok_checks(3) [OF assms(1)]] by fastforce
  then have "map (\<lambda>s. if su_id s = i then s\<lparr>su_content_checksum := su_content_checksum row\<rparr> else s) (d_subs d) = d_subs d"
    by (intro map_idI) simp
  then show ?thesis by (simp add: with_checksum_def)
qed

lemma sources_ok_map_subs:
  assumes ok: "sources_ok d" and f: "\<And>s. s \<in> set (d_subs d) \<Longrightarrow>
      su_id (f s) = su_id s \<and> su_category (f s) = su_category s \<and> source_row_ok (f s)"
  shows "sources_ok (d\<lparr>d_subs := map f (d_subs d)\<rparr>)"
proof -
  have "map su_id (map f (d_subs d)) = map su_id (d_subs d)" using f by simp
  moreover have "\<exists>s \<in> f ` set (d_subs d). su_id s = bi_subscription_id b \<and> su_category s = ''route''"
    if "b \<in> set (d_bindings d)" for b
  proof -
    from ok have "\<forall>b \<in> set (d_bindings d). \<exists>s \<in> set (d_subs d). su_id s = bi_subscription_id b \<and> su_category s = ''route''"
      by (simp add: sources_ok_def)
    from bspec [OF this that] obtain s where "s \<in> set (d_subs d)" "su_id s = bi_subscription_id b"
      "su_category s = ''route''" by blast
    then show ?thesis using f by (intro bexI [of _ "f s"]) auto
  qed
  ultimately show ?thesis using ok f unfolding sources_ok_def by (simp add: list_all_iff del: map_map)
qed

lemma sources_ok_with_checksum: "sources_ok d \<Longrightarrow> sources_ok (with_checksum i c d)"
  unfolding with_checksum_def
  by (rule sources_ok_map_subs) (auto simp: sources_ok_def source_row_ok_def sub_check_def list_all_iff)

lemma find_map_id: "(\<And>s. p (f s) = p s) \<Longrightarrow> find p (map f xs) = map_option f (find p xs)"
  by (induction xs) auto

lemma select_with_checksum:
  assumes "select_sub i d = Inr row"
  shows "select_sub i (with_checksum i c d) = Inr (row\<lparr>su_content_checksum := c\<rparr>)"
    and "select_subscription i (with_checksum i c d) = select_subscription i d"
proof -
  have *: "find (\<lambda>s. su_id s = i) (map (\<lambda>s. if su_id s = i then s\<lparr>su_content_checksum := c\<rparr> else s) xs)
      = map_option (\<lambda>s. if su_id s = i then s\<lparr>su_content_checksum := c\<rparr> else s) (find (\<lambda>s. su_id s = i) xs)" for xs
    by (rule find_map_id) simp
  show 1: "select_sub i (with_checksum i c d) = Inr (row\<lparr>su_content_checksum := c\<rparr>)"
    using assms by (auto simp: select_sub_def first_row_def with_checksum_def * split: option.splits dest: find_Some_eq)
  show "select_subscription i (with_checksum i c d) = select_subscription i d"
    using assms 1 by (simp add: select_subscription_def subscription_of_def with_checksum_def binding_of_def)
qed

lemma update_sub_absorb:
  assumes "\<And>s. f (g s) = f s" and "\<And>s. su_id (g s) = su_id s"
  shows "update_sub i f (d\<lparr>d_subs := map (\<lambda>s. if su_id s = i then g s else s) (d_subs d)\<rparr>) = update_sub i f d"
proof -
  have "map (\<lambda>s. if su_id s = i then f s else s) (map (\<lambda>s. if su_id s = i then g s else s) (d_subs d))
      = map (\<lambda>s. if su_id s = i then f s else s) (d_subs d)" using assms by simp
  then show ?thesis by (simp add: update_sub_def Let_def del: map_map)
qed

lemma refresh_forward_with_checksum:
  "refresh_forward (i, item, row, url, ck, patterns, now) (with_checksum i c d)
     = refresh_forward (i, item', row', url, ck, patterns, now) d"
  unfolding refresh_forward_def with_checksum_def prod.case by (rule update_sub_absorb) simp_all

lemma refresh_commit_spec:
  fixes w :: "'m world" and body :: string
  assumes st: "store_ok L (w_db w)" and ok: "sources_ok (w_db w)"
    and E0: "\<And>x e w'. w_db w' = w_db w \<Longrightarrow> E (x, None, e) w'"
    and E1: "\<And>x now e w'. refresh_touch (sub_ID seen) url now (w_db w) = Inr (w_db w') \<Longrightarrow> E (x, None, e) w'"
    and E2: "\<And>x item row now c d1 v e w'. select_subscription (sub_ID seen) (w_db w) = Inr item \<Longrightarrow>
      sub_UpdatedAtMS item = sub_UpdatedAtMS seen \<Longrightarrow> select_sub (sub_ID seen) (w_db w) = Inr row \<Longrightarrow>
      c = [] \<or> c = su_content_checksum row \<Longrightarrow>
      refresh_forward (sub_ID seen, item, row, url, checksum L body, patterns, now) (w_db w) = Inr d1 \<Longrightarrow>
      change_failed (with_checksum (sub_ID seen) c (w_db w)) d1 e (w_db w') \<Longrightarrow> E (x, v, e) w'"
    and Q1: "\<And>x now w'. refresh_touch (sub_ID seen) url now (w_db w) = Inr (w_db w') \<Longrightarrow> Q (x, None) w'"
    and Q2: "\<And>x item row now d1 v w'. select_subscription (sub_ID seen) (w_db w) = Inr item \<Longrightarrow>
      sub_UpdatedAtMS item = sub_UpdatedAtMS seen \<Longrightarrow> select_sub (sub_ID seen) (w_db w) = Inr row \<Longrightarrow>
      refresh_forward (sub_ID seen, item, row, url, checksum L body, patterns, now) (w_db w) = Inr d1 \<Longrightarrow>
      change_done d1 (w_db w') \<Longrightarrow> Q (x, Some v) w'"
  shows "wp (refresh_commit L C (seen, body, url, patterns) adminID requestID ip) E Q w"
proof -
  let ?i = "sub_ID seen" and ?d = "w_db w"
  have run: "wp (refresh_publish L C i (db_exec (update_sub i (\<lambda>s. s\<lparr>su_source_url := sub_SourceURL item,
       su_content_checksum := c, su_rule_count := sub_RuleCount item,
       su_last_checked_at_ms := sub_LastCheckedAtMS item, su_last_success_at_ms := sub_LastSuccessAtMS item,
       su_last_error := sub_LastError item, su_updated_at_ms := sub_UpdatedAtMS item,
       su_domains := su_domains row\<rparr>))) adminID requestID ip) E Q s"
    if item: "i = ?i" "select_subscription ?i ?d = Inr item" "sub_UpdatedAtMS item = sub_UpdatedAtMS seen"
      and row: "select_sub ?i ?d = Inr row" and c: "c = [] \<or> c = su_content_checksum row"
      and u: "\<exists>now. update_sub i (\<lambda>s. s\<lparr>su_source_url := url, su_content_checksum := checksum L body,
        su_rule_count := length patterns, su_last_checked_at_ms := now, su_last_success_at_ms := now,
        su_last_error := [], su_updated_at_ms := now, su_domains := patterns\<rparr>) ?d = Inr (w_db s)"
    for s :: "'m world" and i item row c
  proof -
    let ?row = "row\<lparr>su_content_checksum := c\<rparr>" and ?dc = "with_checksum ?i c ?d"
    obtain now where f: "refresh_forward (?i, item, row, url, checksum L body, patterns, now) ?d = Inr (w_db s)"
      using u unfolding refresh_forward_def prod.case item(1) by blast
    let ?k = "(?i, item, ?row, url, checksum L body, patterns, now)"
    have fwd: "refresh_forward ?k ?dc = Inr (w_db s)"
      using f by (simp only: refresh_forward_with_checksum [where item' = item and row' = row])
    have cap: "refresh_captured ?dc ?k" using item row by (simp add: refresh_captured_def select_with_checksum)
    have st': "store_ok L (w_db s)"
      using f by (intro store_ok_source_frame [OF st]) (auto simp: refresh_forward_def dest: source_frames(6))
    have fin: "change_done (w_db s) (w_db t')" if "published L C rules (w_db t) v (w_db t')" "w_db t = w_db s"
      for rules v and t t' :: "'m world"
      using that published_untouched published_in_sync st' by (auto simp: change_done_def)
    have "wp (refresh_publish L C ?i (refresh_restore ?k) adminID requestID ip)
       (\<lambda>(x, v, e) w'. change_failed ?dc (w_db s) e (w_db w'))
       (\<lambda>(x, v) w'. v \<noteq> None \<and> change_done (w_db s) (w_db w')) s"
      unfolding refresh_publish_def subscription_def norefresh_def
      by (intro wp_intros wp_publish refresh.reported [OF sources_ok_with_checksum [OF ok] cap fwd]
          refresh.restored [OF sources_ok_with_checksum [OF ok] cap fwd])
        (auto simp: change_failed_def fin dest: published_untouched publish_failed_untouched
          published_in_sync [OF _ st'])
    moreover have "su_content_checksum ?row = c" "su_domains ?row = su_domains row" by simp_all
    ultimately have "wp (refresh_publish L C ?i (db_exec (update_sub ?i (\<lambda>s. s\<lparr>su_source_url := sub_SourceURL item,
         su_content_checksum := c, su_rule_count := sub_RuleCount item,
         su_last_checked_at_ms := sub_LastCheckedAtMS item, su_last_success_at_ms := sub_LastSuccessAtMS item,
         su_last_error := sub_LastError item, su_updated_at_ms := sub_UpdatedAtMS item,
         su_domains := su_domains row\<rparr>))) adminID requestID ip)
       (\<lambda>(x, v, e) w'. change_failed ?dc (w_db s) e (w_db w'))
       (\<lambda>(x, v) w'. v \<noteq> None \<and> change_done (w_db s) (w_db w')) s"
      by (simp only: refresh_restore_def prod.case)
    then show ?thesis
      unfolding item(1)
      by (rule wp_mono) (auto intro: E2 [OF item(2,3) row c f] Q2 [OF item(2,3) row f])
  qed
  have same: "refresh_touch ?i url now ?d = Inr (w_db w')"
    if "update_sub i (\<lambda>s. s\<lparr>su_source_url := url, su_last_checked_at_ms := now, su_last_error := [],
      su_updated_at_ms := now\<rparr>) ?d = Inr (w_db w')" "i = ?i" for i now and w' :: "'m world"
    using that by (simp add: refresh_touch_def)
  show ?thesis
    unfolding refresh_commit_def prod.case subscription_def refresh_unchanged_def
    by (intro wp_intros wp_sourceChecksum run)
      (auto intro: E0 E1 [OF same] Q1 [OF same] simp: norefresh_def dest: select_subscription_id)
qed

end
