(* ===== verification/SourceInvariant.thy ===== *)
theory SourceInvariant
  imports SubscriptionEffects
begin

text \<open>
  The tables of sources are well formed in every state that the operations on subscriptions and
  rules reach, failed statements and half-done compensations included.
\<close>

section \<open>Statements\<close>

lemma sources_okI:
  assumes "distinct (map su_id (d_subs d))" and "\<And>s. s \<in> set (d_subs d) \<Longrightarrow> su_id s \<le> d_sub_seq d \<and> source_row_ok s"
    and "distinct (map bi_id (d_bindings d))" and "distinct (map bi_subscription_id (d_bindings d))"
    and "\<And>b. b \<in> set (d_bindings d) \<Longrightarrow> bi_id b \<le> d_bind_seq d \<and> binding_check b"
    and "\<And>b. b \<in> set (d_bindings d) \<Longrightarrow> \<exists>s \<in> set (d_subs d). su_id s = bi_subscription_id b \<and> su_category s = ''route''"
  shows "sources_ok d"
  using assms unfolding sources_ok_def list_all_iff by blast

lemma sources_okD:
  assumes "sources_ok d"
  shows "distinct (map su_id (d_subs d))" and "s \<in> set (d_subs d) \<Longrightarrow> su_id s \<le> d_sub_seq d"
    and "s \<in> set (d_subs d) \<Longrightarrow> source_row_ok s"
    and "distinct (map bi_id (d_bindings d))" and "distinct (map bi_subscription_id (d_bindings d))"
    and "b \<in> set (d_bindings d) \<Longrightarrow> bi_id b \<le> d_bind_seq d" and "b \<in> set (d_bindings d) \<Longrightarrow> binding_check b"
    and "b \<in> set (d_bindings d) \<Longrightarrow> \<exists>s \<in> set (d_subs d). su_id s = bi_subscription_id b \<and> su_category s = ''route''"
  using assms unfolding sources_ok_def list_all_iff by blast+

lemma add_sub_ok:
  assumes ok: "sources_ok d" and "source_row_ok row" and "su_id row \<notin> su_id ` set (d_subs d)"
    and "d_sub_seq d \<le> q" and "su_id row \<le> q"
  shows "sources_ok (d\<lparr>d_subs := d_subs d @ [row], d_sub_seq := q\<rparr>)"
proof (rule sources_okI)
  fix s assume "s \<in> set (d_subs (d\<lparr>d_subs := d_subs d @ [row], d_sub_seq := q\<rparr>))"
  then show "su_id s \<le> d_sub_seq (d\<lparr>d_subs := d_subs d @ [row], d_sub_seq := q\<rparr>) \<and> source_row_ok s"
    using sources_okD(2,3) [OF ok, of s] assms(2,4,5) by auto
next
  fix b assume "b \<in> set (d_bindings (d\<lparr>d_subs := d_subs d @ [row], d_sub_seq := q\<rparr>))"
  then show "\<exists>s \<in> set (d_subs (d\<lparr>d_subs := d_subs d @ [row], d_sub_seq := q\<rparr>)). su_id s = bi_subscription_id b \<and> su_category s = ''route''"
    using sources_okD(8) [OF ok, of b] by auto
qed (use sources_okD [OF ok] assms(3) in auto)

lemma add_binding_ok:
  assumes ok: "sources_ok d" and c: "\<not> binding_conflict d b" and "d_bind_seq d \<le> q" and "bi_id b \<le> q"
    and r: "\<exists>s \<in> set (d_subs d). su_id s = bi_subscription_id b \<and> su_category s = ''route''"
  shows "sources_ok (d\<lparr>d_bindings := d_bindings d @ [b], d_bind_seq := q\<rparr>)"
proof (rule sources_okI)
  fix x assume "x \<in> set (d_bindings (d\<lparr>d_bindings := d_bindings d @ [b], d_bind_seq := q\<rparr>))"
  then have x: "x \<in> set (d_bindings d) \<or> x = b" by auto
  then show "bi_id x \<le> d_bind_seq (d\<lparr>d_bindings := d_bindings d @ [b], d_bind_seq := q\<rparr>) \<and> binding_check x"
    using sources_okD(6,7) [OF ok, of x] c assms(3,4) by (auto simp: binding_conflict_def)
  show "\<exists>s \<in> set (d_subs (d\<lparr>d_bindings := d_bindings d @ [b], d_bind_seq := q\<rparr>)). su_id s = bi_subscription_id x \<and> su_category s = ''route''"
    using x sources_okD(8) [OF ok, of x] r by auto
qed (use sources_okD [OF ok] c in \<open>auto simp: binding_conflict_def list_ex_iff\<close>)

lemma update_sub_ok:
  assumes ok: "sources_ok d" and u: "update_sub i f d = Inr d'"
    and f: "\<And>s. source_row_ok s \<Longrightarrow> su_id (f s) = su_id s \<and> su_category (f s) = su_category s
      \<and> su_rule_count (f s) = length (su_domains (f s)) \<and> su_domains (f s) \<noteq> [] \<and> distinct (su_domains (f s))"
  shows "sources_ok d'"
proof -
  have all: "list_all sub_check (map (\<lambda>s. if su_id s = i then f s else s) (d_subs d))"
    using u by (simp add: update_sub_def Let_def split: if_splits)
  have "sources_ok (d\<lparr>d_subs := map (\<lambda>s. if su_id s = i then f s else s) (d_subs d)\<rparr>)"
  proof (rule sources_ok_map_subs [OF ok])
    fix s assume s: "s \<in> set (d_subs d)"
    from f [OF sources_okD(3) [OF ok s]] sources_okD(3) [OF ok s] all s
    show "su_id (if su_id s = i then f s else s) = su_id s
      \<and> su_category (if su_id s = i then f s else s) = su_category s
      \<and> source_row_ok (if su_id s = i then f s else s)"
      by (cases "su_id s = i") (auto simp: list_all_iff source_row_ok_def [of "f s"])
  qed
  then show ?thesis using update_sub_Inr [OF u] by simp
qed

lemma update_binding_ok:
  assumes ok: "sources_ok d" and u: "update_binding i f d = Inr d'"
    and f: "\<And>b. bi_id (f b) = bi_id b \<and> bi_subscription_id (f b) = bi_subscription_id b"
  shows "sources_ok d'"
proof -
  define g where "g = (\<lambda>b. if bi_subscription_id b = i then f b else b)"
  have g: "bi_id (g b) = bi_id b" "bi_subscription_id (g b) = bi_subscription_id b" for b
    using f by (simp_all add: g_def)
  have "map bi_id (map g (d_bindings d)) = map bi_id (d_bindings d)"
    "map bi_subscription_id (map g (d_bindings d)) = map bi_subscription_id (d_bindings d)" using g by simp_all
  moreover have "list_all binding_check (map g (d_bindings d))"
    using u by (simp add: update_binding_def Let_def g_def split: if_splits)
  moreover have "d' = d\<lparr>d_bindings := map g (d_bindings d)\<rparr>"
    unfolding g_def by (rule update_binding_Inr [OF u])
  ultimately show ?thesis using ok g unfolding sources_ok_def by (simp del: map_map)
qed

lemma delete_sub_ok:
  assumes ok: "sources_ok d" and "delete_sub i d = Inr d'"
  shows "sources_ok d'"
proof -
  have d': "d' = d\<lparr>d_subs := filter (\<lambda>s. su_id s \<noteq> i) (d_subs d),
     d_bindings := filter (\<lambda>b. bi_subscription_id b \<noteq> i) (d_bindings d)\<rparr>"
    using assms(2) by (simp add: delete_sub_def)
  show ?thesis
  proof (rule sources_okI)
    fix b assume "b \<in> set (d_bindings d')"
    then have "b \<in> set (d_bindings d)" "bi_subscription_id b \<noteq> i" by (auto simp: d')
    then show "\<exists>s \<in> set (d_subs d'). su_id s = bi_subscription_id b \<and> su_category s = ''route''"
      using sources_okD(8) [OF ok, of b] by (auto simp: d')
  qed (use sources_okD [OF ok] in \<open>auto simp: d' distinct_map_filter\<close>)
qed

lemma reinsert_sub_ok:
  assumes "sources_ok d" and "reinsert_sub row d = Inr d'" and "source_row_ok row"
  shows "sources_ok d' \<and> row \<in> set (d_subs d')"
proof -
  have "d' = d\<lparr>d_subs := d_subs d @ [row], d_sub_seq := max (d_sub_seq d) (su_id row)\<rparr>" "su_id row \<notin> su_id ` set (d_subs d)"
    using assms(2) by (auto simp: reinsert_sub_def list_ex_iff split: if_splits)
  then show ?thesis using add_sub_ok [OF assms(1,3)] by simp
qed

lemma insert_binding_ok:
  assumes "sources_ok d" and "insert_binding mb d = Inr d'" and "\<And>b. bi_id (mb b) = b"
    and "\<And>b. bi_subscription_id (mb b) = i" and "\<exists>s \<in> set (d_subs d). su_id s = i \<and> su_category s = ''route''"
  shows "sources_ok d'"
proof -
  have "d' = d\<lparr>d_bindings := d_bindings d @ [mb (d_bind_seq d + 1)], d_bind_seq := d_bind_seq d + 1\<rparr>"
    "\<not> binding_conflict d (mb (d_bind_seq d + 1))"
    using assms(2) by (auto simp: insert_binding_def Let_def split: if_splits)
  then show ?thesis using add_binding_ok [OF assms(1)] assms(3-5) by simp
qed

lemma reinsert_binding_ok:
  assumes "sources_ok d" and "reinsert_binding b d = Inr d'"
    and "\<exists>s \<in> set (d_subs d). su_id s = bi_subscription_id b \<and> su_category s = ''route''"
  shows "sources_ok d'"
proof -
  have "d' = d\<lparr>d_bindings := d_bindings d @ [b], d_bind_seq := max (d_bind_seq d) (bi_id b)\<rparr>" "\<not> binding_conflict d b"
    using assms(2) by (auto simp: reinsert_binding_def split: if_splits)
  then show ?thesis using add_binding_ok [OF assms(1)] assms(3) by simp
qed

lemma create_forward_ok:
  assumes ok: "sources_ok d" and fwd: "create_forward (create_key_of L input kind body patterns now i) d = Inr d'"
    and patterns: "patterns \<noteq> []" "distinct patterns"
  shows "sources_ok d'"
proof -
  let ?s = "new_source L input kind body patterns now (d_sub_seq d + 1)"
  let ?d = "d\<lparr>d_subs := d_subs d @ [?s], d_sub_seq := d_sub_seq d + 1\<rparr>"
  have check: "sub_check ?s" using fwd
    by (simp add: create_forward_def create_key_of_def insert_sub_def Let_def split: sum.splits if_splits)
  have "source_row_ok ?s" using check patterns by (simp add: source_row_ok_def new_source_def)
  moreover have "su_id ?s = d_sub_seq d + 1" by (simp add: new_source_def)
  ultimately have ok': "sources_ok ?d" 
    using sources_okD(2) [OF ok] by (intro add_sub_ok [OF ok]) force+
  have cat: "su_category ?s = in_Category input" by (simp add: new_source_def)
  have fwd': "(if in_Category input = ''route'' then insert_binding (new_binding input now (d_sub_seq d + 1)) ?d else Inr ?d) = Inr d'"
    using fwd check by (simp add: create_forward_def create_key_of_def insert_sub_def Let_def split: if_splits)
  show ?thesis
  proof (cases "in_Category input = ''route''")
    case True
    with fwd' have "insert_binding (new_binding input now (d_sub_seq d + 1)) ?d = Inr d'" by simp
    then show ?thesis
      by (rule insert_binding_ok [OF ok', where i = "d_sub_seq d + 1"])
        (use True cat \<open>su_id ?s = _\<close> in \<open>auto simp: new_binding_def\<close>)
  next
    case False
    then show ?thesis using fwd' ok' by simp
  qed
qed

section \<open>Parsing\<close>

text \<open>The lines that are neither blank nor comments, and the list they denote.\<close>

definition entry_of :: "string \<Rightarrow> string option" where
  "entry_of raw = (let line = TrimSpace (TrimSuffix raw [CHR 0x0D]) in
     if line = '''' \<or> HasPrefix line ''#'' then None else Some line)"

definition entries :: "string \<Rightarrow> string list" where
  "entries body = List.map_filter entry_of (Split (CHR 0x0A) body)"

fun canon_all :: "rlib \<Rightarrow> string list \<Rightarrow> (string list) option" where
  "canon_all L [] = Some []"
| "canon_all L (e # es) = (case normalize L e ''domain'' of Inl _ \<Rightarrow> None
     | Inr p \<Rightarrow> map_option (Cons p) (canon_all L es))"

text \<open>First occurrences, in order: what Go does with its \<open>seen\<close> map.\<close>

fun firsts :: "'a list \<Rightarrow> 'a list \<Rightarrow> 'a list" where
  "firsts acc [] = acc"
| "firsts acc (x # xs) = firsts (if x \<in> set acc then acc else acc @ [x]) xs"

lemma set_firsts: "set (firsts acc xs) = set acc \<union> set xs"
  by (induction xs arbitrary: acc) auto

lemma distinct_firsts: "distinct acc \<Longrightarrow> distinct (firsts acc xs)"
  by (induction xs arbitrary: acc) auto

lemma map_filter_Cons: "List.map_filter f (x # xs) = (case f x of None \<Rightarrow> List.map_filter f xs | Some y \<Rightarrow> y # List.map_filter f xs)"
  by (simp add: List.map_filter_def split: option.splits)

lemma map_filter_Nil: "List.map_filter f [] = []"
  by (simp add: List.map_filter_def)

definition result_of :: "error + 'a \<Rightarrow> 'a option" where
  "result_of r = (case r of Inl _ \<Rightarrow> None | Inr x \<Rightarrow> Some x)"

lemma result_of_simps [simp]: "result_of (Inl e) = None" "result_of (Inr x) = Some x"
  by (simp_all add: result_of_def)

lemma result_of_Some: "result_of r = Some x \<longleftrightarrow> r = Inr x"
  by (cases r) auto

lemma parse_lines_eq:
  "result_of (parse_lines L acc lines) = map_option (firsts acc) (canon_all L (List.map_filter entry_of lines))"
proof (induction lines arbitrary: acc)
  case Nil
  show ?case by (simp add: map_filter_Nil)
next
  case (Cons raw rest)
  show ?case
  proof (cases "entry_of raw")
    case None
    then have "parse_lines L acc (raw # rest) = parse_lines L acc rest"
      by (auto simp: entry_of_def Let_def split: if_splits)
    then show ?thesis using None Cons.IH by (simp add: map_filter_Cons)
  next
    case (Some line)
    then have "parse_lines L acc (raw # rest) = (case normalize L line ''domain'' of
        Inl e \<Rightarrow> Inl (Wrap e (''invalid subscription domain '' @ lib_Quote L line @ '': '' @ Error e))
      | Inr p \<Rightarrow> parse_lines L (if p \<in> set acc then acc else acc @ [p]) rest)"
      by (auto simp: entry_of_def Let_def split: if_splits sum.splits)
    then show ?thesis
      using Some by (cases "normalize L line ''domain''") (simp_all add: map_filter_Cons Cons.IH option.map_comp comp_def)
  qed
qed

lemma parseSubscription_eq:
  "parseSubscription L body = Inr ps \<longleftrightarrow>
     body \<noteq> [] \<and> length body \<le> maxSubscriptionSize \<and> ps \<noteq> []
     \<and> (\<exists>qs. canon_all L (entries body) = Some qs \<and> ps = firsts [] qs)"
proof -
  have "parse_lines L [] (Split (CHR 0x0A) body) = Inr ps \<longleftrightarrow> (\<exists>qs. canon_all L (entries body) = Some qs \<and> ps = firsts [] qs)"
    unfolding entries_def result_of_Some [symmetric] parse_lines_eq by auto
  moreover have "parseSubscription L body = Inr ps \<longleftrightarrow> body \<noteq> [] \<and> length body \<le> maxSubscriptionSize \<and> ps \<noteq> []
      \<and> parse_lines L [] (Split (CHR 0x0A) body) = Inr ps"
    by (cases "parse_lines L [] (Split (CHR 0x0A) body)") (auto simp: parseSubscription_def)
  ultimately show ?thesis by simp
qed

lemma parseSubscription_ok: "parseSubscription L body = Inr ps \<Longrightarrow> ps \<noteq> [] \<and> distinct ps"
  by (auto simp: parseSubscription_eq distinct_firsts)

lemma canon_all_set: "canon_all L es = Some qs \<Longrightarrow> set qs = {p. \<exists>e \<in> set es. normalize L e ''domain'' = Inr p}"
  by (induction es arbitrary: qs) (auto split: sum.splits)

section \<open>Every operation\<close>

abbreviation well_sourced :: "'m world \<Rightarrow> bool" where
  "well_sourced \<equiv> onDB sources_ok"

lemma stable_of_untouched:
  fixes m :: "('a, 'b world, 'c) prog"
  assumes "\<And>w. wp m (\<lambda>_ w'. untouched (w_db w) (w_db w')) (\<lambda>_ w'. untouched (w_db w) (w_db w')) w"
  shows "stable well_sourced m"
  unfolding stable_wp
proof (intro allI impI)
  fix w :: "'b world" assume "well_sourced w"
  then show "wp m (\<lambda>_. well_sourced) (\<lambda>_. well_sourced) w"
    using wp_mono [OF assms [of w]] by (simp add: untouched_ok)
qed

lemma stable_publish [stable_intros]: "stable well_sourced (publish L C rules a b c n)"
  by (rule stable_of_untouched, rule wp_publish) (auto dest: published_untouched publish_failed_untouched)

lemma stable_allRules [stable_intros]: "stable well_sourced allRules"
  by (rule stable_of_untouched) (intro wp_intros, simp_all)

lemma stable_publish_all [stable_intros]: "stable well_sourced (publish_all L C a b c)"
  unfolding publish_all_def by (intro stable_intros)

lemma stable_subscription [stable_intros]: "stable well_sourced (subscription i)"
  unfolding subscription_def by (intro stable_intros)

lemma stable_Let [stable_intros]: "stable I (f a) \<Longrightarrow> stable I (Let a f)"
  by simp

lemma stable_restoreSubscriptionMutation [stable_intros]:
  "stable well_sourced restore \<Longrightarrow> stable well_sourced (restoreSubscriptionMutation C v cause restore)"
  unfolding restoreSubscriptionMutation_def run_restore_def by (intro stable_intros)

lemma stable_mutation_failed [stable_intros]:
  "stable well_sourced restore \<Longrightarrow> stable well_sourced (mutation_failed C i v cause restore)"
  unfolding mutation_failed_def by (intro stable_intros)

lemma stable_publish_or_restore [stable_intros]:
  "stable well_sourced restore \<Longrightarrow> stable well_sourced (publish_or_restore L C i restore a b c)"
  unfolding publish_or_restore_def by (intro stable_intros)

lemma stable_validateBinding [stable_intros]: "stable well_sourced (validateBinding C g p e)"
  unfolding validateBinding_def by (intro stable_intros)

lemma stable_validateSubscriptionBinding [stable_intros]: "stable well_sourced (validateSubscriptionBinding C i)"
  unfolding validateSubscriptionBinding_def by (intro stable_intros)

lemma stable_downloadSubscription [stable_intros]: "stable well_sourced (downloadSubscription F u)"
  unfolding downloadSubscription_def by (intro stable_intros)

lemma stable_update_sub [stable_intros]:
  assumes "\<And>s. source_row_ok s \<Longrightarrow> su_id (f s) = su_id s \<and> su_category (f s) = su_category s
      \<and> su_rule_count (f s) = length (su_domains (f s)) \<and> su_domains (f s) \<noteq> [] \<and> distinct (su_domains (f s))"
  shows "stable well_sourced (db_exec (update_sub i f))"
  by (rule stable_db_exec) (rule update_sub_ok [OF _ _ assms])

lemma stable_update_binding [stable_intros]:
  assumes "\<And>b. bi_id (f b) = bi_id b \<and> bi_subscription_id (f b) = bi_subscription_id b"
  shows "stable well_sourced (db_exec (update_binding i f))"
  by (rule stable_db_exec) (rule update_binding_ok [OF _ _ assms])

lemma stable_delete_sub [stable_intros]: "stable well_sourced (db_exec (delete_sub i))"
  by (rule stable_db_exec) (rule delete_sub_ok)

lemma stable_SetSubscriptionEnabled [stable_intros]: "stable well_sourced (SetSubscriptionEnabled L C i e a b c)"
  unfolding SetSubscriptionEnabled_def by (intro stable_intros) (auto simp: source_row_ok_def)

lemma stable_UpdateSubscriptionBinding [stable_intros]: "stable well_sourced (UpdateSubscriptionBinding L C i inp a b c)"
  unfolding UpdateSubscriptionBinding_def by (intro stable_intros) auto

lemma stable_createSubscription [stable_intros]: "stable well_sourced (createSubscription L C input kind body a b c)"
  unfolding stable_wp
proof (intro allI impI)
  fix w :: "'a world" assume ok: "well_sourced w"
  have rest: "wp (publish_or_restore L C i (db_exec (delete_sub i)) a b c) (\<lambda>_. well_sourced) (\<lambda>_. well_sourced) s"
    if "sources_ok (w_db s)" for i and s :: "'a world"
    using that by (intro stable_wpD stable_intros) simp
  have valid: "wp (validateSubscriptionBinding C input) (\<lambda>_. well_sourced) P s"
    if "w_db s = w_db w" "\<And>s'. w_db s' = w_db w \<Longrightarrow> P () s'" for P and s :: "'a world"
    unfolding validateSubscriptionBinding_def validateBinding_def
    by (intro wp_intros) (use ok that in auto)
  show "wp (createSubscription L C input kind body a b c) (\<lambda>_. well_sourced) (\<lambda>_. well_sourced) w"
    unfolding createSubscription_def using ok
    by (intro wp_intros valid wp_insert_source rest)
      (auto dest!: parseSubscription_ok intro: create_forward_ok)
qed

lemma stable_CreateURLSubscription [stable_intros]: "stable well_sourced (CreateURLSubscription L C F input a b c)"
  unfolding CreateURLSubscription_def by (intro stable_intros)

lemma stable_CreateUploadSubscription [stable_intros]: "stable well_sourced (CreateUploadSubscription L C input f body a b c)"
  unfolding CreateUploadSubscription_def by (intro stable_intros)

text \<open>What was read from well-formed tables, kept across a publication.\<close>

lemma select_sub_ok: "sources_ok d \<Longrightarrow> select_sub i d = Inr row \<Longrightarrow> source_row_ok row"
  using select_sub_Inr sources_okD(3) by blast

lemma selected_binding_route:
  assumes ok: "sources_ok d" and row: "select_sub i d = Inr row" and b: "binding_of d i = Some b"
  shows "su_category row = ''route''" and "bi_subscription_id b = i"
proof -
  have b': "b \<in> set (d_bindings d)" "bi_subscription_id b = i" using b by (auto simp: binding_of_def dest: find_Some_eq)
  with sources_okD(8) [OF ok b'(1)] obtain s where s: "s \<in> set (d_subs d)" "su_id s = i" "su_category s = ''route''" by auto
  moreover have "row \<in> set (d_subs d)" "su_id row = i" using select_sub_Inr [OF row] by auto
  ultimately have "row = s" using unique_id [OF sources_okD(1) [OF ok], of row s] by simp
  then show "su_category row = ''route''" "bi_subscription_id b = i" using s b' by auto
qed

lemma stable_restore_deleted:
  assumes ok: "sources_ok d" and sel: "select_subscription i d = Inr item" "select_sub i d = Inr row"
  shows "stable (onDB sources_ok :: 'm world \<Rightarrow> bool) (restore_deleted item (su_content_checksum row) (su_domains row))"
proof -
  have row: "su_id row = i" "source_row_ok row" using select_sub_Inr [OF sel(2)] select_sub_ok [OF ok sel(2)] by simp_all
  have item: "item = subscription_of row (binding_of d i)" using select_subscription_Inr [OF sel(1)] sel(2) by auto
  have b: "su_category row = ''route''" "bi_subscription_id b = i" if "binding_of d i = Some b" for b
    using selected_binding_route [OF ok sel(2) that] .
  have "stable (onDB sources_ok :: 'm world \<Rightarrow> bool) (bindM (db_exec (reinsert_sub row)) (\<lambda>_. case binding_of d i of
        None \<Rightarrow> returnM () | Some r \<Rightarrow> db_exec (reinsert_binding r)))"
    unfolding stable_wp
  proof (intro allI impI)
    fix w :: "'m world" assume w: "well_sourced w"
    have bind: "wp (db_exec (reinsert_binding r)) (\<lambda>_. well_sourced) (\<lambda>_. well_sourced) s"
      if "binding_of d i = Some r" "sources_ok (w_db s)" "row \<in> set (d_subs (w_db s))" for r and s :: "'m world"
      using that b [OF that(1)] row(1) by (intro wp_intros) (auto intro: reinsert_binding_ok)
    show "wp (bindM (db_exec (reinsert_sub row)) (\<lambda>_. case binding_of d i of None \<Rightarrow> returnM ()
        | Some r \<Rightarrow> db_exec (reinsert_binding r))) (\<lambda>_. well_sourced) (\<lambda>_. well_sourced) w"
      using w reinsert_sub_ok row(2) by (intro wp_intros bind) auto
  qed
  then show ?thesis by (simp add: item restore_deleted_eq [OF row(1) b(2)])
qed

lemma stable_DeleteSubscription [stable_intros]: "stable well_sourced (DeleteSubscription L C i a b c)"
  unfolding stable_wp
proof (intro allI impI)
  fix w :: "'a world" assume ok: "well_sourced w"
  have rest: "wp (bindM (mapErr (Pair noVersion) (db_exec (delete_sub i))) (\<lambda>_. bindM (attemptM (publish_all L C a b c)) (\<lambda>r. case r of
        Inl (v, cause) \<Rightarrow> bindM (restoreSubscriptionMutation C v cause
            (restore_deleted item (su_content_checksum row') (su_domains row))) (\<lambda>err. throwM (v, err))
      | Inr v \<Rightarrow> returnM v))) (\<lambda>e. well_sourced) (\<lambda>_. well_sourced) s"
    if "select_subscription i (w_db w) = Inr item" "select_sub i (w_db w) = Inr row" "select_sub i (w_db w) = Inr row'"
      "w_db s = w_db w" for item row row' and s :: "'a world"
  proof -
    have "row' = row" using that(2,3) by simp
    then have "stable well_sourced (restore_deleted item (su_content_checksum row') (su_domains row))"
      using stable_restore_deleted [of "w_db w" i item row] that ok by simp
    then show ?thesis using ok that(4) by (intro stable_wpD stable_intros) (auto intro: delete_sub_ok)
  qed
  show "wp (DeleteSubscription L C i a b c) (\<lambda>_. well_sourced) (\<lambda>_. well_sourced) w"
    unfolding DeleteSubscription_def subscription_def using ok
    by (intro wp_bindM_I [where m = "mapErr _ (db_query _)"] wp_mapErr_I wp_db_query_I rest) auto
qed

text \<open>A refresh: the domains come from the parser, the values restored from the tables.\<close>

lemma stable_subscriptionFailure [stable_intros]: "stable well_sourced (subscriptionFailure item cause)"
  unfolding subscriptionFailure_def run_restore_def by (intro stable_intros) (auto simp: source_row_ok_def)

lemma stable_refresh_fetch [stable_intros]: "stable well_sourced (refresh_fetch L F i)"
  unfolding refresh_fetch_def by (intro stable_intros)

lemma wp_refresh_fetch:
  fixes w :: "'m world"
  assumes "sources_ok (w_db w)"
  shows "wp (refresh_fetch L F i) (\<lambda>_. well_sourced)
     (\<lambda>(item, body, url, patterns) w'. sources_ok (w_db w') \<and> parseSubscription L body = Inr patterns
        \<and> w_db w' = w_db w) w"
proof -
  have fail: "wp (subscriptionFailure item e) (\<lambda>_. well_sourced) (\<lambda>err. wp (throwM (norefresh err)) (\<lambda>_. well_sourced) Q) s"
    if "w_db s = w_db w" for item e Q and s :: "'m world"
    unfolding wp_throwM using assms that by (intro stable_wpD stable_intros) simp
  have get: "wp (downloadSubscription F url) E Q s"
    if "\<And>e w'. w_db w' = w_db s \<Longrightarrow> E e w'" "\<And>r w'. w_db w' = w_db s \<Longrightarrow> Q r w'" for url E Q and s :: "'m world"
    unfolding downloadSubscription_def by (intro wp_intros) (auto intro: that)
  show ?thesis
    unfolding refresh_fetch_def subscription_def
    by (intro wp_intros get fail) (use assms in auto)
qed

lemma stable_refresh_publish [stable_intros]:
  "stable well_sourced restore \<Longrightarrow> stable well_sourced (refresh_publish L C i restore a b c)"
  unfolding refresh_publish_def by (intro stable_intros)

lemma stable_refresh_commit:
  assumes "ps \<noteq> []" and "distinct ps"
  shows "stable well_sourced (refresh_commit L C (seen, body, url, ps) a b c)"
  unfolding stable_wp
proof (intro allI impI)
  fix w :: "'a world" assume ok: "well_sourced w"
  have pub: "wp (refresh_publish L C i (db_exec (update_sub i (\<lambda>s. s\<lparr>su_source_url := sub_SourceURL item,
       su_content_checksum := ck, su_rule_count := sub_RuleCount item,
       su_last_checked_at_ms := sub_LastCheckedAtMS item, su_last_success_at_ms := sub_LastSuccessAtMS item,
       su_last_error := sub_LastError item, su_updated_at_ms := sub_UpdatedAtMS item,
       su_domains := su_domains row\<rparr>))) a b c) (\<lambda>_. well_sourced) (\<lambda>_. well_sourced) s"
    if item: "select_subscription (sub_ID seen) (w_db w) = Inr item" and row: "select_sub (sub_ID item) (w_db w) = Inr row"
      and s: "sources_ok (w_db s)" for i item row ck and s :: "'a world"
  proof -
    have facts: "sub_RuleCount item = length (su_domains row)" "su_domains row \<noteq> []" "distinct (su_domains row)"
      using select_sub_ok [OF _ row] select_subscription_Inr [OF item] select_subscription_id [OF item] row ok
      by (auto simp: source_row_ok_def subscription_of_def)
    show ?thesis
      by (rule stable_wpD [OF stable_refresh_publish [OF stable_update_sub]]) (simp_all add: facts s)
  qed
  have touch: "wp (refresh_unchanged i url now) (\<lambda>_. well_sourced) (\<lambda>_. well_sourced) s"
    if "sources_ok (w_db s)" for i now and s :: "'a world"
    unfolding refresh_unchanged_def using that
    by (intro stable_wpD stable_bindM stable_attemptM stable_update_sub stable_subscription stable_case_option
        stable_returnM stable_throwM) (auto simp: source_row_ok_def)
  show "wp (refresh_commit L C (seen, body, url, ps) a b c) (\<lambda>_. well_sourced) (\<lambda>_. well_sourced) w"
    unfolding refresh_commit_def prod.case subscription_def
    by (intro wp_intros wp_sourceChecksum pub touch)
      (use ok assms in \<open>auto intro: update_sub_ok simp: source_row_ok_def\<close>)
qed

lemma stable_RefreshSubscription [stable_intros]: "stable well_sourced (RefreshSubscription L C F i a b c)"
  unfolding stable_wp
proof (intro allI impI)
  fix w :: "'a world" assume ok: "well_sourced w"
  show "wp (RefreshSubscription L C F i a b c) (\<lambda>_. well_sourced) (\<lambda>_. well_sourced) w"
    unfolding RefreshSubscription_def
  proof (rule wp_bindM_I, rule wp_mono [OF wp_refresh_fetch])
    fix got :: "Subscription \<times> string \<times> string \<times> string list" and t :: "'a world"
    assume a: "(case got of (item, body, url, patterns) \<Rightarrow> \<lambda>w'. sources_ok (w_db w') \<and> parseSubscription L body = Inr patterns
        \<and> w_db w' = w_db w) t"
    obtain item body url ps where got: "got = (item, body, url, ps)" by (cases got)
    with a have "ps \<noteq> []" "distinct ps" "well_sourced t" using parseSubscription_ok by auto
    then show "wp (refresh_commit L C got a b c) (\<lambda>_. well_sourced) (\<lambda>_. well_sourced) t"
      unfolding got by (intro stable_wpD stable_refresh_commit)
  qed (use ok in auto)
qed

lemma stable_RefreshDue [stable_intros]: "stable well_sourced (RefreshDue L C F)"
  unfolding RefreshDue_def Subscriptions_def by (intro stable_intros)

end
