(* ===== verification/FinalizeTotal.thy ===== *)
theory FinalizeTotal
  imports RuleEffects
begin

text \<open>
  A candidate that mosdns runs can always be made active: on validated rules with distinct ids
  no CHECK, UNIQUE or FOREIGN KEY clause of \<open>domain_rules\<close> is violated, so \<open>finalize\<close> fails
  only on a database fault.
\<close>

section \<open>Validated rules meet the table constraints\<close>

lemma length_TrimLeftRunes: "length (TrimLeftRunes rs s) \<le> length s"
proof (induction rs s rule: TrimLeftRunes.induct)
  case (1 rs s)
  show ?case
  proof (cases "find (\<lambda>p. p \<noteq> [] \<and> HasPrefix s p) rs")
    case None
    then show ?thesis by (simp add: TrimLeftRunes.simps [of rs s])
  next
    case (Some p)
    from 1 [OF Some] have "length (TrimLeftRunes rs (drop (length p) s)) \<le> length s" by simp
    with Some show ?thesis by (simp add: TrimLeftRunes.simps [of rs s])
  qed
qed

lemma TrimSpace_hd: "TrimSpace g = g \<Longrightarrow> g \<noteq> CHR '' '' # t"
proof
  assume trim: "TrimSpace g = g" and g: "g = CHR '' '' # t"
  have "find (\<lambda>p. p \<noteq> [] \<and> HasPrefix g p) space_runes = Some [CHR '' '']"
    by (simp add: g space_runes_def HasPrefix_def)
  then have "TrimLeftRunes space_runes g = TrimLeftRunes space_runes t"
    by (simp add: TrimLeftRunes.simps [of space_runes g]) (simp add: g)
  then have "length (TrimSpace g) \<le> length t"
    unfolding TrimSpace_def length_rev by (metis le_trans length_TrimLeftRunes length_rev)
  with trim g show False by simp
qed

lemma sql_trim_nonempty: "TrimSpace g = g \<Longrightarrow> g \<noteq> [] \<Longrightarrow> sql_trim g \<noteq> []"
  by (cases g) (auto simp: sql_trim_def dropWhile_eq_Nil_conv dest: TrimSpace_hd)

lemma drule_check_wf:
  assumes "rule_wf L r"
  shows "drule_check (drule_of v n r)"
  using assms sql_trim_nonempty
  by (auto simp: drule_check_def Let_def drule_of_def nullableGroupID_def rule_wf_def validAction_def)

section \<open>Finalization succeeds\<close>

lemma wp_finalize_rules_total:
  assumes "lib_ok L" and "list_all (rule_wf L) rules"
    and "distinct (map r_ID rules)" and "distinct (map rule_key rules)"
    and "\<forall>x \<in> set (d_rules (w_db w)). \<forall>r \<in> set rules. r_ID (dr_rule x) \<noteq> r_ID r
           \<and> drule_key x \<noteq> (r_Pattern r, r_MatchType r, r_Category r)"
    and "version \<in> vv_version ` set (d_versions (w_db w))" and "w_faults w = []"
  shows "wp (traverseM (finalize_rule L version) rules) (\<lambda>_ _. False) (\<lambda>_ w'. w_faults w' = []) w"
  using assms(2-)
proof (induction rules arbitrary: w)
  case Nil
  then show ?case by (simp add: wp_simps)
next
  case (Cons r rules)
  have wf: "rule_wf L r" using Cons.prems(1) by simp
  then obtain p where "normalize L p (r_MatchType r) = Inr (r_Pattern r)" by (auto simp: rule_wf_def)
  then have n: "normalize L (r_Pattern r) (r_MatchType r) = Inr (r_Pattern r)"
    by (rule normalize_idem [OF assms(1)])
  let ?row = "drule_of version (r_Pattern r) r"
  let ?d = "(w_db w)\<lparr>d_rules := d_rules (w_db w) @ [?row]\<rparr>"
  have key: "drule_key ?row = (r_Pattern r, r_MatchType r, r_Category r)" "r_ID (dr_rule ?row) = r_ID r"
    by (simp_all add: drule_key_def drule_of_def)
  have "\<not> list_ex (\<lambda>x. r_ID (dr_rule x) = r_ID (dr_rule ?row) \<or> drule_key x = drule_key ?row) (d_rules (w_db w))"
    using Cons.prems(4) by (auto simp: list_ex_iff key)
  moreover have "list_ex (\<lambda>v. vv_version v = dr_version ?row) (d_versions (w_db w))"
    using Cons.prems(5) by (auto simp: list_ex_iff drule_of_def)
  ultimately have ins: "insert_drule ?row (w_db w) = Inr ?d"
    using drule_check_wf [OF wf] by (simp add: insert_drule_def)
  let ?w = "(pop_fault w)\<lparr>w_db := ?d\<rparr>"
  have "drule_key ?row \<noteq> (r_Pattern s, r_MatchType s, r_Category s)" if "s \<in> set rules" for s
  proof -
    have "rule_key s \<noteq> rule_key r" "rule_wf L s" using Cons.prems(1,3) that by (auto simp: list_all_iff image_iff)
    then show ?thesis using rule_key_inj [OF wf \<open>rule_wf L s\<close>] by (auto simp: key)
  qed
  then have "wp (traverseM (finalize_rule L version) rules) (\<lambda>_ _. False) (\<lambda>_ w'. w_faults w' = []) ?w"
    using Cons.prems by (intro Cons.IH) (auto simp: key pop_fault_def image_iff)
  moreover have "wp (finalize_rule L version r) E Q w = Q () ?w" for E Q
    using Cons.prems(6) by (simp add: finalize_rule_def wp_simps n ins faulty_def)
  ultimately show ?case by (simp add: wp_bindM)
qed

lemma upd_versions_supersede:
  "upd_versions (\<lambda>v. vv_status v = Active) (\<lambda>v. v\<lparr>vv_status := Superseded\<rparr>) d =
     Inr (d\<lparr>d_versions := map (\<lambda>v. if vv_status v = Active then v\<lparr>vv_status := Superseded\<rparr> else v) (d_versions d)\<rparr>)"
  by (auto simp: upd_versions_def Let_def filter_map comp_def filter_False split: if_splits)

lemma upd_versions_activate:
  assumes "distinct (map vv_version (d_versions d))" and "\<forall>x \<in> set (d_versions d). vv_status x \<noteq> Active"
  shows "\<exists>d'. upd_versions (\<lambda>v. vv_version v = version)
     (\<lambda>v. v\<lparr>vv_status := Active, vv_activated_at_ms := Some now, vv_error_code := None, vv_error_message := None\<rparr>) d = Inr d'
     \<and> d_versions d' = map (\<lambda>v. if vv_version v = version
          then v\<lparr>vv_status := Active, vv_activated_at_ms := Some now, vv_error_code := None, vv_error_message := None\<rparr>
          else v) (d_versions d)"
proof -
  let ?f = "\<lambda>v. if vv_version v = version
     then v\<lparr>vv_status := Active, vv_activated_at_ms := Some now, vv_error_code := None, vv_error_message := None\<rparr> else v"
  have "filter (\<lambda>v. vv_status v = Active) (map ?f (d_versions d))
      = map ?f (filter (\<lambda>v. vv_version v = version) (d_versions d))"
    unfolding filter_map comp_def using assms(2) by (intro arg_cong [where f = "map ?f"] filter_cong) auto
  moreover have "length (filter (\<lambda>v. vv_version v = version) (d_versions d)) \<le> 1"
  proof (cases "version \<in> vv_version ` set (d_versions d)")
    case True
    then show ?thesis using filter_key_single [OF assms(1)] by auto
  next
    case False
    then have "filter (\<lambda>v. vv_version v = version) (d_versions d) = []" by (auto simp: filter_empty_conv)
    then show ?thesis by simp
  qed
  ultimately show ?thesis by (simp add: upd_versions_def Let_def)
qed

text \<open>Without faults a statement that meets no constraint succeeds.\<close>

lemma wp_db_exec_ok:
  assumes "w_faults w = []" and "u (w_db w) = Inr d"
    and "\<And>w'. w_db w' = d \<Longrightarrow> w_faults w' = [] \<Longrightarrow> Q () w'"
  shows "wp (db_exec u) E Q w"
  using assms by (simp add: wp_db_exec faulty_def pop_fault_def)

lemma wp_db_query_ok:
  assumes "w_faults w = []" and "q (w_db w) = Inr a"
    and "\<And>w'. w_db w' = w_db w \<Longrightarrow> w_faults w' = [] \<Longrightarrow> Q a w'"
  shows "wp (db_query q) E Q w"
  using assms by (simp add: wp_db_query faulty_def pop_fault_def)

lemma wp_time_now_ok:
  assumes "w_faults w = []" and "\<And>t w'. w_db w' = w_db w \<Longrightarrow> w_faults w' = [] \<Longrightarrow> Q t w'"
  shows "wp time_now E Q w"
  using assms by (auto simp: wp_time_now split: list.splits)

lemma wp_transaction_ok:
  assumes "w_faults w = []"
    and "\<And>s. w_db s = w_db w \<Longrightarrow> w_faults s = [] \<Longrightarrow>
      wp body (\<lambda>_ _. False) (\<lambda>a w'. w_faults w' = [] \<and> (\<forall>w''. w_db w'' = w_db w' \<longrightarrow> w_faults w'' = [] \<longrightarrow> Q a w'')) s"
  shows "wp (transaction body) (\<lambda>_ _. False) Q w"
  unfolding wp_transaction
  by (rule wp_db_query_ok [OF assms(1) refl], rule wp_mono [OF assms(2)])
    (auto intro!: wp_db_query_ok)

lemma finalize_body_total:
  assumes "lib_ok L" and "store_ok L (w_db w)" and "x \<in> set (d_versions (w_db w))"
    and "distinct (map r_ID (vv_rules x))" and "w_faults w = []"
  shows "wp (finalize_body L (vv_version x) (vv_rules x) 0 requestID ip) (\<lambda>_ _. False) (\<lambda>_ w'. w_faults w' = []) w"
proof -
  let ?super = "map (\<lambda>v. if vv_status v = Active then v\<lparr>vv_status := Superseded\<rparr> else v) (d_versions (w_db w))"
  have ok: "row_ok L x" and dist: "distinct (map vv_version (d_versions (w_db w)))"
    using assms(2,3) strict_sorted_distinct by (auto simp: store_ok_def list_all_iff)
  have vers: "map vv_version ?super = map vv_version (d_versions (w_db w))" by simp
  have rules: "wp (traverseM (finalize_rule L (vv_version x)) (vv_rules x)) (\<lambda>_ _. False) (\<lambda>_ w'. w_faults w' = []) s"
    if "w_faults s = []" "d_rules (w_db s) = []" "vv_version ` set (d_versions (w_db s)) = vv_version ` set (d_versions (w_db w))" for s
    using that ok assms(3,4) by (intro wp_finalize_rules_total [OF assms(1)]) (auto simp: row_ok_def)
  have act: "\<exists>d'. upd_versions (\<lambda>v. vv_version v = vv_version x)
     (\<lambda>v. v\<lparr>vv_status := Active, vv_activated_at_ms := Some now, vv_error_code := None, vv_error_message := None\<rparr>)
       ((w_db w)\<lparr>d_versions := ?super\<rparr>) = Inr d' \<and> vv_version ` set (d_versions d') = vv_version ` set (d_versions (w_db w))" for now
  proof -
    let ?d = "(w_db w)\<lparr>d_versions := ?super\<rparr>"
    let ?act = "\<lambda>v. v\<lparr>vv_status := Active, vv_activated_at_ms := Some now, vv_error_code := None, vv_error_message := None\<rparr>"
    have "distinct (map vv_version (d_versions ?d))" using dist unfolding vers [symmetric] by simp
    moreover have "\<forall>x \<in> set (d_versions ?d). vv_status x \<noteq> Active" by auto
    ultimately obtain d' where d': "upd_versions (\<lambda>v. vv_version v = vv_version x) ?act ?d = Inr d'"
      "d_versions d' = map (\<lambda>v. if vv_version v = vv_version x then ?act v else v) (d_versions ?d)"
      using upd_versions_activate by blast
    have "map vv_version (d_versions d') = map vv_version (d_versions (w_db w))" by (simp add: d'(2))
    then have "vv_version ` set (d_versions d') = vv_version ` set (d_versions (w_db w))" by (metis set_map)
    with d'(1) show ?thesis by blast
  qed
  then obtain D where D: "upd_versions (\<lambda>v. vv_version v = vv_version x)
     (\<lambda>v. v\<lparr>vv_status := Active, vv_activated_at_ms := Some now, vv_error_code := None, vv_error_message := None\<rparr>)
       ((w_db w)\<lparr>d_versions := ?super\<rparr>) = Inr (D now)"
     "vv_version ` set (d_versions (D now)) = vv_version ` set (d_versions (w_db w))" for now
    by metis
  show ?thesis
    unfolding finalize_body_def
    by (rule wp_bindM_I, rule wp_db_exec_ok [OF assms(5) upd_versions_supersede],
        rule wp_bindM_I, rule wp_time_now_ok, assumption,
        rule wp_bindM_I, rule wp_db_exec_ok, assumption, simp add: D(1),
        rule wp_bindM_I, rule wp_db_exec_ok, assumption, rule refl,
        rule wp_bindM_I, rule wp_db_query_ok, assumption, rule refl,
        rule wp_bindM_I, rule wp_mono [OF rules])
      (simp_all add: D(2) wp_returnM)
qed

lemma finalize_total:
  assumes "lib_ok L" and "store_ok L (w_db w)" and "x \<in> set (d_versions (w_db w))"
    and "distinct (map r_ID (vv_rules x))" and "w_faults w = []"
  shows "\<exists>w'. finalize L (vv_version x) w = (Inr (), w') \<and> w_faults w' = []
     \<and> activated L (vv_version x) (vv_rules x) (w_db w) (w_db w')"
proof -
  have "\<exists>y. select_version (vv_version x) (w_db w) = Inr y"
    using assms(3) by (auto simp: select_version_def first_row_def find_None_iff split: option.splits)
  then have sel: "select_version (vv_version x) (w_db w) = Inr x"
    using select_version_unique [OF assms(2,3)] by blast
  have "wp (finalize L (vv_version x)) (\<lambda>_ _. False) (\<lambda>_ w'. w_faults w' = []) w"
    unfolding finalize_def finalizeWithRules_def
    by (rule wp_bindM_I, rule wp_db_query_ok, rule assms(5), rule sel, rule wp_transaction_ok, assumption,
        rule wp_mono [OF finalize_body_total]) (use assms in auto)
  moreover have "wp (finalize L (vv_version x)) (\<lambda>_ _. True)
      (\<lambda>_ w'. activated L (vv_version x) (vv_rules x) (w_db w) (w_db w')) w"
    by (rule wp_finalize [OF assms(2,3)]) auto
  ultimately have "wp (finalize L (vv_version x)) (\<lambda>_ _. False)
      (\<lambda>_ w'. w_faults w' = [] \<and> activated L (vv_version x) (vv_rules x) (w_db w) (w_db w')) w"
    by (rule wp_mono [OF wp_conj]) simp_all
  from wp_total [OF this] show ?thesis by auto
qed

end
