(* ===== verification/Demo.thy ===== *)
theory Demo
  imports FinalizeTotal "HOL-Library.Code_Target_Nat"
begin

text \<open>
  A concrete instance of the parameters, on which theorems are applied: library functions for
  ASCII names, a mosdns that keeps the snapshot it was last given, and one that loses every
  answer to \<open>Apply\<close>.
\<close>

definition demo_lib :: rlib where
  "demo_lib = \<lparr>
     lib_ToASCII = (\<lambda>p. if list_all ldh p then Inr p else Inl (Msg ''idna: disallowed rune'')),
     lib_ToLower = map lower_byte,
     lib_Compile = (\<lambda>p. None),
     lib_ParseAddr = (\<lambda>s. if s = ''192.0.2.1'' then Some (True, s) else if s = ''2001:db8::1'' then Some (False, s) else None),
     lib_Sum = (\<lambda>s. s),
     lib_Quote = (\<lambda>s. s),
     lib_Marshal = (\<lambda>s. show_nat (sn_Version s) @ concat (map w_Pattern (sn_Rules s)))\<rparr>"

text \<open>The state of the demo mosdns: the version and checksum it runs.\<close>

definition demo_group :: UpstreamGroup where
  "demo_group = \<lparr>g_ID = ''default'', g_Name = ''Default'', g_Enabled = True, g_Mode = ''parallel'', g_Concurrent = 2,
     g_Socks5 = [], g_Bootstrap = [], g_BootstrapVer = 0, g_MaxInFlight = None, g_QueryTimeoutMS = None,
     g_Upstreams = None, g_ECS = \<lparr>ecs_Mode = ''off'', ecs_Mask4 = 0, ecs_Mask6 = 0, ecs_Preset4 = [], ecs_Preset6 = []\<rparr>,
     g_Cache = \<lparr>gc_Enabled = True, gc_Size = 1024\<rparr>\<rparr>"

definition demo_registry :: RegistrySnapshot where
  "demo_registry = \<lparr>rg_SchemaVersion = 2, rg_Version = 7, rg_ExpectedCurrentVersion = 0,
     rg_DefaultGroupID = ''default'', rg_Groups = Some [demo_group],
     rg_Cache = \<lparr>rc_Enabled = True, rc_LazyTTL = 0, rc_Negative = \<lparr>nc_Enabled = False, nc_TTL = 0\<rparr>\<rparr>,
     rg_Protection = \<lparr>pr_GlobalMaxInFlight = 100, pr_DefaultGroupMaxInFlight = 10,
       pr_DefaultGroupQueryTimeoutMS = 1000, pr_OverloadAction = ''drop''\<rparr>\<rparr>"

definition demo_client :: "(nat \<times> string) client" where
  "demo_client = \<lparr>
     c_Status = (\<lambda>m. (Inr \<lparr>st_SnapshotVersion = fst m, st_Checksum = snd m\<rparr>, m)),
     c_Validate = (\<lambda>s m. (Inr \<lparr>vr_Valid = True, vr_Checksum = sn_Checksum s\<rparr>, m)),
     c_Apply = (\<lambda>s m. (Inr \<lparr>ap_Applied = True, ap_Version = sn_Version s, ap_Checksum = sn_Checksum s\<rparr>,
                      (sn_Version s, sn_Checksum s))),
     c_RegistryStatus = (\<lambda>m. (Inr demo_registry, m)),
     c_RegistryRuntimeStatus = (\<lambda>m. (Inl (Msg ''unavailable''), m)),
     c_ApplyRegistry = (\<lambda>s m. (Inr (s\<lparr>rg_ExpectedCurrentVersion := 0\<rparr>), m)),
     c_FlushRegistry = (\<lambda>g v m. (Inr (), m)),
     c_AddressFamilyStatus = (\<lambda>m. (Inr \<lparr>af_Version = 1, af_ExpectedCurrentVersion = 0, af_Mode = ''dual''\<rparr>, m)),
     c_ApplyAddressFamily = (\<lambda>s m. (Inr s, m))\<rparr>"

text \<open>The answer to \<open>Apply\<close> is lost and the snapshot is not taken over.\<close>

definition lossy_client :: "(nat \<times> string) client" where
  "lossy_client = demo_client\<lparr>c_Apply := (\<lambda>s m. (Inl (Wrap ErrUnknown ''timeout''), m))\<rparr>"

definition demo_world :: "(nat \<times> string) world" where
  "demo_world = \<lparr>w_db = empty_db, w_faults = [], w_now = 1000, w_clock = [], w_ext = (0, '''')\<rparr>"

definition demo_rule :: Rule where
  "demo_rule = \<lparr>r_ID = 0, r_Category = ''access'', r_Action = ''block'', r_UpstreamGroupID = [],
     r_MatchType = ''domain'', r_Pattern = ''Ads.Example.'', r_Priority = 100, r_Source = [], r_Comment = [],
     r_Enabled = True, r_CreatedAtMS = 0, r_UpdatedAtMS = 0, r_ExpectedUpstreamRegistryVersion = None,
     r_IPv4Addresses = [], r_IPv6Addresses = [], r_TTL = 0\<rparr>"

lemma lower_ldh: "ldh c \<Longrightarrow> ldh (lower_byte c)"
  using ldh_lower [of "[c]"] by simp

lemma demo_lib_ok: "lib_ok demo_lib"
proof -
  have "TrimSpace ''192.0.2.1'' = ''192.0.2.1''" "TrimSpace ''2001:db8::1'' = ''2001:db8::1''" by code_simp+
  then show ?thesis
    by (auto simp: lib_ok_def demo_lib_def list_all_iff lower_ldh split: if_splits)
qed

definition created :: "(nat \<times> string) world" where
  "created = snd (Create demo_lib demo_client demo_rule 1 ''req'' ''ip'' demo_world)"

lemma demo_create: "\<not> isl (fst (Create demo_lib demo_client demo_rule 1 ''req'' ''ip'' demo_world))"
  by code_simp

lemma demo_list: "select_rules (w_db created) = Inr [demo_rule\<lparr>r_ID := 1, r_Pattern := ''ads.example'',
   r_Source := ''manual'', r_CreatedAtMS := 1000, r_UpdatedAtMS := 1000\<rparr>]"
  by code_simp

end
