(* ===== verification/RuleProperties.thy ===== *)
theory RuleProperties
  imports Demo
begin

text \<open>
  The properties of rule publication, each applied to a concrete run of the services on the
  instance of \<open>Demo\<close>.
\<close>

section \<open>Runs\<close>

lemma run_ok: "\<not> isl (fst p) \<Longrightarrow> p = (Inr (projr (fst p)), snd p)"
  by (cases p) (auto simp: isl_def split: sum.splits)

lemma run_err: "isl (fst p) \<Longrightarrow> p = (Inl (projl (fst p)), snd p)"
  by (cases p) (auto simp: isl_def split: sum.splits)

lemma empty_ok: "store_ok L (w_db demo_world)"
  by (simp add: demo_world_def store_ok_empty)

lemmas created_run = run_ok [OF demo_create, folded created_def]

lemma created_ok: "store_ok demo_lib (w_db created)"
  by (rule store_ok_steps [OF evolves_steps [OF evolves_Create empty_ok created_run] empty_ok])

section \<open>Publication\<close>

text \<open>The effect of a publication, from its specification.\<close>

lemma published_effect:
  assumes "store_ok L (w_db w)" and "published L C rules (w_db w) v (w_db w')"
  shows "\<exists>rs row now s c m x. candidate L rules (w_db w) rs row \<and> routes_ok C rs None
     \<and> validated C row \<and> confirmed C row \<and> v = (version_of row)\<lparr>v_Status := Some Active\<rparr>
     \<and> d_versions (w_db w') = map (activate (v_Version v) now) (d_versions (w_db w) @ [restate row s c m])
     \<and> actives (w_db w') = [x] \<and> vv_version x = v_Version v \<and> vv_rules x = map persist_rule rs
     \<and> (\<forall>y \<in> set (d_versions (w_db w)). vv_version y < v_Version v)
     \<and> rows_for L (v_Version v) rs (d_rules (w_db w'))"
proof -
  from assms(2) obtain rs row s c m where
    cand: "candidate L rules (w_db w) rs row" "routes_ok C rs None" "validated C row" "confirmed C row"
    and s: "s \<in> {Pending, Unknown}"
    and act: "activated L (vv_version row) rs (staged (w_db w) (restate row s c m)) (w_db w')"
    and v: "v = (version_of row)\<lparr>v_Status := Some Active\<rparr>"
    unfolding published_def by blast
  from act obtain now rows audit where
    w': "w_db w' = (staged (w_db w) (restate row s c m))\<lparr>d_versions := map (activate (vv_version row) now)
       (d_versions (staged (w_db w) (restate row s c m))), d_rules := rows,
       d_audit := insert_rows audit (d_audit (staged (w_db w) (restate row s c m)))\<rparr>" and rows: "rows_for L (vv_version row) rs rows"
    by (auto simp: activated_def)
  let ?x = "activate (vv_version row) now (restate row s c m)"
  have ok: "store_ok L (staged (w_db w) (restate row s c m))"
    using s by (intro store_ok_step [OF stage [OF cand(1)] assms(1)]) auto
  have "restate row s c m \<in> set (d_versions (staged (w_db w) (restate row s c m)))" by (simp add: staged_def)
  moreover have "d_versions (w_db w') = map (activate (vv_version row) now) (d_versions (w_db w) @ [restate row s c m])"
    by (simp add: w' staged_def)
  ultimately have "actives (w_db w') = [?x]"
    using actives_activate [of "staged (w_db w) (restate row s c m)" "restate row s c m" "w_db w'" now] ok
    by (simp add: store_ok_def staged_def)
  with cand rows \<open>d_versions (w_db w') = _\<close> show ?thesis
    using candidate_fresh_less [OF cand(1)]
    by (intro exI [of _ rs] exI [of _ row] exI [of _ now] exI [of _ s] exI [of _ c] exI [of _ m] exI [of _ ?x])
      (auto simp: v w' candidate_def)
qed

text \<open>C1: \<open>publish\<close> reports success only for a snapshot that mosdns validated and confirmed
  to run; the new version is then the only active one, larger than all others, the versions
  before it are otherwise as they were, and the rule table holds its validated rules.\<close>

theorem publish_activates:
  assumes "store_ok L (w_db w)" and "publish L C rules adminID requestID ip rollbackFrom w = (Inr v, w')"
  shows "\<exists>rs row now s c m x. candidate L rules (w_db w) rs row \<and> routes_ok C rs None
     \<and> validated C row \<and> confirmed C row \<and> v = (version_of row)\<lparr>v_Status := Some Active\<rparr>
     \<and> d_versions (w_db w') = map (activate (v_Version v) now) (d_versions (w_db w) @ [restate row s c m])
     \<and> actives (w_db w') = [x] \<and> vv_version x = v_Version v \<and> vv_rules x = map persist_rule rs
     \<and> (\<forall>y \<in> set (d_versions (w_db w)). vv_version y < v_Version v)
     \<and> rows_for L (v_Version v) rs (d_rules (w_db w'))"
  using assms(1) wp_Inr [OF publish_spec assms(2)] by (rule published_effect)

definition published_world :: "(nat \<times> string) world" where
  "published_world = snd (publish demo_lib demo_client [demo_rule\<lparr>r_ID := 1\<rparr>] 1 ''req'' ''ip'' 0 demo_world)"

lemma demo_publish: "\<not> isl (fst (publish demo_lib demo_client [demo_rule\<lparr>r_ID := 1\<rparr>] 1 ''req'' ''ip'' 0 demo_world))"
  by code_simp

theorem publish_activates_witness:
  "\<exists>v rs. actives (w_db published_world) \<noteq> [] \<and> rows_for demo_lib v rs (d_rules (w_db published_world))"
  using publish_activates [OF empty_ok run_ok [OF demo_publish]] unfolding published_world_def by fastforce

lemma failed_effect:
  assumes "publish_failed L C rules (w_db w) v e (w_db w')"
  shows "d_rules (w_db w') = d_rules (w_db w) \<and> active_of (w_db w') = active_of (w_db w)
     \<and> (d_versions (w_db w') = d_versions (w_db w)
        \<or> (\<exists>x. d_versions (w_db w') = d_versions (w_db w) @ [x] \<and> v_Version v = vv_version x
             \<and> vv_version x = next_version (w_db w)
             \<and> (vv_status x = Pending \<or> vv_status x = Unknown \<or> vv_status x = Failed \<and> refused C x)))"
proof -
  from assms consider "w_db w' = w_db w"
    | rs row s c m where "candidate L rules (w_db w) rs row" "w_db w' = staged (w_db w) (restate row s c m)"
        "s = Pending \<or> s = Unknown \<or> s = Failed \<and> refused C row" "v_Version v = vv_version row"
    unfolding publish_failed_def by blast
  then show ?thesis
  proof cases
    case 1
    then show ?thesis by simp
  next
    case (2 rs row s c m)
    have "active_of (w_db w') = active_of (w_db w)"
      using 2(2,3) by (auto simp: active_of_def staged_def find_snoc split: option.splits)
    moreover have "refused C (restate row s c m) = refused C row" by (simp add: refused_def)
    ultimately show ?thesis using 2 by (auto simp: staged_def candidate_def)
  qed
qed

text \<open>C2: A publication that fails leaves the rule table and the active version alone; all it may
  leave behind is one more version, pending, unknown or failed, and failed only when mosdns
  refused the snapshot.\<close>

theorem publish_failure_keeps:
  assumes "publish L C rules adminID requestID ip rollbackFrom w = (Inl (v, e), w')"
  shows "d_rules (w_db w') = d_rules (w_db w) \<and> active_of (w_db w') = active_of (w_db w)
     \<and> (d_versions (w_db w') = d_versions (w_db w)
        \<or> (\<exists>x. d_versions (w_db w') = d_versions (w_db w) @ [x] \<and> v_Version v = vv_version x
             \<and> vv_version x = next_version (w_db w)
             \<and> (vv_status x = Pending \<or> vv_status x = Unknown \<or> vv_status x = Failed \<and> refused C x)))"
  using wp_Inl [OF publish_spec assms] by (intro failed_effect) simp

lemma demo_lossy: "isl (fst (publish demo_lib lossy_client [demo_rule\<lparr>r_ID := 1\<rparr>] 1 ''req'' ''ip'' 0 demo_world))"
  by code_simp

theorem publish_failure_keeps_witness:
  "d_rules (w_db (snd (publish demo_lib lossy_client [demo_rule\<lparr>r_ID := 1\<rparr>] 1 ''req'' ''ip'' 0 demo_world)))
     = d_rules (w_db demo_world)"
  using publish_failure_keeps [of demo_lib lossy_client "[demo_rule\<lparr>r_ID := 1\<rparr>]" 1 "''req''" "''ip''" 0 demo_world]
    run_err [OF demo_lossy] by (metis prod.collapse)

section \<open>Edits of the rule list\<close>

definition demo_patch :: Rule where
  "demo_patch = demo_rule\<lparr>r_Pattern := ''tracker.example'', r_UpdatedAtMS := 1000\<rparr>"

definition updated :: "(nat \<times> string) world" where
  "updated = snd (Update demo_lib demo_client 1 demo_patch 1 ''req'' ''ip'' created)"

lemma demo_update: "\<not> isl (fst (Update demo_lib demo_client 1 demo_patch 1 ''req'' ''ip'' created))"
  by code_simp

end
