(* ===== verification/RuleSystem.thy ===== *)
theory RuleSystem
  imports SourceInvariant RuleProperties
begin

text \<open>
  The rule service as a whole: any sequence of requests, background refreshes and reconciliations,
  with any database faults, clock readings and behaviour of mosdns in between. The mutex
  \<open>publishMu\<close> orders the operations; a refresh holds it only after its
  download, so it is two steps, and the failure of a download is recorded at a time of its own.
\<close>

section \<open>Steps\<close>

inductive service_step :: "rlib \<Rightarrow> 'm client \<Rightarrow> 'm fetcher \<Rightarrow> 'm world \<Rightarrow> 'm world \<Rightarrow> bool"
  for L :: rlib and C :: "'m client" and F :: "'m fetcher" where
  env: "w_db w' = w_db w \<Longrightarrow> service_step L C F w w'"
| create: "Create L C r a b c w = (res, w') \<Longrightarrow> service_step L C F w w'"
| update: "Update L C i p a b c w = (res, w') \<Longrightarrow> service_step L C F w w'"
| delete: "Delete L C i a b c w = (res, w') \<Longrightarrow> service_step L C F w w'"
| rollback: "Rollback L C v x a b c w = (res, w') \<Longrightarrow> service_step L C F w w'"
| batch: "Batch L C oper ids x a b c w = (res, w') \<Longrightarrow> service_step L C F w w'"
| import_rules: "Import L C rs a b c w = (res, w') \<Longrightarrow> service_step L C F w w'"
| reconcile: "Reconcile L C w = (res', w') \<Longrightarrow> service_step L C F w w'"
| create_url: "CreateURLSubscription L C F inp a b c w = (sres, w') \<Longrightarrow> service_step L C F w w'"
| create_upload: "CreateUploadSubscription L C inp fn body a b c w = (sres, w') \<Longrightarrow> service_step L C F w w'"
| set_enabled: "SetSubscriptionEnabled L C i e a b c w = (sres, w') \<Longrightarrow> service_step L C F w w'"
| rebind: "UpdateSubscriptionBinding L C i bn a b c w = (sres, w') \<Longrightarrow> service_step L C F w w'"
| delete_source: "DeleteSubscription L C i a b c w = (res, w') \<Longrightarrow> service_step L C F w w'"
| fetch: "refresh_fetch L F i w = (fres, w') \<Longrightarrow> service_step L C F w w'"
| refresh_failed: "(subscriptionFailure item cause :: (refresh_failure, 'm world, error) prog) w = (eres, w') \<Longrightarrow>
    service_step L C F w w'"
| commit: "parseSubscription L body = Inr ps \<Longrightarrow> refresh_commit L C (seen, body, url, ps) a b c w = (cres, w') \<Longrightarrow>
    service_step L C F w w'"

abbreviation service_steps :: "rlib \<Rightarrow> 'm client \<Rightarrow> 'm fetcher \<Rightarrow> 'm world \<Rightarrow> 'm world \<Rightarrow> bool" where
  "service_steps L C F \<equiv> (service_step L C F)\<^sup>*\<^sup>*"

section \<open>The invariant\<close>

lemma stable_validateRouteTargets [stable_intros]: "stable well_sourced (validateRouteTargets C rules e)"
  unfolding validateRouteTargets_def by (intro stable_intros)

lemma stable_reserveRuleIDs [stable_intros]: "stable well_sourced (reserveRuleIDs n)"
  unfolding reserveRuleIDs_def
  by (intro stable_intros)
    (auto simp: sources_ok_def state_insert_ignore_def state_update_def split: option.splits)

lemma stable_update_loop [stable_intros]: "stable well_sourced (update_loop i patch rules)"
  by (induction rules arbitrary: patch) (auto intro!: stable_intros simp: Let_def simp del: onDB_iff)

lemma stable_import_loop [stable_intros]: "stable well_sourced (import_loop rules is)"
  by (induction rules "is" rule: import_loop.induct) (auto intro!: stable_intros simp: Let_def simp del: onDB_iff)

lemma stable_rule_operations [stable_intros]:
  "stable well_sourced (Create L C r a b c)" "stable well_sourced (Update L C i p a b c)"
  "stable well_sourced (Delete L C i a b c)" "stable well_sourced (Rollback L C v x a b c)"
  "stable well_sourced (Batch L C oper ids x a b c)" "stable well_sourced (Import L C rs a b c)"
  unfolding Create_def Update_def Delete_def Rollback_def Batch_def Import_def nextRuleID_def validateRouteWrite_def
  by (intro stable_intros)+

lemma stable_finalize [stable_intros]: "stable well_sourced (finalize L v)"
  by (rule stable_of_untouched, unfold finalize_def, intro wp_intros)
    (auto simp: activated_def untouched_def)

lemma stable_republish [stable_intros]: "stable well_sourced (republish L C s r)"
  unfolding republish_def by (intro stable_intros)

lemma stable_Reconcile [stable_intros]: "stable well_sourced (Reconcile L C)"
  unfolding Reconcile_def reconcile_candidate_def reconcile_active_def subscriptionSets_def
  by (intro stable_intros)

definition service_ok :: "rlib \<Rightarrow> 'm world \<Rightarrow> bool" where
  "service_ok L w = (store_ok L (w_db w) \<and> sources_ok (w_db w))"

lemma service_step_pub_steps:
  assumes "service_step L C F w w'" and ok: "store_ok L (w_db w)"
  shows "pub_steps L (w_db w) (w_db w')"
  using assms(1)
  by cases (auto intro: evolves_steps [OF _ ok] evolves_intros)

lemma service_step_sources:
  assumes "service_step L C F w w'" and ok: "sources_ok (w_db w)"
  shows "sources_ok (w_db w')"
proof -
  have *: "sources_ok (w_db w')" if "m w = (res, w')" "stable well_sourced m" for m :: "('e, 'a world, 'x) prog" and res
    using stableD [OF that(2) _ that(1)] ok by simp
  show ?thesis
    using assms(1) ok parseSubscription_ok
    by cases (auto elim!: * intro: stable_intros stable_refresh_commit)
qed

lemma service_ok_step: "service_step L C F w w' \<Longrightarrow> service_ok L w \<Longrightarrow> service_ok L w'"
  using service_step_pub_steps service_step_sources store_ok_steps unfolding service_ok_def by metis

lemma service_ok_steps: "service_steps L C F w w' \<Longrightarrow> service_ok L w \<Longrightarrow> service_ok L w'"
  by (induction rule: rtranclp_induct) (auto intro: service_ok_step)

lemma service_pub_steps: "service_steps L C F w w' \<Longrightarrow> service_ok L w \<Longrightarrow> pub_steps L (w_db w) (w_db w')"
proof (induction rule: rtranclp_induct)
  case (step y z)
  have "service_ok L y" using step.hyps(1) step.prems by (rule service_ok_steps)
  then have "pub_steps L (w_db y) (w_db z)"
    using service_step_pub_steps [OF step.hyps(2)] by (simp add: service_ok_def)
  with step.IH [OF step.prems] show ?case by simp
qed simp

end
