(* ===== verification/LostUpdate.thy ===== *)
theory LostUpdate
  imports RuleSystem
begin

text \<open>
  The optimistic lock on rules over a history: once a rule was updated from some version of it,
  no later update from the same version succeeds, whatever requests, switches, imports,
  subscription changes and refreshes come in between.
\<close>

section \<open>Steps that bring no old rule back\<close>

text \<open>
  The steps of the rule service but for a rollback and a reconciliation, which put an earlier list
  of rules in place with its earlier times, and for the creation of a rule under the id in
  question (ids count up, so this takes a counter that wrapped around). Other parts of the
  controller may write their own tables.
\<close>

inductive forward_step :: "int \<Rightarrow> rlib \<Rightarrow> 'm client \<Rightarrow> 'm fetcher \<Rightarrow> 'm world \<Rightarrow> 'm world \<Rightarrow> bool"
  for i :: int and L :: rlib and C :: "'m client" and F :: "'m fetcher" where
  env: "d_versions (w_db w') = d_versions (w_db w) \<Longrightarrow> d_rules (w_db w') = d_rules (w_db w) \<Longrightarrow> forward_step i L C F w w'"
| create: "inc64 (rule_counter (w_db w)) \<noteq> i \<Longrightarrow> Create L C r a b c w = (res, w') \<Longrightarrow> forward_step i L C F w w'"
| update: "Update L C j p a b c w = (res, w') \<Longrightarrow> forward_step i L C F w w'"
| delete: "Delete L C j a b c w = (res, w') \<Longrightarrow> forward_step i L C F w w'"
| batch: "Batch L C oper ids x a b c w = (res, w') \<Longrightarrow> forward_step i L C F w w'"
| import_rules: "i \<notin> set (count_up (length rs) (rule_counter (w_db w))) \<Longrightarrow> Import L C rs a b c w = (res, w') \<Longrightarrow>
    forward_step i L C F w w'"
| create_url: "CreateURLSubscription L C F inp a b c w = (sres, w') \<Longrightarrow> forward_step i L C F w w'"
| create_upload: "CreateUploadSubscription L C inp fn body a b c w = (sres, w') \<Longrightarrow> forward_step i L C F w w'"
| set_enabled: "SetSubscriptionEnabled L C j e a b c w = (sres, w') \<Longrightarrow> forward_step i L C F w w'"
| rebind: "UpdateSubscriptionBinding L C j bn a b c w = (sres, w') \<Longrightarrow> forward_step i L C F w w'"
| delete_source: "DeleteSubscription L C j a b c w = (res, w') \<Longrightarrow> forward_step i L C F w w'"
| fetch: "refresh_fetch L F j w = (fres, w') \<Longrightarrow> forward_step i L C F w w'"
| refresh_failed: "(subscriptionFailure item cause :: (refresh_failure, 'm world, error) prog) w = (eres, w') \<Longrightarrow>
    forward_step i L C F w w'"
| commit: "refresh_commit L C (seen, body, url, ps) a b c w = (cres, w') \<Longrightarrow> forward_step i L C F w w'"

abbreviation forward_steps :: "int \<Rightarrow> rlib \<Rightarrow> 'm client \<Rightarrow> 'm fetcher \<Rightarrow> 'm world \<Rightarrow> 'm world \<Rightarrow> bool" where
  "forward_steps i L C F \<equiv> (forward_step i L C F)\<^sup>*\<^sup>*"

section \<open>The time of the last change never goes back\<close>

definition since :: "int \<Rightarrow> int \<Rightarrow> Rule list \<Rightarrow> bool" where
  "since i t rules = list_all (\<lambda>r. r_ID r = i \<longrightarrow> t \<le> r_UpdatedAtMS r) rules"

definition newer :: "int \<Rightarrow> int \<Rightarrow> db \<Rightarrow> bool" where
  "newer i t d = (case select_rules d of Inl _ \<Rightarrow> True | Inr rules \<Rightarrow> since i t rules)"

lemma newer_keep: "newer i t d \<Longrightarrow> d_rules d' = d_rules d \<Longrightarrow> newer i t d'"
  by (simp add: newer_def select_rules_def)

lemma newerD: "newer i t d \<Longrightarrow> select_rules d = Inr rules \<Longrightarrow> since i t rules"
  by (simp add: newer_def)

lemma published_newer:
  assumes "published L C rules d v d'" and "since i t rules"
  shows "newer i t d'"
proof -
  have "t \<le> r_UpdatedAtMS y" if out: "select_rules d' = Inr out" "y \<in> set out" "r_ID y = i" for out y
  proof -
    from published_rules [OF assms(1) out(1,2)] obtain x r where "x \<in> set rules" "same_rule x r" "y = stored_rule r" by blast
    with assms(2) out(3) same_rule_sel(1,10) [of x r] show ?thesis by (auto simp: since_def list_all_iff)
  qed
  then show ?thesis by (auto simp: newer_def since_def list_all_iff split: sum.split)
qed

lemma failed_newer: "newer i t (w_db w) \<Longrightarrow> publish_failed L C rules (w_db w) v e (w_db w') \<Longrightarrow> newer i t (w_db w')"
  using failed_effect newer_keep by blast

lemma publish_newer:
  assumes "since i t rules"
  shows "stable (onDB (newer i t)) (publish L C rules a b c n)"
  unfolding stable_wp
proof (intro allI impI)
  fix w :: "'a world" assume "onDB (newer i t) w"
  then show "wp (publish L C rules a b c n) (\<lambda>_. onDB (newer i t)) (\<lambda>_. onDB (newer i t)) w"
    using published_newer assms failed_newer by (intro wp_publish) auto
qed

lemma current_newer:
  assumes "\<And>rules. since i t rules \<Longrightarrow> stable (onDB (newer i t)) (f rules)"
  shows "stable (onDB (newer i t)) (bindM (mapErr h allRules) f)"
  using assms unfolding stable_wp by (fastforce simp: wp_simps allRules_def dest: newerD split: sum.split)

lemma attempted_newer:
  assumes "\<And>rules. since i t rules \<Longrightarrow> stable (onDB (newer i t)) (f rules)" and "\<And>e. stable (onDB (newer i t)) (g e)"
  shows "stable (onDB (newer i t)) (bindM (attemptM allRules) (\<lambda>r. case r of Inl e \<Rightarrow> g e | Inr rules \<Rightarrow> f rules))"
  using assms unfolding stable_wp by (fastforce simp: wp_simps allRules_def dest: newerD split: sum.split)

text \<open>Writes of the source tables, and the publications that follow them.\<close>

lemma newer_sources:
  "newer i t d \<Longrightarrow> insert_sub mk d = Inr (n, d') \<Longrightarrow> newer i t d'"
  "newer i t d \<Longrightarrow> reinsert_sub row d = Inr d' \<Longrightarrow> newer i t d'"
  "newer i t d \<Longrightarrow> insert_binding mb d = Inr d' \<Longrightarrow> newer i t d'"
  "newer i t d \<Longrightarrow> reinsert_binding b d = Inr d' \<Longrightarrow> newer i t d'"
  "newer i t d \<Longrightarrow> delete_sub j d = Inr d' \<Longrightarrow> newer i t d'"
  "newer i t d \<Longrightarrow> update_sub j f d = Inr d' \<Longrightarrow> newer i t d'"
  "newer i t d \<Longrightarrow> update_binding j g d = Inr d' \<Longrightarrow> newer i t d'"
  by (erule newer_keep, drule source_frames, simp)+

lemma stable_sources:
  "stable (onDB (newer i t)) (db_run (insert_sub mk))" "stable (onDB (newer i t)) (db_exec (reinsert_sub row))"
  "stable (onDB (newer i t)) (db_exec (insert_binding mb))" "stable (onDB (newer i t)) (db_exec (reinsert_binding b))"
  "stable (onDB (newer i t)) (db_exec (delete_sub j))" "stable (onDB (newer i t)) (db_exec (update_sub j f))"
  "stable (onDB (newer i t)) (db_exec (update_binding j g))"
  by (rule stable_db_exec stable_db_run; erule (1) newer_sources)+

lemma stable_atomically: "stable (onDB J) m \<Longrightarrow> stable (onDB J) (transaction m)"
  by (rule stable_transaction) (auto dest!: stable_wpD elim: wp_mono)

lemma stable_insert_source: "stable (onDB (newer i t)) (insert_source L input kind body patterns now)"
  unfolding insert_source_def by (intro stable_atomically stable_sources stable_intros)

lemmas newer_rules = stable_sources stable_insert_source current_newer attempted_newer publish_newer

lemma stable_publications:
  "stable (onDB (newer i t)) restore \<Longrightarrow> stable (onDB (newer i t)) (restoreSubscriptionMutation C v cause restore)"
  "stable (onDB (newer i t)) restore \<Longrightarrow> stable (onDB (newer i t)) (run_restore cause restore)"
  "stable (onDB (newer i t)) (subscription j)" "stable (onDB (newer i t)) (validateBinding C g p x)"
  "stable (onDB (newer i t)) (downloadSubscription F u)" "stable (onDB (newer i t)) (sourceChecksum j)"
  "stable (onDB (newer i t)) (publish_all L C a b c)"
  unfolding restoreSubscriptionMutation_def run_restore_def subscription_def validateBinding_def downloadSubscription_def
    sourceChecksum_def publish_all_def Let_def
  by (intro newer_rules stable_intros; assumption?)+

lemma stable_mutations:
  "stable (onDB (newer i t)) restore \<Longrightarrow> stable (onDB (newer i t)) (mutation_failed C j v cause restore)"
  "stable (onDB (newer i t)) restore \<Longrightarrow> stable (onDB (newer i t)) (publish_or_restore L C j restore a b c)"
  "stable (onDB (newer i t)) restore \<Longrightarrow> stable (onDB (newer i t)) (refresh_publish L C j restore a b c)"
  "stable (onDB (newer i t)) (restore_deleted s x ds)" "stable (onDB (newer i t)) (refresh_unchanged j url now)"
  "stable (onDB (newer i t)) (subscriptionFailure s cause)" "stable (onDB (newer i t)) (validateSubscriptionBinding C input)"
  unfolding mutation_failed_def publish_or_restore_def refresh_publish_def restore_deleted_def refresh_unchanged_def
    subscriptionFailure_def validateSubscriptionBinding_def Let_def
  by (intro newer_rules stable_publications stable_intros; assumption?)+

lemma stable_subscription_operations:
  "stable (onDB (newer i t)) (createSubscription L C inp kind body a b c)"
  "stable (onDB (newer i t)) (SetSubscriptionEnabled L C j e a b c)"
  "stable (onDB (newer i t)) (UpdateSubscriptionBinding L C j bn a b c)"
  "stable (onDB (newer i t)) (DeleteSubscription L C j a b c)"
  "stable (onDB (newer i t)) (refresh_fetch L F j)"
  "stable (onDB (newer i t)) (refresh_commit L C (seen, body, url, ps) a b c)"
  unfolding createSubscription_def SetSubscriptionEnabled_def UpdateSubscriptionBinding_def DeleteSubscription_def
    refresh_fetch_def refresh_commit_def prod.case Let_def
  by (intro newer_rules stable_mutations stable_publications stable_intros)+

lemma stable_creations:
  "stable (onDB (newer i t)) (CreateURLSubscription L C F inp a b c)"
  "stable (onDB (newer i t)) (CreateUploadSubscription L C inp fn body a b c)"
  unfolding CreateURLSubscription_def CreateUploadSubscription_def Let_def
  by (intro stable_subscription_operations stable_publications stable_intros)+

text \<open>The operations on rules.\<close>

lemma wp_publish_newer:
  "newer i t (w_db s) \<Longrightarrow> since i t rules \<Longrightarrow>
     wp (publish L C rules a b c n) (\<lambda>_. onDB (newer i t)) (\<lambda>_. onDB (newer i t)) s"
  using stable_wpD [OF publish_newer, of i t rules s] by simp

lemma wp_import_ids:
  "w_db w = d \<Longrightarrow> wp (import_loop rs is) (\<lambda>_ w'. w_db w' = d) (\<lambda>out w'. w_db w' = d \<and> r_ID ` set out \<subseteq> set is) w"
proof (induction rs "is" arbitrary: w rule: import_loop.induct)
  case (1 r rs i "is")
  show ?case
    unfolding import_loop.simps Let_def
    by (intro conjI impI wp_intros wp_mono [OF "1.IH"]) (use 1 in auto)
qed (auto simp: wp_simps)

lemma Create_newer:
  assumes "newer i t (w_db w)" and "inc64 (rule_counter (w_db w)) \<noteq> i"
  shows "wp (Create L C r a b c) (\<lambda>_. onDB (newer i t)) (\<lambda>_. onDB (newer i t)) w"
  unfolding Create_def nextRuleID_def Let_def
  by (intro wp_intros wp_publish_newer)
    (use assms in \<open>auto simp: since_def list_all_iff dest: newerD elim: newer_keep\<close>)

lemma Import_newer:
  assumes "newer i t (w_db w)" and "i \<notin> set (count_up (length rs) (rule_counter (w_db w)))"
  shows "wp (Import L C rs a b c) (\<lambda>_. onDB (newer i t)) (\<lambda>_. onDB (newer i t)) w"
  unfolding Import_def
  by (intro wp_intros wp_publish_newer wp_mono [OF wp_import_ids])
    (use assms in \<open>auto simp: since_def list_all_iff dest: newerD elim: newer_keep\<close>)

lemma Update_newer:
  assumes "newer i t (w_db w)" and "store_ok L (w_db w)"
  shows "wp (Update L C j p a b c) (\<lambda>_. onDB (newer i t)) (\<lambda>_. onDB (newer i t)) w"
proof -
  have s: "since i t (map (\<lambda>x. if r_ID x = j then patched j now p x else x) rules)"
    if "select_rules (w_db w) = Inr rules" "r \<in> set rules" "r_ID r = j" for rules r now
  proof -
    have "since i t rules" using assms(1) that(1) by (rule newerD)
    moreover have "u \<le> r_UpdatedAtMS (patched j now p x)" if "u \<le> r_UpdatedAtMS x" for u x
      using that patched_newer [of x j now p] by simp
    ultimately show ?thesis by (auto simp: since_def list_all_iff)
  qed
  show ?thesis
    by (rule Update_spec [OF assms(2)]; unfold onDB_iff;
        (simp add: assms(1); fail | rule failed_newer [OF assms(1)], assumption | rule published_newer, assumption, rule s; assumption))
qed

lemma Batch_newer:
  assumes "newer i t (w_db w)"
  shows "wp (Batch L C oper ids x a b c) (\<lambda>_. onDB (newer i t)) (\<lambda>_. onDB (newer i t)) w"
proof -
  have s: "since i t out" if "select_rules (w_db w) = Inr rules" "batch_loop oper ids rules = Inr (n, routes, out)" for rules n routes out
  proof -
    have "since i t rules" using assms that(1) by (rule newerD)
    then show ?thesis using batch_loop_ok [OF that(2)] by (auto simp: since_def list_all_iff)
  qed
  show ?thesis
    by (rule Batch_spec; unfold onDB_iff;
        (simp add: assms(1); fail | rule failed_newer [OF assms(1)], assumption | rule published_newer, assumption, rule s; assumption))
qed

lemma Delete_newer:
  assumes "newer i t (w_db w)"
  shows "wp (Delete L C j a b c) (\<lambda>_. onDB (newer i t)) (\<lambda>_. onDB (newer i t)) w"
proof -
  have s: "since i t (filter (\<lambda>r. r_ID r \<noteq> j) rules)" if "select_rules (w_db w) = Inr rules" for rules
    using newerD [OF assms that] by (auto simp: since_def list_all_iff)
  show ?thesis
    by (rule Delete_spec; unfold onDB_iff;
        (simp add: assms(1); fail | rule failed_newer [OF assms(1)], assumption | rule published_newer, assumption, rule s; assumption))
qed

section \<open>Histories\<close>

lemma forward_store:
  assumes "forward_step i L C F w w'" and ok: "store_ok L (w_db w)"
  shows "store_ok L (w_db w')"
proof -
  have s: "store_ok L (w_db w')" if "m w = (res, w')" "evolves L m" for m :: "('e, 'a world, 'x) prog" and res
    using store_ok_steps [OF evolves_steps [OF that(2) ok that(1)] ok] .
  show ?thesis
    using assms(1)
  proof cases
    case env
    then show ?thesis using store_ok_frame [of "w_db w'" "w_db w" L] ok by simp
  qed (erule s, intro evolves_intros)+
qed

lemma forward_newer:
  assumes "forward_step i L C F w w'" and ok: "store_ok L (w_db w)" and n: "newer i t (w_db w)"
  shows "newer i t (w_db w')"
proof -
  have s: "newer i t (w_db w')" if "m w = (res, w')" "wp m (\<lambda>_. onDB (newer i t)) (\<lambda>_. onDB (newer i t)) w"
    for m :: "('e, 'a world, 'x) prog" and res
    using that by (cases res) (auto dest: wp_Inl wp_Inr)
  have n': "onDB (newer i t) w" using n by simp
  show ?thesis
    using assms(1)
  proof cases
    case env
    then show ?thesis using n by (auto elim: newer_keep)
  next
    case (create r a b c res)
    show ?thesis by (rule s [OF create(2) Create_newer [OF n create(1)]])
  next
    case (import_rules rs a b c res)
    show ?thesis by (rule s [OF import_rules(2) Import_newer [OF n import_rules(1)]])
  qed (erule s, (rule Update_newer [OF n ok] Batch_newer [OF n] Delete_newer [OF n]
      | rule stable_wpD [where I = "onDB (newer i t)", OF _ n'], rule stable_creations stable_subscription_operations stable_mutations))+
qed

lemma forward_steps_newer:
  "forward_steps i L C F w w' \<Longrightarrow> store_ok L (w_db w) \<Longrightarrow> newer i t (w_db w) \<Longrightarrow>
     store_ok L (w_db w') \<and> newer i t (w_db w')"
  by (induction rule: rtranclp_induct) (auto intro: forward_store forward_newer)

text \<open>C3: Two updates based on the same version of a rule never both succeed, whatever comes in between:
  creations, updates, deletions, switches and imports of rules, changes and refreshes of
  subscriptions, other writes of the controller, with any faults and clock readings. Only a rollback
  or a reconciliation brings an earlier time of change back, and only a counter that wrapped
  around gives the id away again.\<close>

theorem update_no_lost_update:
  assumes "store_ok L (w_db w)"
    and "Update L C i p adminID requestID ip w = (Inr v, w1)"
    and "forward_steps i L C F w1 w2" and "r_UpdatedAtMS q = r_UpdatedAtMS p"
  shows "\<nexists>v' w3. Update L C i q adminID' requestID' ip' w2 = (Inr v', w3)"
proof
  assume "\<exists>v' w3. Update L C i q adminID' requestID' ip' w2 = (Inr v', w3)"
  then obtain v' w3 where u: "Update L C i q adminID' requestID' ip' w2 = (Inr v', w3)" by blast
  have ok: "store_ok L (w_db w1)"
    using evolves_steps [OF evolves_Update assms(1,2)] assms(1) store_ok_steps by metis
  have "newer i (r_UpdatedAtMS p + 1) (w_db w1)"
    using Update_advances [OF assms(1,2)]
    by (fastforce simp: newer_def since_def list_all_iff split: sum.split)
  from forward_steps_newer [OF assms(3) ok this] have ok2: "store_ok L (w_db w2)"
    and n: "newer i (r_UpdatedAtMS p + 1) (w_db w2)" by simp_all
  from Update_success [OF ok2 u] obtain rules r where r: "select_rules (w_db w2) = Inr rules" "r \<in> set rules"
      "r_ID r = i" "r_UpdatedAtMS q = r_UpdatedAtMS r" by blast
  from newerD [OF n r(1)] r(2-4) assms(4) show False by (auto simp: since_def list_all_iff)
qed

text \<open>In between, the rule is switched off.\<close>

definition switched_off :: "(nat \<times> string) world" where
  "switched_off = snd (Batch demo_lib demo_client ''disable'' [1] None 1 ''req'' ''ip'' updated)"

lemma demo_switched: "\<not> isl (fst (Batch demo_lib demo_client ''disable'' [1] None 1 ''req'' ''ip'' updated))"
  by code_simp

lemma switched_steps: "forward_steps 1 demo_lib demo_client F updated switched_off"
  unfolding switched_off_def by (rule r_into_rtranclp, rule forward_step.batch [OF run_ok [OF demo_switched]])

theorem update_no_lost_update_witness:
  "\<nexists>v' w3. Update demo_lib demo_client 1 demo_patch 2 ''req2'' ''ip'' switched_off = (Inr v', w3)"
  using switched_steps unfolding updated_def
  by (rule update_no_lost_update [OF created_ok run_ok [OF demo_update] _ refl])

end
