(* ===== verification/SystemProperties.thy ===== *)
theory SystemProperties
  imports RuleSystem
begin

text \<open>
  Properties of the rule service over whole histories: what stays true, what rolling back brings
  back, and what reconciliation does with a runtime that it finds.
\<close>

section \<open>Instances\<close>

definition demo_fetcher :: "(nat \<times> string) fetcher" where
  "demo_fetcher = \<lparr>
     f_Parse = (\<lambda>u. if HasPrefix u ''https://'' then Some (''https'', ''lists.example'', u) else None),
     f_Get = (\<lambda>u m. (Got 200 ''200 OK'' (Inr (''# list'' @ [CHR 0x0A] @ ''One.Example'' @ [CHR 0x0A] @ ''two.example'')) u, m))\<rparr>"

text \<open>A mosdns that takes the snapshot over, but whose answers and status are lost.\<close>

definition mute_client :: "(nat \<times> string) client" where
  "mute_client = demo_client\<lparr>
     c_Apply := (\<lambda>s m. (Inl (Wrap ErrUnknown ''timeout''), (sn_Version s, sn_Checksum s))),
     c_Status := (\<lambda>m. (Inl (Msg ''connection refused''), m))\<rparr>"

definition patched_world :: "(nat \<times> string) world" where
  "patched_world = snd (Update demo_lib demo_client 1 demo_patch 1 ''req'' ''ip'' created)"

lemma demo_service_ok: "service_ok L demo_world"
  by (simp add: service_ok_def demo_world_def store_ok_empty sources_ok_empty)

lemma demo_created_steps: "service_steps demo_lib demo_client demo_fetcher demo_world created"
  by (rule r_into_rtranclp, rule service_step.create [OF created_run])

lemma demo_patched_steps: "service_steps demo_lib demo_client demo_fetcher created patched_world"
  unfolding patched_world_def by (rule r_into_rtranclp, rule service_step.update [OF run_ok [OF demo_update]])

lemma created_service_ok: "service_ok demo_lib created"
  by (rule service_ok_steps [OF demo_created_steps demo_service_ok])

section \<open>Histories\<close>

lemma table_ok_one_active: "table_ok L d \<Longrightarrow> length (actives d) \<le> 1"
  by (auto simp: table_ok_def split: list.splits)

lemma list_all2_set1_obtain: "list_all2 P xs ys \<Longrightarrow> x \<in> set xs \<Longrightarrow> \<exists>y \<in> set ys. P x y"
  by (induction rule: list_all2_induct) auto

lemma service_steps_extend: "service_ok L w \<Longrightarrow> service_steps L C F w w' \<Longrightarrow> history_extends (w_db w) (w_db w')"
  using service_pub_steps history_extends_steps unfolding service_ok_def by metis

lemma service_steps_version:
  assumes "service_ok L w" and "service_steps L C F w w'" and "x \<in> set (d_versions (w_db w))"
  shows "\<exists>y \<in> set (d_versions (w_db w')). ages x y"
proof -
  obtain old new where "d_versions (w_db w') = old @ new" "list_all2 ages (d_versions (w_db w)) old"
    using service_steps_extend [OF assms(1,2)] by (auto simp: history_extends_def)
  with list_all2_set1_obtain [OF this(2) assms(3)] show ?thesis by auto
qed

text \<open>Starting from an empty database, after any sequence of operations with any failures, at
  most one version is active, version numbers increase, every stored version is a validated
  list with the checksum of its snapshot, the rule table is the one of the active version, and
  the source tables are well formed.\<close>

theorem service_invariant:
  assumes "w_db w = empty_db" and "service_steps L C F w w'"
  shows "length (actives (w_db w')) \<le> 1 \<and> sorted_wrt (<) (map vv_version (d_versions (w_db w')))
     \<and> list_all (row_ok L) (d_versions (w_db w')) \<and> table_ok L (w_db w') \<and> sources_ok (w_db w')"
proof -
  have "service_ok L w" using assms(1) by (simp add: service_ok_def store_ok_empty sources_ok_empty)
  then have "service_ok L w'" by (rule service_ok_steps [OF assms(2)])
  then show ?thesis using table_ok_one_active by (auto simp: service_ok_def store_ok_def simp del: One_nat_def)
qed

theorem service_invariant_witness: "table_ok demo_lib (w_db patched_world)"
  using service_invariant [of demo_world demo_lib demo_client demo_fetcher patched_world]
    rtranclp_trans [OF demo_created_steps demo_patched_steps] by (simp add: demo_world_def)

text \<open>A stored version is never lost or changed: its rules, snapshot and checksum stay, and its
  status only moves on, from pending or unknown to active, from active to superseded.\<close>

theorem version_immutable:
  assumes "service_ok L w" and "service_steps L C F w w'" and "x \<in> set (d_versions (w_db w))"
  shows "\<exists>y \<in> set (d_versions (w_db w')). same_version x y \<and> vv_status y \<in> later_status (vv_status x)"
  using service_steps_version [OF assms] by (auto simp: ages_def)

lemma created_has_version: "hd (d_versions (w_db created)) \<in> set (d_versions (w_db created))"
  by code_simp

theorem version_immutable_witness:
  "\<exists>y \<in> set (d_versions (w_db patched_world)). vv_rules y = vv_rules (hd (d_versions (w_db created)))"
  using version_immutable [OF created_service_ok demo_patched_steps created_has_version] by (auto simp: same_version_def)

text \<open>C5: Rolling back to a version brings back exactly the rule list that was shown while it was
  active, whatever operations of the rule service (edits, switches, imports, other rollbacks,
  reconciliations, changes and refreshes of subscriptions) came in between, with whatever faults.
  Of the libraries it takes that \<open>ToASCII\<close> and the text of a parsed address are stable under
  a second parse.\<close>

theorem rollback_restores:
  assumes "lib_ok L" and "service_ok L w" and "x \<in> set (d_versions (w_db w))" and "vv_status x = Active"
    and "select_rules (w_db w) = Inr rules" and "service_steps L C F w w1"
    and "Rollback L C (vv_version x) expected adminID requestID ip w1 = (Inr v, w2)"
  shows "select_rules (w_db w2) = Inr rules"
proof -
  obtain y where y: "y \<in> set (d_versions (w_db w1))" "vv_version y = vv_version x" "vv_rules y = vv_rules x"
    using service_steps_version [OF assms(2,6,3)] by (auto simp: ages_def same_version_def)
  have "store_ok L (w_db w1)" using service_ok_steps [OF assms(6,2)] by (simp add: service_ok_def)
  then have "select_rules (w_db w2) = Inr (list_of_version y)"
    using Rollback_list [OF assms(1) _ y(1)] assms(7) y(2) by simp
  moreover have "Inr rules = Inr (list_of_version x)"
    using active_list [OF assms(1) _ assms(3,4)] assms(2,5) by (simp add: service_ok_def)
  ultimately show ?thesis using y(3) by (simp add: list_of_version_def)
qed

lemma demo_rollback: "\<not> isl (fst (Rollback demo_lib demo_client 1 None 1 ''req'' ''ip'' patched_world))"
  by code_simp

lemma created_first: "vv_version (hd (d_versions (w_db created))) = 1" "vv_status (hd (d_versions (w_db created))) = Active"
  by code_simp+

theorem rollback_restores_witness:
  "select_rules (w_db (snd (Rollback demo_lib demo_client 1 None 1 ''req'' ''ip'' patched_world))) = select_rules (w_db created)"
  using rollback_restores [where expected = None and adminID = 1 and requestID = "''req''" and ip = "''ip''",
      OF demo_lib_ok created_service_ok created_has_version created_first(2) demo_list demo_patched_steps,
      unfolded created_first, OF run_ok [OF demo_rollback]]
  by (simp add: demo_list)

section \<open>Reconciliation\<close>

lemma subscriptionSetsEqual_refl [simp]: "subscriptionSetsEqual s s"
  by (simp add: subscriptionSetsEqual_def)

lemma find_unique: "x \<in> set xs \<Longrightarrow> p x \<Longrightarrow> (\<And>y. y \<in> set xs \<Longrightarrow> p y \<Longrightarrow> y = x) \<Longrightarrow> find p xs = Some x"
proof (induction xs)
  case (Cons a xs)
  show ?case
  proof (cases "p a")
    case True
    then have "a = x" by (intro Cons.prems(3)) simp_all
    with True show ?thesis by simp
  next
    case False
    then have "x \<in> set xs" using Cons.prems(1,2) by auto
    with False Cons.prems(2,3) show ?thesis by (simp add: Cons.IH)
  qed
qed simp

lemma version_unique:
  "store_ok L d \<Longrightarrow> x \<in> set (d_versions d) \<Longrightarrow> y \<in> set (d_versions d) \<Longrightarrow> vv_version y = vv_version x \<Longrightarrow> y = x"
  using strict_sorted_distinct by (metis distinct_map inj_onD store_ok_def)

lemma activated_version:
  assumes "activated L v rules d d'" and "x \<in> set (d_versions d)"
  shows "\<exists>now. activate v now x \<in> set (d_versions d')"
proof -
  from assms(1) obtain now rows audit where "d' = d\<lparr>d_versions := map (activate v now) (d_versions d), d_rules := rows,
      d_audit := insert_rows audit (d_audit d)\<rparr>" unfolding activated_def by blast
  then have "activate v now x \<in> set (d_versions d')" using assms(2) by simp
  then show ?thesis by blast
qed

text \<open>C6: Recovery of a lost acknowledgement: when mosdns runs a version whose outcome was not known,
  reconciliation activates exactly that version with its rules and reports success, provided that
  no database statement fails, that its rules have distinct ids and that the enabled sources are
  still those of its snapshot.\<close>

theorem reconcile_adopts:
  assumes "lib_ok L" and "store_ok L (w_db w)" and "w_faults w = []"
    and st: "c_Status C (w_ext w) = (Inr st, m)"
    and x: "x \<in> set (d_versions (w_db w))" "vv_status x = Pending \<or> vv_status x = Unknown"
      "vv_version x = st_SnapshotVersion st" "vv_checksum x = st_Checksum st"
    and ids: "distinct (map r_ID (vv_rules x))" and src: "source_sets (w_db w) = Inr (sn_SubscriptionSets (vv_snapshot x))"
  shows "\<exists>w'. Reconcile L C w = (Inr ''matched_candidate'', w')
     \<and> activated L (vv_version x) (vv_rules x) (w_db w) (w_db w')"
proof -
  have cand: "select_candidate (st_SnapshotVersion st) (w_db w) = Inr x"
  proof -
    have "find (\<lambda>r. (vv_status r = Pending \<or> vv_status r = Unknown) \<and> vv_version r = st_SnapshotVersion st)
        (d_versions (w_db w)) = Some x"
    proof (rule find_unique [OF x(1)])
      fix y assume "y \<in> set (d_versions (w_db w))" "(vv_status y = Pending \<or> vv_status y = Unknown) \<and> vv_version y = st_SnapshotVersion st"
      then show "y = x" using version_unique [OF assms(2) x(1)] x(3) by simp
    qed (use x in simp)
    then show ?thesis by (simp add: select_candidate_def first_row_def)
  qed
  have fin: "wp (finalize L (vv_version x)) (\<lambda>_ _. False) (\<lambda>_ w'. w_faults w' = []
       \<and> activated L (vv_version x) (vv_rules x) (w_db w) (w_db w')) s"
    if "w_db s = w_db w" "w_faults s = []" for s
    using finalize_total [OF assms(1), of s x] that assms(2) x(1) ids by (auto simp: wp_def)
  have get: "\<exists>y. select_version (vv_version x) d = Inr y \<and> sn_SubscriptionSets (vv_snapshot y) = sn_SubscriptionSets (vv_snapshot x)"
    if act: "activated L (vv_version x) (vv_rules x) (w_db w) d" for d
  proof -
    obtain now where "activate (vv_version x) now x \<in> set (d_versions d)" using activated_version [OF act x(1)] by blast
    moreover have "store_ok L d" using activate_pending [OF assms(2) x(1) _ act] x(2) store_ok_step assms(2) by blast
    ultimately have "find (\<lambda>r. vv_version r = vv_version x) (d_versions d) = Some (activate (vv_version x) now x)"
      using version_unique by (intro find_unique) fastforce+
    then show ?thesis by (simp add: select_version_def first_row_def)
  qed
  have "wp (Reconcile L C) (\<lambda>_ _. False) (\<lambda>r w'. r = ''matched_candidate''
     \<and> activated L (vv_version x) (vv_rules x) (w_db w) (w_db w')) w"
  proof -
    have tail: "wp (bindM (mapErr (Pair ''matched_candidate'') (db_query (select_version (vv_version x)))) (\<lambda>candidate.
        if subscriptionSetsEqual (sn_SubscriptionSets (vv_snapshot candidate)) (sn_SubscriptionSets (vv_snapshot x))
        then returnM ''matched_candidate'' else republish L C ''matched_candidate'' ''reconcile_candidate_sources''))
        (\<lambda>_ _. False) (\<lambda>r w'. r = ''matched_candidate'' \<and> activated L (vv_version x) (vv_rules x) (w_db w) (w_db w')) s"
      if "w_faults s = []" "activated L (vv_version x) (vv_rules x) (w_db w) (w_db s)" for s
      using get [OF that(2)] that by (auto simp: wp_simps faulty_def)
    have "wp (reconcile_candidate L C (vv_version x)) (\<lambda>_ _. False)
        (\<lambda>r w'. r = ''matched_candidate'' \<and> activated L (vv_version x) (vv_rules x) (w_db w) (w_db w')) s"
      if "w_db s = w_db w" "w_faults s = []" for s
    proof -
      have sets: "wp subscriptionSets (\<lambda>_ _. False) (\<lambda>sets t. sets = sn_SubscriptionSets (vv_snapshot x)
          \<and> w_db t = w_db w \<and> w_faults t = []) s"
        unfolding subscriptionSets_def using that src
        by (auto simp: wp_simps faulty_def source_sets_def pop_fault_def split: sum.splits)
      show ?thesis
        unfolding reconcile_candidate_def
        by (rule wp_bindM_I, rule wp_mapErr_I, rule wp_mono [OF sets], assumption,
            rule wp_bindM_I, rule wp_mapErr_I, rule wp_mono [OF fin]) (auto intro: tail)
    qed
    then show ?thesis
      unfolding Reconcile_def using assms(3) x(4)
      by (auto simp: wp_simps st cand faulty_def pop_fault_def)
  qed
  then show ?thesis by (auto dest!: wp_total)
qed

definition lost :: "(nat \<times> string) world" where
  "lost = snd (publish demo_lib mute_client [demo_rule\<lparr>r_ID := 1\<rparr>] 1 ''req'' ''ip'' 0 demo_world)"

lemma lost_facts:
  "w_faults lost = []" "source_sets (w_db lost) = Inr (sn_SubscriptionSets (vv_snapshot (hd (d_versions (w_db lost)))))"
  "hd (d_versions (w_db lost)) \<in> set (d_versions (w_db lost))" "vv_status (hd (d_versions (w_db lost))) = Unknown"
  "vv_version (hd (d_versions (w_db lost))) = fst (w_ext lost)" "vv_checksum (hd (d_versions (w_db lost))) = snd (w_ext lost)"
  "distinct (map r_ID (vv_rules (hd (d_versions (w_db lost)))))"
  "isl (fst (publish demo_lib mute_client [demo_rule\<lparr>r_ID := 1\<rparr>] 1 ''req'' ''ip'' 0 demo_world))"
  by code_simp+

lemma lost_ok: "store_ok demo_lib (w_db lost)"
  by (rule store_ok_steps [OF evolves_steps [OF evolves_publish empty_ok run_err [OF lost_facts(8), folded lost_def]] empty_ok])

theorem reconcile_adopts_witness:
  "\<exists>w'. Reconcile demo_lib demo_client lost = (Inr ''matched_candidate'', w')"
  using reconcile_adopts [of demo_lib lost demo_client "\<lparr>st_SnapshotVersion = fst (w_ext lost), st_Checksum = snd (w_ext lost)\<rparr>"
      "w_ext lost" "hd (d_versions (w_db lost))"] demo_lib_ok lost_ok lost_facts
  by (auto simp: demo_client_def)

text \<open>C7: Reconciliation never overrides a runtime that is ahead: when mosdns runs a version beyond the
  active one, or the same version with another checksum, and that is not an open candidate, it
  reports an error, changes no table and calls nothing but the status of mosdns.\<close>

theorem reconcile_respects_runtime:
  assumes st: "c_Status C (w_ext w) = (Inr st, m)" and act: "actives (w_db w) = [a]"
    and ahead: "vv_version a < st_SnapshotVersion st
      \<or> vv_version a = st_SnapshotVersion st \<and> vv_checksum a \<noteq> st_Checksum st"
    and none: "\<And>x. x \<in> set (d_versions (w_db w)) \<Longrightarrow> vv_version x = st_SnapshotVersion st \<Longrightarrow>
      vv_checksum x = st_Checksum st \<Longrightarrow> vv_status x \<notin> {Pending, Unknown}"
  shows "\<exists>e w'. Reconcile L C w = (Inl e, w') \<and> w_db w' = w_db w \<and> w_ext w' = m"
proof -
  have sel: "select_active (w_db w) = Inr a"
  proof -
    have "find (\<lambda>r. vv_status r = Active) xs = Some a" if "filter (\<lambda>r. vv_status r = Active) xs = [a]" for xs
      using that by (induction xs) (auto split: if_splits)
    then show ?thesis using act by (simp add: select_active_def first_row_def actives_def)
  qed
  have active: "wp (reconcile_active L C st) (\<lambda>e w'. w_db w' = w_db w \<and> w_ext w' = m) (\<lambda>_ _. False) s"
    if "w_db s = w_db w" "w_ext s = m" for s
    unfolding reconcile_active_def using that ahead sel by (auto simp: wp_simps)
  have cand: "vv_checksum x \<noteq> st_Checksum st" if "select_candidate (st_SnapshotVersion st) (w_db w) = Inr x" for x
    using that none [of x] by (auto simp: select_candidate_def dest!: first_row_Inr)
  have "wp (Reconcile L C) (\<lambda>e w'. w_db w' = w_db w \<and> w_ext w' = m) (\<lambda>_ _. False) w"
    unfolding Reconcile_def
    by (auto simp: wp_simps st dest: cand split: sum.splits intro!: active)
  then show ?thesis by (auto simp: wp_def split: prod.splits sum.splits)
qed

lemma created_active: "actives (w_db created) = [hd (d_versions (w_db created))]"
  and created_ids: "map vv_version (d_versions (w_db created)) = [1]"
  by code_simp+

theorem reconcile_respects_runtime_witness:
  "\<exists>e w'. Reconcile demo_lib demo_client (created\<lparr>w_ext := (9, ''other'')\<rparr>) = (Inl e, w') \<and> w_db w' = w_db created"
proof -
  have "\<exists>e w'. Reconcile demo_lib demo_client (created\<lparr>w_ext := (9, ''other'')\<rparr>) = (Inl e, w')
      \<and> w_db w' = w_db (created\<lparr>w_ext := (9, ''other'')\<rparr>) \<and> w_ext w' = (9, ''other'')"
    by (rule reconcile_respects_runtime [where st = "\<lparr>st_SnapshotVersion = 9, st_Checksum = ''other''\<rparr>"
          and a = "hd (d_versions (w_db created))"])
      (use created_active created_ids in \<open>auto simp: demo_client_def created_first map_eq_Cons_conv\<close>)
  then show ?thesis by auto
qed

section \<open>The rule list as the abstract state\<close>

text \<open>C8: A successful batch edit does to the shown list exactly what its name says: it switches the
  named rules on or off or removes them, and leaves every other rule and the order alone. (Of the
  libraries it takes that \<open>ToASCII\<close> and the text of a parsed address are stable under a
  second parse.)\<close>

theorem batch_edits:
  assumes "lib_ok L" and "store_ok L (w_db w)" and "select_rules (w_db w) = Inr rules"
    and "Batch L C operation ids expected adminID requestID ip w = (Inr v, w')"
  shows "select_rules (w_db w') = Inr
     (if operation = ''delete'' then filter (\<lambda>r. r_ID r \<notin> set ids) rules
      else map (\<lambda>r. if r_ID r \<in> set ids then switch operation r else r) rules)"
  by (rule Batch_exact [OF assms])

lemma demo_batch: "\<not> isl (fst (Batch demo_lib demo_client ''disable'' [1] None 1 ''req'' ''ip'' created))"
  by code_simp

theorem batch_edits_witness:
  "\<exists>r. select_rules (w_db (snd (Batch demo_lib demo_client ''disable'' [1] None 1 ''req'' ''ip'' created))) = Inr [r]
     \<and> \<not> r_Enabled r"
  using batch_edits [OF demo_lib_ok created_ok demo_list run_ok [OF demo_batch]] by (simp add: switch_def demo_rule_def)

text \<open>A successful creation adds one rule, with an id from the counter, checked and normalised, to a
  list whose other rules stay as they are; the new rule is listed unless its source makes it hidden.\<close>

theorem create_adds:
  assumes "lib_ok L" and "store_ok L (w_db w)" and "select_rules (w_db w) = Inr rules"
    and "Create L C r adminID requestID ip w = (Inr v, w')"
  shows "\<exists>r' now out. check_rule L (new_rule (inc64 (rule_counter (w_db w))) now r) = Inr r'
     \<and> select_rules (w_db w') = Inr out
     \<and> mset out = mset rules + (if visible r' then {#stored_rule r'#} else {#})"
  by (rule Create_exact [OF assms])

theorem create_adds_witness:
  "\<exists>out. select_rules (w_db created) = Inr out \<and> size (mset out) \<le> 1"
proof -
  have "select_rules (w_db demo_world) = Inr []" by code_simp
  from create_adds [OF demo_lib_ok empty_ok this created_run]
  obtain r' out where "select_rules (w_db created) = Inr out"
    "mset out = (if visible r' then {#stored_rule r'#} else {#})" by auto
  then show ?thesis by (intro exI [of _ out]) auto
qed

text \<open>Checking a list of rules that was checked before changes nothing: what is stored, shown and
  published again is a fixed point of \<open>validateRules\<close>.\<close>

theorem validate_idempotent:
  assumes "lib_ok L" and "validateRules L rules = Inr out"
  shows "validateRules L out = Inr out"
  by (rule validateRules_idem [OF assms])

theorem validate_idempotent_witness:
  "validateRules demo_lib [demo_rule\<lparr>r_Pattern := ''ads.example''\<rparr>] = Inr [demo_rule\<lparr>r_Pattern := ''ads.example''\<rparr>]"
proof -
  have "validateRules demo_lib [demo_rule] = Inr [demo_rule\<lparr>r_Pattern := ''ads.example''\<rparr>]" by code_simp
  from validate_idempotent [OF demo_lib_ok this] show ?thesis .
qed

text \<open>A snapshot depends on the set of enabled rules only: any list of the same wire rules that is
  in the snapshot's order is the snapshot's list, whatever order the rules were stored in.\<close>

theorem snapshot_canonical:
  assumes "distinct (map r_ID rules)" and "mset xs = image_mset toWire (filter_mset r_Enabled (mset rules))"
    and "sorted (map wire_key xs)"
  shows "xs = sn_Rules (buildSnapshot L now v c rules sets)"
  by (rule buildSnapshot_unique [OF assms])

theorem snapshot_canonical_witness:
  "[toWire demo_rule] = sn_Rules (buildSnapshot demo_lib 5 1 0 [demo_rule\<lparr>r_ID := 1, r_Enabled := False\<rparr>, demo_rule] [])"
  by (rule snapshot_canonical) (simp_all add: demo_rule_def)

text \<open>C13: What the client tells its callers about a failed request: the outcome is unknown only for
  a write that mosdns may have executed (a transport error, a 3xx or 5xx reply, an unreadable 2xx
  reply), rejected only for a write with a 4xx reply other than 409, and a conflict for 409 alone.\<close>

theorem request_outcomes:
  assumes "request meth path r = Inl e"
  shows "(errors_Is e ErrUnknown \<longleftrightarrow> is_write meth path \<and> ambiguous r)
     \<and> (errors_Is e ErrRejected \<longleftrightarrow> is_write meth path
          \<and> (\<exists>code st t b. r = Response code st t b \<and> 400 \<le> code \<and> code < 500 \<and> code \<noteq> 409))
     \<and> (errors_Is e ErrConflict \<longleftrightarrow> (\<exists>st t b. r = Response 409 st t b))"
  using request_unknown_iff [OF assms] request_rejected_iff [OF assms] request_conflict_iff [OF assms] by simp

theorem request_outcomes_witness:
  "errors_Is (projl (request PUT ''/plugins/dynamic_rules/snapshot'' (DoFailed ''timeout'' :: nat reply))) ErrUnknown"
  using request_outcomes [of PUT "''/plugins/dynamic_rules/snapshot''" "DoFailed ''timeout'' :: nat reply"]
  by (simp add: request_def)

section \<open>What the code gets wrong\<close>

text \<open>
  \<open>Update\<close> does not check the source that the patch names: a rule can be moved into the reserved
  \<open>subscription:\<close> namespace, where \<open>List\<close> does not see it and the next publication drops it.
\<close>

lemma update_hides_rule:
  "\<exists>v w'. Update demo_lib demo_client 1 (demo_patch\<lparr>r_Source := ''subscription:1''\<rparr>) 1 ''req'' ''ip'' created = (Inr v, w')
     \<and> select_rules (w_db w') = Inr []"
proof -
  have "\<not> isl (fst (Update demo_lib demo_client 1 (demo_patch\<lparr>r_Source := ''subscription:1''\<rparr>) 1 ''req'' ''ip'' created))"
    "select_rules (w_db (snd (Update demo_lib demo_client 1 (demo_patch\<lparr>r_Source := ''subscription:1''\<rparr>) 1 ''req'' ''ip'' created))) = Inr []"
    by code_simp+
  then show ?thesis using run_ok by metis
qed

text \<open>
  SQLite compares the pattern without case, \<open>isSubscriptionRule\<close> with case: a created rule with
  the source \<open>SUBSCRIPTION:x\<close> is published and not listed.
\<close>

lemma create_hides_rule:
  "\<exists>v w'. Create demo_lib demo_client (demo_rule\<lparr>r_Source := ''SUBSCRIPTION:x''\<rparr>) 1 ''req'' ''ip'' demo_world = (Inr v, w')
     \<and> select_rules (w_db w') = Inr [] \<and> length (d_rules (w_db w')) = 1"
proof -
  let ?r = "Create demo_lib demo_client (demo_rule\<lparr>r_Source := ''SUBSCRIPTION:x''\<rparr>) 1 ''req'' ''ip'' demo_world"
  have "\<not> isl (fst ?r)" "select_rules (w_db (snd ?r)) = Inr []" "length (d_rules (w_db (snd ?r))) = 1"
    by code_simp+
  then show ?thesis using run_ok by metis
qed

text \<open>
  \<open>Batch\<close> switches a rule and keeps its time of change, so an update that was loaded before the
  batch still passes the check for lost updates and undoes the switch.
\<close>

lemma batch_escapes_lock:
  "\<exists>v w'. Update demo_lib demo_client 1 demo_patch 2 ''req'' ''ip''
       (snd (Batch demo_lib demo_client ''disable'' [1] None 1 ''req'' ''ip'' created)) = (Inr v, w')
     \<and> (\<exists>r. select_rules (w_db w') = Inr [r] \<and> r_Enabled r)"
proof -
  let ?r = "Update demo_lib demo_client 1 demo_patch 2 ''req'' ''ip''
       (snd (Batch demo_lib demo_client ''disable'' [1] None 1 ''req'' ''ip'' created))"
  have "\<not> isl (fst ?r)" "select_rules (w_db (snd ?r)) = Inr (projr (select_rules (w_db (snd ?r))))"
    "projr (select_rules (w_db (snd ?r))) = [hd (projr (select_rules (w_db (snd ?r))))]"
    "r_Enabled (hd (projr (select_rules (w_db (snd ?r)))))"
    by code_simp+
  then show ?thesis using run_ok by metis
qed

end
