(* ===== verification/SubscriptionProperties.thy ===== *)
theory SubscriptionProperties
  imports SystemProperties
begin

text \<open>The properties of rule subscriptions, applied to the instances of \<open>Demo\<close> and \<open>SystemProperties\<close>.\<close>

section \<open>Failure leaves no trace\<close>

definition demo_source :: SubscriptionInput where
  "demo_source = \<lparr>in_Category = ''access'', in_Action = ''block'', in_Name = ''ads'', in_SourceURL = ''https://lists.example/a'',
     in_RefreshIntervalSeconds = 0, in_Enabled = True, in_UpstreamGroupID = '''', in_Priority = None,
     in_ExpectedUpstreamRegistryVersion = None\<rparr>"

text \<open>C9: Creating a subscription that fails leaves the sources and bindings as they were, unless the
  database failed; or it is kept, and then the error says that the outcome is unknown or the new
  source is already part of the active snapshot.\<close>

theorem create_source_atomic:
  assumes "store_ok L (w_db w)" and "sources_ok (w_db w)"
    and "CreateURLSubscription L C F input adminID requestID ip w = (Inl (s, v, e), w')"
  shows "same_sources (w_db w) (w_db w') \<or> errors_Is e Fault
     \<or> (errors_Is e ErrUnknown \<or> in_sync (w_db w'))
        \<and> (\<exists>row. d_subs (w_db w') = d_subs (w_db w) @ [row] \<and> su_id row \<notin> su_id ` set (d_subs (w_db w)))"
proof -
  let ?E = "\<lambda>(s, v, e) w'. same_sources (w_db w) (w_db w') \<or> errors_Is e Fault
     \<or> (errors_Is e ErrUnknown \<or> in_sync (w_db w'))
        \<and> (\<exists>row. d_subs (w_db w') = d_subs (w_db w) @ [row] \<and> su_id row \<notin> su_id ` set (d_subs (w_db w)))"
  have new: "\<exists>row. d_subs d' = d_subs (w_db w) @ [row] \<and> su_id row \<notin> su_id ` set (d_subs (w_db w))"
    if "create_forward (create_key_of L input kind body patterns now (d_sub_seq (w_db w) + 1)) (w_db w) = Inr d1" "untouched d1 d'"
    for input kind body patterns now d1 d'
  proof -
    have "d_subs d1 = d_subs (w_db w) @ [new_source L input kind body patterns now (d_sub_seq (w_db w) + 1)]"
      using that(1) by (auto simp: create_forward_def create_key_of_def insert_sub_def insert_binding_def Let_def split: if_splits)
    moreover have "\<forall>s \<in> set (d_subs (w_db w)). su_id s \<noteq> d_sub_seq (w_db w) + 1"
      using sources_okD(2) [OF assms(2)] by fastforce
    ultimately show ?thesis using that(2) by (auto simp: untouched_def new_source_def)
  qed
  have create: "wp (createSubscription L C input kind body adminID requestID ip) ?E (\<lambda>_ _. True) s"
    if "w_db s = w_db w" for input kind body s
    using that assms(1,2) new by (intro createSubscription_spec) (auto simp: nosub_def change_failed_def)
  have get: "wp (downloadSubscription F url) (\<lambda>e. ?E (nosub e)) Q s" if "w_db s = w_db w" "\<And>r s'. w_db s' = w_db w \<Longrightarrow> Q r s'"
    for url Q s
    unfolding downloadSubscription_def by (intro wp_intros) (use that in \<open>auto simp: nosub_def\<close>)
  have "wp (CreateURLSubscription L C F input adminID requestID ip) ?E (\<lambda>_ _. True) w"
    unfolding CreateURLSubscription_def by (intro wp_intros get create) (auto simp: nosub_def)
  from wp_Inl [OF this assms(3)] show ?thesis by simp
qed

definition failed_create :: "(sub_failure + Subscription \<times> Version) \<times> (nat \<times> string) world" where
  "failed_create = CreateURLSubscription demo_lib lossy_client demo_fetcher demo_source 1 ''req'' ''ip'' created"

lemma failed_create_err: "isl (fst failed_create)"
  "\<not> errors_Is (snd (snd (projl (fst failed_create)))) Fault" "\<not> errors_Is (snd (snd (projl (fst failed_create)))) ErrUnknown"
  by code_simp+

lemma created_sources_ok: "sources_ok (w_db created)"
  using created_service_ok by (simp add: service_ok_def)

theorem create_source_atomic_witness:
  "same_sources (w_db created) (w_db (snd failed_create)) \<or> in_sync (w_db (snd failed_create))"
proof -
  obtain s v e where fc: "failed_create = (Inl (s, v, e), snd failed_create)"
    using failed_create_err(1) by (cases "fst failed_create") (auto simp: prod_eq_iff)
  then have "\<not> errors_Is e Fault" "\<not> errors_Is e ErrUnknown" using failed_create_err(2,3) by (metis fst_conv snd_conv sum.sel(1))+
  with create_source_atomic [OF created_ok created_sources_ok fc [unfolded failed_create_def]]
  show ?thesis unfolding failed_create_def [symmetric] by blast
qed

lemma change_failed_cases:
  "change_failed d d1 e d' \<Longrightarrow> same_sources d d' \<or> errors_Is e Fault \<or> errors_Is e ErrUnknown \<or> in_sync d'"
  by (auto simp: change_failed_def)

lemma change_done_tables:
  "change_done d1 d' \<Longrightarrow> d_subs d' = d_subs d1 \<and> d_bindings d' = d_bindings d1 \<and> in_sync d'"
  by (simp add: change_done_def untouched_def)

section \<open>Switching and deleting\<close>

definition sourced :: "(nat \<times> string) world" where
  "sourced = snd (CreateURLSubscription demo_lib demo_client demo_fetcher demo_source 1 ''req'' ''ip'' created)"

lemma demo_source_created: "\<not> isl (fst (CreateURLSubscription demo_lib demo_client demo_fetcher demo_source 1 ''req'' ''ip'' created))"
  by code_simp

lemma sourced_steps: "service_steps demo_lib demo_client demo_fetcher created sourced"
  unfolding sourced_def by (rule r_into_rtranclp, rule service_step.create_url [OF run_ok [OF demo_source_created]])

lemma sourced_ok: "store_ok demo_lib (w_db sourced)" "sources_ok (w_db sourced)"
  using service_ok_steps [OF sourced_steps created_service_ok] by (simp_all add: service_ok_def)


lemma in_map_if: "s \<in> set (map (\<lambda>s. if p s then f s else s) xs) \<Longrightarrow> (\<exists>x \<in> set xs. p x \<and> s = f x) \<or> s \<in> set xs \<and> \<not> p s"
  by auto

lemma enable_forward_effect:
  assumes "enable_forward (i, item, enabled, now) d = Inr d1" and "s \<in> set (d_subs d1)" and "su_id s = i"
  shows "su_enabled s = enabled"
proof -
  let ?f = "\<lambda>s. s\<lparr>su_enabled := enabled, su_updated_at_ms := touch now (sub_UpdatedAtMS item)\<rparr>"
  have "d1 = d\<lparr>d_subs := map (\<lambda>s. if su_id s = i then ?f s else s) (d_subs d)\<rparr>"
    using assms(1) by (intro update_sub_Inr) (simp add: enable_forward_def)
  with assms(2) have "s \<in> set (map (\<lambda>s. if su_id s = i then ?f s else s) (d_subs d))" by simp
  from in_map_if [OF this] assms(3) obtain x where "s = ?f x" by blast
  then have "su_enabled s = su_enabled (?f x)" by (rule arg_cong)
  then show ?thesis by simp
qed

text \<open>Switching a subscription on or off: on success it has the requested state, and the active
  snapshot holds exactly the enabled sources unless nothing had to change; on failure the sources
  are as before, unless the database failed or the outcome is reported as unknown.\<close>

theorem set_enabled_outcome:
  assumes st: "store_ok L (w_db w)" and ok: "sources_ok (w_db w)"
    and run: "SetSubscriptionEnabled L C i enabled adminID requestID ip w = (res, w')"
  shows "case res of
       Inl (s, v, e) \<Rightarrow> same_sources (w_db w) (w_db w') \<or> errors_Is e Fault \<or> errors_Is e ErrUnknown \<or> in_sync (w_db w')
     | Inr (s, v) \<Rightarrow> (\<forall>x \<in> set (d_subs (w_db w')). su_id x = i \<longrightarrow> su_enabled x = enabled)
         \<and> (w_db w' = w_db w \<and> v = noVersion \<or> in_sync (w_db w'))"
proof -
  have "wp (SetSubscriptionEnabled L C i enabled adminID requestID ip)
     (\<lambda>(s, v, e) w'. same_sources (w_db w) (w_db w') \<or> errors_Is e Fault \<or> errors_Is e ErrUnknown \<or> in_sync (w_db w'))
     (\<lambda>(s, v) w'. (\<forall>x \<in> set (d_subs (w_db w')). su_id x = i \<longrightarrow> su_enabled x = enabled)
         \<and> (w_db w' = w_db w \<and> v = noVersion \<or> in_sync (w_db w'))) w"
  proof (rule SetSubscriptionEnabled_spec [OF st ok])
    fix item and t assume item: "select_subscription i (w_db w) = Inr item" "sub_Enabled item = enabled" and t: "w_db t = w_db w"
    obtain s where s: "s \<in> set (d_subs (w_db w))" "su_id s = i" "su_enabled s = enabled"
      using select_subscription_Inr [OF item(1)] item(2) by (auto simp: subscription_of_def)
    have "x = s" if "x \<in> set (d_subs (w_db w))" "su_id x = i" for x
      using unique_id [OF sources_okD(1) [OF ok] that(1) s(1)] that(2) s(2) by simp
    then show "(case (item, noVersion) of (s, v) \<Rightarrow> \<lambda>w'. (\<forall>x \<in> set (d_subs (w_db w')). su_id x = i \<longrightarrow> su_enabled x = enabled)
         \<and> (w_db w' = w_db w \<and> v = noVersion \<or> in_sync (w_db w'))) t"
      using s(3) by (simp add: t) blast
  next
    fix item now d1 s v and t assume f: "enable_forward (i, item, enabled, now) (w_db w) = Inr d1" "change_done d1 (w_db t)"
    have "\<forall>x \<in> set (d_subs (w_db t)). su_id x = i \<longrightarrow> su_enabled x = enabled"
      using enable_forward_effect [OF f(1)] change_done_tables [OF f(2)] by simp
    then show "(case (s, v) of (s, v) \<Rightarrow> \<lambda>w'. (\<forall>x \<in> set (d_subs (w_db w')). su_id x = i \<longrightarrow> su_enabled x = enabled)
         \<and> (w_db w' = w_db w \<and> v = noVersion \<or> in_sync (w_db w'))) t"
      using change_done_tables [OF f(2)] by simp
  qed (auto simp: nosub_def dest: change_failed_cases)
  then show ?thesis using run by (auto simp: wp_def split: sum.splits)
qed

lemma demo_switch:
  "\<not> isl (fst (SetSubscriptionEnabled demo_lib demo_client 1 False 1 ''req'' ''ip'' sourced))"
  by code_simp

theorem set_enabled_outcome_witness:
  "filter (\<lambda>x. su_id x = 1 \<and> su_enabled x)
     (d_subs (w_db (snd (SetSubscriptionEnabled demo_lib demo_client 1 False 1 ''req'' ''ip'' sourced)))) = []"
  using set_enabled_outcome [OF sourced_ok run_ok [OF demo_switch]] by (auto simp: filter_empty_conv split: prod.splits)

text \<open>Deleting a subscription: on success it is gone with its binding and the active snapshot
  holds exactly the enabled sources that are left; on failure it is back, row and binding, unless
  the database failed or the outcome is reported as unknown.\<close>

theorem delete_source_outcome:
  assumes st: "store_ok L (w_db w)" and ok: "sources_ok (w_db w)"
    and run: "DeleteSubscription L C i adminID requestID ip w = (res, w')"
  shows "case res of
       Inl (v, e) \<Rightarrow> same_sources (w_db w) (w_db w') \<or> errors_Is e Fault \<or> errors_Is e ErrUnknown \<or> in_sync (w_db w')
     | Inr v \<Rightarrow> i \<notin> su_id ` set (d_subs (w_db w')) \<and> i \<notin> bi_subscription_id ` set (d_bindings (w_db w')) \<and> in_sync (w_db w')"
proof -
  have "wp (DeleteSubscription L C i adminID requestID ip)
     (\<lambda>(v, e) w'. same_sources (w_db w) (w_db w') \<or> errors_Is e Fault \<or> errors_Is e ErrUnknown \<or> in_sync (w_db w'))
     (\<lambda>v w'. i \<notin> su_id ` set (d_subs (w_db w')) \<and> i \<notin> bi_subscription_id ` set (d_bindings (w_db w')) \<and> in_sync (w_db w')) w"
  proof (rule DeleteSubscription_spec [OF st ok])
    fix d1 v and t assume "delete_sub i (w_db w) = Inr d1" "change_done d1 (w_db t)"
    then show "i \<notin> su_id ` set (d_subs (w_db t)) \<and> i \<notin> bi_subscription_id ` set (d_bindings (w_db t)) \<and> in_sync (w_db t)"
      by (auto simp: delete_sub_def dest: change_done_tables)
  qed (auto dest: change_failed_cases)
  then show ?thesis using run by (auto simp: wp_def split: sum.splits)
qed

lemma demo_drop: "\<not> isl (fst (DeleteSubscription demo_lib demo_client 1 1 ''req'' ''ip'' sourced))"
  by code_simp

theorem delete_source_outcome_witness:
  "in_sync (w_db (snd (DeleteSubscription demo_lib demo_client 1 1 ''req'' ''ip'' sourced)))"
  using delete_source_outcome [OF sourced_ok run_ok [OF demo_drop]] by simp

section \<open>Refreshing\<close>

lemma touch_later: "u < touch t u"
  by (simp add: touch_def)

lemma wp_record_failure:
  assumes "u < now" and "w_db s = w_db w"
  shows "wp (run_restore cause (db_exec (update_sub i (\<lambda>s. s\<lparr>su_last_checked_at_ms := now,
        su_last_error := truncateError cause, su_updated_at_ms := now\<rparr>)))) E
     (\<lambda>e w'. w_db w' = w_db w \<or> e = cause \<and> (\<exists>now > u. w_db w' = (w_db w)\<lparr>d_subs :=
        map (\<lambda>s. if su_id s = i then s\<lparr>su_last_checked_at_ms := now,
            su_last_error := truncateError cause, su_updated_at_ms := now\<rparr> else s) (d_subs (w_db w))\<rparr>)) s"
  unfolding run_restore_def using assms
  by (auto simp: wp_simps join_result_def dest!: update_sub_Inr split: sum.split)

text \<open>C10: A refresh works on the row it read before its download, and takes the locks again only
  afterwards. When the row has changed since, neither ending writes: the commit of a downloaded list
  reports a conflict, and so does the record of a download or parse that failed, beside the failure
  itself, unless the database fails there. When the row is unchanged, the record of the
  failure touches that row alone and keeps its domains and its checksum.\<close>

theorem refresh_conflict:
  assumes "select_subscription (sub_ID seen) (w_db w) = Inr item"
  shows "(sub_UpdatedAtMS item \<noteq> sub_UpdatedAtMS seen \<longrightarrow>
       (\<exists>x e w'. refresh_commit L C (seen, body, url, patterns) adminID requestID ip w = (Inl (x, None, e), w')
          \<and> w_db w' = w_db w \<and> (e = ErrConflict \<or> e = Fault))
       \<and> (\<exists>e w'. (subscriptionFailure seen cause :: (refresh_failure, 'm world, error) prog) w = (Inr e, w')
          \<and> w_db w' = w_db w \<and> (e = Join cause ErrConflict \<or> e = Join cause Fault)))
     \<and> (sub_UpdatedAtMS item = sub_UpdatedAtMS seen \<longrightarrow>
       (\<exists>e w'. (subscriptionFailure seen cause :: (refresh_failure, 'm world, error) prog) w = (Inr e, w')
          \<and> (w_db w' = w_db w \<or> e = cause \<and> (\<exists>now > sub_UpdatedAtMS seen. w_db w' = (w_db w)\<lparr>d_subs :=
                map (\<lambda>s. if su_id s = sub_ID seen then s\<lparr>su_last_checked_at_ms := now,
                    su_last_error := truncateError cause, su_updated_at_ms := now\<rparr> else s) (d_subs (w_db w))\<rparr>))))"
proof -
  have c: "wp (refresh_commit L C (seen, body, url, patterns) adminID requestID ip)
     (\<lambda>(x, v, e) w'. v = None \<and> w_db w' = w_db w \<and> (e = ErrConflict \<or> e = Fault)) (\<lambda>_ _. False) w"
    if "sub_UpdatedAtMS item \<noteq> sub_UpdatedAtMS seen"
    unfolding refresh_commit_def prod.case subscription_def using assms that
    by (auto simp: wp_simps norefresh_def)
  have f: "wp (subscriptionFailure seen cause :: (refresh_failure, 'm world, error) prog) (\<lambda>_ _. False)
     (\<lambda>e w'. w_db w' = w_db w \<and> (e = Join cause ErrConflict \<or> e = Join cause Fault)) w"
    if "sub_UpdatedAtMS item \<noteq> sub_UpdatedAtMS seen"
    unfolding subscriptionFailure_def subscription_def using assms that
    by (auto simp: wp_simps)
  have k: "wp (subscriptionFailure seen cause :: (refresh_failure, 'm world, error) prog) (\<lambda>_ _. False)
     (\<lambda>e w'. w_db w' = w_db w \<or> e = cause \<and> (\<exists>now > sub_UpdatedAtMS seen. w_db w' = (w_db w)\<lparr>d_subs :=
        map (\<lambda>s. if su_id s = sub_ID seen then s\<lparr>su_last_checked_at_ms := now,
            su_last_error := truncateError cause, su_updated_at_ms := now\<rparr> else s) (d_subs (w_db w))\<rparr>)) w"
    if "sub_UpdatedAtMS item = sub_UpdatedAtMS seen"
    unfolding subscriptionFailure_def subscription_def using assms that
    by (auto simp: wp_simps Let_def touch_later intro!: wp_record_failure split: list.split)
  from c f k show ?thesis by (auto simp: wp_def split: prod.splits sum.splits)
qed

definition stale :: Subscription where
  "stale = noSubscription\<lparr>sub_ID := 1, sub_UpdatedAtMS := 999\<rparr>"

theorem refresh_conflict_witness:
  "(\<exists>x e w'. refresh_commit demo_lib demo_client (stale, ''new.example'', '''', [''new.example'']) 1 ''req'' ''ip'' sourced
      = (Inl (x, None, e), w') \<and> w_db w' = w_db sourced \<and> (e = ErrConflict \<or> e = Fault))
   \<and> (\<exists>e w'. (subscriptionFailure stale ErrNoRows :: (refresh_failure, (nat \<times> string) world, error) prog) sourced = (Inr e, w')
      \<and> w_db w' = w_db sourced \<and> (e = Join ErrNoRows ErrConflict \<or> e = Join ErrNoRows Fault))"
proof -
  have "select_subscription (sub_ID stale) (w_db sourced) = Inr (projr (select_subscription (sub_ID stale) (w_db sourced)))"
    "sub_UpdatedAtMS (projr (select_subscription (sub_ID stale) (w_db sourced))) \<noteq> sub_UpdatedAtMS stale"
    by code_simp+
  with refresh_conflict [OF this(1)] show ?thesis by blast
qed

lemma refresh_forward_effect:
  assumes "refresh_forward (i, item, row, url, ck, patterns, now) d = Inr d1" and "s \<in> set (d_subs d1)" and "su_id s = i"
  shows "su_domains s = patterns \<and> su_content_checksum s = ck"
proof -
  let ?f = "\<lambda>s. s\<lparr>su_source_url := url, su_content_checksum := ck, su_rule_count := length patterns,
     su_last_checked_at_ms := now, su_last_success_at_ms := now, su_last_error := [], su_updated_at_ms := now,
     su_domains := patterns\<rparr>"
  have "d1 = d\<lparr>d_subs := map (\<lambda>s. if su_id s = i then ?f s else s) (d_subs d)\<rparr>"
    using assms(1) by (intro update_sub_Inr) (simp add: refresh_forward_def)
  with assms(2) have "s \<in> set (map (\<lambda>s. if su_id s = i then ?f s else s) (d_subs d))" by simp
  from in_map_if [OF this] assms(3) obtain x where x: "s = ?f x" by blast
  then have "su_domains s = su_domains (?f x)" "su_content_checksum s = su_content_checksum (?f x)" by (rule arg_cong)+
  then show ?thesis by simp
qed

text \<open>C11: A refresh that publishes a new version leaves the row with exactly the parsed domains and the
  checksum of the downloaded body, and the active snapshot with exactly the enabled sources.\<close>

theorem refresh_installs:
  assumes "store_ok L (w_db w)" and "sources_ok (w_db w)"
    and "refresh_commit L C (seen, body, url, patterns) adminID requestID ip w = (Inr (x, Some v), w')"
  shows "in_sync (w_db w') \<and> (\<forall>s \<in> set (d_subs (w_db w')). su_id s = sub_ID seen \<longrightarrow>
     su_domains s = patterns \<and> su_content_checksum s = checksum L body)"
proof -
  have "wp (refresh_commit L C (seen, body, url, patterns) adminID requestID ip) (\<lambda>_ _. True)
     (\<lambda>(x, v) w'. v = None \<or> in_sync (w_db w') \<and> (\<forall>s \<in> set (d_subs (w_db w')). su_id s = sub_ID seen \<longrightarrow>
        su_domains s = patterns \<and> su_content_checksum s = checksum L body)) w"
  proof (rule refresh_commit_spec [OF assms(1,2)])
    fix x item row now d1 v and t
    assume f: "refresh_forward (sub_ID seen, item, row, url, checksum L body, patterns, now) (w_db w) = Inr d1"
      and "change_done d1 (w_db t)"
    then show "(case (x, Some v) of (x, v) \<Rightarrow> \<lambda>w'. v = None \<or> in_sync (w_db w')
        \<and> (\<forall>s \<in> set (d_subs (w_db w')). su_id s = sub_ID seen \<longrightarrow>
           su_domains s = patterns \<and> su_content_checksum s = checksum L body)) t"
      using refresh_forward_effect [OF f] by (auto dest!: change_done_tables)
  qed auto
  from wp_Inr [OF this assms(3)] show ?thesis by simp
qed

definition seen_row :: Subscription where
  "seen_row = projr (select_subscription 1 (w_db sourced))"

definition refreshed :: "(refresh_failure + Subscription \<times> Version option) \<times> (nat \<times> string) world" where
  "refreshed = refresh_commit demo_lib demo_client (seen_row, ''new.example'', '''', [''new.example'']) 1 ''req'' ''ip'' sourced"

lemma refreshed_ok: "\<not> isl (fst refreshed)" "snd (projr (fst refreshed)) \<noteq> None" "sub_ID seen_row = 1"
  by code_simp+

theorem refresh_installs_witness:
  "filter (\<lambda>s. su_id s = 1 \<and> su_domains s \<noteq> [''new.example'']) (d_subs (w_db (snd refreshed))) = []"
proof -
  obtain x v where "refreshed = (Inr (x, Some v), snd refreshed)"
    using refreshed_ok(1,2) by (cases "fst refreshed") (auto simp: prod_eq_iff)
  from refresh_installs [OF sourced_ok this [unfolded refreshed_def]] refreshed_ok(3)
  show ?thesis unfolding refreshed_def [symmetric] by (auto simp: filter_empty_conv)
qed

section \<open>Parsing and validation\<close>

text \<open>C12: \<open>parseSubscription\<close> accepts a file exactly when it has an admissible size and every line that
  is neither blank nor a comment is a valid domain, at least one; the result has each normalised
  domain once, in the order of its first line.\<close>

theorem parse_result:
  "parseSubscription L body = Inr ps \<longleftrightarrow>
     body \<noteq> [] \<and> length body \<le> 20971520 \<and> entries body \<noteq> [] \<and> canon_all L (entries body) \<noteq> None
     \<and> ps = firsts [] (the (canon_all L (entries body)))"
proof -
  have f: "firsts [] qs = [] \<longleftrightarrow> qs = []" for qs :: "string list"
    using set_firsts [of "[]" qs] by (metis set_empty Un_empty)
  have e: "qs = [] \<longleftrightarrow> entries body = []" if "canon_all L (entries body) = Some qs" for qs
    using that by (cases "entries body") (auto split: sum.splits)
  show ?thesis
  proof (cases "canon_all L (entries body)")
    case None
    then show ?thesis by (simp add: parseSubscription_eq)
  next
    case (Some qs)
    then show ?thesis using e [OF Some] f [of qs] by (simp add: parseSubscription_eq maxSubscriptionSize_def) metis
  qed
qed

text \<open>The domains of a subscription are distinct, at least one, and each is a fixed point of the
  normalisation, so storing, publishing or parsing them again does not change them.\<close>

theorem parse_normal:
  assumes "lib_ok L" and "parseSubscription L body = Inr ps"
  shows "ps \<noteq> [] \<and> distinct ps \<and> (\<forall>p \<in> set ps. normalize L p ''domain'' = Inr p)"
proof -
  obtain qs where qs: "canon_all L (entries body) = Some qs" "ps = firsts [] qs"
    using assms(2) by (auto simp: parseSubscription_eq)
  have "normalize L p ''domain'' = Inr p" if "p \<in> set ps" for p
  proof -
    have "p \<in> set qs" using that qs(2) set_firsts [of "[]" qs] by simp
    then obtain e where "normalize L e ''domain'' = Inr p" using canon_all_set [OF qs(1)] by auto
    then show ?thesis by (rule normalize_idem [OF assms(1)])
  qed
  then show ?thesis using parseSubscription_ok [OF assms(2)] by simp
qed

theorem parse_normal_witness:
  "normalize demo_lib ''one.example'' ''domain'' = Inr ''one.example''"
proof -
  have "parseSubscription demo_lib (''# list'' @ [CHR 0x0A] @ ''One.Example'' @ [CHR 0x0D, CHR 0x0A] @ ''one.example'') = Inr [''one.example'']"
    by code_simp
  from parse_normal [OF demo_lib_ok this] show ?thesis by simp
qed

lemma seconds_small:
  assumes "\<bar>n\<bar> \<le> 9223372036"
  shows "seconds n = n * 1000000000"
proof -
  have "sint (word_of_int n * word_of_int 1000000000 :: int64) = sint (word_of_int (n * 1000000000) :: int64)" by simp
  also have "\<dots> = signed_take_bit 63 (n * 1000000000)" by (simp only: sint_sbintrunc') simp
  also have "\<dots> = n * 1000000000"
    using assms by (intro signed_take_bit_int_eq_self) auto
  finally show ?thesis by (simp add: seconds_def)
qed

text \<open>For an interval that fits a duration, the check of a subscription is the intended one: a
  matching category and action other than logging, a name of 1 to 128 characters, a source for
  the kind \<open>url\<close>, and 900 to 2592000 seconds.\<close>

theorem subscription_input_bounds:
  assumes "\<bar>in_RefreshIntervalSeconds i\<bar> \<le> 9223372036"
  shows "validateSubscriptionInput i kind = Inr () \<longleftrightarrow>
     validAction (in_Category i) (in_Action i) \<and> in_Category i \<noteq> ''logging''
     \<and> TrimSpace (in_Name i) \<noteq> [] \<and> RuneCount (in_Name i) \<le> 128
     \<and> (kind = ''url'' \<longrightarrow> TrimSpace (in_SourceURL i) \<noteq> [])
     \<and> 900 \<le> in_RefreshIntervalSeconds i \<and> in_RefreshIntervalSeconds i \<le> 2592000"
  using seconds_small [OF assms]
  by (auto simp: validateSubscriptionInput_def minRefreshInterval_def maxRefreshInterval_def)

theorem subscription_input_bounds_witness:
  "validateSubscriptionInput (demo_source\<lparr>in_RefreshIntervalSeconds := 899\<rparr>) ''url'' \<noteq> Inr ()"
  using subscription_input_bounds [of "demo_source\<lparr>in_RefreshIntervalSeconds := 899\<rparr>" "''url''"]
  by (simp add: demo_source_def)

text \<open>Beyond that the product of \<open>time.Duration\<close> wraps and an absurd interval passes the check.\<close>

lemma interval_overflow:
  "validateSubscriptionInput (demo_source\<lparr>in_RefreshIntervalSeconds := 900 + 2 ^ 55\<rparr>) ''url'' = Inr ()"
  by code_simp

section \<open>What the code gets wrong\<close>

text \<open>
  The compensation of a deletion is two statements: when the second one fails, the row is back
  without its binding, and from then on no list can be published.
\<close>

definition unbound :: db where
  "unbound = empty_db\<lparr>d_subs := [\<lparr>su_id = 1, su_category = ''route'', su_action = ''upstream'', su_kind = ''upload'',
     su_name = ''x'', su_source_url = [], su_refresh_interval_seconds = 900, su_enabled = True, su_content_checksum = [],
     su_rule_count = 1, su_last_checked_at_ms = 0, su_last_success_at_ms = 0, su_last_error = [], su_created_at_ms = 0,
     su_updated_at_ms = 0, su_domains = [''x.example'']\<rparr>],
     d_bindings := [\<lparr>bi_id = 1, bi_subscription_id = 1, bi_upstream_group_id = ''default'', bi_priority = 1,
       bi_created_at_ms = 0, bi_updated_at_ms = 0\<rparr>]\<rparr>"

lemma half_restored:
  "\<exists>w. w_db w = unbound \<and> (\<exists>res w'. DeleteSubscription demo_lib lossy_client 1 1 ''req'' ''ip'' w = (res, w')
     \<and> map su_id (d_subs (w_db w')) = [1] \<and> d_bindings (w_db w') = []
     \<and> source_sets (w_db w') = Inl (Msg ''route subscription has no binding''))"
proof -
  let ?w = "demo_world\<lparr>w_db := unbound, w_faults := replicate 13 False @ [True]\<rparr>"
  let ?r = "DeleteSubscription demo_lib lossy_client 1 1 ''req'' ''ip'' ?w"
  have "map su_id (d_subs (w_db (snd ?r))) = [1]" "d_bindings (w_db (snd ?r)) = []"
    "source_sets (w_db (snd ?r)) = Inl (Msg ''route subscription has no binding'')"
    by code_simp+
  then show ?thesis by (intro exI [of _ ?w] conjI exI [of _ "fst ?r"] exI [of _ "snd ?r"]) simp_all
qed

end
