(* ===== verification/Registry.thy ===== *)
theory Registry
  imports Store
begin

text \<open>
  The pure part of the settings and upstream group operations
  (\<open>internal/operations/service.go\<close>): the settings record, its checks, the registry values
  built from it, and the functions on registry snapshots (lookup, clone, comparison, the check
  of a snapshot that is taken as the outcome of an apply whose answer was lost).
\<close>

section \<open>Settings\<close>

record Settings =
  s_CacheEnabled :: bool
  s_CacheTTL :: int
  s_NegativeCacheEnabled :: bool
  s_NegativeCacheTTL :: int
  s_QueryRetentionDays :: int
  s_DatabaseMaxSizeGiB :: int
  s_AddressFamilyMode :: string
  s_DefaultUpstreamGroupID :: string
  s_GlobalMaxInFlight :: int
  s_DefaultGroupMaxInFlight :: int
  s_DefaultGroupQueryTimeoutMS :: int
  s_OverloadAction :: string
  s_UpstreamRegistryVersion :: uint64

definition validAddressFamilyMode :: "string \<Rightarrow> bool" where
  "validAddressFamilyMode mode =
     (mode \<in> set [''dual_stack'', ''prefer_ipv4'', ''prefer_ipv6'', ''ipv4_only'', ''ipv6_only''])"

text \<open>The chain of checks that \<open>databaseSettings\<close> and \<open>UpdateSettings\<close> both make.\<close>

definition check_settings :: "Settings \<Rightarrow> error + unit" where
  "check_settings s =
     (if s_QueryRetentionDays s < 1 \<or> 365 < s_QueryRetentionDays s
      then Inl (Msg ''query retention days must be within 1..365'')
      else if s_CacheTTL s < 0 \<or> 604800 < s_CacheTTL s
      then Inl (Msg ''cache TTL must be within 0..604800'')
      else if s_NegativeCacheTTL s < 1 \<or> 86400 < s_NegativeCacheTTL s
      then Inl (Msg ''negative cache TTL must be within 1..86400'')
      else if s_DatabaseMaxSizeGiB s < 1 \<or> 128 < s_DatabaseMaxSizeGiB s
      then Inl (Msg ''database max size must be within 1..128 GiB'')
      else if \<not> validAddressFamilyMode (s_AddressFamilyMode s)
      then Inl (Msg ''invalid address family mode'')
      else Inr ())"

definition registryCache :: "Settings \<Rightarrow> RegistryCacheConfig" where
  "registryCache s = \<lparr>rc_Enabled = s_CacheEnabled s, rc_LazyTTL = s_CacheTTL s,
     rc_Negative = \<lparr>nc_Enabled = s_NegativeCacheEnabled s, nc_TTL = word_of_int (s_NegativeCacheTTL s)\<rparr>\<rparr>"

definition registryProtection :: "Settings \<Rightarrow> ProtectionConfig" where
  "registryProtection s =
     \<lparr>pr_GlobalMaxInFlight = s_GlobalMaxInFlight s,
      pr_DefaultGroupMaxInFlight = s_DefaultGroupMaxInFlight s,
      pr_DefaultGroupQueryTimeoutMS = s_DefaultGroupQueryTimeoutMS s,
      pr_OverloadAction = s_OverloadAction s\<rparr>"

text \<open>The cache settings and the default group as an applied registry reports them.\<close>

definition read_back :: "RegistrySnapshot \<Rightarrow> Settings \<Rightarrow> Settings" where
  "read_back applied s = s\<lparr>
     s_DefaultUpstreamGroupID := rg_DefaultGroupID applied,
     s_CacheEnabled := rc_Enabled (rg_Cache applied),
     s_CacheTTL := rc_LazyTTL (rg_Cache applied),
     s_NegativeCacheEnabled := nc_Enabled (rc_Negative (rg_Cache applied)),
     s_NegativeCacheTTL := uint (nc_TTL (rc_Negative (rg_Cache applied)))\<rparr>"

definition read_back_all :: "RegistrySnapshot \<Rightarrow> Settings \<Rightarrow> Settings" where
  "read_back_all applied s = (read_back applied s)\<lparr>
     s_GlobalMaxInFlight := pr_GlobalMaxInFlight (rg_Protection applied),
     s_DefaultGroupMaxInFlight := pr_DefaultGroupMaxInFlight (rg_Protection applied),
     s_DefaultGroupQueryTimeoutMS := pr_DefaultGroupQueryTimeoutMS (rg_Protection applied),
     s_OverloadAction := pr_OverloadAction (rg_Protection applied),
     s_UpstreamRegistryVersion := rg_Version applied\<rparr>"

section \<open>Registry snapshots\<close>

text \<open>\<open>append([]T(nil), xs...)\<close> is nil when there is nothing to append.\<close>

definition append_nil :: "'a slice \<Rightarrow> 'a slice" where
  "append_nil xs = (if elems xs = [] then None else Some (elems xs))"

definition cloneRegistry :: "RegistrySnapshot \<Rightarrow> RegistrySnapshot" where
  "cloneRegistry snapshot = snapshot\<lparr>rg_Groups :=
     map_option (map (\<lambda>g. g\<lparr>g_Upstreams := append_nil (g_Upstreams g)\<rparr>)) (append_nil (rg_Groups snapshot))\<rparr>"

definition registryEqual :: "RegistrySnapshot \<Rightarrow> RegistrySnapshot \<Rightarrow> bool" where
  "registryEqual a b = (a\<lparr>rg_ExpectedCurrentVersion := 0\<rparr> = b\<lparr>rg_ExpectedCurrentVersion := 0\<rparr>)"

fun applied_groups_ok :: "string \<Rightarrow> string list \<Rightarrow> UpstreamGroup list \<Rightarrow> bool" where
  "applied_groups_ok d seen [] = False"
| "applied_groups_ok d seen (g # gs) =
     (if g_ID g = '''' then False
      else if g_ID g \<in> set seen then False
      else if g_ID g = d then g_Enabled g
      else applied_groups_ok d (g_ID g # seen) gs)"

definition validAppliedRegistry :: "RegistrySnapshot \<Rightarrow> uint64 \<Rightarrow> bool" where
  "validAppliedRegistry s version =
     (if (rg_SchemaVersion s \<noteq> 1 \<and> rg_SchemaVersion s \<noteq> 2) \<or> rg_Version s \<noteq> version
         \<or> rg_ExpectedCurrentVersion s \<noteq> 0 \<or> rg_DefaultGroupID s = '''' \<or> length (elems (rg_Groups s)) = 0
      then False
      else applied_groups_ok (rg_DefaultGroupID s) [] (elems (rg_Groups s)))"

fun enabled_in :: "string \<Rightarrow> UpstreamGroup list \<Rightarrow> bool" where
  "enabled_in i [] = False"
| "enabled_in i (g # gs) = (if g_ID g = i then g_Enabled g else enabled_in i gs)"

definition enabledGroup :: "RegistrySnapshot \<Rightarrow> string \<Rightarrow> bool" where
  "enabledGroup snapshot i = enabled_in i (elems (rg_Groups snapshot))"

text \<open>\<open>groupIndex\<close>: the index of a group, \<open>None\<close> for Go's \<open>-1\<close>.\<close>

fun index_of :: "string \<Rightarrow> UpstreamGroup list \<Rightarrow> nat option" where
  "index_of i [] = None"
| "index_of i (g # gs) = (if g_ID g = i then Some 0 else map_option Suc (index_of i gs))"

definition groupIndex :: "RegistrySnapshot \<Rightarrow> string \<Rightarrow> nat option" where
  "groupIndex snapshot i = index_of i (elems (rg_Groups snapshot))"

definition registryGroup :: "RegistrySnapshot \<Rightarrow> string \<Rightarrow> UpstreamGroup option" where
  "registryGroup snapshot i = map_option ((!) (elems (rg_Groups snapshot))) (groupIndex snapshot i)"

text \<open>\<open>groupIDPattern\<close>: \<open>^[a-z0-9][a-z0-9_-]{0,63}$\<close>.\<close>

definition group_id_first :: "char \<Rightarrow> bool" where
  "group_id_first c = (let n = (of_char c :: nat) in 97 \<le> n \<and> n \<le> 122 \<or> 48 \<le> n \<and> n \<le> 57)"

definition group_id_rest :: "char \<Rightarrow> bool" where
  "group_id_rest c = (group_id_first c \<or> c = CHR ''_'' \<or> c = CHR ''-'')"

definition groupIDPattern :: "string \<Rightarrow> bool" where
  "groupIDPattern i = (case i of [] \<Rightarrow> False
     | c # s \<Rightarrow> group_id_first c \<and> list_all group_id_rest s \<and> length s \<le> 63)"

text \<open>The slice updates of the group operations, on a cloned registry.\<close>

definition append_group :: "UpstreamGroup \<Rightarrow> RegistrySnapshot \<Rightarrow> RegistrySnapshot" where
  "append_group g s = s\<lparr>rg_Groups := Some (elems (rg_Groups s) @ [g])\<rparr>"

definition set_group :: "nat \<Rightarrow> UpstreamGroup \<Rightarrow> RegistrySnapshot \<Rightarrow> RegistrySnapshot" where
  "set_group n g s = s\<lparr>rg_Groups := Some ((elems (rg_Groups s))[n := g])\<rparr>"

definition remove_group :: "nat \<Rightarrow> RegistrySnapshot \<Rightarrow> RegistrySnapshot" where
  "remove_group n s = s\<lparr>rg_Groups := Some (take n (elems (rg_Groups s)) @ drop (Suc n) (elems (rg_Groups s)))\<rparr>"

section \<open>Facts\<close>

lemma check_settings_ok:
  "check_settings s = Inr () \<longleftrightarrow>
     1 \<le> s_QueryRetentionDays s \<and> s_QueryRetentionDays s \<le> 365 \<and> 0 \<le> s_CacheTTL s \<and> s_CacheTTL s \<le> 604800
     \<and> 1 \<le> s_NegativeCacheTTL s \<and> s_NegativeCacheTTL s \<le> 86400
     \<and> 1 \<le> s_DatabaseMaxSizeGiB s \<and> s_DatabaseMaxSizeGiB s \<le> 128
     \<and> validAddressFamilyMode (s_AddressFamilyMode s)"
  by (auto simp: check_settings_def)

text \<open>Within the checked bounds the conversions to 32 bits and back lose nothing.\<close>

lemma read_back_registryCache:
  assumes "check_settings s = Inr ()"
  shows "read_back (r\<lparr>rg_Cache := registryCache s, rg_DefaultGroupID := s_DefaultUpstreamGroupID s\<rparr>) s = s"
proof -
  have "uint (word_of_int (s_NegativeCacheTTL s) :: 32 word) = s_NegativeCacheTTL s"
    using assms by (simp add: check_settings_ok uint_word_of_int)
  then show ?thesis by (simp add: read_back_def registryCache_def)
qed

lemma elems_append_nil [simp]: "elems (append_nil xs) = elems xs"
  by (simp add: append_nil_def)

lemma append_nil_idem [simp]: "append_nil (append_nil xs) = append_nil xs"
  by (simp add: append_nil_def)

lemma elems_cloneRegistry [simp]:
  "elems (rg_Groups (cloneRegistry s))
     = map (\<lambda>g. g\<lparr>g_Upstreams := append_nil (g_Upstreams g)\<rparr>) (elems (rg_Groups s))"
  by (simp add: cloneRegistry_def append_nil_def)

lemma group_ids_cloneRegistry [simp]: "group_ids (cloneRegistry s) = group_ids s"
  by (simp add: group_ids_def comp_def)

lemma cloneRegistry_idem [simp]: "cloneRegistry (cloneRegistry s) = cloneRegistry s"
  by (cases "elems (rg_Groups s) = []") (simp_all add: cloneRegistry_def append_nil_def comp_def)

lemma cloneRegistry_sel [simp]:
  "rg_SchemaVersion (cloneRegistry s) = rg_SchemaVersion s" "rg_Version (cloneRegistry s) = rg_Version s"
  "rg_DefaultGroupID (cloneRegistry s) = rg_DefaultGroupID s" "rg_Cache (cloneRegistry s) = rg_Cache s"
  "rg_Protection (cloneRegistry s) = rg_Protection s"
  "rg_ExpectedCurrentVersion (cloneRegistry s) = rg_ExpectedCurrentVersion s"
  by (simp_all add: cloneRegistry_def)

text \<open>
  A clone is DeepEqual to its original exactly when no slice of the original is empty and
  non-nil (JSON's \<open>[]\<close>).
\<close>

definition nil_when_empty :: "RegistrySnapshot \<Rightarrow> bool" where
  "nil_when_empty s = (rg_Groups s \<noteq> Some [] \<and> (\<forall>g \<in> set (elems (rg_Groups s)). g_Upstreams g \<noteq> Some []))"

lemma append_nil_Some: "append_nil (Some xs) = (if xs = [] then None else Some xs)"
  by (simp add: append_nil_def)

lemma append_nil_eq: "append_nil xs = xs \<longleftrightarrow> xs \<noteq> Some []"
  by (cases xs) (auto simp: append_nil_def)

lemma registryEqual_clone: "registryEqual s (cloneRegistry s) \<longleftrightarrow> nil_when_empty s"
proof -
  have up: "g\<lparr>g_Upstreams := u\<rparr> = g \<longleftrightarrow> u = g_Upstreams g" for g :: UpstreamGroup and u
    by (cases g) auto
  have "registryEqual s (cloneRegistry s) \<longleftrightarrow> rg_Groups s = rg_Groups (cloneRegistry s)"
    by (cases s) (auto simp: registryEqual_def cloneRegistry_def)
  also have "\<dots> \<longleftrightarrow> nil_when_empty s"
  proof (cases "rg_Groups s")
    case (Some gs)
    have "gs = map (\<lambda>g. g\<lparr>g_Upstreams := append_nil (g_Upstreams g)\<rparr>) gs
        \<longleftrightarrow> (\<forall>g \<in> set gs. g_Upstreams g \<noteq> Some [])"
      by (induction gs) (auto simp: up append_nil_eq eq_commute [of _ "_\<lparr>g_Upstreams := _\<rparr>"])
    with Some show ?thesis
      by (cases "gs = []") (simp_all add: cloneRegistry_def nil_when_empty_def append_nil_Some)
  qed (simp add: cloneRegistry_def nil_when_empty_def append_nil_def)
  finally show ?thesis .
qed

lemma applied_groups_ok_iff:
  "registry_groups_ok d seen b gs \<Longrightarrow> d \<in> g_ID ` set gs \<Longrightarrow> applied_groups_ok d seen gs"
proof (induction d seen b gs rule: registry_groups_ok.induct)
  case (2 d seen b g gs)
  then show ?case
    by (cases "g_ID g = d") (auto simp: registry_groups_ok_iff image_iff split: if_splits)
qed simp

text \<open>What the client lets through, the reconciliation of an unknown outcome accepts.\<close>

lemma validRegistry_applied: "validRegistrySnapshot s v \<Longrightarrow> validAppliedRegistry s v"
  by (auto simp: validRegistrySnapshot_def validAppliedRegistry_def registry_groups_ok_iff
      intro!: applied_groups_ok_iff split: if_splits)

lemma enabled_in_iff:
  "distinct (map g_ID gs) \<Longrightarrow> enabled_in i gs \<longleftrightarrow> (\<exists>g \<in> set gs. g_ID g = i \<and> g_Enabled g)"
  by (induction gs) (auto simp: image_iff)

lemma enabledGroup_iff:
  "distinct (group_ids s) \<Longrightarrow>
     enabledGroup s i \<longleftrightarrow> (\<exists>g \<in> set (elems (rg_Groups s)). g_ID g = i \<and> g_Enabled g)"
  by (simp add: enabledGroup_def group_ids_def enabled_in_iff)

lemma index_of_Some: "index_of i gs = Some n \<Longrightarrow> n < length gs \<and> g_ID (gs ! n) = i"
  by (induction gs arbitrary: n) (auto split: if_splits)

lemma index_of_None: "index_of i gs = None \<longleftrightarrow> i \<notin> g_ID ` set gs"
  by (induction gs) auto

lemma index_of_map: "(\<And>g. g_ID (f g) = g_ID g) \<Longrightarrow> index_of i (map f gs) = index_of i gs"
  by (induction gs) auto

lemma groupIndex_clone [simp]: "groupIndex (cloneRegistry s) i = groupIndex s i"
  by (simp add: groupIndex_def index_of_map)

lemma groupIndex_None: "groupIndex s i = None \<longleftrightarrow> i \<notin> set (group_ids s)"
  by (simp add: groupIndex_def index_of_None group_ids_def)

lemma groupIndex_Some:
  "groupIndex s i = Some n \<Longrightarrow> n < length (elems (rg_Groups s)) \<and> g_ID (elems (rg_Groups s) ! n) = i"
  by (simp add: groupIndex_def index_of_Some)

lemma registryGroup_None: "registryGroup s i = None \<longleftrightarrow> i \<notin> set (group_ids s)"
  by (simp add: registryGroup_def groupIndex_None)

end
