(* ===== verification/Base64.thy ===== *)
theory Base64
  imports GoStrings
begin

text \<open>
  Package \<open>encoding/base64\<close> as far as the controller uses it: the encodings without padding
  over the URL alphabet (\<open>RawURLEncoding\<close>: cursors, tokens) and the standard one
  (\<open>RawStdEncoding\<close>: password hashes). As Go's decoder does, decoding skips carriage returns
  and line feeds and does not look at the unused bits of the last character.
\<close>

definition b64_char :: "bool \<Rightarrow> nat \<Rightarrow> char" where
  "b64_char url n =
     char_of (if n < 26 then 65 + n else if n < 52 then 71 + n else if n < 62 then n - 4
              else if n = 62 then (if url then 45 else 43) else (if url then 95 else 47))"

definition b64_val :: "bool \<Rightarrow> char \<Rightarrow> nat option" where
  "b64_val url c =
     (let n = of_char c in
      if 65 \<le> n \<and> n \<le> 90 then Some (n - 65)
      else if 97 \<le> n \<and> n \<le> 122 then Some (n - 71)
      else if 48 \<le> n \<and> n \<le> 57 then Some (n + 4)
      else if n = (if url then 45 else 43) then Some 62
      else if n = (if url then 95 else 47) then Some 63
      else None)"

fun sextets :: "nat list \<Rightarrow> nat list" where
  "sextets [] = []"
| "sextets [a] = [a div 4, (a mod 4) * 16]"
| "sextets [a, b] = [a div 4, (a mod 4) * 16 + b div 16, (b mod 16) * 4]"
| "sextets (a # b # c # r) =
     [a div 4, (a mod 4) * 16 + b div 16, (b mod 16) * 4 + c div 64, c mod 64] @ sextets r"

fun octets :: "nat list \<Rightarrow> nat list option" where
  "octets [] = Some []"
| "octets [a] = None"
| "octets [a, b] = Some [a * 4 + b div 16]"
| "octets [a, b, c] = Some [a * 4 + b div 16, (b mod 16) * 16 + c div 4]"
| "octets (a # b # c # d # r) =
     (case octets r of None \<Rightarrow> None
      | Some s \<Rightarrow> Some ([a * 4 + b div 16, (b mod 16) * 16 + c div 4, (c mod 4) * 64 + d] @ s))"

fun those_vals :: "bool \<Rightarrow> string \<Rightarrow> nat list option" where
  "those_vals url [] = Some []"
| "those_vals url (c # s) =
     (case b64_val url c of None \<Rightarrow> None
      | Some n \<Rightarrow> (case those_vals url s of None \<Rightarrow> None | Some ns \<Rightarrow> Some (n # ns)))"

definition EncodeToString :: "bool \<Rightarrow> string \<Rightarrow> string" where
  "EncodeToString url s = map (b64_char url) (sextets (map of_char s))"

definition DecodeString :: "bool \<Rightarrow> string \<Rightarrow> string option" where
  "DecodeString url v =
     (case those_vals url (filter (\<lambda>c. c \<noteq> CHR 0x0D \<and> c \<noteq> CHR 0x0A) v) of
        None \<Rightarrow> None
      | Some ns \<Rightarrow> map_option (map char_of) (octets ns))"

section \<open>Round trip\<close>

lemma b64_val_char [simp]: "n < 64 \<Longrightarrow> b64_val url (b64_char url n) = Some n"
  by (auto simp: b64_val_def b64_char_def Let_def)

lemma b64_char_no_newline:
  "n < 64 \<Longrightarrow> b64_char url n \<noteq> CHR 0x0D \<and> b64_char url n \<noteq> CHR 0x0A"
proof -
  assume "n < 64"
  moreover have "b64_val url (CHR 0x0D) = None" "b64_val url (CHR 0x0A) = None"
    by (simp_all add: b64_val_def)
  ultimately show ?thesis by (metis b64_val_char option.distinct(1))
qed

lemma sextets_bound: "\<forall>a \<in> set xs. a < 256 \<Longrightarrow> \<forall>n \<in> set (sextets xs). n < 64"
  by (induction xs rule: sextets.induct) auto

lemma sextets_eq_Nil [simp]: "sextets xs = [] \<longleftrightarrow> xs = []"
  by (cases xs rule: sextets.cases) auto

lemma octets_sextets: "\<forall>a \<in> set xs. a < 256 \<Longrightarrow> octets (sextets xs) = Some xs"
  by (induction xs rule: sextets.induct) auto

lemma those_vals_map: "\<forall>n \<in> set ns. n < 64 \<Longrightarrow> those_vals url (map (b64_char url) ns) = Some ns"
  by (induction ns) auto

lemma of_char_bound: "of_char (c :: char) < (256 :: nat)"
proof -
  have "of_char c mod (256 :: nat) = of_char c" by (metis char_of_char of_char_of)
  then show ?thesis by (metis mod_less_divisor zero_less_numeral)
qed

lemma DecodeString_EncodeToString [simp]: "DecodeString url (EncodeToString url s) = Some s"
proof -
  let ?ns = "sextets (map of_char s)"
  have b: "\<forall>a \<in> set (map of_char s). a < (256 :: nat)" by (auto simp: of_char_bound)
  then have n: "\<forall>n \<in> set ?ns. n < 64" by (rule sextets_bound)
  then have "filter (\<lambda>c. c \<noteq> CHR 0x0D \<and> c \<noteq> CHR 0x0A) (map (b64_char url) ?ns)
      = map (b64_char url) ?ns"
    by (intro filter_True) (auto dest: b64_char_no_newline)
  then show ?thesis
    by (simp add: DecodeString_def EncodeToString_def those_vals_map [OF n] octets_sextets [OF b] comp_def)
qed

end
