(* ===== verification/Cursor.thy ===== *)
theory Cursor
  imports Strconv Base64 "HOL-Library.Product_Lexorder"
begin

text \<open>
  Keyset pagination, as \<open>AuditLogs\<close> (\<open>internal/operations\<close>) and \<open>Queries\<close>
  (\<open>internal/queryingest\<close>) do it: rows in descending order of (time, id), a page of at most
  \<open>limit\<close> rows after a cursor, and the cursor codec both packages share (their \<open>encodeCursor\<close>
  and \<open>decodeCursor\<close> are the same code). The locale \<open>cursor_codec\<close> is what paging relies on;
  its lemma says that following the cursors gives every row once.
\<close>

section \<open>The cursor\<close>

definition encodeCursor :: "int \<Rightarrow> int \<Rightarrow> string" where
  "encodeCursor ts i = EncodeToString True (FormatInt ts @ '':'' @ FormatInt i)"

definition decodeCursor :: "string \<Rightarrow> error + int \<times> int" where
  "decodeCursor v =
     (case DecodeString True v of
        None \<Rightarrow> Inl (Msg ''illegal base64 data'')
      | Some raw \<Rightarrow>
          (case Split CHR '':'' raw of
             [a, b] \<Rightarrow>
               (case (ParseInt a, ParseInt b) of
                  (Inr ts, Inr i) \<Rightarrow> if ts < 0 \<or> i < 1 then Inl (Msg ''invalid'') else Inr (ts, i)
                | _ \<Rightarrow> Inl (Msg ''invalid''))
           | _ \<Rightarrow> Inl (Msg ''invalid'')))"

lemma decodeCursor_encodeCursor:
  assumes "0 \<le> ts" "ts \<le> int64_max" "1 \<le> i" "i \<le> int64_max"
  shows "decodeCursor (encodeCursor ts i) = Inr (ts, i)"
proof -
  have min: "int64_min \<le> ts" "int64_min \<le> i" using assms by (simp_all add: int64_min_def)
  have "Split CHR '':'' (FormatInt ts @ CHR '':'' # FormatInt i) = [FormatInt ts, FormatInt i]"
    by (simp add: Split_append Split_single FormatInt_colon)
  with assms min show ?thesis by (simp add: decodeCursor_def encodeCursor_def)
qed

lemma decodeCursor_bounds:
  "decodeCursor v = Inr (ts, i) \<Longrightarrow> 0 \<le> ts \<and> ts \<le> int64_max \<and> 1 \<le> i \<and> i \<le> int64_max"
  by (auto simp: decodeCursor_def dest!: ParseInt_range split: option.splits list.splits sum.splits if_splits)

lemma encodeCursor_nonempty [simp]: "encodeCursor ts i \<noteq> []"
  by (simp add: encodeCursor_def EncodeToString_def)

section \<open>Pages\<close>

text \<open>\<open>ORDER BY time DESC, id DESC\<close> on rows with the key \<open>(time, id)\<close>.\<close>

definition order_desc :: "('a \<Rightarrow> int \<times> int) \<Rightarrow> 'a list \<Rightarrow> 'a list" where
  "order_desc key xs = rev (sort_key key xs)"

text \<open>The rows a page query returns: \<open>after\<close> is the decoded cursor, \<open>n\<close> the LIMIT.\<close>

definition page_rows :: "('a \<Rightarrow> int \<times> int) \<Rightarrow> 'a list \<Rightarrow> (int \<times> int) option \<Rightarrow> nat \<Rightarrow> 'a list" where
  "page_rows key xs after n =
     take n (order_desc key
       (filter (\<lambda>r. case after of None \<Rightarrow> True | Some (ts, i) \<Rightarrow>
            fst (key r) < ts \<or> fst (key r) = ts \<and> snd (key r) < i) xs))"

text \<open>
  What the loop after the query makes of the rows, which were asked for with one more than
  \<open>limit\<close>: \<open>next_cursor\<close> is the empty string on the last page.
\<close>

definition cut_page :: "('a \<Rightarrow> int \<times> int) \<Rightarrow> nat \<Rightarrow> 'a list \<Rightarrow> 'a list \<times> string" where
  "cut_page key limit items =
     (if limit < length items
      then (let last = items ! (limit - 1)
            in (take limit items, encodeCursor (fst (key last)) (snd (key last))))
      else (items, ''''))"

text \<open>Following the cursors: the items of the first \<open>fuel\<close> pages.\<close>

fun follow :: "(string \<Rightarrow> ('a list \<times> string) option) \<Rightarrow> nat \<Rightarrow> string \<Rightarrow> 'a list option" where
  "follow page 0 c = None"
| "follow page (Suc fuel) c =
     (case page c of
        None \<Rightarrow> None
      | Some (items, c') \<Rightarrow>
          (if c' = '''' then Some items else map_option ((@) items) (follow page fuel c')))"

section \<open>The pages partition the rows\<close>

lemma lex_before:
  "(fst k < ts \<or> fst k = ts \<and> snd k < i) \<longleftrightarrow> k < (ts, i)" for k :: "int \<times> int"
  by (cases k) (auto simp: less_prod_def)

lemma set_order_desc [simp]: "set (order_desc key xs) = set xs"
  by (simp add: order_desc_def)

lemma length_order_desc [simp]: "length (order_desc key xs) = length xs"
  by (simp add: order_desc_def)

lemma order_desc_filter: "order_desc key (filter P xs) = filter P (order_desc key xs)"
  by (simp add: order_desc_def rev_filter filter_sort [symmetric])

lemma order_desc_sorted: "sorted_wrt (\<lambda>a b. key b \<le> key a) (order_desc key xs)"
  by (simp add: order_desc_def sorted_wrt_rev) (metis sorted_map sorted_sort_key)

lemma order_desc_strict:
  assumes "distinct (map key xs)"
  shows "sorted_wrt (\<lambda>a b. key b < key a) (order_desc key xs)"
proof -
  have "distinct (map key (sort_key key xs))"
    using assms by (simp add: distinct_map)
  moreover have "sorted (map key (sort_key key xs))" by simp
  ultimately have "sorted_wrt (<) (map key (sort_key key xs))"
    using strict_sorted_iff by blast
  then show ?thesis by (simp add: order_desc_def sorted_wrt_rev sorted_wrt_map)
qed

lemma filter_before_nth:
  assumes "sorted_wrt (\<lambda>a b. key b < key a) ys" and "n < length ys"
  shows "filter (\<lambda>r. key r < (key (ys ! n) :: 'k :: linorder)) ys = drop (Suc n) ys"
proof -
  have "ys = take (Suc n) ys @ drop (Suc n) ys" by simp
  moreover have "filter (\<lambda>r. key r < key (ys ! n)) (take (Suc n) ys) = []"
  proof -
    have "\<not> key (ys ! i) < key (ys ! n)" if "i \<le> n" for i
      using that assms sorted_wrt_nth_less [OF assms(1), of i n] by (cases "i = n") auto
    then show ?thesis using assms(2) by (auto simp: filter_empty_conv in_set_conv_nth)
  qed
  moreover have "filter (\<lambda>r. key r < key (ys ! n)) (drop (Suc n) ys) = drop (Suc n) ys"
    using assms(2) by (auto intro!: filter_True sorted_wrt_nth_less [OF assms(1)] simp: in_set_conv_nth)
  ultimately show ?thesis by (metis filter_append append_Nil)
qed

text \<open>
  A listing that runs the page query and cuts the page: \<open>fetch\<close> is the operation as the client
  sees it, a cursor to a page or a refusal.
\<close>

locale keyset_paging =
  fixes key :: "'a \<Rightarrow> int \<times> int" and rows :: "'a list" and limit :: nat
    and fetch :: "string \<Rightarrow> ('a list \<times> string) option"
  assumes limit_pos: "0 < limit"
    and fetch_first: "fetch '''' = Some (cut_page key limit (page_rows key rows None (Suc limit)))"
    and fetch_next: "c \<noteq> '''' \<Longrightarrow> decodeCursor c = Inr k \<Longrightarrow>
      fetch c = Some (cut_page key limit (page_rows key rows (Some k) (Suc limit)))"
begin

lemma cut_page_step:
  assumes "distinct (map key rows)" and "m \<le> length rows"
    and cont: "\<And>n. n < length rows \<Longrightarrow> m \<le> n \<Longrightarrow>
      follow fetch fuel (encodeCursor (fst (key (order_desc key rows ! n))) (snd (key (order_desc key rows ! n))))
        = Some (drop (Suc n) (order_desc key rows))"
  shows "(case cut_page key limit (take (Suc limit) (drop m (order_desc key rows))) of
            (items, c') \<Rightarrow> if c' = '''' then Some items else map_option ((@) items) (follow fetch fuel c'))
         = Some (drop m (order_desc key rows))"
proof (cases "m + limit < length rows")
  case True
  let ?ys = "order_desc key rows"
  from True limit_pos have "follow fetch fuel (encodeCursor (fst (key (?ys ! (m + (limit - 1)))))
      (snd (key (?ys ! (m + (limit - 1)))))) = Some (drop (m + limit) ?ys)"
    using cont [of "m + (limit - 1)"] by simp
  moreover have "take limit (drop m ?ys) @ drop (m + limit) ?ys = drop m ?ys"
    by (metis append_take_drop_id drop_drop add.commute)
  moreover have "limit < length (take (Suc limit) (drop m ?ys))" using True by simp
  ultimately show ?thesis using assms(2) by (simp add: cut_page_def Let_def)
next
  case False
  then show ?thesis by (auto simp: cut_page_def)
qed

lemma follow_from:
  assumes d: "distinct (map key rows)"
    and valid: "\<forall>r \<in> set rows. 0 \<le> fst (key r) \<and> fst (key r) \<le> int64_max
                  \<and> 1 \<le> snd (key r) \<and> snd (key r) \<le> int64_max"
  shows "n < length rows \<Longrightarrow> length rows - Suc n < fuel \<Longrightarrow>
    follow fetch fuel (encodeCursor (fst (key (order_desc key rows ! n))) (snd (key (order_desc key rows ! n))))
      = Some (drop (Suc n) (order_desc key rows))"
proof (induction fuel arbitrary: n)
  case (Suc fuel)
  let ?ys = "order_desc key rows"
  let ?k = "key (?ys ! n)"
  from Suc.prems have "?ys ! n \<in> set rows" by (metis length_order_desc nth_mem set_order_desc)
  with valid have dec: "decodeCursor (encodeCursor (fst ?k) (snd ?k)) = Inr ?k"
    by (simp add: decodeCursor_encodeCursor)
  have "page_rows key rows (Some ?k) (Suc limit) = take (Suc limit) (filter (\<lambda>r. key r < ?k) ?ys)"
    by (simp add: page_rows_def order_desc_filter lex_before split: prod.splits)
  also have "filter (\<lambda>r. key r < ?k) ?ys = drop (Suc n) ?ys"
    using Suc.prems by (intro filter_before_nth order_desc_strict d) simp
  finally have "fetch (encodeCursor (fst ?k) (snd ?k))
      = Some (cut_page key limit (take (Suc limit) (drop (Suc n) ?ys)))"
    using fetch_next [OF encodeCursor_nonempty dec] by simp
  moreover have "(case cut_page key limit (take (Suc limit) (drop (Suc n) ?ys)) of
      (items, c') \<Rightarrow> if c' = '''' then Some items else map_option ((@) items) (follow fetch fuel c'))
    = Some (drop (Suc n) ?ys)"
    using Suc by (intro cut_page_step d) auto
  ultimately show ?case by simp
qed simp

text \<open>Following the cursors from the first page gives all rows, in order, each once.\<close>

lemma follow_all:
  assumes d: "distinct (map key rows)"
    and valid: "\<forall>r \<in> set rows. 0 \<le> fst (key r) \<and> fst (key r) \<le> int64_max
                  \<and> 1 \<le> snd (key r) \<and> snd (key r) \<le> int64_max"
  shows "follow fetch (Suc (length rows)) '''' = Some (order_desc key rows)"
proof -
  let ?ys = "order_desc key rows"
  have "page_rows key rows None (Suc limit) = take (Suc limit) (drop 0 ?ys)"
    by (simp add: page_rows_def)
  moreover have "(case cut_page key limit (take (Suc limit) (drop 0 ?ys)) of
      (items, c') \<Rightarrow> if c' = '''' then Some items else map_option ((@) items) (follow fetch (length rows) c'))
    = Some (drop 0 ?ys)"
    by (intro cut_page_step d follow_from valid) auto
  ultimately show ?thesis by (simp add: fetch_first)
qed

lemma page_bound: "fetch c = Some (items, c') \<Longrightarrow>
    (c = '''' \<or> decodeCursor c = Inr k) \<Longrightarrow> length items \<le> limit"
  using fetch_first fetch_next [of c k]
  by (cases "c = ''''") (auto simp: cut_page_def Let_def split: if_splits)

end

lemma page_rows_map: "page_rows key (map f xs) after n = map f (page_rows (key \<circ> f) xs after n)"
  by (simp add: page_rows_def order_desc_def filter_map sort_key_map rev_map take_map comp_def)

text \<open>Rows that are newer than the cursor do not disturb the pages after it.\<close>

lemma page_rows_newer:
  "\<forall>r \<in> set new. (ts, i) \<le> key r \<Longrightarrow>
     page_rows key (xs @ new) (Some (ts, i)) n = page_rows key xs (Some (ts, i)) n"
proof -
  assume "\<forall>r \<in> set new. (ts, i) \<le> key r"
  then have "filter (\<lambda>r. key r < (ts, i)) new = []" by (auto simp: filter_empty_conv)
  then show ?thesis by (simp add: page_rows_def lex_before)
qed

end
