(* ===== verification/Operations.thy ===== *)
theory Operations
  imports Registry Publish Cursor
begin

text \<open>
  The settings, upstream group, audit log and device operations
  (\<open>internal/operations/service.go\<close>) as programs over the world of \<open>Store\<close>. The query
  ingestion service they may be given (\<open>s.ingest\<close>) is a record of its operations. The mutex
  \<open>bindings\<close> makes the group operations and those of the rule service exclude one another, so
  each is one step. The status page is in \<open>StatusPage\<close>.
\<close>

section \<open>Audit\<close>

definition ErrInvalidCursor :: error where
  "ErrInvalidCursor = Msg ''invalid cursor''"

definition auditTx ::
  "int \<Rightarrow> string \<Rightarrow> string \<Rightarrow> string \<Rightarrow> string \<Rightarrow> string \<Rightarrow> string \<Rightarrow> string \<Rightarrow> (error, 'm world, unit) prog" where
  "auditTx adminID action resourceType resourceID requestID clientIP result errorCode =
     bindM time_now (\<lambda>now. db_exec (insert_audit
       \<lparr>au_admin_id = adminID, au_action = action, au_resource_type = resourceType,
        au_resource_id = resourceID, au_request_id = requestID, au_client_ip = clientIP,
        au_result = result, au_error_code = errorCode, au_created_at_ms = now\<rparr>))"

text \<open>\<open>Audit\<close> is the same statement outside a transaction.\<close>

definition Audit ::
  "int \<Rightarrow> string \<Rightarrow> string \<Rightarrow> string \<Rightarrow> string \<Rightarrow> string \<Rightarrow> string \<Rightarrow> string \<Rightarrow> (error, 'm world, unit) prog" where
  "Audit adminID action resourceType resourceID requestID clientIP result errorCode =
     auditTx adminID action resourceType resourceID requestID clientIP result errorCode"

record AuditLog =
  al_ID :: int
  al_AdminID :: "int option"
  al_AdminUsername :: string
  al_Action :: string
  al_ResourceType :: string
  al_ResourceID :: string
  al_RequestID :: string
  al_ClientIP :: string
  al_Result :: string
  al_ErrorCode :: string
  al_CreatedAtMS :: int

definition audit_key :: "int \<times> audit_row \<Rightarrow> int \<times> int" where
  "audit_key x = (au_created_at_ms (snd x), fst x)"

definition admin_name :: "db \<Rightarrow> int \<Rightarrow> string" where
  "admin_name d i = (case map_of (tb_rows (d_admins d)) i of None \<Rightarrow> '''' | Some a \<Rightarrow> ad_username a)"

definition audit_log :: "db \<Rightarrow> int \<times> audit_row \<Rightarrow> AuditLog" where
  "audit_log d x = (let r = snd x in
     \<lparr>al_ID = fst x, al_AdminID = Some (au_admin_id r), al_AdminUsername = admin_name d (au_admin_id r),
      al_Action = au_action r, al_ResourceType = au_resource_type r, al_ResourceID = au_resource_id r,
      al_RequestID = au_request_id r, al_ClientIP = au_client_ip r, al_Result = au_result r,
      al_ErrorCode = au_error_code r, al_CreatedAtMS = au_created_at_ms r\<rparr>)"

text \<open>The key of a log entry, by which its page goes on.\<close>

definition log_key :: "AuditLog \<Rightarrow> int \<times> int" where
  "log_key l = (al_CreatedAtMS l, al_ID l)"

definition page_limit :: "int \<Rightarrow> nat" where
  "page_limit limit = nat (if limit \<le> 0 \<or> 500 < limit then 100 else limit)"

definition audit_cursor :: "string \<Rightarrow> error + (int \<times> int) option" where
  "audit_cursor c = (if c = '''' then Inr None
     else case decodeCursor c of Inl _ \<Rightarrow> Inl ErrInvalidCursor | Inr k \<Rightarrow> Inr (Some k))"

definition AuditLogs :: "int \<Rightarrow> string \<Rightarrow> (error, 'm world, AuditLog list \<times> string) prog" where
  "AuditLogs limit cursor =
     bindM (liftM (audit_cursor cursor)) (\<lambda>after.
     bindM (db_query (\<lambda>d. Inr (map (audit_log d)
       (page_rows audit_key (tb_rows (d_audit d)) after (Suc (page_limit limit)))))) (\<lambda>items.
     returnM (cut_page log_key (page_limit limit) items)))"

section \<open>Settings in the database\<close>

definition settings_keys :: "string list" where
  "settings_keys = [''address_family_mode'', ''cache_enabled'', ''cache_ttl'', ''database_max_size_gib'',
     ''default_upstream_group_id'', ''negative_cache_enabled'', ''negative_cache_ttl'', ''query_retention_days'']"

definition select_settings :: "db \<Rightarrow> error + (string \<times> string) list" where
  "select_settings d = Inr (concat (map (\<lambda>k. case d_state d k of None \<Rightarrow> [] | Some v \<Rightarrow> [(k, v)]) settings_keys))"

definition default_settings :: Settings where
  "default_settings = \<lparr>s_CacheEnabled = True, s_CacheTTL = 0, s_NegativeCacheEnabled = True,
     s_NegativeCacheTTL = 30, s_QueryRetentionDays = 7, s_DatabaseMaxSizeGiB = 2,
     s_AddressFamilyMode = ''dual_stack'', s_DefaultUpstreamGroupID = [], s_GlobalMaxInFlight = 0,
     s_DefaultGroupMaxInFlight = 0, s_DefaultGroupQueryTimeoutMS = 0, s_OverloadAction = [],
     s_UpstreamRegistryVersion = 0\<rparr>"

text \<open>The \<open>switch key\<close> in the loop over the rows.\<close>

definition read_setting :: "string \<Rightarrow> string \<Rightarrow> Settings \<times> bool \<Rightarrow> error + Settings \<times> bool" where
  "read_setting key v acc = (case acc of (s, hasDefault) \<Rightarrow>
     if key = ''cache_enabled'' then
       (case ParseBool v of Inl e \<Rightarrow> Inl e | Inr b \<Rightarrow> Inr (s\<lparr>s_CacheEnabled := b\<rparr>, hasDefault))
     else if key = ''query_retention_days'' then
       (case ParseInt v of Inl e \<Rightarrow> Inl e | Inr n \<Rightarrow> Inr (s\<lparr>s_QueryRetentionDays := n\<rparr>, hasDefault))
     else if key = ''cache_ttl'' then
       (case ParseInt v of Inl e \<Rightarrow> Inl e | Inr n \<Rightarrow> Inr (s\<lparr>s_CacheTTL := n\<rparr>, hasDefault))
     else if key = ''negative_cache_enabled'' then
       (case ParseBool v of Inl e \<Rightarrow> Inl e | Inr b \<Rightarrow> Inr (s\<lparr>s_NegativeCacheEnabled := b\<rparr>, hasDefault))
     else if key = ''negative_cache_ttl'' then
       (case ParseInt v of Inl e \<Rightarrow> Inl e | Inr n \<Rightarrow> Inr (s\<lparr>s_NegativeCacheTTL := n\<rparr>, hasDefault))
     else if key = ''database_max_size_gib'' then
       (case ParseInt v of Inl e \<Rightarrow> Inl e | Inr n \<Rightarrow> Inr (s\<lparr>s_DatabaseMaxSizeGiB := n\<rparr>, hasDefault))
     else if key = ''address_family_mode'' then Inr (s\<lparr>s_AddressFamilyMode := v\<rparr>, hasDefault)
     else if key = ''default_upstream_group_id'' then Inr (s\<lparr>s_DefaultUpstreamGroupID := v\<rparr>, True)
     else Inr (s, hasDefault))"

fun read_settings :: "(string \<times> string) list \<Rightarrow> Settings \<times> bool \<Rightarrow> error + Settings \<times> bool" where
  "read_settings [] acc = Inr acc"
| "read_settings ((k, v) # rows) acc =
     (case read_setting k v acc of Inl e \<Rightarrow> Inl e | Inr acc' \<Rightarrow> read_settings rows acc')"

definition databaseSettings :: "(error, 'm world, Settings \<times> bool) prog" where
  "databaseSettings =
     bindM (db_query select_settings) (\<lambda>rows.
     bindM (liftM (read_settings rows (default_settings, False))) (\<lambda>(settings, hasDefault).
     bindM (liftM (check_settings settings)) (\<lambda>_.
     returnM (settings, hasDefault))))"

definition put_state :: "string \<Rightarrow> string \<Rightarrow> db \<Rightarrow> error + db" where
  "put_state k v d = Inr (d\<lparr>d_state := (d_state d)(k \<mapsto> v)\<rparr>)"

definition settings_rows :: "Settings \<Rightarrow> (string \<times> string) list" where
  "settings_rows s =
     [(''cache_enabled'', FormatBool (s_CacheEnabled s)), (''cache_ttl'', FormatInt (s_CacheTTL s)),
      (''negative_cache_enabled'', FormatBool (s_NegativeCacheEnabled s)),
      (''negative_cache_ttl'', FormatInt (s_NegativeCacheTTL s)),
      (''query_retention_days'', FormatInt (s_QueryRetentionDays s)),
      (''database_max_size_gib'', FormatInt (s_DatabaseMaxSizeGiB s)),
      (''address_family_mode'', s_AddressFamilyMode s),
      (''default_upstream_group_id'', s_DefaultUpstreamGroupID s)]"

definition persistSettings ::
  "Settings \<Rightarrow> int \<Rightarrow> string \<Rightarrow> string \<Rightarrow> string \<Rightarrow> string \<Rightarrow> bool \<Rightarrow> (error, 'm world, unit) prog" where
  "persistSettings settings adminID requestID clientIP result code audit =
     transaction (bindM time_now (\<lambda>now.
       bindM (traverseM (\<lambda>(k, v). db_exec (put_state k v)) (settings_rows settings)) (\<lambda>_.
       if audit then auditTx adminID ''update'' ''settings''
         ''default_upstream_group,cache,negative_cache,query_retention,database_max_size,address_family''
         requestID clientIP result code
       else returnM ())))"

section \<open>Applying a registry and the address family\<close>

definition applyRegistry ::
  "'m client \<Rightarrow> RegistrySnapshot \<Rightarrow> RegistrySnapshot \<Rightarrow> (error, 'm world, RegistrySnapshot) prog" where
  "applyRegistry C current desired =
     (if registryEqual current desired then returnM current
      else
        let desired = desired\<lparr>rg_Version := rg_Version current + 1,
                              rg_ExpectedCurrentVersion := rg_Version current\<rparr> in
        bindM (attemptM (call (c_ApplyRegistry C desired))) (\<lambda>r.
        case r of
          Inr applied \<Rightarrow> returnM applied
        | Inl err \<Rightarrow>
            (if errors_Is err ErrUnknown then
               bindM (attemptM (call (c_RegistryStatus C))) (\<lambda>st.
               let failed = throwM (Wrap err (''registry update outcome is unknown and could not be reconciled: ''
                                              @ Error err)) in
               case st of
                 Inr actual \<Rightarrow>
                   (if validAppliedRegistry actual (rg_Version desired) then returnM actual else failed)
               | Inl _ \<Rightarrow> failed)
             else throwM err)))"

definition applyAddressFamilyMode :: "'m client \<Rightarrow> string \<Rightarrow> (error, 'm world, bool) prog" where
  "applyAddressFamilyMode C mode =
     bindM (call (c_AddressFamilyStatus C)) (\<lambda>current.
     if af_Mode current = mode then returnM False
     else
       let requested = \<lparr>af_Version = af_Version current + 1,
                        af_ExpectedCurrentVersion = af_Version current, af_Mode = mode\<rparr> in
       bindM (attemptM (call (c_ApplyAddressFamily C requested))) (\<lambda>r.
       case r of
         Inr _ \<Rightarrow> returnM True
       | Inl err \<Rightarrow>
           (if errors_Is err ErrUnknown then
              bindM (attemptM (call (c_AddressFamilyStatus C))) (\<lambda>st.
              case st of
                Inr now \<Rightarrow> if af_Mode now = mode then returnM True else throwM err
              | Inl _ \<Rightarrow> throwM err)
            else throwM err)))"

section \<open>Reading and changing the settings\<close>

record 'm ingest =
  ig_SetRetentionDays :: "int \<Rightarrow> (error, 'm world, unit) prog"
  ig_SetDatabaseMaxGiB :: "int \<Rightarrow> (error, 'm world, unit) prog"
  ig_RetainNow :: "(error, 'm world, unit) prog"

definition SettingsOf :: "'m client \<Rightarrow> (error, 'm world, Settings) prog" where
  "SettingsOf C =
     bindM (call (c_RegistryStatus C)) (\<lambda>registry.
     bindM databaseSettings (\<lambda>(settings, _).
     returnM (read_back_all registry settings)))"

definition set_retention :: "'m ingest option \<Rightarrow> Settings \<Rightarrow> (error, 'm world, unit) prog" where
  "set_retention ig settings =
     (case ig of None \<Rightarrow> returnM ()
      | Some g \<Rightarrow> bindM (ig_SetRetentionDays g (s_QueryRetentionDays settings)) (\<lambda>_.
                  ig_SetDatabaseMaxGiB g (s_DatabaseMaxSizeGiB settings)))"

definition SyncSettings :: "'m client \<Rightarrow> 'm ingest option \<Rightarrow> (error, 'm world, unit) prog" where
  "SyncSettings C ig =
     bindM databaseSettings (\<lambda>(settings, hasPersistedDefault).
     bindM (call (c_RegistryStatus C)) (\<lambda>registry.
       let desired = (cloneRegistry registry)\<lparr>rg_Cache := registryCache settings\<rparr>;
           defaultGroupID = (if hasPersistedDefault then s_DefaultUpstreamGroupID settings
                             else rg_DefaultGroupID registry) in
     bindM (guardM (enabledGroup registry defaultGroupID)
       (Msg ''default upstream group must exist and be enabled'')) (\<lambda>_.
     bindM (applyRegistry C registry (desired\<lparr>rg_DefaultGroupID := defaultGroupID\<rparr>)) (\<lambda>applied.
       let settings = read_back applied settings in
     bindM (set_retention ig settings) (\<lambda>_.
     bindM (applyAddressFamilyMode C (s_AddressFamilyMode settings)) (\<lambda>changed.
     bindM (if changed then call (c_FlushRegistry C '''' (rg_Version applied)) else returnM ()) (\<lambda>_.
     persistSettings settings 0 '''' '''' ''success'' '''' False)))))))"

definition err_of :: "error + 'a \<Rightarrow> error option" where
  "err_of r = (case r of Inl e \<Rightarrow> Some e | Inr _ \<Rightarrow> None)"

text \<open>\<open>if err := m; err != nil { partialErr = errors.Join(partialErr, err) }\<close>\<close>

definition joining ::
  "(error, 'm world, 'a) prog \<Rightarrow> error option \<Rightarrow> (error, 'm world, error option) prog" where
  "joining m partial = bindM (attemptM m) (\<lambda>r. returnM (errors_Join partial (err_of r)))"

definition update_ingest ::
  "'m ingest option \<Rightarrow> Settings \<Rightarrow> Settings \<Rightarrow> (error, 'm world, error option) prog" where
  "update_ingest ig currentSettings settings =
     (case ig of None \<Rightarrow> returnM None
      | Some g \<Rightarrow>
          bindM (joining (ig_SetRetentionDays g (s_QueryRetentionDays settings)) None) (\<lambda>partial.
          bindM (joining (ig_SetDatabaseMaxGiB g (s_DatabaseMaxSizeGiB settings)) partial) (\<lambda>partial.
          if s_QueryRetentionDays currentSettings \<noteq> s_QueryRetentionDays settings
             \<or> s_DatabaseMaxSizeGiB currentSettings \<noteq> s_DatabaseMaxSizeGiB settings
          then joining (ig_RetainNow g) partial
          else returnM partial)))"

text \<open>The mode that is recorded when the new one could not be applied: the one mosdns reports,
  or else the old one.\<close>

definition actual_mode ::
  "'m client \<Rightarrow> Settings \<Rightarrow> Settings \<Rightarrow> error option \<Rightarrow> (error, 'm world, Settings \<times> error option) prog" where
  "actual_mode C currentSettings settings partial =
     bindM (attemptM (call (c_AddressFamilyStatus C))) (\<lambda>st.
     case st of
       Inr actual \<Rightarrow>
         (if validAddressFamilyMode (af_Mode actual)
          then returnM (settings\<lparr>s_AddressFamilyMode := af_Mode actual\<rparr>, partial)
          else returnM (settings\<lparr>s_AddressFamilyMode := s_AddressFamilyMode currentSettings\<rparr>, partial))
     | Inl e \<Rightarrow> returnM (settings\<lparr>s_AddressFamilyMode := s_AddressFamilyMode currentSettings\<rparr>,
                        errors_Join partial (Some e)))"

definition update_family ::
  "'m client \<Rightarrow> Settings \<Rightarrow> Settings \<Rightarrow> uint64 \<Rightarrow> error option \<Rightarrow>
     (error, 'm world, Settings \<times> error option) prog" where
  "update_family C currentSettings settings version partial =
     (if s_AddressFamilyMode currentSettings = s_AddressFamilyMode settings then returnM (settings, partial)
      else
        bindM (attemptM (applyAddressFamilyMode C (s_AddressFamilyMode settings))) (\<lambda>r.
        case r of
          Inl addressErr \<Rightarrow> actual_mode C currentSettings settings (errors_Join partial (Some addressErr))
        | Inr changed \<Rightarrow>
            (if changed then
               bindM (joining (call (c_FlushRegistry C '''' version)) partial) (\<lambda>partial.
               returnM (settings, partial))
             else returnM (settings, partial))))"

definition UpdateSettings ::
  "'m client \<Rightarrow> 'm ingest option \<Rightarrow> Settings \<Rightarrow> int \<Rightarrow> string \<Rightarrow> string \<Rightarrow> (error, 'm world, unit) prog" where
  "UpdateSettings C ig settings adminID requestID clientIP =
     (let settings = (if s_AddressFamilyMode settings = ''''
                      then settings\<lparr>s_AddressFamilyMode := ''dual_stack''\<rparr> else settings) in
     bindM (liftM (check_settings settings)) (\<lambda>_.
     bindM (call (c_RegistryStatus C)) (\<lambda>currentRegistry.
     bindM (guardM (s_UpstreamRegistryVersion settings = rg_Version currentRegistry) ErrConflict) (\<lambda>_.
     bindM databaseSettings (\<lambda>(currentSettings, _).
     bindM (guardM (enabledGroup currentRegistry (s_DefaultUpstreamGroupID settings))
       (Msg ''default upstream group must exist and be enabled'')) (\<lambda>_.
       let desired = (cloneRegistry currentRegistry)\<lparr>rg_DefaultGroupID := s_DefaultUpstreamGroupID settings,
                        rg_Cache := registryCache settings, rg_Protection := registryProtection settings\<rparr> in
     bindM (applyRegistry C currentRegistry desired) (\<lambda>applied.
       let settings = read_back_all applied settings in
     bindM (update_ingest ig currentSettings settings) (\<lambda>partial.
     bindM (update_family C currentSettings settings (rg_Version applied) partial) (\<lambda>(settings, partial).
       let (result, code) = (if partial = None then (''success'', '''') else (''failed'', ''SETTINGS_PARTIAL_FAILURE'')) in
     bindM (joining (persistSettings settings adminID requestID clientIP result code True) partial) (\<lambda>total.
     case total of None \<Rightarrow> returnM () | Some e \<Rightarrow> throwM e))))))))))"

definition FlushCaches :: "'m client \<Rightarrow> int \<Rightarrow> string \<Rightarrow> string \<Rightarrow> (error, 'm world, unit) prog" where
  "FlushCaches C adminID requestID clientIP =
     bindM (attemptM (bindM (call (c_RegistryStatus C)) (\<lambda>registry.
       call (c_FlushRegistry C '''' (rg_Version registry))))) (\<lambda>flush.
     let (result, code) = (if isl flush then (''failed'', ''CACHE_FLUSH_FAILED'') else (''success'', '''')) in
     bindM (Audit adminID ''flush'' ''cache'' ''all'' requestID clientIP result code) (\<lambda>_.
     liftM flush))"

definition ClearQueryHistory :: "int \<Rightarrow> string \<Rightarrow> string \<Rightarrow> (error, 'm world, unit) prog" where
  "ClearQueryHistory adminID requestID clientIP =
     transaction
       (bindM (traverseM (\<lambda>u. db_exec (\<lambda>d. Inr (u d)))
          [\<lambda>d. d\<lparr>d_queries := delete_where (\<lambda>_ _. True) (d_queries d)\<rparr>,
           \<lambda>d. d\<lparr>d_hourly := (d_hourly d)\<lparr>h_global := []\<rparr>\<rparr>,
           \<lambda>d. d\<lparr>d_hourly := (d_hourly d)\<lparr>h_domain := []\<rparr>\<rparr>,
           \<lambda>d. d\<lparr>d_hourly := (d_hourly d)\<lparr>h_client := []\<rparr>\<rparr>,
           \<lambda>d. d\<lparr>d_hourly := (d_hourly d)\<lparr>h_client_domain := []\<rparr>\<rparr>,
           \<lambda>d. d\<lparr>d_hourly := (d_hourly d)\<lparr>h_upstream_group := []\<rparr>\<rparr>,
           \<lambda>d. d\<lparr>d_hourly := (d_hourly d)\<lparr>h_latency_bucket := []\<rparr>\<rparr>]) (\<lambda>_.
        auditTx adminID ''clear'' ''query_history'' ''all'' requestID clientIP ''success'' ''''))"

section \<open>Upstream groups\<close>

definition UpstreamGroups :: "'m client \<Rightarrow> (error, 'm world, RegistrySnapshot) prog" where
  "UpstreamGroups C = call (c_RegistryStatus C)"

definition UpstreamRuntimeStatus :: "'m client \<Rightarrow> (error, 'm world, RegistryRuntimeStatus) prog" where
  "UpstreamRuntimeStatus C = call (c_RegistryRuntimeStatus C)"

definition count_references :: "string \<Rightarrow> db \<Rightarrow> error + nat" where
  "count_references i d = Inr (length (filter (\<lambda>b. bi_upstream_group_id b = i) (d_bindings d))
     + length (filter (\<lambda>r. dr_upstream_group_id r = Some i) (d_rules d)))"

text \<open>\<open>status IN ('active','pending','unknown')\<close>; the schema of a row is that of its snapshot.\<close>

definition live_snapshots :: "db \<Rightarrow> Snapshot list" where
  "live_snapshots d = map vv_snapshot
     (filter (\<lambda>v. (vv_status v = Active \<or> vv_status v = Pending \<or> vv_status v = Unknown)
                  \<and> (sn_SchemaVersion (vv_snapshot v) = 4 \<or> sn_SchemaVersion (vv_snapshot v) = 5)) (d_versions d))"

definition snapshot_uses :: "string \<Rightarrow> Snapshot \<Rightarrow> bool" where
  "snapshot_uses i s = (list_ex (\<lambda>r. w_UpstreamGroupID r = i) (sn_Rules s)
     \<or> list_ex (\<lambda>t. ss_UpstreamGroupID t = i) (sn_SubscriptionSets s))"

definition upstreamGroupReferencedBySubscriptions :: "string \<Rightarrow> (error, 'm world, bool) prog" where
  "upstreamGroupReferencedBySubscriptions i =
     bindM (db_query (count_references i)) (\<lambda>count.
     if 0 < count then returnM True
     else bindM (db_query (\<lambda>d. Inr (live_snapshots d))) (\<lambda>snapshots.
          returnM (list_ex (snapshot_uses i) snapshots)))"

record UpstreamGroupWrite =
  ug_ExpectedCurrentVersion :: uint64
  ug_Group :: UpstreamGroup

text \<open>
  A group operation returns the registry with its error: when the change was applied and only
  the audit row could not be written, both are set.
\<close>

type_synonym group_error = "RegistrySnapshot option \<times> error"

definition applyGroupChange ::
  "'m client \<Rightarrow> RegistrySnapshot \<Rightarrow> RegistrySnapshot \<Rightarrow> string \<Rightarrow> string \<Rightarrow> int \<Rightarrow> string \<Rightarrow> string \<Rightarrow>
     (group_error, 'm world, RegistrySnapshot) prog" where
  "applyGroupChange C current desired action i adminID requestID clientIP =
     bindM (attemptM (applyRegistry C current desired)) (\<lambda>updated.
     let (result, code) = (if isl updated then (''failed'', ''UPSTREAM_GROUP_APPLY_FAILED'') else (''success'', '''')) in
     bindM (attemptM (Audit adminID action ''upstream_group'' i requestID clientIP result code)) (\<lambda>audit.
     case updated of
       Inl err \<Rightarrow> throwM (None, err)
     | Inr reg \<Rightarrow> (case audit of Inl auditErr \<Rightarrow> throwM (Some reg, auditErr) | Inr _ \<Rightarrow> returnM reg)))"

definition invalid_group :: "string \<Rightarrow> error" where
  "invalid_group t = Wrap ErrValidation (Error ErrValidation @ '': '' @ t)"

definition CreateUpstreamGroup ::
  "'m client \<Rightarrow> UpstreamGroupWrite \<Rightarrow> int \<Rightarrow> string \<Rightarrow> string \<Rightarrow> (group_error, 'm world, RegistrySnapshot) prog" where
  "CreateUpstreamGroup C input adminID requestID clientIP =
     bindM (mapErr (Pair None)
       (bindM (call (c_RegistryStatus C)) (\<lambda>current.
        bindM (guardM (ug_ExpectedCurrentVersion input = rg_Version current) ErrConflict) (\<lambda>_.
        bindM (guardM (length (elems (rg_Groups current)) < 32)
          (invalid_group ''upstream group limit exceeded'')) (\<lambda>_.
        bindM (guardM (groupIDPattern (g_ID (ug_Group input))) (invalid_group ''invalid upstream group id'')) (\<lambda>_.
        bindM (guardM (registryGroup current (g_ID (ug_Group input)) = None)
          (invalid_group ''upstream group id already exists'')) (\<lambda>_.
        returnM current))))))) (\<lambda>current.
     applyGroupChange C current (append_group (ug_Group input) (cloneRegistry current)) ''create''
       (g_ID (ug_Group input)) adminID requestID clientIP)"

definition UpdateUpstreamGroup ::
  "'m client \<Rightarrow> string \<Rightarrow> UpstreamGroupWrite \<Rightarrow> int \<Rightarrow> string \<Rightarrow> string \<Rightarrow> (group_error, 'm world, RegistrySnapshot) prog" where
  "UpdateUpstreamGroup C i input adminID requestID clientIP =
     (let group = ug_Group input in
     bindM (mapErr (Pair None)
       (bindM (guardM (g_ID group = i) (invalid_group ''upstream group id cannot be modified'')) (\<lambda>_.
        bindM (call (c_RegistryStatus C)) (\<lambda>current.
        bindM (guardM (ug_ExpectedCurrentVersion input = rg_Version current) ErrConflict) (\<lambda>_.
          let desired = cloneRegistry current in
          case groupIndex desired i of
            None \<Rightarrow> throwM ErrNotFound
          | Some index \<Rightarrow>
              bindM (guardM (\<not> (i = rg_DefaultGroupID current \<and> \<not> g_Enabled group)) ErrProtectedGroup) (\<lambda>_.
              bindM (if g_Enabled (elems (rg_Groups desired) ! index) \<and> \<not> g_Enabled group
                     then bindM (upstreamGroupReferencedBySubscriptions i) (\<lambda>referenced.
                          guardM (\<not> referenced) ErrGroupReferenced)
                     else returnM ()) (\<lambda>_.
              returnM (current, set_group index group desired)))))))) (\<lambda>(current, desired).
     applyGroupChange C current desired ''update'' i adminID requestID clientIP))"

definition DeleteUpstreamGroup ::
  "'m client \<Rightarrow> string \<Rightarrow> uint64 \<Rightarrow> int \<Rightarrow> string \<Rightarrow> string \<Rightarrow> (group_error, 'm world, RegistrySnapshot) prog" where
  "DeleteUpstreamGroup C i expectedCurrentVersion adminID requestID clientIP =
     bindM (mapErr (Pair None)
       (bindM (call (c_RegistryStatus C)) (\<lambda>current.
        bindM (guardM (expectedCurrentVersion = rg_Version current) ErrConflict) (\<lambda>_.
        bindM (guardM (i \<noteq> rg_DefaultGroupID current) ErrProtectedGroup) (\<lambda>_.
        bindM (guardM (registryGroup current i \<noteq> None) ErrNotFound) (\<lambda>_.
        bindM (upstreamGroupReferencedBySubscriptions i) (\<lambda>referenced.
        bindM (guardM (\<not> referenced) ErrGroupReferenced) (\<lambda>_.
          let desired = cloneRegistry current in
          case groupIndex desired i of
            None \<Rightarrow> throwM ErrNotFound
          | Some index \<Rightarrow> returnM (current, remove_group index desired))))))))) (\<lambda>(current, desired).
     applyGroupChange C current desired ''delete'' i adminID requestID clientIP)"

definition FlushUpstreamGroup ::
  "'m client \<Rightarrow> string \<Rightarrow> uint64 \<Rightarrow> int \<Rightarrow> string \<Rightarrow> string \<Rightarrow> (error, 'm world, unit) prog" where
  "FlushUpstreamGroup C i expectedCurrentVersion adminID requestID clientIP =
     bindM (attemptM (bindM (call (c_RegistryStatus C)) (\<lambda>current.
        if expectedCurrentVersion \<noteq> rg_Version current then throwM ErrConflict
        else if registryGroup current i = None then throwM ErrNotFound
        else call (c_FlushRegistry C i expectedCurrentVersion)))) (\<lambda>flush.
     let (result, code) = (if isl flush then (''failed'', ''CACHE_FLUSH_FAILED'') else (''success'', '''')) in
     bindM (joining (Audit adminID ''flush'' ''upstream_group_cache'' i requestID clientIP result code)
       (err_of flush)) (\<lambda>total.
     case total of None \<Rightarrow> returnM () | Some e \<Rightarrow> throwM e))"

section \<open>Devices\<close>

record Device =
  d_ID :: int
  d_IP :: string
  d_MAC :: string
  d_Hostname :: string
  d_DisplayName :: string
  d_Note :: string
  d_Source :: string
  d_FirstSeenAtMS :: int
  d_LastSeenAtMS :: int
  d_QueryCount24H :: nat

record DevicePatch =
  dp_DisplayName :: "string option"
  dp_Note :: "string option"

definition day_ms :: int where "day_ms = 86400000"

text \<open>\<open>COALESCE(x, '')\<close>\<close>

definition coalesce :: "string option \<Rightarrow> string" where
  "coalesce x = (case x of None \<Rightarrow> '''' | Some s \<Rightarrow> s)"

definition query_count :: "db \<Rightarrow> string \<Rightarrow> int \<Rightarrow> nat" where
  "query_count d ip since = length (filter (\<lambda>(_, q). q_ClientIP q = ip \<and> since \<le> q_TimestampMS q) (tb_rows (d_queries d)))"

definition device_of :: "nat \<Rightarrow> int \<times> device_row \<Rightarrow> Device" where
  "device_of n x = (let r = snd x in
     \<lparr>d_ID = fst x, d_IP = dv_ip r, d_MAC = coalesce (dv_mac r), d_Hostname = coalesce (dv_hostname r),
      d_DisplayName = coalesce (dv_display_name r), d_Note = dv_note r, d_Source = dv_source r,
      d_FirstSeenAtMS = dv_first_seen_at_ms r, d_LastSeenAtMS = dv_last_seen_at_ms r, d_QueryCount24H = n\<rparr>)"

text \<open>Devices seen last at the same time come in an order SQL leaves open: here the later row first.\<close>

definition Devices :: "(error, 'm world, Device list) prog" where
  "Devices =
     bindM time_now (\<lambda>now.
     db_query (\<lambda>d. Inr (map (\<lambda>x. device_of (query_count d (dv_ip (snd x)) (now - day_ms)) x)
       (rev (sort_key (\<lambda>x. dv_last_seen_at_ms (snd x)) (tb_rows (d_devices d)))))))"

definition select_device :: "int \<Rightarrow> db \<Rightarrow> error + Device" where
  "select_device i d = (case map_of (tb_rows (d_devices d)) i of
     None \<Rightarrow> Inl ErrNoRows | Some r \<Rightarrow> Inr (device_of 0 (i, r)))"

definition patch_device :: "DevicePatch \<Rightarrow> Device \<Rightarrow> Device" where
  "patch_device p c =
     (let c = (case dp_DisplayName p of None \<Rightarrow> c | Some n \<Rightarrow> c\<lparr>d_DisplayName := TrimSpace n\<rparr>) in
      case dp_Note p of None \<Rightarrow> c | Some n \<Rightarrow> c\<lparr>d_Note := n\<rparr>)"

definition check_patch :: "DevicePatch \<Rightarrow> error + unit" where
  "check_patch p =
     (if dp_DisplayName p = None \<and> dp_Note p = None then Inl (Msg ''at least one device field is required'')
      else if (case dp_DisplayName p of None \<Rightarrow> False | Some n \<Rightarrow> 128 < RuneCount (TrimSpace n))
      then Inl (Msg ''display_name exceeds 128 characters'')
      else if (case dp_Note p of None \<Rightarrow> False | Some n \<Rightarrow> 500 < RuneCount n)
      then Inl (Msg ''note exceeds 500 characters'')
      else Inr ())"

definition UpdateDevice ::
  "int \<Rightarrow> DevicePatch \<Rightarrow> int \<Rightarrow> string \<Rightarrow> string \<Rightarrow> (error, 'm world, Device) prog" where
  "UpdateDevice i patch adminID requestID clientIP =
     bindM (liftM (check_patch patch)) (\<lambda>_.
     bindM (transaction
       (bindM (db_query (select_device i)) (\<lambda>current.
        let current = patch_device patch current in
        bindM time_now (\<lambda>now.
        bindM (db_exec (\<lambda>d. Inr (d\<lparr>d_devices := update_where (\<lambda>j _. j = i)
          (\<lambda>r. r\<lparr>dv_display_name := Some (d_DisplayName current), dv_note := d_Note current,
                 dv_updated_at_ms := now\<rparr>) (d_devices d)\<rparr>))) (\<lambda>_.
        bindM (auditTx adminID ''update'' ''device'' (FormatInt i) requestID clientIP ''success'' '''') (\<lambda>_.
        returnM current)))))) (\<lambda>current.
     bindM time_now (\<lambda>now.
     bindM (db_query (\<lambda>d. Inr (query_count d (d_IP current) (now - day_ms)))) (\<lambda>n.
     returnM (current\<lparr>d_QueryCount24H := n\<rparr>)))))"

end
