(* ===== verification/OperationsSpec.thy ===== *)
theory OperationsSpec
  imports Operations
begin

text \<open>
  What the settings and group operations promise: the settings written are those read back;
  a registry sent to mosdns is always the successor of the one read and well formed, shown by
  exchanging the client for one that differs on every other request; the audit log is paged
  without loss.
\<close>

section \<open>Settings written and read back\<close>

lemma wp_put_state [wp_intros]:
  assumes "\<And>e w'. w_db w' = w_db w \<Longrightarrow> w_ext w' = w_ext w \<Longrightarrow> E e w'"
    and "\<And>w'. w_db w' = (w_db w)\<lparr>d_state := (d_state (w_db w))(k \<mapsto> v)\<rparr> \<Longrightarrow> w_ext w' = w_ext w \<Longrightarrow> Q () w'"
  shows "wp (db_exec (put_state k v)) E Q w"
  using assms by (intro wp_intros) (auto simp: put_state_def)

lemma wp_put_states:
  "wp (traverseM (\<lambda>(k, v). db_exec (put_state k v)) rows) (\<lambda>_ w'. w_ext w' = w_ext w)
     (\<lambda>_ w'. w_db w' = (w_db w)\<lparr>d_state := fold (\<lambda>(k, v) m. m(k \<mapsto> v)) rows (d_state (w_db w))\<rparr>
             \<and> w_ext w' = w_ext w) w"
proof (induction rows arbitrary: w)
  case (Cons x rows)
  obtain k v where "x = (k, v)" by (cases x)
  then show ?case
    unfolding traverseM.simps prod.case
    by (intro wp_bindM_I) (simp, rule wp_put_state, simp, rule wp_mono [OF Cons.IH], simp_all)
qed (simp add: wp_simps)

definition audit_of ::
  "int \<Rightarrow> string \<Rightarrow> string \<Rightarrow> string \<Rightarrow> string \<Rightarrow> string \<Rightarrow> string \<Rightarrow> string \<Rightarrow> int \<Rightarrow> audit_row" where
  "audit_of adminID action resourceType resourceID requestID clientIP result errorCode now =
     \<lparr>au_admin_id = adminID, au_action = action, au_resource_type = resourceType,
      au_resource_id = resourceID, au_request_id = requestID, au_client_ip = clientIP,
      au_result = result, au_error_code = errorCode, au_created_at_ms = now\<rparr>"

lemma wp_auditTx [wp_intros]:
  assumes "\<And>e w'. w_db w' = w_db w \<Longrightarrow> w_ext w' = w_ext w \<Longrightarrow> E e w'"
    and "\<And>now w'. w_db w' = (w_db w)\<lparr>d_audit := insert_row (audit_of adminID action rt rid q ip result code now)
            (d_audit (w_db w))\<rparr> \<Longrightarrow> w_ext w' = w_ext w \<Longrightarrow> Q () w'"
  shows "wp (auditTx adminID action rt rid q ip result code) E Q w"
  unfolding auditTx_def
  by (intro wp_intros) (auto simp: insert_audit_def audit_of_def intro: assms)

lemmas wp_Audit [wp_intros] = wp_auditTx [folded Audit_def]

definition state_of_settings :: "Settings \<Rightarrow> (string \<Rightarrow> string option) \<Rightarrow> string \<Rightarrow> string option" where
  "state_of_settings s m = fold (\<lambda>(k, v) m. m(k \<mapsto> v)) (settings_rows s) m"

definition settings_audit :: "int \<Rightarrow> string \<Rightarrow> string \<Rightarrow> string \<Rightarrow> string \<Rightarrow> int \<Rightarrow> audit_row" where
  "settings_audit adminID requestID clientIP result code now = audit_of adminID ''update'' ''settings''
     ''default_upstream_group,cache,negative_cache,query_retention,database_max_size,address_family''
     requestID clientIP result code now"

lemma wp_persistSettings [wp_intros]:
  assumes "\<And>e w'. w_db w' = w_db w \<Longrightarrow> w_ext w' = w_ext w \<Longrightarrow> E e w'"
    and "\<And>w'. (\<exists>now. w_db w' = (w_db w)\<lparr>d_state := state_of_settings s (d_state (w_db w)),
            d_audit := insert_rows (if audit then [settings_audit adminID requestID clientIP result code now] else [])
                         (d_audit (w_db w))\<rparr>) \<Longrightarrow> w_ext w' = w_ext w \<Longrightarrow> Q () w'"
  shows "wp (persistSettings s adminID requestID clientIP result code audit) E Q w"
  unfolding persistSettings_def
  by (intro wp_intros; (rule wp_mono [OF wp_put_states])?)
    (auto intro!: wp_intros assms simp: state_of_settings_def settings_audit_def insert_rows_single)

definition persisted :: "Settings \<Rightarrow> Settings" where
  "persisted s = s\<lparr>s_GlobalMaxInFlight := 0, s_DefaultGroupMaxInFlight := 0,
     s_DefaultGroupQueryTimeoutMS := 0, s_OverloadAction := [], s_UpstreamRegistryVersion := 0\<rparr>"

lemma state_of_settings_sel:
  "state_of_settings s m ''cache_enabled'' = Some (FormatBool (s_CacheEnabled s))"
  "state_of_settings s m ''cache_ttl'' = Some (FormatInt (s_CacheTTL s))"
  "state_of_settings s m ''negative_cache_enabled'' = Some (FormatBool (s_NegativeCacheEnabled s))"
  "state_of_settings s m ''negative_cache_ttl'' = Some (FormatInt (s_NegativeCacheTTL s))"
  "state_of_settings s m ''query_retention_days'' = Some (FormatInt (s_QueryRetentionDays s))"
  "state_of_settings s m ''database_max_size_gib'' = Some (FormatInt (s_DatabaseMaxSizeGiB s))"
  "state_of_settings s m ''address_family_mode'' = Some (s_AddressFamilyMode s)"
  "state_of_settings s m ''default_upstream_group_id'' = Some (s_DefaultUpstreamGroupID s)"
  by (simp_all add: state_of_settings_def settings_rows_def)

lemma read_state_of_settings:
  assumes ok: "check_settings s = Inr ()" and d: "d_state d = state_of_settings s m"
  shows "(case select_settings d of Inl e \<Rightarrow> Inl e | Inr rows \<Rightarrow> read_settings rows (default_settings, False))
    = Inr (persisted s, True)"
proof -
  from ok have b: "int64_min \<le> s_QueryRetentionDays s" "s_QueryRetentionDays s \<le> int64_max"
    "int64_min \<le> s_CacheTTL s" "s_CacheTTL s \<le> int64_max"
    "int64_min \<le> s_NegativeCacheTTL s" "s_NegativeCacheTTL s \<le> int64_max"
    "int64_min \<le> s_DatabaseMaxSizeGiB s" "s_DatabaseMaxSizeGiB s \<le> int64_max"
    by (simp_all add: check_settings_ok int64_min_def int64_max_def)
  show ?thesis
    by (simp add: select_settings_def settings_keys_def d state_of_settings_sel read_setting_def b)
      (cases s, simp add: persisted_def default_settings_def)
qed

lemma databaseSettings_read:
  assumes "check_settings s = Inr ()" and "d_state (w_db w) = state_of_settings s m"
  shows "wp databaseSettings (\<lambda>e w'. faulty w) (\<lambda>r w'. r = (persisted s, True)) w"
proof -
  have c: "check_settings (persisted s) = Inr ()"
    using assms(1) by (simp add: check_settings_ok persisted_def)
  from read_state_of_settings [OF assms] obtain rows where
    "select_settings (w_db w) = Inr rows" "read_settings rows (default_settings, False) = Inr (persisted s, True)"
    by (auto split: sum.splits)
  then show ?thesis
    unfolding databaseSettings_def by (simp add: wp_simps c)
qed

section \<open>The requests sent to mosdns\<close>

text \<open>
  A registry that may be sent: the successor of the version it expects, with distinct
  non-empty group ids and an enabled default group.
\<close>

definition registry_sound :: "RegistrySnapshot \<Rightarrow> bool" where
  "registry_sound s = (distinct (group_ids s) \<and> '''' \<notin> set (group_ids s)
     \<and> enabledGroup s (rg_DefaultGroupID s))"

definition request_ok :: "RegistrySnapshot \<Rightarrow> bool" where
  "request_ok s = (registry_sound s \<and> rg_Version s = rg_ExpectedCurrentVersion s + 1)"

lemma valid_registry_sound: "validRegistrySnapshot s v \<Longrightarrow> registry_sound s"
  by (auto simp: registry_sound_def validRegistrySnapshot_iff enabledGroup_iff)

lemma registry_sound_clone [simp]: "registry_sound (cloneRegistry s) = registry_sound s"
proof -
  have "enabled_in i (map (\<lambda>g. g\<lparr>g_Upstreams := append_nil (g_Upstreams g)\<rparr>) gs) = enabled_in i gs" for i gs
    by (induction gs) auto
  then show ?thesis by (simp add: registry_sound_def enabledGroup_def)
qed

lemma enabledGroup_clone [simp]: "enabledGroup (cloneRegistry s) i = enabledGroup s i"
proof -
  have "enabled_in i (map (\<lambda>g. g\<lparr>g_Upstreams := append_nil (g_Upstreams g)\<rparr>) gs) = enabled_in i gs" for gs
    by (induction gs) auto
  then show ?thesis by (simp add: enabledGroup_def)
qed

lemma registry_sound_update [simp]:
  "registry_sound (s\<lparr>rg_Cache := c\<rparr>) = registry_sound s"
  "registry_sound (s\<lparr>rg_Protection := p\<rparr>) = registry_sound s"
  "registry_sound (s\<lparr>rg_Version := v\<rparr>) = registry_sound s"
  "registry_sound (s\<lparr>rg_ExpectedCurrentVersion := v\<rparr>) = registry_sound s"
  by (simp_all add: registry_sound_def group_ids_def enabledGroup_def)

lemma enabledGroup_update [simp]:
  "enabledGroup (s\<lparr>rg_Cache := c\<rparr>) i = enabledGroup s i"
  "enabledGroup (s\<lparr>rg_Protection := p\<rparr>) i = enabledGroup s i"
  by (simp_all add: enabledGroup_def)

lemma registry_sound_default:
  "registry_sound s \<Longrightarrow> enabledGroup s i \<Longrightarrow> registry_sound (s\<lparr>rg_DefaultGroupID := i\<rparr>)"
  by (simp add: registry_sound_def group_ids_def enabledGroup_def)

lemma registry_sound_append:
  "registry_sound s \<Longrightarrow> g_ID g \<notin> set (group_ids s) \<Longrightarrow> g_ID g \<noteq> '''' \<Longrightarrow> registry_sound (append_group g s)"
  by (auto simp: registry_sound_def append_group_def group_ids_def enabledGroup_iff)

lemma registry_sound_set:
  assumes "registry_sound s" "groupIndex s (g_ID g) = Some n"
    "\<not> (g_ID g = rg_DefaultGroupID s \<and> \<not> g_Enabled g)"
  shows "registry_sound (set_group n g s)"
proof -
  let ?gs = "elems (rg_Groups s)"
  from groupIndex_Some [OF assms(2)] have n: "n < length ?gs" "g_ID (?gs ! n) = g_ID g" by auto
  then have ids: "group_ids (set_group n g s) = group_ids s"
    by (simp add: group_ids_def set_group_def map_update list_update_same_conv)
  from assms(1) obtain h where h: "h \<in> set ?gs" "g_ID h = rg_DefaultGroupID s" "g_Enabled h"
    by (auto simp: registry_sound_def enabledGroup_iff)
  have "\<exists>h \<in> set (?gs[n := g]). g_ID h = rg_DefaultGroupID s \<and> g_Enabled h"
  proof (cases "g_ID g = rg_DefaultGroupID s")
    case True
    with assms(3) n show ?thesis by (intro bexI [of _ g]) (auto simp: set_update_memI)
  next
    case False
    from h(1) obtain k where "k < length ?gs" "h = ?gs ! k" by (auto simp: in_set_conv_nth)
    moreover from this False h n have "k \<noteq> n" by auto
    ultimately have "?gs[n := g] ! k = h" "k < length (?gs[n := g])" by auto
    with h show ?thesis by (metis nth_mem)
  qed
  then show ?thesis
    using assms(1) by (simp add: registry_sound_def ids enabledGroup_iff) (simp add: set_group_def)
qed

lemma remove_nth_filter:
  "distinct (map f xs) \<Longrightarrow> n < length xs \<Longrightarrow>
     take n xs @ drop (Suc n) xs = filter (\<lambda>x. f x \<noteq> f (xs ! n)) xs"
proof (induction xs arbitrary: n)
  case (Cons a xs)
  show ?case
  proof (cases n)
    case 0
    with Cons.prems have "filter (\<lambda>x. f x \<noteq> f a) xs = xs"
      by (intro filter_True) (auto simp: image_iff)
    with 0 show ?thesis by simp
  next
    case (Suc m)
    with Cons have "f a \<noteq> f (xs ! m)" by auto
    with Suc Cons show ?thesis by simp
  qed
qed simp

lemma remove_group_filter:
  assumes "distinct (group_ids s)" "groupIndex s i = Some n"
  shows "elems (rg_Groups (remove_group n s)) = filter (\<lambda>g. g_ID g \<noteq> i) (elems (rg_Groups s))"
  using remove_nth_filter [of g_ID "elems (rg_Groups s)" n] groupIndex_Some [OF assms(2)] assms(1)
  by (simp add: remove_group_def group_ids_def)

lemma registry_sound_remove:
  assumes "registry_sound s" "groupIndex s i = Some n" "i \<noteq> rg_DefaultGroupID s"
  shows "registry_sound (remove_group n s)"
proof -
  from assms(1) have d: "distinct (group_ids s)" by (simp add: registry_sound_def)
  have gs: "elems (rg_Groups (remove_group n s)) = filter (\<lambda>g. g_ID g \<noteq> i) (elems (rg_Groups s))"
    by (rule remove_group_filter [OF d assms(2)])
  then have "distinct (group_ids (remove_group n s))"
    using d by (simp add: group_ids_def distinct_map_filter)
  moreover have "rg_DefaultGroupID (remove_group n s) = rg_DefaultGroupID s" by (simp add: remove_group_def)
  ultimately show ?thesis
    using assms by (auto simp: registry_sound_def enabledGroup_iff gs) (auto simp: group_ids_def gs)
qed

section \<open>Programs that agree where a condition holds\<close>

lemma bindM_wp_cong:
  assumes "\<And>s. wp m (\<lambda>_ _. True) (\<lambda>a _. P a) s" and "\<And>a. P a \<Longrightarrow> g a = h a"
  shows "bindM m g = bindM m h"
proof
  fix s
  show "bindM m g s = bindM m h s"
    using assms(1) [of s] assms(2) by (auto simp: bindM_def wp_def split: prod.splits sum.splits)
qed

lemma bindM_call_cong:
  "(\<And>a m m'. f m = (Inr a, m') \<Longrightarrow> g a = h a) \<Longrightarrow> bindM (call f) g = bindM (call f) h"
  by (rule bindM_wp_cong [where P = "\<lambda>a. \<exists>m m'. f m = (Inr a, m')"]) (auto simp: wp_simps split: prod.split sum.split)

lemma bindM_guard_cong: "(b \<Longrightarrow> g () = h ()) \<Longrightarrow> bindM (guardM b e) g = bindM (guardM b e) h"
  by (cases b) (auto simp: guardM_def bindM_def returnM_def throwM_def)

lemma bindM_cong: "(\<And>a. g a = h a) \<Longrightarrow> bindM m g = bindM m h"
  by (rule arg_cong [where f = "bindM m"]) auto

definition request_of :: "RegistrySnapshot \<Rightarrow> RegistrySnapshot \<Rightarrow> RegistrySnapshot" where
  "request_of current desired = desired\<lparr>rg_Version := rg_Version current + 1,
     rg_ExpectedCurrentVersion := rg_Version current\<rparr>"

lemma request_of_ok [simp]: "request_ok (request_of current desired) \<longleftrightarrow> registry_sound desired"
  by (simp add: request_of_def request_ok_def)

text \<open>\<open>guarded C g\<close> answers a malformed request as it likes.\<close>

definition guarded :: "'m client \<Rightarrow> (RegistrySnapshot \<Rightarrow> 'm \<Rightarrow> (error + RegistrySnapshot) \<times> 'm) \<Rightarrow> 'm client" where
  "guarded C g = C\<lparr>c_ApplyRegistry := (\<lambda>s m. if request_ok s then c_ApplyRegistry C s m else g s m)\<rparr>"

lemma guarded_sel [simp]:
  "c_RegistryStatus (guarded C g) = c_RegistryStatus C"
  "c_AddressFamilyStatus (guarded C g) = c_AddressFamilyStatus C"
  "c_ApplyAddressFamily (guarded C g) = c_ApplyAddressFamily C"
  "c_FlushRegistry (guarded C g) = c_FlushRegistry C"
  by (simp_all add: guarded_def)

lemma applyRegistry_guarded:
  "registry_sound desired \<Longrightarrow> applyRegistry (guarded C g) current desired = applyRegistry C current desired"
  by (simp add: applyRegistry_def guarded_def request_ok_def Let_def cong: if_cong)

lemma applyGroupChange_guarded:
  "registry_sound desired \<Longrightarrow> applyGroupChange (guarded C g) current desired = applyGroupChange C current desired"
  by (simp add: applyGroupChange_def applyRegistry_guarded fun_eq_iff)

lemma applyAddressFamilyMode_guarded [simp]: "applyAddressFamilyMode (guarded C g) = applyAddressFamilyMode C"
  by (rule ext) (unfold applyAddressFamilyMode_def guarded_sel, rule refl)

lemma update_family_guarded [simp]: "update_family (guarded C g) = update_family C"
  by (intro ext) (unfold update_family_def actual_mode_def guarded_sel applyAddressFamilyMode_guarded, rule refl)

lemma groupIDPattern_nonempty: "groupIDPattern i \<Longrightarrow> i \<noteq> ''''"
  by (auto simp: groupIDPattern_def)

text \<open>What keeps a group from being deleted or disabled.\<close>

definition group_referenced :: "db \<Rightarrow> string \<Rightarrow> bool" where
  "group_referenced d i = ((\<exists>b \<in> set (d_bindings d). bi_upstream_group_id b = i)
     \<or> (\<exists>r \<in> set (d_rules d). dr_upstream_group_id r = Some i)
     \<or> (\<exists>s \<in> set (live_snapshots d). snapshot_uses i s))"

lemma wp_referenced [wp_intros]:
  assumes "\<And>e w'. w_db w' = w_db w \<Longrightarrow> w_ext w' = w_ext w \<Longrightarrow> E e w'"
    and "\<And>w'. w_db w' = w_db w \<Longrightarrow> w_ext w' = w_ext w \<Longrightarrow> Q (group_referenced (w_db w) i) w'"
  shows "wp (upstreamGroupReferencedBySubscriptions i) E Q w"
proof -
  have c: "count_references i d = Inr 0 \<longleftrightarrow> \<not> ((\<exists>b \<in> set (d_bindings d). bi_upstream_group_id b = i)
     \<or> (\<exists>r \<in> set (d_rules d). dr_upstream_group_id r = Some i))" for d
    by (auto simp: count_references_def filter_empty_conv)
  have s: "list_ex (snapshot_uses i) (live_snapshots d) = (\<exists>s \<in> set (live_snapshots d). snapshot_uses i s)" for d
    by (simp add: list_ex_iff)
  show ?thesis
    unfolding upstreamGroupReferencedBySubscriptions_def
  proof (intro wp_intros)
    fix a and w' :: "'a world" assume a: "count_references i (w_db w) = Inr a" and w': "w_db w' = w_db w" "w_ext w' = w_ext w"
    { assume "0 < a"
      then have "group_referenced (w_db w) i" using a c [of "w_db w"] by (auto simp: group_referenced_def)
      then show "Q True w'" using assms(2) [OF w'] by simp }
    { fix a' and w'' :: "'a world" assume n: "\<not> 0 < a" and i: "Inr (live_snapshots (w_db w')) = Inr a'"
        and "w_db w'' = w_db w'" "w_ext w'' = w_ext w'"
      with w' have w'': "w_db w'' = w_db w" "w_ext w'' = w_ext w" by auto
      from n a c [of "w_db w"] have "group_referenced (w_db w) i = list_ex (snapshot_uses i) a'"
        using i w' by (auto simp: group_referenced_def s)
      then show "Q (list_ex (snapshot_uses i) a') w''" using assms(2) [OF w''] by simp }
  qed (use assms(1) in auto)
qed

context mosdns_client
begin

lemma status_sound: "c_RegistryStatus C m = (Inr s, m') \<Longrightarrow> registry_sound s"
  by (drule registry_valid) (rule valid_registry_sound)

lemma CreateUpstreamGroup_guarded:
  "CreateUpstreamGroup (guarded C g) input adminID q ip = CreateUpstreamGroup C input adminID q ip"
  unfolding CreateUpstreamGroup_def guarded_sel
proof (rule bindM_wp_cong [where P = "\<lambda>c. registry_sound (append_group (ug_Group input) (cloneRegistry c))"], goal_cases)
  case (1 s)
  show ?case
    by (intro wp_intros)
      (auto dest: status_sound simp: registryGroup_None intro!: registry_sound_append groupIDPattern_nonempty)
next
  case (2 c)
  then show ?case by (simp add: applyGroupChange_guarded)
qed

lemma UpdateUpstreamGroup_guarded:
  "UpdateUpstreamGroup (guarded C g) i input adminID q ip = UpdateUpstreamGroup C i input adminID q ip"
  unfolding UpdateUpstreamGroup_def guarded_sel Let_def
proof (rule bindM_wp_cong [where P = "\<lambda>(c, d). registry_sound d"], goal_cases)
  case (1 s)
  show ?case
    by (intro wp_intros) (auto dest: status_sound intro!: registry_sound_set)
next
  case (2 a)
  then show ?case by (auto simp: applyGroupChange_guarded)
qed

lemma SyncSettings_guarded: "SyncSettings (guarded C g) ig = SyncSettings C ig"
  unfolding SyncSettings_def guarded_sel applyAddressFamilyMode_guarded Let_def
  by (intro bindM_cong; clarify; intro bindM_call_cong bindM_guard_cong)
    (auto dest!: status_sound simp: applyRegistry_guarded registry_sound_default)

lemma UpdateSettings_guarded: "UpdateSettings (guarded C g) ig s adminID q ip = UpdateSettings C ig s adminID q ip"
proof -
  have sound: "registry_sound ((cloneRegistry r)\<lparr>rg_DefaultGroupID := d, rg_Cache := c, rg_Protection := p\<rparr>)"
    if "c_RegistryStatus C m = (Inr r, m')" "enabledGroup r d" for r m m' d c p
    using that by (simp add: registry_sound_default status_sound)
  show ?thesis
    unfolding UpdateSettings_def guarded_sel update_family_guarded Let_def
    by (intro bindM_cong bindM_call_cong bindM_guard_cong; clarify; intro bindM_guard_cong)
      (simp add: applyRegistry_guarded [OF sound])
qed

lemma DeleteUpstreamGroup_guarded:
  "DeleteUpstreamGroup (guarded C g) i v adminID q ip = DeleteUpstreamGroup C i v adminID q ip"
  unfolding DeleteUpstreamGroup_def guarded_sel Let_def
proof (rule bindM_wp_cong [where P = "\<lambda>(c, d). registry_sound d"], goal_cases)
  case (1 s)
  show ?case
    by (intro wp_intros) (auto dest: status_sound intro!: registry_sound_remove)
next
  case (2 a)
  then show ?case by (auto simp: applyGroupChange_guarded)
qed

end

section \<open>Outcomes\<close>

lemma wp_post:
  "wp m (\<lambda>e. post (Inl e)) (\<lambda>a. post (Inr a)) w \<Longrightarrow> m w = (r, w') \<Longrightarrow> post r w'"
  by (cases r) (auto simp: wp_def)

text \<open>The state of mosdns after \<open>applyRegistry\<close>: nothing was sent, or the request and perhaps
  one status read.\<close>

definition ext_after :: "'m client \<Rightarrow> RegistrySnapshot \<Rightarrow> RegistrySnapshot \<Rightarrow> 'm \<Rightarrow> 'm \<Rightarrow> bool" where
  "ext_after C current desired m m' =
     (if registryEqual current desired then m' = m
      else let m1 = snd (c_ApplyRegistry C (request_of current desired) m)
           in m' = m1 \<or> m' = snd (c_RegistryStatus C m1))"

lemma wp_applyRegistry:
  assumes "\<And>e w'. w_db w' = w_db w \<Longrightarrow> ext_after C current desired (w_ext w) (w_ext w') \<Longrightarrow> E e w'"
    and "\<And>a w'. w_db w' = w_db w \<Longrightarrow> ext_after C current desired (w_ext w) (w_ext w') \<Longrightarrow>
        (if registryEqual current desired then a = current
         else (\<exists>m m'. c_ApplyRegistry C (request_of current desired) m = (Inr a, m'))
              \<or> validAppliedRegistry a (rg_Version current + 1)) \<Longrightarrow> Q a w'"
  shows "wp (applyRegistry C current desired) E Q w"
proof (cases "registryEqual current desired")
  case True
  then show ?thesis
    by (auto simp: applyRegistry_def wp_simps ext_after_def intro: assms)
next
  case False
  have r: "desired\<lparr>rg_Version := rg_Version current + 1, rg_ExpectedCurrentVersion := rg_Version current\<rparr>
      = request_of current desired" by (simp add: request_of_def)
  have v: "rg_Version (request_of current desired) = rg_Version current + 1" by (simp add: request_of_def)
  from False show ?thesis
    unfolding applyRegistry_def Let_def r v
    by (simp, intro wp_intros) (auto intro!: assms exI simp: ext_after_def Let_def)
qed

text \<open>
  What mosdns ends up with, as functions of its state: the registry it reports as applied (in its
  answer, or in its status when the answer was lost), and the address family mode in force.
\<close>

definition registry_run :: "'m client \<Rightarrow> RegistrySnapshot \<Rightarrow> RegistrySnapshot \<Rightarrow> 'm \<Rightarrow> RegistrySnapshot option \<times> 'm" where
  "registry_run C current desired m =
     (if registryEqual current desired then (Some current, m)
      else case c_ApplyRegistry C (request_of current desired) m of
          (Inr applied, m1) \<Rightarrow> (Some applied, m1)
        | (Inl e, m1) \<Rightarrow>
            (if \<not> errors_Is e ErrUnknown then (None, m1)
             else case c_RegistryStatus C m1 of
                 (Inl _, m2) \<Rightarrow> (None, m2)
               | (Inr actual, m2) \<Rightarrow>
                   (if validAppliedRegistry actual (rg_Version current + 1) then Some actual else None, m2)))"

definition family_run :: "'m client \<Rightarrow> string \<Rightarrow> 'm \<Rightarrow> bool \<times> 'm" where
  "family_run C mode m =
     (case c_AddressFamilyStatus C m of
        (Inl _, m1) \<Rightarrow> (False, m1)
      | (Inr st, m1) \<Rightarrow>
          (if af_Mode st = mode then (True, m1)
           else case c_ApplyAddressFamily C \<lparr>af_Version = af_Version st + 1,
                  af_ExpectedCurrentVersion = af_Version st, af_Mode = mode\<rparr> m1 of
               (Inr _, m2) \<Rightarrow> (True, m2)
             | (Inl e, m2) \<Rightarrow>
                 (if \<not> errors_Is e ErrUnknown then (False, m2)
                  else case c_AddressFamilyStatus C m2 of
                      (Inl _, m3) \<Rightarrow> (False, m3)
                    | (Inr now, m3) \<Rightarrow> (af_Mode now = mode, m3))))"

text \<open>The mode to record: the wanted one when it is in force, else the one that mosdns reports, else
  the one recorded before.\<close>

definition family_mode :: "'m client \<Rightarrow> string \<Rightarrow> string \<Rightarrow> 'm \<Rightarrow> string" where
  "family_mode C old wanted m =
     (if old = wanted then wanted
      else case family_run C wanted m of
          (True, _) \<Rightarrow> wanted
        | (False, m1) \<Rightarrow>
            (case fst (c_AddressFamilyStatus C m1) of
               Inl _ \<Rightarrow> old
             | Inr actual \<Rightarrow> if validAddressFamilyMode (af_Mode actual) then af_Mode actual else old))"

definition stored_settings :: "db \<Rightarrow> error + Settings \<times> bool" where
  "stored_settings d = (case select_settings d of
     Inl e \<Rightarrow> Inl e | Inr rows \<Rightarrow> read_settings rows (default_settings, False))"

lemma wp_applyRegistry_run:
  assumes "\<And>e w'. w_db w' = w_db w \<Longrightarrow> E e w'"
    and "\<And>a w'. w_db w' = w_db w \<Longrightarrow> registry_run C current desired (w_ext w) = (Some a, w_ext w') \<Longrightarrow> Q a w'"
  shows "wp (applyRegistry C current desired) E Q w"
proof -
  have r: "desired\<lparr>rg_Version := rg_Version current + 1, rg_ExpectedCurrentVersion := rg_Version current\<rparr>
      = request_of current desired" by (simp add: request_of_def)
  have v: "rg_Version (request_of current desired) = rg_Version current + 1" by (simp add: request_of_def)
  show ?thesis
    unfolding applyRegistry_def Let_def r v
    by (intro wp_intros) (auto intro!: assms simp: registry_run_def)
qed

lemma wp_applyAddressFamilyMode_run:
  assumes "\<And>e w'. w_db w' = w_db w \<Longrightarrow> family_run C mode (w_ext w) = (False, w_ext w') \<Longrightarrow> E e w'"
    and "\<And>b w'. w_db w' = w_db w \<Longrightarrow> family_run C mode (w_ext w) = (True, w_ext w') \<Longrightarrow> Q b w'"
  shows "wp (applyAddressFamilyMode C mode) E Q w"
  unfolding applyAddressFamilyMode_def Let_def
  by (intro wp_intros) (auto intro!: assms simp: family_run_def)

lemma wp_actual_mode_run:
  assumes "\<And>p' w'. w_db w' = w_db w \<Longrightarrow> p' \<noteq> None \<Longrightarrow> Q (s\<lparr>s_AddressFamilyMode :=
      (case fst (c_AddressFamilyStatus C (w_ext w)) of Inl _ \<Rightarrow> s_AddressFamilyMode old
       | Inr actual \<Rightarrow> if validAddressFamilyMode (af_Mode actual) then af_Mode actual else s_AddressFamilyMode old)\<rparr>, p') w'"
    and "p \<noteq> None"
  shows "wp (actual_mode C old s p) E Q w"
  unfolding actual_mode_def using assms(2)
  by (intro wp_intros) (use assms(1) in fastforce)+

lemma wp_update_family_run:
  assumes "\<And>p' w'. w_db w' = w_db w \<Longrightarrow> (p' = None \<Longrightarrow> p = None
        \<and> family_mode C (s_AddressFamilyMode old) (s_AddressFamilyMode s) (w_ext w) = s_AddressFamilyMode s) \<Longrightarrow>
      Q (s\<lparr>s_AddressFamilyMode := family_mode C (s_AddressFamilyMode old) (s_AddressFamilyMode s) (w_ext w)\<rparr>, p') w'"
  shows "wp (update_family C old s v p) E Q w"
proof (cases "s_AddressFamilyMode old = s_AddressFamilyMode s")
  case True
  have "s = s\<lparr>s_AddressFamilyMode := s_AddressFamilyMode s\<rparr>" by simp
  with True assms [of w p] show ?thesis by (simp add: update_family_def family_mode_def wp_returnM)
next
  case False
  have won: "Q (s, p') w'"
    if "w_db w' = w_db w" "family_run C (s_AddressFamilyMode s) (w_ext w) = (True, m)" "p' = None \<Longrightarrow> p = None" for p' w' m
  proof -
    have f: "family_mode C (s_AddressFamilyMode old) (s_AddressFamilyMode s) (w_ext w) = s_AddressFamilyMode s"
      using False that(2) by (simp add: family_mode_def)
    show ?thesis using assms [of w' p', OF that(1)] that(3) by (simp add: f)
  qed
  have lost: "Q (s\<lparr>s_AddressFamilyMode := (case fst (c_AddressFamilyStatus C m) of Inl _ \<Rightarrow> s_AddressFamilyMode old
       | Inr actual \<Rightarrow> if validAddressFamilyMode (af_Mode actual) then af_Mode actual else s_AddressFamilyMode old)\<rparr>, p') w'"
    if "w_db w' = w_db w" "family_run C (s_AddressFamilyMode s) (w_ext w) = (False, m)" "p' \<noteq> None" for p' w' m
    using assms [of w' p'] that False by (simp add: family_mode_def)
  from False show ?thesis
    unfolding update_family_def joining_def
    by (intro wp_intros wp_applyAddressFamilyMode_run wp_actual_mode_run)
      (auto simp: err_of_def intro: won lost)
qed

text \<open>
  The effect of \<open>UpdateSettings\<close> on the tables: none, or the settings read back from the
  registry that mosdns applied, the requested limits and the address family mode in force, together
  with an audit row that says whether all went well. The ingestion service may change the tables and
  its own state in between (\<open>d\<close>, \<open>m\<close>); without one they are as before.
\<close>

definition wanted_mode :: "Settings \<Rightarrow> string" where
  "wanted_mode s = (if s_AddressFamilyMode s = '''' then ''dual_stack'' else s_AddressFamilyMode s)"

definition requested :: "RegistrySnapshot \<Rightarrow> Settings \<Rightarrow> RegistrySnapshot" where
  "requested current s = (cloneRegistry current)\<lparr>rg_DefaultGroupID := s_DefaultUpstreamGroupID s,
     rg_Cache := registryCache s, rg_Protection := registryProtection s\<rparr>"

definition settings_recorded ::
  "'m client \<Rightarrow> 'm ingest option \<Rightarrow> Settings \<Rightarrow> int \<Rightarrow> string \<Rightarrow> string \<Rightarrow> 'm world \<Rightarrow> error + unit \<Rightarrow> db \<Rightarrow> bool" where
  "settings_recorded C ig s adminID q ip w r d' =
     (isl r \<and> (ig = None \<longrightarrow> d' = w_db w)
      \<or> (\<exists>current m1 old h applied m2 d m mode now.
           c_RegistryStatus C (w_ext w) = (Inr current, m1) \<and> rg_Version current = s_UpstreamRegistryVersion s
           \<and> stored_settings (w_db w) = Inr (old, h)
           \<and> registry_run C current (requested current s) m1 = (Some applied, m2)
           \<and> (rg_Version applied = s_UpstreamRegistryVersion s
              \<or> validAppliedRegistry applied (s_UpstreamRegistryVersion s + 1))
           \<and> (ig = None \<longrightarrow> d = w_db w \<and> m = m2)
           \<and> mode = family_mode C (s_AddressFamilyMode old) (wanted_mode s) m
           \<and> (\<not> isl r \<longrightarrow> mode = wanted_mode s)
           \<and> d' = d\<lparr>d_state := state_of_settings ((read_back_all applied s)\<lparr>s_AddressFamilyMode := mode\<rparr>) (d_state d),
                d_audit := insert_row (settings_audit adminID q ip (if isl r then ''failed'' else ''success'')
                  (if isl r then ''SETTINGS_PARTIAL_FAILURE'' else '''') now) (d_audit d)\<rparr>))"

lemma wp_joining [wp_simps]:
  "wp (joining m p) E Q w = wp m (\<lambda>e. Q (errors_Join p (Some e))) (\<lambda>_. Q p) w"
  by (simp add: joining_def wp_simps err_of_def)

lemma wp_joining_I: "wp m (\<lambda>e. Q (errors_Join p (Some e))) (\<lambda>_. Q p) w \<Longrightarrow> wp (joining m p) E Q w"
  by (simp add: wp_joining)

lemma wp_joining_True: "(\<And>p t. Q p t) \<Longrightarrow> wp (joining m p) E Q w"
  unfolding wp_joining by (simp add: wp_def split: prod.split sum.split)

lemma wp_update_ingest:
  assumes "\<And>p w'. (ig = None \<longrightarrow> w_db w' = w_db w \<and> w_ext w' = w_ext w) \<Longrightarrow> Q p w'"
  shows "wp (update_ingest ig old s) E Q w"
proof (cases ig)
  case (Some g)
  then have "Q p w'" for p w' using assms by simp
  then show ?thesis
    by (auto simp: Some update_ingest_def intro!: wp_bindM_I wp_joining_True wp_if_I wp_returnM_I)
qed (simp add: update_ingest_def wp_simps assms)

lemma wp_databaseSettings:
  assumes "\<And>e w'. w_db w' = w_db w \<Longrightarrow> w_ext w' = w_ext w \<Longrightarrow> E e w'"
    and "\<And>r w'. w_db w' = w_db w \<Longrightarrow> w_ext w' = w_ext w \<Longrightarrow> stored_settings (w_db w) = Inr r \<Longrightarrow> Q r w'"
  shows "wp databaseSettings E Q w"
  unfolding databaseSettings_def by (intro wp_intros) (auto intro: assms simp: stored_settings_def)

context mosdns_client
begin

lemma registry_run_valid:
  assumes "registry_run C current desired m = (Some a, m')"
  shows "a = current \<or> validAppliedRegistry a (rg_Version current + 1)"
  using assms
  by (auto simp: registry_run_def request_of_def dest!: apply_valid validRegistry_applied
      split: if_splits prod.splits sum.splits)

lemma UpdateSettings_recorded:
  "wp (UpdateSettings C ig s adminID q ip)
     (\<lambda>e w'. settings_recorded C ig s adminID q ip w (Inl e) (w_db w'))
     (\<lambda>a w'. settings_recorded C ig s adminID q ip w (Inr a) (w_db w')) w"
proof -
  define u where "u = (if s_AddressFamilyMode s = '''' then s\<lparr>s_AddressFamilyMode := ''dual_stack''\<rparr> else s)"
  have u: "(read_back_all a u)\<lparr>s_AddressFamilyMode := m\<rparr> = (read_back_all a s)\<lparr>s_AddressFamilyMode := m\<rparr>" for a m
    by (simp add: u_def read_back_all_def read_back_def)
  have v: "s_UpstreamRegistryVersion u = s_UpstreamRegistryVersion s"
    "(cloneRegistry c)\<lparr>rg_DefaultGroupID := s_DefaultUpstreamGroupID u, rg_Cache := registryCache u,
        rg_Protection := registryProtection u\<rparr> = requested c s"
    "s_AddressFamilyMode (read_back_all a u) = wanted_mode s" for c a
    by (simp_all add: u_def requested_def registryCache_def registryProtection_def wanted_mode_def read_back_all_def read_back_def)
  have saved: "settings_recorded C ig s adminID q ip w r
      (d\<lparr>d_state := state_of_settings ((read_back_all applied s)\<lparr>s_AddressFamilyMode := mode\<rparr>) (d_state d),
         d_audit := insert_rows [settings_audit adminID q ip (if isl r then ''failed'' else ''success'')
           (if isl r then ''SETTINGS_PARTIAL_FAILURE'' else '''') now] (d_audit d)\<rparr>)"
    if "c_RegistryStatus C (w_ext w) = (Inr current, m1)" "s_UpstreamRegistryVersion s = rg_Version current"
      "stored_settings (w_db w) = Inr (old, h)" "registry_run C current (requested current s) m1 = (Some applied, m2)"
      "ig = None \<longrightarrow> d = w_db w \<and> m = m2"
      "mode = family_mode C (s_AddressFamilyMode old) (wanted_mode s) m" "\<not> isl r \<longrightarrow> mode = wanted_mode s"
    for current m1 old h applied m2 d m mode r now and ig :: "'m ingest option"
  proof -
    have "rg_Version applied = s_UpstreamRegistryVersion s \<or> validAppliedRegistry applied (s_UpstreamRegistryVersion s + 1)"
      using registry_run_valid [OF that(4)] that(2) by auto
    with that show ?thesis
      unfolding settings_recorded_def insert_rows_single
      by (intro disjI2 exI [of _ current] exI [of _ m1] exI [of _ old] exI [of _ h] exI [of _ applied] exI [of _ m2]
          exI [of _ d] exI [of _ m] exI [of _ mode] exI [of _ now]) simp
  qed
  note kept = saved [where r = "Inl e" for e, OF _ _ _ _ _ refl, simplified]
  have success: "settings_recorded C ig s adminID q ip w (Inr x)
      (d\<lparr>d_state := state_of_settings ((read_back_all applied s)\<lparr>s_AddressFamilyMode := wanted_mode s\<rparr>) (d_state d),
         d_audit := insert_rows [settings_audit adminID q ip ''success'' '''' now] (d_audit d)\<rparr>)"
    if "c_RegistryStatus C (w_ext w) = (Inr current, m1)" "s_UpstreamRegistryVersion s = rg_Version current"
      "stored_settings (w_db w) = Inr (old, h)" "registry_run C current (requested current s) m1 = (Some applied, m2)"
      "ig = None \<longrightarrow> d = w_db w \<and> m = m2" "family_mode C (s_AddressFamilyMode old) (wanted_mode s) m = wanted_mode s"
    for current m1 old h applied m2 d m x now and ig :: "'m ingest option"
    using saved [where r = "Inr x", OF that(1-5) that(6) [symmetric]] by simp
  have unsaved: "settings_recorded C ig s adminID q ip w (Inl e) d" if "ig = None \<longrightarrow> d = w_db w"
    for d e and ig :: "'m ingest option"
    using that by (auto simp: settings_recorded_def)
  show ?thesis
    unfolding UpdateSettings_def Let_def u_def [symmetric] v
    by (intro wp_intros wp_databaseSettings wp_applyRegistry_run wp_update_ingest wp_update_family_run wp_joining_I)
      (auto simp: v u intro: kept success unsaved split: if_splits)
qed

end

section \<open>Removing or disabling a group\<close>

lemma wp_applyGroupChange:
  assumes "\<And>r w'. ext_after C current desired (w_ext w) (w_ext w') \<Longrightarrow> post r w'"
  shows "wp (applyGroupChange C current desired action i adminID q ip)
    (\<lambda>e. post (Inl e)) (\<lambda>a. post (Inr a)) w"
  unfolding applyGroupChange_def Let_def
  by (intro wp_intros wp_applyRegistry) (auto intro!: assms)

definition removal_sent :: "'m client \<Rightarrow> string \<Rightarrow> uint64 \<Rightarrow> 'm world \<Rightarrow> 'm world \<Rightarrow> bool" where
  "removal_sent C i v w w' = (\<exists>current m desired.
     c_RegistryStatus C (w_ext w) = (Inr current, m) \<and> v = rg_Version current
     \<and> i \<noteq> rg_DefaultGroupID current \<and> i \<in> set (group_ids current) \<and> \<not> group_referenced (w_db w) i
     \<and> group_ids desired = filter (\<lambda>j. j \<noteq> i) (group_ids current)
     \<and> rg_DefaultGroupID desired = rg_DefaultGroupID current
     \<and> ext_after C current desired m (w_ext w'))"

context mosdns_client
begin

lemma DeleteUpstreamGroup_guards:
  "wp (DeleteUpstreamGroup C i v adminID q ip)
     (\<lambda>_ w'. w_ext w' = snd (c_RegistryStatus C (w_ext w)) \<or> removal_sent C i v w w')
     (\<lambda>_ w'. w_ext w' = snd (c_RegistryStatus C (w_ext w)) \<or> removal_sent C i v w w') w"
proof -
  have sent: "removal_sent C i u w w'"
    if "c_RegistryStatus C (w_ext w) = (Inr current, m)" "u = rg_Version current"
      "i \<noteq> rg_DefaultGroupID current" "\<not> group_referenced (w_db w) i" "groupIndex current i = Some n"
      "ext_after C current (remove_group n (cloneRegistry current)) m (w_ext w')"
    for current m n u and w' :: "'m world"
  proof -
    from that(1) have d: "distinct (group_ids (cloneRegistry current))"
      using registry_ids_distinct by auto
    have "groupIndex (cloneRegistry current) i = Some n" using that(5) by simp
    from remove_group_filter [OF d this]
    have g: "group_ids (remove_group n (cloneRegistry current)) = filter (\<lambda>j. j \<noteq> i) (group_ids current)"
      by (simp add: group_ids_def filter_map comp_def)
    have "i \<in> set (group_ids current)" using that(5) groupIndex_None [of current i] by auto
    with that g show ?thesis
      unfolding removal_sent_def
      by (intro exI [of _ current] exI [of _ m] exI [of _ "remove_group n (cloneRegistry current)"])
        (simp add: remove_group_def)
  qed
  show ?thesis
    unfolding DeleteUpstreamGroup_def Let_def
    by (intro wp_intros wp_applyGroupChange [where post = "\<lambda>_ w'. w_ext w' = snd (c_RegistryStatus C (w_ext w)) \<or> removal_sent C i v w w'"])
      (auto intro: sent)
qed

end

definition disabling_sent :: "'m client \<Rightarrow> string \<Rightarrow> UpstreamGroupWrite \<Rightarrow> 'm world \<Rightarrow> 'm world \<Rightarrow> bool" where
  "disabling_sent C i input w w' = (\<exists>current m n.
     c_RegistryStatus C (w_ext w) = (Inr current, m) \<and> ug_ExpectedCurrentVersion input = rg_Version current
     \<and> g_ID (ug_Group input) = i \<and> groupIndex current i = Some n
     \<and> (\<not> g_Enabled (ug_Group input) \<longrightarrow> i \<noteq> rg_DefaultGroupID current)
     \<and> (\<not> g_Enabled (ug_Group input) \<and> g_Enabled (elems (rg_Groups current) ! n)
          \<longrightarrow> \<not> group_referenced (w_db w) i)
     \<and> ext_after C current (set_group n (ug_Group input) (cloneRegistry current)) m (w_ext w'))"

lemma UpdateUpstreamGroup_guards:
  "wp (UpdateUpstreamGroup C i input adminID q ip)
     (\<lambda>_ w'. w_ext w' = w_ext w \<or> w_ext w' = snd (c_RegistryStatus C (w_ext w)) \<or> disabling_sent C i input w w')
     (\<lambda>_ w'. w_ext w' = w_ext w \<or> w_ext w' = snd (c_RegistryStatus C (w_ext w)) \<or> disabling_sent C i input w w') w"
proof -
  let ?post = "\<lambda>_ w'. w_ext w' = w_ext w \<or> w_ext w' = snd (c_RegistryStatus C (w_ext w)) \<or> disabling_sent C i input w w'"
  have nth: "g_Enabled (map (\<lambda>g. g\<lparr>g_Upstreams := append_nil (g_Upstreams g)\<rparr>) (elems (rg_Groups c)) ! n)
      = g_Enabled (elems (rg_Groups c) ! n)"
    if "groupIndex c j = Some n" for c j n
    using groupIndex_Some [OF that] by simp
  show ?thesis
    unfolding UpdateUpstreamGroup_def Let_def
    by (intro wp_intros wp_applyGroupChange [where post = ?post])
      (auto simp: disabling_sent_def nth)
qed

section \<open>Paging the audit log\<close>

definition audit_fetch :: "'m world \<Rightarrow> int \<Rightarrow> string \<Rightarrow> (AuditLog list \<times> string) option" where
  "audit_fetch w limit c =
     (case fst (AuditLogs limit c (w\<lparr>w_faults := []\<rparr>)) of Inr page \<Rightarrow> Some page | Inl _ \<Rightarrow> None)"

lemma page_limit_range: "1 \<le> page_limit limit \<and> page_limit limit \<le> 500"
  by (auto simp: page_limit_def)

lemma AuditLogs_run:
  "wp (AuditLogs limit c) (\<lambda>e _. isl (audit_cursor c))
     (\<lambda>p _. \<exists>after. audit_cursor c = Inr after \<and> p = cut_page log_key (page_limit limit)
        (page_rows log_key (map (audit_log (w_db w)) (tb_rows (d_audit (w_db w)))) after (Suc (page_limit limit))))
     (w\<lparr>w_faults := []\<rparr>)"
proof -
  have k: "log_key \<circ> audit_log d = audit_key" for d
    by (auto simp: log_key_def audit_log_def audit_key_def Let_def)
  show ?thesis
    by (cases "audit_cursor c")
      (simp_all add: AuditLogs_def wp_simps page_rows_map k faulty_def pop_fault_def)
qed

lemma audit_fetch_eq:
  "audit_fetch w limit c = (case audit_cursor c of Inl _ \<Rightarrow> None
     | Inr after \<Rightarrow> Some (cut_page log_key (page_limit limit)
        (page_rows log_key (map (audit_log (w_db w)) (tb_rows (d_audit (w_db w)))) after (Suc (page_limit limit)))))"
  using AuditLogs_run [of limit c w]
  by (auto simp: audit_fetch_def wp_def split: prod.splits sum.splits)

interpretation audit: keyset_paging log_key "map (audit_log (w_db w)) (tb_rows (d_audit (w_db w)))"
    "page_limit limit" "audit_fetch w limit" for w :: "'m world" and limit
proof unfold_locales
  show "0 < page_limit limit" using page_limit_range [of limit] by simp
qed (auto simp: audit_fetch_eq audit_cursor_def)

lemma audit_log_keys: "map log_key (map (audit_log d) rows) = map audit_key rows"
  by (simp add: log_key_def audit_log_def audit_key_def Let_def)

lemma distinct_audit_keys: "auto_ok (d_audit d) \<Longrightarrow> distinct (map audit_key (tb_rows (d_audit d)))"
  by (auto simp: auto_ok_def distinct_map audit_key_def inj_on_def)

end
