(* ===== verification/OperationsProperties.thy ===== *)
theory OperationsProperties
  imports OperationsSpec Demo
begin

text \<open>
  The properties of the settings, upstream group and audit log operations, with their
  applications to the demo world. The client is the HTTP client, whatever mosdns answers.
\<close>

text \<open>C14: Settings that pass the checks and are written by a transaction that commits are the ones
  the next read returns, every number and flag through its text form, and the default group counts
  as persisted.\<close>

theorem settings_roundtrip:
  assumes "persistSettings s adminID q ip result code audit w = (Inr (), w')"
    and "check_settings s = Inr ()" and "w_faults w' = []"
  shows "fst (databaseSettings w') = Inr (persisted s, True)"
proof -
  have "wp (persistSettings s adminID q ip result code audit) (\<lambda>_ _. True)
      (\<lambda>_ w'. \<exists>m. d_state (w_db w') = state_of_settings s m) w"
    by (intro wp_intros) auto
  then obtain m where m: "d_state (w_db w') = state_of_settings s m"
    using assms(1) by (auto dest: wp_Inr)
  have "\<not> faulty w'" using assms(3) by (simp add: faulty_def)
  with databaseSettings_read [OF assms(2) m] show ?thesis
    by (auto simp: wp_def split: prod.splits sum.splits)
qed

definition demo_settings :: Settings where
  "demo_settings = default_settings\<lparr>s_CacheTTL := 604800, s_DefaultUpstreamGroupID := ''default'',
     s_AddressFamilyMode := ''ipv4_only'', s_UpstreamRegistryVersion := 3\<rparr>"

theorem settings_roundtrip_witness:
  "fst (databaseSettings (snd (persistSettings demo_settings 1 ''req'' ''ip'' ''success'' '''' True demo_world)))
     = Inr (persisted demo_settings, True)"
proof (rule settings_roundtrip)
  show "persistSettings demo_settings 1 ''req'' ''ip'' ''success'' '''' True demo_world =
      (Inr (), snd (persistSettings demo_settings 1 ''req'' ''ip'' ''success'' '''' True demo_world))"
    by (rule prod_eqI) (simp_all, code_simp)
  show "check_settings demo_settings = Inr ()" by code_simp
  show "w_faults (snd (persistSettings demo_settings 1 ''req'' ''ip'' ''success'' '''' True demo_world)) = []"
    by code_simp
qed


text \<open>A settings update that is based on another registry version than the current one is
  refused with ErrConflict before anything is written or sent to mosdns.\<close>

theorem update_settings_stale:
  assumes "c_RegistryStatus C (w_ext w) = (Inr registry, m)"
    and "s_UpstreamRegistryVersion s \<noteq> rg_Version registry"
    and "check_settings s = Inr ()"
  shows "UpdateSettings C ig s adminID q ip w = (Inl ErrConflict, w\<lparr>w_ext := m\<rparr>)"
proof -
  have "s_AddressFamilyMode s \<noteq> ''''" using assms(3) by (auto simp: check_settings_ok validAddressFamilyMode_def)
  with assms show ?thesis
    by (simp add: UpdateSettings_def bindM_def liftM_def returnM_def call_def guardM_def throwM_def)
qed

theorem update_settings_stale_witness:
  "UpdateSettings demo_client None demo_settings 1 ''req'' ''ip'' demo_world = (Inl ErrConflict, demo_world\<lparr>w_ext := (0, '''')\<rparr>)"
  by (rule update_settings_stale [where registry = demo_registry])
    (simp_all add: demo_client_def demo_world_def demo_settings_def demo_registry_def default_settings_def
      check_settings_def validAddressFamilyMode_def)

text \<open>C16: Whatever the operations (settings update and synchronisation, creation, update and deletion
  of a group) send to mosdns is well formed: distinct non-empty group ids, an enabled default group, and
  the successor of the version it expects. Shown by exchanging the client for one that answers every
  other request in an arbitrary way: no operation notices.\<close>

theorem requests_well_formed:
  "UpdateSettings (guarded (HTTPClient T) g) ig s adminID q ip w = UpdateSettings (HTTPClient T) ig s adminID q ip w
   \<and> SyncSettings (guarded (HTTPClient T) g) ig w = SyncSettings (HTTPClient T) ig w
   \<and> CreateUpstreamGroup (guarded (HTTPClient T) g) input adminID q ip w
       = CreateUpstreamGroup (HTTPClient T) input adminID q ip w
   \<and> UpdateUpstreamGroup (guarded (HTTPClient T) g) i input adminID q ip w
       = UpdateUpstreamGroup (HTTPClient T) i input adminID q ip w
   \<and> DeleteUpstreamGroup (guarded (HTTPClient T) g) i v adminID q ip w
       = DeleteUpstreamGroup (HTTPClient T) i v adminID q ip w"
  by (simp add: http.UpdateSettings_guarded http.SyncSettings_guarded http.CreateUpstreamGroup_guarded
      http.UpdateUpstreamGroup_guarded http.DeleteUpstreamGroup_guarded)

text \<open>C17: DeleteUpstreamGroup does no more than read the registry, unless the version given is the
  current one and the group exists, is not the default group and is not used by a binding, a rule or
  a version that is active, pending or of unknown outcome; then it sends the registry without that
  group and no other change of the group list.\<close>

theorem delete_group_guarded:
  "case DeleteUpstreamGroup (HTTPClient T) i v adminID q ip w of
     (r, w') \<Rightarrow> w_ext w' = snd (c_RegistryStatus (HTTPClient T) (w_ext w)) \<or> removal_sent (HTTPClient T) i v w w'"
proof (cases "DeleteUpstreamGroup (HTTPClient T) i v adminID q ip w")
  case (Pair r w')
  with wp_post [where post = "\<lambda>_ w'. w_ext w' = snd (c_RegistryStatus (HTTPClient T) (w_ext w))
      \<or> removal_sent (HTTPClient T) i v w w'", OF http.DeleteUpstreamGroup_guards Pair]
  show ?thesis by simp
qed

text \<open>UpdateUpstreamGroup sends a change only for the current version and for the group whose id
  is in the body; it never disables the default group, and it disables an enabled group only when no
  binding, rule or live version uses it.\<close>

theorem update_group_guarded:
  "case UpdateUpstreamGroup C i input adminID q ip w of
     (r, w') \<Rightarrow> w_ext w' = w_ext w \<or> w_ext w' = snd (c_RegistryStatus C (w_ext w))
                \<or> disabling_sent C i input w w'"
proof (cases "UpdateUpstreamGroup C i input adminID q ip w")
  case (Pair r w')
  with wp_post [where post = "\<lambda>_ w'. w_ext w' = w_ext w \<or> w_ext w' = snd (c_RegistryStatus C (w_ext w))
      \<or> disabling_sent C i input w w'", OF UpdateUpstreamGroup_guards Pair]
  show ?thesis by simp
qed

text \<open>Following the cursors of AuditLogs from the first page returns the whole audit log, newest
  first, every entry once, whatever page size is asked for.\<close>

theorem audit_pages:
  assumes "auto_ok (d_audit (w_db w))"
    and "\<forall>(i, r) \<in> set (tb_rows (d_audit (w_db w))). 0 \<le> au_created_at_ms r \<and> au_created_at_ms r \<le> int64_max
           \<and> i \<le> int64_max"
  shows "follow (audit_fetch w limit) (Suc (length (tb_rows (d_audit (w_db w))))) ''''
      = Some (order_desc log_key (map (audit_log (w_db w)) (tb_rows (d_audit (w_db w)))))"
proof -
  have "distinct (map log_key (map (audit_log (w_db w)) (tb_rows (d_audit (w_db w)))))"
    unfolding audit_log_keys using assms(1) by (rule distinct_audit_keys)
  moreover have "\<forall>x \<in> set (map (audit_log (w_db w)) (tb_rows (d_audit (w_db w)))).
      0 \<le> fst (log_key x) \<and> fst (log_key x) \<le> int64_max \<and> 1 \<le> snd (log_key x) \<and> snd (log_key x) \<le> int64_max"
    using assms by (fastforce simp: log_key_def audit_log_def Let_def auto_ok_def)
  ultimately show ?thesis using audit.follow_all [of w limit] by simp
qed

definition audited :: "(nat \<times> string) world" where
  "audited = demo_world\<lparr>w_db := (w_db demo_world)\<lparr>d_audit := insert_rows
     [audit_of 1 ''update'' ''settings'' '''' ''r1'' ''ip'' ''success'' '''' 5,
      audit_of 1 ''flush'' ''cache'' ''all'' ''r2'' ''ip'' ''failed'' ''X'' 5,
      audit_of 1 ''publish'' ''rule_version'' '''' ''r3'' ''ip'' ''success'' '''' 4] empty_table\<rparr>\<rparr>"

theorem audit_pages_witness:
  "follow (audit_fetch audited 1) (Suc (length (tb_rows (d_audit (w_db audited))))) ''''
     = Some (order_desc log_key (map (audit_log (w_db audited)) (tb_rows (d_audit (w_db audited)))))"
  by (rule audit_pages) (simp_all add: audited_def insert_rows_def insert_row_def empty_table_def auto_ok_def
      audit_of_def int64_max_def)

end
