(* ===== verification/QueryIngest.thy ===== *)
theory QueryIngest
  imports Operations "HOL-Library.Log_Nat" "HOL-Library.Signed_Division" "HOL-Library.AList"
begin

text \<open>
  The query ingestion service (\<open>internal/queryingest/service.go\<close>): validation, the bounded queue,
  the writer that persists batches and counts them into the hourly tables, the live
  subscribers, the answer diagnostics, the paged queries, the statistics and the retention.
  The state of the service is the first part of \<open>w_ext\<close>; the second is what lies outside (the
  file system here). A goroutine is a group of steps (see \<open>ingest_run\<close>). A nil and an empty list of
  categories are one.
\<close>

section \<open>Data\<close>

record Event = query_cols +
  ev_SchemaVersion :: int
  ev_ProcessStartedAtMS :: int
  ev_AnswerIPs :: "string list"
  ev_AnswerRecords :: "string list"

record EventBatch =
  ba_SchemaVersion :: int
  ba_SenderID :: string
  ba_SentAtMS :: int
  ba_Events :: "Event list"

record Query =
  qu_Limit :: int
  qu_FromMS :: int
  qu_ToMS :: int
  qu_QType :: int
  qu_RCode :: "int option"
  qu_CacheHit :: "bool option"
  qu_HasError :: "bool option"
  qu_Cursor :: string
  qu_ClientIP :: string
  qu_Route :: string
  qu_QName :: string
  qu_QNameMatch :: string
  qu_RouteSource :: string
  qu_UpstreamGroup :: string
  qu_UpstreamTag :: string
  qu_Protocol :: string
  qu_ResultClass :: string

record StoredEvent = query_cols +
  sv_ID :: int
  sv_ResultClass :: string
  sv_DeviceName :: string

record AnswerDiagnostics =
  ad_AnswerIPs :: "string list"
  ad_AnswerRecords :: "string list"

text \<open>A buffered channel; sending to a closed one or closing it again is a panic.\<close>

record channel =
  ch_buf :: "StoredEvent list"
  ch_closed :: bool

record metrics =
  m_received :: nat
  m_rejected :: nat
  m_queueFull :: nat
  m_written :: nat
  m_sseDropped :: nat
  m_queue :: int
  m_subscribers :: int

datatype writer_mode = Running | Draining | Stopped

text \<open>
  \<open>i_batch\<close> is the slice \<open>events\<close> of the writer, \<open>i_mode\<close> the loop it is in; \<open>i_chans\<close> are the
  channels made so far, under the id of their subscription; \<open>i_panic\<close> records a panic.
\<close>

record ingest_state =
  i_token :: string
  i_dbPath :: string
  i_queue :: "Event list"
  i_batch :: "Event list"
  i_mode :: writer_mode
  i_done :: bool
  i_nextSubscriber :: nat
  i_subscribers :: "(nat \<times> Query) list"
  i_chans :: "(nat \<times> channel) list"
  i_answers :: "(string \<times> AnswerDiagnostics) list"
  i_order :: "string list"
  i_metrics :: metrics
  i_retentionDays :: int
  i_databaseMaxBytes :: int
  i_maintenance :: bool
  i_panic :: bool

type_synonym 'm iworld = "(ingest_state \<times> 'm) world"

text \<open>
  What is outside: the library functions of Go, the calendar of \<open>time.AddDate\<close> (years and days
  back, in milliseconds), the size of a file, and the order in which SQLite lists groups with
  the same count.
\<close>

datatype top_key = Key string | Code int

record 'm ingestlib = golib +
  il_AddDate :: "int \<Rightarrow> int \<Rightarrow> int \<Rightarrow> int"
  il_Size :: "string \<Rightarrow> 'm \<Rightarrow> int option"
  il_arrange :: "(top_key \<times> int) list \<Rightarrow> (top_key \<times> int) list"

definition maxBatchEvents :: nat where "maxBatchEvents = 500"
definition queueCapacity :: nat where "queueCapacity = 8192"
definition batchSize :: nat where "batchSize = 500"
definition maxAnswerIPs :: nat where "maxAnswerIPs = 16"
definition maxAnswerRecords :: nat where "maxAnswerRecords = 32"
definition maxAnswerRecordBytes :: nat where "maxAnswerRecordBytes = 1024"
definition maxAnswerRecordsBytes :: nat where "maxAnswerRecordsBytes = 16 * 1024"
definition maxAnswerDiagnostics :: nat where "maxAnswerDiagnostics = 1024"
definition sizeRetentionBatch :: nat where "sizeRetentionBatch = 10000"
definition subscriberBuffer :: nat where "subscriberBuffer = 256"

definition latencyBucketBoundsUS :: "int list" where
  "latencyBucketBoundsUS = [1000, 5000, 10000, 25000, 50000, 100000, 250000, 500000, 1000000, 5000000, 10000000]"

definition New_ingest :: "string \<Rightarrow> string \<Rightarrow> ingest_state" where
  "New_ingest token dbPath = \<lparr>i_token = token, i_dbPath = dbPath, i_queue = [], i_batch = [], i_mode = Running,
     i_done = False, i_nextSubscriber = 0, i_subscribers = [], i_chans = [], i_answers = [], i_order = [],
     i_metrics = \<lparr>m_received = 0, m_rejected = 0, m_queueFull = 0, m_written = 0, m_sseDropped = 0, m_queue = 0,
       m_subscribers = 0\<rparr>,
     i_retentionDays = 7, i_databaseMaxBytes = 2 * 2 ^ 30, i_maintenance = False, i_panic = False\<rparr>"

definition on_state :: "(ingest_state \<Rightarrow> (error + 'a) \<times> ingest_state) \<Rightarrow> (error, 'm iworld, 'a) prog" where
  "on_state f = call (\<lambda>(s, m). case f s of (r, s') \<Rightarrow> (r, (s', m)))"

definition change :: "(ingest_state \<Rightarrow> ingest_state) \<Rightarrow> (error, 'm iworld, unit) prog" where
  "change f = on_state (\<lambda>s. (Inr (), f s))"

definition state :: "(error, 'm iworld, ingest_state) prog" where
  "state = on_state (\<lambda>s. (Inr s, s))"

definition count_metric :: "(metrics \<Rightarrow> metrics) \<Rightarrow> ingest_state \<Rightarrow> ingest_state" where
  "count_metric f s = s\<lparr>i_metrics := f (i_metrics s)\<rparr>"

section \<open>Receiving\<close>

definition Authorized :: "string \<Rightarrow> ingest_state \<Rightarrow> bool" where
  "Authorized header s =
     (if \<not> HasPrefix header ''Bearer '' then False
      else TrimSpace (TrimPrefix header ''Bearer '') = i_token s)"

fun answer_records_check :: "nat \<Rightarrow> string list \<Rightarrow> error + unit" where
  "answer_records_check recordBytes [] = Inr ()"
| "answer_records_check recordBytes (r # rs) =
     (if length r = 0 \<or> maxAnswerRecordBytes < length r then Inl (Msg ''invalid answer record'')
      else if maxAnswerRecordsBytes < recordBytes + length r then Inl (Msg ''answer records exceed size limit'')
      else answer_records_check (recordBytes + length r) rs)"

definition validateEvent :: "'z golib_scheme \<Rightarrow> Event \<Rightarrow> error + unit" where
  "validateEvent L e =
     (if (ev_SchemaVersion e \<noteq> 2 \<and> ev_SchemaVersion e \<noteq> 3) \<or> length (q_EventID e) = 0 \<or> 128 < length (q_EventID e)
         \<or> q_TimestampMS e \<le> 0
      then Inl (Msg ''invalid event'')
      else if lib_ParseAddr L (q_ClientIP e) = None \<or> length (q_QName e) = 0 \<or> 253 < length (q_QName e)
         \<or> ToLower L (TrimSuffix (q_QName e) ''.'') \<noteq> q_QName e
      then Inl (Msg ''invalid event fields'')
      else if q_QType e = 0 \<or> q_QClass e = 0 \<or> q_RCode e < 0 \<or> 23 < q_RCode e \<or> q_LatencyUS e < 0
         \<or> q_AnswerCount e < 0 \<or> q_SubscriptionBindingID e < 0
         \<or> (case q_AnswerMinTTLSeconds e of None \<Rightarrow> False | Some t \<Rightarrow> t < 0 \<or> 2 ^ 32 - 1 < t)
         \<or> drop_bit 1 (- 1 :: uint64) < q_Snapshot e
      then Inl (Msg ''invalid event values'')
      else if q_Protocol e \<noteq> ''udp'' \<and> q_Protocol e \<noteq> ''tcp''
         \<or> (q_Route e \<noteq> ''forward'' \<and> q_Route e \<noteq> ''block'' \<and> q_Route e \<noteq> ''local'')
         \<or> (q_RouteSource e \<noteq> ''default'' \<and> q_RouteSource e \<noteq> ''dynamic_rule'' \<and> q_RouteSource e \<noteq> ''subscription'')
      then Inl (Msg ''invalid event route'')
      else if list_ex (\<lambda>(v, n). n < length v)
         [(q_UpstreamGroup e, 128), (q_UpstreamTag e, 128), (q_ErrorCode e, 128), (q_ErrorText e, 4096)]
      then Inl (Msg ''event field exceeds limit'')
      else if maxAnswerIPs < length (ev_AnswerIPs e) then Inl (Msg ''too many answer IPs'')
      else if list_ex (\<lambda>ip. lib_ParseAddr L ip = None) (ev_AnswerIPs e) then Inl (Msg ''invalid answer IP'')
      else if maxAnswerRecords < length (ev_AnswerRecords e) then Inl (Msg ''too many answer records'')
      else answer_records_check 0 (ev_AnswerRecords e))"

fun validate_events :: "'z golib_scheme \<Rightarrow> Event list \<Rightarrow> error + unit" where
  "validate_events L [] = Inr ()"
| "validate_events L (e # es) = (case validateEvent L e of Inl err \<Rightarrow> Inl err | Inr _ \<Rightarrow> validate_events L es)"

definition validateBatch :: "'z golib_scheme \<Rightarrow> EventBatch \<Rightarrow> error + unit" where
  "validateBatch L b =
     (if (ba_SchemaVersion b \<noteq> 2 \<and> ba_SchemaVersion b \<noteq> 3) \<or> length (ba_SenderID b) = 0 \<or> 128 < length (ba_SenderID b)
         \<or> ba_SentAtMS b \<le> 0 \<or> length (ba_Events b) = 0 \<or> maxBatchEvents < length (ba_Events b)
      then Inl (Msg ''invalid event batch'')
      else validate_events L (ba_Events b))"

definition ErrOverloaded :: error where
  "ErrOverloaded = Msg ''ingestion queue is full''"

text \<open>The loop that sends the events; the branch \<open>default\<close> is that of a full queue.\<close>

fun enqueue_loop :: "Event list \<Rightarrow> ingest_state \<Rightarrow> (error + unit) \<times> ingest_state" where
  "enqueue_loop [] s = (Inr (), s)"
| "enqueue_loop (e # es) s =
     (if length (i_queue s) < queueCapacity then
        enqueue_loop es (count_metric (\<lambda>m. m\<lparr>m_received := m_received m + 1, m_queue := m_queue m + 1\<rparr>)
          (s\<lparr>i_queue := i_queue s @ [e]\<rparr>))
      else (Inl ErrOverloaded, count_metric (\<lambda>m. m\<lparr>m_queueFull := m_queueFull m + 1\<rparr>) s))"

definition Enqueue :: "'z golib_scheme \<Rightarrow> EventBatch \<Rightarrow> ingest_state \<Rightarrow> (error + unit) \<times> ingest_state" where
  "Enqueue L b s =
     (case validateBatch L b of
        Inl err \<Rightarrow> (Inl err, count_metric (\<lambda>m. m\<lparr>m_rejected := m_rejected m + 1\<rparr>) s)
      | Inr _ \<Rightarrow>
          (if queueCapacity < length (i_queue s) + length (ba_Events b)
           then (Inl ErrOverloaded, count_metric (\<lambda>m. m\<lparr>m_queueFull := m_queueFull m + 1\<rparr>) s)
           else enqueue_loop (ba_Events b) s))"

section \<open>Writing\<close>

definition boolInt :: "bool \<Rightarrow> int" where
  "boolInt v = (if v then 1 else 0)"

definition resultClass :: "'z query_cols_scheme \<Rightarrow> string" where
  "resultClass e =
     (if q_Route e = ''block'' then ''policy_block''
      else if q_ErrorCode e \<noteq> '''' \<or> q_ErrorText e \<noteq> '''' \<or> (q_RCode e \<noteq> 0 \<and> q_RCode e \<noteq> 3) then ''processing_error''
      else if q_RCode e = 3 \<or> q_AnswerCount e = 0 then ''negative_answer''
      else ''success'')"

definition fromEvent :: "Event \<Rightarrow> StoredEvent" where
  "fromEvent e = query_cols.extend (query_cols.truncate e) (StoredEvent.fields 0 (resultClass e) '''')"

definition query_row_of :: "Event \<Rightarrow> int \<Rightarrow> query_row" where
  "query_row_of e now = query_cols.extend (query_cols.truncate e) (query_row.fields (resultClass e) now)"

definition query_check :: "query_row \<Rightarrow> bool" where
  "query_check r = (q_Route r \<in> set [''forward'', ''block'', ''local'']
     \<and> q_result_class r \<in> set [''success'', ''negative_answer'', ''policy_block'', ''processing_error''])"

text \<open>\<open>INSERT OR IGNORE\<close>, with the id when a row was inserted.\<close>

definition insert_query :: "query_row \<Rightarrow> db \<Rightarrow> error + int option \<times> db" where
  "insert_query r d =
     (if list_ex (\<lambda>(_, q). q_EventID q = q_EventID r) (tb_rows (d_queries d)) \<or> \<not> query_check r then Inr (None, d)
      else Inr (Some (tb_seq (d_queries d) + 1), d\<lparr>d_queries := insert_row r (d_queries d)\<rparr>))"

text \<open>The statements of \<open>aggregate\<close>, in order.\<close>

definition touch_device :: "Event \<Rightarrow> int \<Rightarrow> db \<Rightarrow> error + db" where
  "touch_device e now d =
     (if list_ex (\<lambda>(_, v). dv_ip v = q_ClientIP e) (tb_rows (d_devices d))
      then Inr (d\<lparr>d_devices := update_where (\<lambda>_ v. dv_ip v = q_ClientIP e)
             (\<lambda>v. v\<lparr>dv_last_seen_at_ms := max (dv_last_seen_at_ms v) (q_TimestampMS e), dv_updated_at_ms := now\<rparr>)
             (d_devices d)\<rparr>)
      else Inr (d\<lparr>d_devices := insert_row \<lparr>dv_ip = q_ClientIP e, dv_mac = None, dv_hostname = None, dv_display_name = None,
             dv_note = '''', dv_source = ''observed'', dv_first_seen_at_ms = q_TimestampMS e,
             dv_last_seen_at_ms = q_TimestampMS e, dv_updated_at_ms = now\<rparr> (d_devices d)\<rparr>))"

definition hour_of :: "'z query_cols_scheme \<Rightarrow> int" where
  "hour_of e = q_TimestampMS e sdiv 3600000 * 3600000"

definition stat_of :: "'z query_cols_scheme \<Rightarrow> stat" where
  "stat_of e = \<lparr>sc_query_count = 1, sc_error_count = boolInt (resultClass e = ''processing_error''),
     sc_cache_hit_count = boolInt (q_CacheHit e), sc_latency_sum_us = q_LatencyUS e\<rparr>"

definition max_stat_of :: "'z query_cols_scheme \<Rightarrow> max_stat" where
  "max_stat_of e = stat.extend (stat_of e) (max_stat.fields (q_LatencyUS e))"

definition global_stat_of :: "'z query_cols_scheme \<Rightarrow> global_stat" where
  "global_stat_of e = max_stat.extend (max_stat_of e) (global_stat.fields
     (boolInt (resultClass e = ''success'')) (boolInt (resultClass e = ''negative_answer''))
     (boolInt (resultClass e = ''policy_block'')) (boolInt (resultClass e = ''processing_error'')))"

text \<open>The \<open>DO UPDATE\<close> clauses; \<open>query_count + 1\<close> adds the count of the one excluded row.\<close>

definition add_stat :: "stat \<Rightarrow> stat \<Rightarrow> stat" where
  "add_stat s x = s\<lparr>sc_query_count := sc_query_count s + 1, sc_error_count := sc_error_count s + sc_error_count x,
     sc_cache_hit_count := sc_cache_hit_count s + sc_cache_hit_count x,
     sc_latency_sum_us := sc_latency_sum_us s + sc_latency_sum_us x\<rparr>"

definition add_max_stat :: "max_stat \<Rightarrow> max_stat \<Rightarrow> max_stat" where
  "add_max_stat s x = s\<lparr>sc_query_count := sc_query_count s + 1, sc_error_count := sc_error_count s + sc_error_count x,
     sc_cache_hit_count := sc_cache_hit_count s + sc_cache_hit_count x,
     sc_latency_sum_us := sc_latency_sum_us s + sc_latency_sum_us x,
     sc_latency_max_us := max (sc_latency_max_us s) (sc_latency_max_us x)\<rparr>"

definition add_global_stat :: "global_stat \<Rightarrow> global_stat \<Rightarrow> global_stat" where
  "add_global_stat s x = s\<lparr>sc_query_count := sc_query_count s + 1, sc_error_count := sc_error_count s + sc_error_count x,
     sc_cache_hit_count := sc_cache_hit_count s + sc_cache_hit_count x,
     sc_latency_sum_us := sc_latency_sum_us s + sc_latency_sum_us x,
     sc_latency_max_us := max (sc_latency_max_us s) (sc_latency_max_us x),
     sc_success_count := sc_success_count s + sc_success_count x,
     sc_negative_answer_count := sc_negative_answer_count s + sc_negative_answer_count x,
     sc_policy_block_count := sc_policy_block_count s + sc_policy_block_count x,
     sc_processing_error_count := sc_processing_error_count s + sc_processing_error_count x\<rparr>"

definition upper_bound :: "int \<Rightarrow> int" where
  "upper_bound latency = (case find (\<lambda>candidate. latency \<le> candidate) latencyBucketBoundsUS of
     Some candidate \<Rightarrow> candidate | None \<Rightarrow> last latencyBucketBoundsUS)"

definition on_hourly :: "(hourly \<Rightarrow> hourly) \<Rightarrow> db \<Rightarrow> error + db" where
  "on_hourly f d = Inr (d\<lparr>d_hourly := f (d_hourly d)\<rparr>)"

definition count_global :: "'z query_cols_scheme \<Rightarrow> hourly \<Rightarrow> hourly" where
  "count_global e h = h\<lparr>h_global := upsert add_global_stat
     (hour_of e, q_Route e, q_QType e, q_RCode e) (global_stat_of e) (h_global h)\<rparr>"

definition count_domain :: "'z query_cols_scheme \<Rightarrow> hourly \<Rightarrow> hourly" where
  "count_domain e h = h\<lparr>h_domain := upsert add_stat (hour_of e, q_QName e, q_Route e) (stat_of e) (h_domain h)\<rparr>"

definition count_client :: "'z query_cols_scheme \<Rightarrow> hourly \<Rightarrow> hourly" where
  "count_client e h = h\<lparr>h_client := upsert add_stat (hour_of e, q_ClientIP e, q_Route e) (stat_of e) (h_client h)\<rparr>"

definition count_client_domain :: "'z query_cols_scheme \<Rightarrow> hourly \<Rightarrow> hourly" where
  "count_client_domain e h = h\<lparr>h_client_domain := upsert (\<lambda>n _. n + 1)
     (hour_of e, q_ClientIP e, q_QName e, q_Route e) 1 (h_client_domain h)\<rparr>"

definition count_group :: "'z query_cols_scheme \<Rightarrow> hourly \<Rightarrow> hourly" where
  "count_group e h = h\<lparr>h_upstream_group := upsert add_max_stat (hour_of e, q_UpstreamGroup e) (max_stat_of e)
     (h_upstream_group h)\<rparr>"

definition count_latency :: "'z query_cols_scheme \<Rightarrow> hourly \<Rightarrow> hourly" where
  "count_latency e h = h\<lparr>h_latency_bucket := upsert (\<lambda>n _. n + 1) (hour_of e, upper_bound (q_LatencyUS e)) 1
     (h_latency_bucket h)\<rparr>"

definition statements :: "'z query_cols_scheme \<Rightarrow> (hourly \<Rightarrow> hourly) list" where
  "statements e = [count_global e, count_domain e, count_client e, count_client_domain e]
     @ (if q_UpstreamGroup e \<noteq> '''' then [count_group e] else []) @ [count_latency e]"

definition aggregate :: "int \<Rightarrow> Event \<Rightarrow> (error, 'm world, unit) prog" where
  "aggregate now e =
     bindM (db_exec (touch_device e now)) (\<lambda>_.
     traverseM (\<lambda>f. db_exec (on_hourly f)) (statements e))"

text \<open>The first loop of \<open>persist\<close>: the events inserted, and as stored.\<close>

fun insert_events :: "int \<Rightarrow> Event list \<Rightarrow> (error, 'm world, (Event \<times> StoredEvent) list) prog" where
  "insert_events now [] = returnM []"
| "insert_events now (e # es) =
     bindM (db_run (insert_query (query_row_of e now))) (\<lambda>n.
     bindM (insert_events now es) (\<lambda>rest.
     returnM (case n of None \<Rightarrow> rest | Some i \<Rightarrow> (e, (fromEvent e)\<lparr>sv_ID := i\<rparr>) # rest)))"

fun cacheAnswerDiagnostics :: "Event list \<Rightarrow> ingest_state \<Rightarrow> ingest_state" where
  "cacheAnswerDiagnostics [] s = s"
| "cacheAnswerDiagnostics (e # es) s =
     (if map_of (i_answers s) (q_EventID e) \<noteq> None then cacheAnswerDiagnostics es s
      else
        let s = s\<lparr>i_answers := (q_EventID e, \<lparr>ad_AnswerIPs = ev_AnswerIPs e, ad_AnswerRecords = ev_AnswerRecords e\<rparr>)
                    # i_answers s,
                  i_order := i_order s @ [q_EventID e]\<rparr>;
            s = (if maxAnswerDiagnostics < length (i_order s)
                 then s\<lparr>i_answers := filter (\<lambda>(k, _). k \<noteq> hd (i_order s)) (i_answers s), i_order := tl (i_order s)\<rparr>
                 else s)
        in cacheAnswerDiagnostics es s)"

definition AnswerDiagnosticsOf :: "string \<Rightarrow> ingest_state \<Rightarrow> AnswerDiagnostics \<times> bool" where
  "AnswerDiagnosticsOf eventID s = (case map_of (i_answers s) eventID of
     None \<Rightarrow> (\<lparr>ad_AnswerIPs = [], ad_AnswerRecords = []\<rparr>, False) | Some a \<Rightarrow> (a, True))"

text \<open>\<open>SELECT COALESCE(NULLIF(display_name,''),hostname,'')\<close>\<close>

definition device_name :: "string \<Rightarrow> db \<Rightarrow> string" where
  "device_name ip d =
     (case find (\<lambda>(_, v). dv_ip v = ip) (tb_rows (d_devices d)) of
        None \<Rightarrow> ''''
      | Some (_, v) \<Rightarrow>
          (case (if dv_display_name v = Some '''' then None else dv_display_name v, dv_hostname v) of
             (Some n, _) \<Rightarrow> n | (None, Some n) \<Rightarrow> n | (None, None) \<Rightarrow> ''''))"

definition select_device_name :: "string \<Rightarrow> db \<Rightarrow> error + string" where
  "select_device_name ip d =
     (if list_ex (\<lambda>(_, v). dv_ip v = ip) (tb_rows (d_devices d)) then Inr (device_name ip d) else Inl ErrNoRows)"

fun name_devices :: "StoredEvent list \<Rightarrow> (error, 'm world, StoredEvent list) prog" where
  "name_devices [] = returnM []"
| "name_devices (e # es) =
     bindM (attemptM (db_query (select_device_name (q_ClientIP e)))) (\<lambda>r.
     bindM (name_devices es) (\<lambda>es'.
     returnM ((case r of Inl _ \<Rightarrow> e | Inr n \<Rightarrow> e\<lparr>sv_DeviceName := n\<rparr>) # es')))"

definition persist_tx :: "Event list \<Rightarrow> (error, 'm world, (Event \<times> StoredEvent) list) prog" where
  "persist_tx events = transaction (
     bindM time_now (\<lambda>now.
     bindM (insert_events now events) (\<lambda>inserted.
     bindM (traverseM (aggregate now) (map fst inserted)) (\<lambda>_.
     bindM (db_exec (put_state ''last_successful_ingest_at'' (FormatInt now))) (\<lambda>_.
     returnM inserted)))))"

definition persist :: "Event list \<Rightarrow> (error, 'm iworld, StoredEvent list) prog" where
  "persist events =
     bindM (persist_tx events) (\<lambda>inserted.
     bindM (change (cacheAnswerDiagnostics (map fst inserted))) (\<lambda>_.
     bindM (name_devices (map snd inserted)) (\<lambda>stored.
     bindM (change (count_metric (\<lambda>m. m\<lparr>m_written := m_written m + length stored\<rparr>))) (\<lambda>_.
     returnM stored))))"

section \<open>Conditions of a query\<close>

definition week_ms :: int where "week_ms = 7 * 24 * 3600000"

definition check_query :: "'z golib_scheme \<Rightarrow> Query \<Rightarrow> error + unit" where
  "check_query L q =
     (if qu_ClientIP q \<noteq> '''' \<and> lib_ParseAddr L (qu_ClientIP q) = None then Inl (Msg ''invalid client_ip'')
      else if qu_Route q \<noteq> '''' \<and> qu_Route q \<noteq> ''forward'' \<and> qu_Route q \<noteq> ''block'' \<and> qu_Route q \<noteq> ''local''
      then Inl (Msg ''invalid route'')
      else if qu_QNameMatch q \<noteq> '''' \<and> qu_QNameMatch q \<noteq> ''exact'' \<and> qu_QNameMatch q \<noteq> ''contains''
      then Inl (Msg ''invalid qname_match'')
      else if qu_QType q < 0 \<or> 65535 < qu_QType q then Inl (Msg ''invalid qtype'')
      else if (case qu_RCode q of None \<Rightarrow> False | Some c \<Rightarrow> c < 0 \<or> 65535 < c) then Inl (Msg ''invalid rcode'')
      else if qu_ResultClass q \<noteq> '''' \<and> qu_ResultClass q \<noteq> ''success'' \<and> qu_ResultClass q \<noteq> ''negative_answer''
         \<and> qu_ResultClass q \<noteq> ''policy_block'' \<and> qu_ResultClass q \<noteq> ''processing_error''
      then Inl (Msg ''invalid result_class'')
      else if qu_FromMS q < 0 \<or> qu_ToMS q < 0 \<or> (qu_FromMS q \<noteq> 0 \<and> qu_ToMS q \<noteq> 0 \<and> qu_ToMS q < qu_FromMS q)
      then Inl (Msg ''invalid time range'')
      else if qu_QName q \<noteq> '''' \<and> qu_QNameMatch q = ''contains''
         \<and> (qu_FromMS q = 0 \<or> qu_ToMS q = 0 \<or> week_ms < qu_ToMS q - qu_FromMS q)
      then Inl (Msg ''qname contains requires a time range of at most 7 days'')
      else Inr ())"

definition escapeLike :: "string \<Rightarrow> string" where
  "escapeLike value = concat (map (\<lambda>c. if c = CHR 0x5C then [CHR 0x5C, CHR 0x5C]
     else if c = CHR ''%'' then [CHR 0x5C, CHR ''%''] else if c = CHR ''_'' then [CHR 0x5C, CHR ''_''] else [c]) value)"

text \<open>
  SQLite's \<open>s LIKE p ESCAPE '\\'\<close>: \<open>%\<close> stands for any string, \<open>_\<close> for a character, the rest is
  compared without the case of ASCII letters.
\<close>

fun like :: "string \<Rightarrow> string \<Rightarrow> bool" where
  "like [] s = (s = [])"
| "like (c # p) s =
     (if c = CHR ''%'' then list_ex (\<lambda>n. like p (drop n s)) [0..<Suc (length s)]
      else if c = CHR ''_'' then (s \<noteq> [] \<and> like p (tl s))
      else if c = CHR 0x5C then
        (case p of [] \<Rightarrow> False
         | d # p' \<Rightarrow> (s \<noteq> [] \<and> lower_byte (hd s) = lower_byte d \<and> like p' (tl s)))
      else (s \<noteq> [] \<and> lower_byte (hd s) = lower_byte c \<and> like p (tl s)))"

text \<open>
  One condition of the WHERE clause. \<open>where_clause\<close> is the list that \<open>queryConditions\<close> builds, \<open>holds\<close> what SQLite makes
  of a condition on a row.
\<close>

datatype condition =
    From int | To int | ClientIs string | RouteIs string | RouteSourceIs string | TagIs string
  | GroupIs string | ProtocolIs string | QTypeIs int | RCodeIs int | CacheHitIs int
  | ClassIs string | ClassIsNot string | NameLike string | NameIs string

definition holds :: "query_row \<Rightarrow> condition \<Rightarrow> bool" where
  "holds r c = (case c of
       From n \<Rightarrow> n \<le> q_TimestampMS r
     | To n \<Rightarrow> q_TimestampMS r \<le> n
     | ClientIs v \<Rightarrow> q_ClientIP r = v
     | RouteIs v \<Rightarrow> q_Route r = v
     | RouteSourceIs v \<Rightarrow> q_RouteSource r = v
     | TagIs v \<Rightarrow> q_UpstreamTag r = v
     | GroupIs v \<Rightarrow> q_UpstreamGroup r = v
     | ProtocolIs v \<Rightarrow> q_Protocol r = v
     | QTypeIs n \<Rightarrow> uint (q_QType r) = n
     | RCodeIs n \<Rightarrow> q_RCode r = n
     | CacheHitIs n \<Rightarrow> boolInt (q_CacheHit r) = n
     | ClassIs v \<Rightarrow> q_result_class r = v
     | ClassIsNot v \<Rightarrow> q_result_class r \<noteq> v
     | NameLike p \<Rightarrow> like p (q_QName r)
     | NameIs v \<Rightarrow> q_QName r = v)"

definition where_clause :: "Query \<Rightarrow> condition list" where
  "where_clause q =
     (if qu_FromMS q \<noteq> 0 then [From (qu_FromMS q)] else []) @
     (if qu_ToMS q \<noteq> 0 then [To (qu_ToMS q)] else []) @
     (if qu_ClientIP q \<noteq> '''' then [ClientIs (qu_ClientIP q)] else []) @
     (if qu_Route q \<noteq> '''' then [RouteIs (qu_Route q)] else []) @
     (if qu_RouteSource q \<noteq> '''' then [RouteSourceIs (qu_RouteSource q)] else []) @
     (if qu_UpstreamTag q \<noteq> '''' then [TagIs (qu_UpstreamTag q)] else []) @
     (if qu_UpstreamGroup q \<noteq> '''' then [GroupIs (qu_UpstreamGroup q)] else []) @
     (if qu_Protocol q \<noteq> '''' then [ProtocolIs (qu_Protocol q)] else []) @
     (if qu_QType q \<noteq> 0 then [QTypeIs (qu_QType q)] else []) @
     (case qu_RCode q of None \<Rightarrow> [] | Some c \<Rightarrow> [RCodeIs c]) @
     (case qu_CacheHit q of None \<Rightarrow> [] | Some b \<Rightarrow> [CacheHitIs (boolInt b)]) @
     (case qu_HasError q of None \<Rightarrow> []
      | Some b \<Rightarrow> if b then [ClassIs ''processing_error''] else [ClassIsNot ''processing_error'']) @
     (if qu_ResultClass q \<noteq> '''' then [ClassIs (qu_ResultClass q)] else []) @
     (if qu_QName q \<noteq> '''' then
        (if qu_QNameMatch q = ''contains''
         then [NameLike (''%'' @ escapeLike (qu_QName q) @ ''%'')] else [NameIs (qu_QName q)])
      else [])"

definition queryConditions :: "'z golib_scheme \<Rightarrow> Query \<Rightarrow> error + condition list" where
  "queryConditions L q = (case check_query L q of Inl e \<Rightarrow> Inl e | Inr _ \<Rightarrow> Inr (where_clause q))"

definition queryMatches :: "StoredEvent \<Rightarrow> Query \<Rightarrow> bool" where
  "queryMatches event q =
     (if qu_FromMS q \<noteq> 0 \<and> q_TimestampMS event < qu_FromMS q
         \<or> qu_ToMS q \<noteq> 0 \<and> qu_ToMS q < q_TimestampMS event
         \<or> qu_ClientIP q \<noteq> '''' \<and> q_ClientIP event \<noteq> qu_ClientIP q
         \<or> qu_Route q \<noteq> '''' \<and> q_Route event \<noteq> qu_Route q
         \<or> qu_RouteSource q \<noteq> '''' \<and> q_RouteSource event \<noteq> qu_RouteSource q
         \<or> qu_UpstreamGroup q \<noteq> '''' \<and> q_UpstreamGroup event \<noteq> qu_UpstreamGroup q
         \<or> qu_UpstreamTag q \<noteq> '''' \<and> q_UpstreamTag event \<noteq> qu_UpstreamTag q
         \<or> qu_Protocol q \<noteq> '''' \<and> q_Protocol event \<noteq> qu_Protocol q
         \<or> qu_QType q \<noteq> 0 \<and> uint (q_QType event) \<noteq> qu_QType q
         \<or> (case qu_RCode q of None \<Rightarrow> False | Some c \<Rightarrow> q_RCode event \<noteq> c)
         \<or> (case qu_CacheHit q of None \<Rightarrow> False | Some b \<Rightarrow> q_CacheHit event \<noteq> b)
      then False
      else if (case qu_HasError q of None \<Rightarrow> False
               | Some b \<Rightarrow> (sv_ResultClass event = ''processing_error'') \<noteq> b) then False
      else if qu_ResultClass q \<noteq> '''' \<and> sv_ResultClass event \<noteq> qu_ResultClass q then False
      else if qu_QName q = '''' then True
      else if qu_QNameMatch q = ''contains'' then Contains (q_QName event) (qu_QName q)
      else q_QName event = qu_QName q)"

section \<open>Subscribers\<close>

definition chan_of :: "nat \<Rightarrow> ingest_state \<Rightarrow> channel" where
  "chan_of i s = (case map_of (i_chans s) i of Some c \<Rightarrow> c | None \<Rightarrow> \<lparr>ch_buf = [], ch_closed = True\<rparr>)"

definition set_chan :: "nat \<Rightarrow> channel \<Rightarrow> ingest_state \<Rightarrow> ingest_state" where
  "set_chan i c s = s\<lparr>i_chans := AList.update i c (i_chans s)\<rparr>"

definition drop_subscriber :: "nat \<Rightarrow> ingest_state \<Rightarrow> ingest_state" where
  "drop_subscriber i s = s\<lparr>i_subscribers := filter (\<lambda>(j, _). j \<noteq> i) (i_subscribers s)\<rparr>"

text \<open>\<open>close(ch)\<close>\<close>

definition close_chan :: "nat \<Rightarrow> ingest_state \<Rightarrow> ingest_state" where
  "close_chan i s = (if ch_closed (chan_of i s) then s\<lparr>i_panic := True\<rparr>
     else set_chan i ((chan_of i s)\<lparr>ch_closed := True\<rparr>) s)"

definition Subscribe :: "'z golib_scheme \<Rightarrow> Query \<Rightarrow> ingest_state \<Rightarrow> (error + nat) \<times> ingest_state" where
  "Subscribe L q s =
     (case queryConditions L q of
        Inl e \<Rightarrow> (Inl e, s)
      | Inr _ \<Rightarrow>
          (let i = i_nextSubscriber s in
           (Inr i, count_metric (\<lambda>m. m\<lparr>m_subscribers := m_subscribers m + 1\<rparr>)
             (s\<lparr>i_nextSubscriber := i + 1, i_chans := (i, \<lparr>ch_buf = [], ch_closed = False\<rparr>) # i_chans s,
                i_subscribers := i_subscribers s @ [(i, q)]\<rparr>))))"

text \<open>The function \<open>close\<close> of a subscriber.\<close>

definition close_subscriber :: "nat \<Rightarrow> ingest_state \<Rightarrow> ingest_state" where
  "close_subscriber i s =
     (if map_of (i_subscribers s) i \<noteq> None
      then count_metric (\<lambda>m. m\<lparr>m_subscribers := m_subscribers m - 1\<rparr>) (close_chan i (drop_subscriber i s))
      else s)"

text \<open>The select of \<open>publish\<close>: a send to a full channel takes the branch \<open>default\<close>.\<close>

definition offer :: "StoredEvent \<Rightarrow> nat \<times> Query \<Rightarrow> ingest_state \<Rightarrow> ingest_state" where
  "offer e = (\<lambda>(i, q) s.
     (if \<not> queryMatches e q then s
      else if ch_closed (chan_of i s) then s\<lparr>i_panic := True\<rparr>
      else if length (ch_buf (chan_of i s)) < subscriberBuffer
      then set_chan i ((chan_of i s)\<lparr>ch_buf := ch_buf (chan_of i s) @ [e]\<rparr>) s
      else count_metric (\<lambda>m. m\<lparr>m_subscribers := m_subscribers m - 1, m_sseDropped := m_sseDropped m + 1\<rparr>)
             (close_chan i (drop_subscriber i s))))"

definition publish_event :: "StoredEvent \<Rightarrow> ingest_state \<Rightarrow> ingest_state" where
  "publish_event e s = fold (offer e) (i_subscribers s) s"

definition publish_events :: "StoredEvent list \<Rightarrow> ingest_state \<Rightarrow> ingest_state" where
  "publish_events events s = fold publish_event events s"

text \<open>What the reader of a channel does: it takes the next event or sees the end.\<close>

definition receive :: "nat \<Rightarrow> ingest_state \<Rightarrow> StoredEvent option \<times> ingest_state" where
  "receive i s = (case ch_buf (chan_of i s) of
     [] \<Rightarrow> (None, s)
   | e # es \<Rightarrow> (Some e, set_chan i ((chan_of i s)\<lparr>ch_buf := es\<rparr>) s))"

section \<open>The writer\<close>

definition flush :: "(error, 'm iworld, unit) prog" where
  "flush =
     bindM state (\<lambda>s.
     if i_batch s = [] then returnM ()
     else
       bindM (attemptM (persist (i_batch s))) (\<lambda>r.
       bindM (case r of Inr committed \<Rightarrow> change (publish_events committed) | Inl _ \<Rightarrow> returnM ()) (\<lambda>_.
       change (\<lambda>s. s\<lparr>i_batch := []\<rparr>))))"

text \<open>
  One turn of the writer. \<open>Take\<close> is the case of the queue, \<open>Tick\<close> that of the ticker, \<open>Leave\<close>
  that of \<open>done\<close>; in the loop that drains the queue \<open>Leave\<close> is the branch \<open>default\<close>. A turn that
  is not ready does nothing.
\<close>

datatype turn = Take | Tick | Leave

definition take_event :: "ingest_state \<Rightarrow> ingest_state" where
  "take_event s = count_metric (\<lambda>m. m\<lparr>m_queue := m_queue m - 1\<rparr>)
     (s\<lparr>i_queue := tl (i_queue s), i_batch := i_batch s @ [hd (i_queue s)]\<rparr>)"

fun writer_turn :: "writer_mode \<Rightarrow> turn \<Rightarrow> ingest_state \<Rightarrow> (error, 'm iworld, unit) prog" where
  "writer_turn Running Take s =
     (if i_queue s = [] then returnM ()
      else bindM (change take_event) (\<lambda>_. if length (i_batch s) + 1 = batchSize then flush else returnM ()))"
| "writer_turn Running Tick s = flush"
| "writer_turn Running Leave s = (if i_done s then change (\<lambda>s. s\<lparr>i_mode := Draining\<rparr>) else returnM ())"
| "writer_turn Draining Take s = (if i_queue s = [] then returnM () else change take_event)"
| "writer_turn Draining Leave s =
     (if i_queue s = [] then bindM flush (\<lambda>_. change (\<lambda>s. s\<lparr>i_mode := Stopped\<rparr>)) else returnM ())"
| "writer_turn _ _ s = returnM ()"

definition writer :: "turn \<Rightarrow> (error, 'm iworld, unit) prog" where
  "writer t = bindM state (\<lambda>s. writer_turn (i_mode s) t s)"

text \<open>
  \<open>Close\<close> closes \<open>done\<close>, waits for the goroutines, and closes what subscribers are left.
\<close>

definition close_begin :: "ingest_state \<Rightarrow> ingest_state" where
  "close_begin s = (if i_done s then s\<lparr>i_panic := True\<rparr> else s\<lparr>i_done := True\<rparr>)"

definition close_end :: "ingest_state \<Rightarrow> ingest_state" where
  "close_end s = (if i_mode s = Stopped
     then fold (\<lambda>(i, _) s. close_chan i (drop_subscriber i s)) (i_subscribers s) s else s)"

section \<open>Reading\<close>

definition query_key :: "int \<times> query_row \<Rightarrow> int \<times> int" where
  "query_key x = (q_TimestampMS (snd x), fst x)"

definition stored_key :: "StoredEvent \<Rightarrow> int \<times> int" where
  "stored_key e = (q_TimestampMS e, sv_ID e)"

text \<open>A row of the SELECT, joined with its device.\<close>

definition stored_event :: "db \<Rightarrow> int \<times> query_row \<Rightarrow> StoredEvent" where
  "stored_event d = (\<lambda>(i, r). query_cols.extend (query_cols.truncate r)
     (StoredEvent.fields i (q_result_class r) (device_name (q_ClientIP r) d)))"

definition query_limit :: "int \<Rightarrow> nat" where
  "query_limit limit = nat (if limit \<le> 0 \<or> 500 < limit then 100 else limit)"

definition query_cursor :: "string \<Rightarrow> error + (int \<times> int) option" where
  "query_cursor cursor =
     (if cursor = '''' then Inr None
      else case decodeCursor cursor of Inl _ \<Rightarrow> Inl (Msg ''invalid cursor'') | Inr k \<Rightarrow> Inr (Some k))"

definition matching :: "condition list \<Rightarrow> db \<Rightarrow> (int \<times> query_row) list" where
  "matching conditions d = filter (\<lambda>(_, r). list_all (holds r) conditions) (tb_rows (d_queries d))"

definition query_page :: "condition list \<Rightarrow> int \<Rightarrow> string \<Rightarrow> (error, 'm world, StoredEvent list \<times> string) prog" where
  "query_page conditions limit cursor =
     bindM (liftM (query_cursor cursor)) (\<lambda>after.
     bindM (db_query (\<lambda>d. Inr (map (stored_event d)
       (page_rows query_key (matching conditions d) after (Suc (query_limit limit)))))) (\<lambda>items.
     returnM (cut_page stored_key (query_limit limit) items)))"

definition Queries :: "'z golib_scheme \<Rightarrow> Query \<Rightarrow> (error, 'm world, StoredEvent list \<times> string) prog" where
  "Queries L q =
     bindM (liftM (queryConditions L q)) (\<lambda>conditions. query_page conditions (qu_Limit q) (qu_Cursor q))"

text \<open>\<open>SELECT k, SUM(n) ... GROUP BY k\<close>\<close>

definition group_sums :: "('k \<times> int) list \<Rightarrow> ('k \<times> int) list" where
  "group_sums xs = fold (\<lambda>(k, n). upsert (+) k n) xs []"

text \<open>
  The double precision numbers of \<open>int64(float64(samples)*percentile + 0.999999)\<close> in units of
  \<open>2^-53\<close>: \<open>0.95\<close> and \<open>0.999999\<close> are the nearest doubles, each operation rounds to 53 bits, ties to
  even.
\<close>

definition round_double :: "int \<Rightarrow> int" where
  "round_double n =
     (let k = bitlen n - 53 in
      if k \<le> 0 then n
      else let m = 2 ^ nat k; q = n div m; r = n mod m
           in (if 2 * r < m \<or> 2 * r = m \<and> even q then q else q + 1) * m)"

definition percentile_target :: "int \<Rightarrow> int" where
  "percentile_target samples =
     round_double (round_double (round_double samples * 8556839292003942) + 9007190247541737) div 2 ^ 53"

fun percentile_loop :: "int \<Rightarrow> int \<Rightarrow> (int \<times> int) list \<Rightarrow> int option" where
  "percentile_loop target cumulative [] = None"
| "percentile_loop target cumulative ((bound, n) # items) =
     (if target \<le> cumulative + n then Some bound else percentile_loop target (cumulative + n) items)"

text \<open>With \<open>percentile = 0.95\<close>, its only use.\<close>

definition latency_counts :: "int \<Rightarrow> db \<Rightarrow> (int \<times> int) list" where
  "latency_counts from d = sort_key fst (group_sums (map (\<lambda>((_, bound), n). (bound, n))
     (filter (\<lambda>((h, _), _). from \<le> h) (h_latency_bucket (d_hourly d)))))"

definition percentile_of :: "(int \<times> int) list \<Rightarrow> int \<times> int" where
  "percentile_of counts =
     (let samples = sum_list (map snd counts) in
      if samples = 0 then (0, 0)
      else case percentile_loop (percentile_target samples) 0 counts of
             Some bound \<Rightarrow> (bound, samples) | None \<Rightarrow> (0, samples))"

definition latencyPercentile :: "int \<Rightarrow> (error, 'm world, int \<times> int) prog" where
  "latencyPercentile from = bindM (db_query (\<lambda>d. Inr (latency_counts from d))) (\<lambda>counts. returnM (percentile_of counts))"

record Summary =
  sm_query_count :: int
  sm_last_hour_query_count :: int
  sm_average_latency_us :: int
  sm_p95_latency_us :: int
  sm_p95_sample_count :: int
  sm_max_latency_us :: int
  sm_processing_error_count :: int
  sm_success_count :: int
  sm_negative_answer_count :: int
  sm_policy_block_count :: int
  sm_cache_hit_count :: int

definition global_since :: "int \<Rightarrow> db \<Rightarrow> global_stat list" where
  "global_since from d = map snd (filter (\<lambda>((h, _), _). from \<le> h) (h_global (d_hourly d)))"

definition sum_by :: "('a \<Rightarrow> int) \<Rightarrow> 'a list \<Rightarrow> int" where
  "sum_by f xs = sum_list (map f xs)"

definition max_by :: "('a \<Rightarrow> int) \<Rightarrow> 'a list \<Rightarrow> int" where
  "max_by f xs = (if xs = [] then 0 else fold max (map f (tl xs)) (f (hd xs)))"

definition hour_ms :: int where "hour_ms = 3600000"

definition SummaryOf :: "(error, 'm world, Summary) prog" where
  "SummaryOf =
     bindM time_now (\<lambda>now.
     bindM (db_query (\<lambda>d. Inr (global_since (now - 24 * hour_ms) d))) (\<lambda>day.
     bindM time_now (\<lambda>now2.
     bindM (db_query (\<lambda>d. Inr (sum_by sc_query_count (global_since (now2 - hour_ms) d)))) (\<lambda>lastHourCount.
     bindM (latencyPercentile (now - 24 * hour_ms)) (\<lambda>(p95, samples).
     let count = sum_by sc_query_count day; latencySum = sum_by sc_latency_sum_us day;
         average = (if 0 < count then latencySum sdiv count else 0) in
     returnM \<lparr>sm_query_count = count, sm_last_hour_query_count = lastHourCount, sm_average_latency_us = average,
       sm_p95_latency_us = p95, sm_p95_sample_count = samples, sm_max_latency_us = max_by sc_latency_max_us day,
       sm_processing_error_count = sum_by sc_processing_error_count day,
       sm_success_count = sum_by sc_success_count day,
       sm_negative_answer_count = sum_by sc_negative_answer_count day,
       sm_policy_block_count = sum_by sc_policy_block_count day,
       sm_cache_hit_count = sum_by sc_cache_hit_count day\<rparr>)))))"

definition top_rows :: "string \<Rightarrow> int \<Rightarrow> hourly \<Rightarrow> (error + (top_key \<times> int) list)" where
  "top_rows kind from h =
     (if kind = ''domains'' then Inr (map (\<lambda>((_, n, _), s). (Key n, sc_query_count s)) (filter (\<lambda>((t, _), _). from \<le> t) (h_domain h)))
      else if kind = ''clients'' then Inr (map (\<lambda>((_, n, _), s). (Key n, sc_query_count s)) (filter (\<lambda>((t, _), _). from \<le> t) (h_client h)))
      else if kind = ''routes'' then Inr (map (\<lambda>((_, n, _), s). (Key n, sc_query_count s)) (filter (\<lambda>((t, _), _). from \<le> t) (h_global h)))
      else if kind = ''rcode'' then Inr (map (\<lambda>((_, _, _, c), s). (Code c, sc_query_count s)) (filter (\<lambda>((t, _), _). from \<le> t) (h_global h)))
      else if kind = ''upstream_groups'' then Inr (map (\<lambda>((_, n), s). (Key n, sc_query_count s)) (filter (\<lambda>((t, _), _). from \<le> t) (h_upstream_group h)))
      else Inl (Msg ''invalid statistic''))"

definition top_limit :: "int \<Rightarrow> nat" where
  "top_limit limit = nat (if limit \<le> 0 \<or> 100 < limit then 10 else limit)"

definition top_groups :: "'m ingestlib \<Rightarrow> int \<Rightarrow> (top_key \<times> int) list \<Rightarrow> (top_key \<times> int) list" where
  "top_groups L limit rows = take (top_limit limit) (sort_key (\<lambda>(_, n). - n) (il_arrange L (group_sums rows)))"

definition Top :: "'m ingestlib \<Rightarrow> string \<Rightarrow> int \<Rightarrow> (error, 'w world, (top_key \<times> int) list) prog" where
  "Top L kind limit =
     bindM (liftM (top_rows kind 0 empty_hourly)) (\<lambda>_.
     bindM time_now (\<lambda>now.
     db_query (\<lambda>d. case top_rows kind (now - 24 * hour_ms) (d_hourly d) of
       Inl e \<Rightarrow> Inl e | Inr rows \<Rightarrow> Inr (top_groups L limit rows))))"

record latency_row =
  lt_hour_start_ms :: int
  lt_query_count :: int
  lt_average_latency_us :: int
  lt_max_latency_us :: int

definition latency_rows :: "int \<Rightarrow> db \<Rightarrow> latency_row list" where
  "latency_rows from d =
     map (\<lambda>h. let rows = map snd (filter (\<lambda>((t, _), _). t = h) (h_global (d_hourly d)));
                  count = sum_by sc_query_count rows in
            \<lparr>lt_hour_start_ms = h, lt_query_count = count,
             lt_average_latency_us = sum_by sc_latency_sum_us rows sdiv count,
             lt_max_latency_us = max_by sc_latency_max_us rows\<rparr>)
       (sort (remdups (map (\<lambda>((h, _), _). h) (filter (\<lambda>((h, _), _). from \<le> h) (h_global (d_hourly d))))))"

definition Latency :: "(error, 'm world, latency_row list) prog" where
  "Latency = bindM time_now (\<lambda>now. db_query (\<lambda>d. Inr (latency_rows (now - 24 * hour_ms) d)))"

section \<open>Retention\<close>

definition prune :: "int \<Rightarrow> ((int \<times> 'k) \<times> 'v) list \<Rightarrow> ((int \<times> 'k) \<times> 'v) list" where
  "prune before xs = filter (\<lambda>((h, _), _). \<not> h < before) xs"

text \<open>The seven statements of the loop, with their years and days.\<close>

definition prune_statements :: "'m ingestlib \<Rightarrow> int \<Rightarrow> (db \<Rightarrow> error + db) list" where
  "prune_statements L now =
     (let days90 = il_AddDate L now 0 90; year = il_AddDate L now 1 0 in
      [on_hourly (\<lambda>h. h\<lparr>h_client_domain := prune days90 (h_client_domain h)\<rparr>),
       on_hourly (\<lambda>h. h\<lparr>h_domain := prune year (h_domain h)\<rparr>),
       on_hourly (\<lambda>h. h\<lparr>h_client := prune year (h_client h)\<rparr>),
       on_hourly (\<lambda>h. h\<lparr>h_global := prune year (h_global h)\<rparr>),
       on_hourly (\<lambda>h. h\<lparr>h_upstream_group := prune year (h_upstream_group h)\<rparr>),
       on_hourly (\<lambda>h. h\<lparr>h_latency_bucket := prune year (h_latency_bucket h)\<rparr>),
       (\<lambda>d. Inr (d\<lparr>d_audit := delete_where (\<lambda>_ a. au_created_at_ms a < year) (d_audit d)\<rparr>))])"

definition delete_queries :: "(int \<Rightarrow> query_row \<Rightarrow> bool) \<Rightarrow> db \<Rightarrow> error + db" where
  "delete_queries P d = Inr (d\<lparr>d_queries := delete_where P (d_queries d)\<rparr>)"

text \<open>\<open>SELECT id FROM dns_queries ORDER BY timestamp_unix_ms ASC LIMIT n\<close>; rows of the same time
  come in the order of their ids, as the index on (time, id) is read backwards.\<close>

definition oldest :: "nat \<Rightarrow> db \<Rightarrow> int list" where
  "oldest n d = map fst (take n (sort_key (\<lambda>(_, r). q_TimestampMS r) (tb_rows (d_queries d))))"

definition databaseBytes :: "'m ingestlib \<Rightarrow> string \<Rightarrow> 'm \<Rightarrow> int" where
  "databaseBytes L path m =
     (if path = '''' \<or> path = '':memory:'' then 0
      else sum_list (map (\<lambda>p. case il_Size L p m of None \<Rightarrow> 0 | Some n \<Rightarrow> n) [path, path @ ''-wal'']))"

definition retain :: "'m ingestlib \<Rightarrow> (error, 'm iworld, unit) prog" where
  "retain L =
     bindM time_now (\<lambda>now.
     bindM (traverseM db_exec (prune_statements L now)) (\<lambda>_.
     bindM state (\<lambda>s.
     bindM (db_exec (delete_queries (\<lambda>_ r. q_TimestampMS r < il_AddDate L now 0 (i_retentionDays s)))) (\<lambda>_.
     bindM (call (\<lambda>(s, m). (Inr (databaseBytes L (i_dbPath s) m), (s, m)))) (\<lambda>bytes.
     bindM (if i_databaseMaxBytes s * 9 sdiv 10 \<le> bytes
            then db_exec (\<lambda>d. let old = oldest sizeRetentionBatch d in delete_queries (\<lambda>i _. i \<in> set old) d)
            else returnM ()) (\<lambda>_.
     bindM (db_exec Inr) (\<lambda>_.
     db_exec (put_state ''last_retention_at'' (FormatInt now)))))))))"

definition StartMaintenance :: "ingest_state \<Rightarrow> ingest_state" where
  "StartMaintenance s = s\<lparr>i_maintenance := True\<rparr>"

text \<open>One turn of \<open>maintenance\<close>: the errors of \<open>retain\<close> are dropped.\<close>

definition maintenance :: "'m ingestlib \<Rightarrow> (error, 'm iworld, unit) prog" where
  "maintenance L = bindM state (\<lambda>s.
     if i_maintenance s \<and> \<not> i_done s then bindM (attemptM (retain L)) (\<lambda>_. returnM ()) else returnM ())"

definition SetRetentionDays :: "int \<Rightarrow> (error, 'm iworld, unit) prog" where
  "SetRetentionDays days =
     bindM (guardM (1 \<le> days \<and> days \<le> 365) (Msg ''query retention days must be within 1..365'')) (\<lambda>_.
     change (\<lambda>s. s\<lparr>i_retentionDays := days\<rparr>))"

definition SetDatabaseMaxGiB :: "int \<Rightarrow> (error, 'm iworld, unit) prog" where
  "SetDatabaseMaxGiB gib =
     bindM (guardM (1 \<le> gib \<and> gib \<le> 128) (Msg ''database max size must be within 1..128 GiB'')) (\<lambda>_.
     change (\<lambda>s. s\<lparr>i_databaseMaxBytes := gib * 2 ^ 30\<rparr>))"

text \<open>The service as \<open>internal/operations\<close> uses it.\<close>

definition ingest_of :: "'m ingestlib \<Rightarrow> (ingest_state \<times> 'm) ingest" where
  "ingest_of L = \<lparr>ig_SetRetentionDays = SetRetentionDays, ig_SetDatabaseMaxGiB = SetDatabaseMaxGiB, ig_RetainNow = retain L\<rparr>"

end
