(* ===== verification/IngestState.thy ===== *)
theory IngestState
  imports QueryIngest
begin

text \<open>
  The state the ingestion service keeps in memory: sequences of steps of its goroutines and
  callers, and the invariant of its queue, channels and caches (no panic, all of them bounded).
\<close>

section \<open>Steps\<close>

datatype ingest_step =
    Enqueue_step EventBatch | Turn turn | Subscribe_step Query | Unsubscribe nat | Receive nat
  | Maintain | Set_days int | Set_max int | Start_maintenance | Close_begin | Close_end

fun ingest_run :: "'m ingestlib \<Rightarrow> ingest_step \<Rightarrow> 'm iworld \<Rightarrow> 'm iworld" where
  "ingest_run L (Enqueue_step b) w = snd (on_state (Enqueue L b) w)"
| "ingest_run L (Turn t) w = snd (writer t w)"
| "ingest_run L (Subscribe_step q) w = snd (on_state (Subscribe L q) w)"
| "ingest_run L (Unsubscribe i) w = snd (change (close_subscriber i) w)"
| "ingest_run L (Receive i) w = snd (change (\<lambda>s. snd (receive i s)) w)"
| "ingest_run L Maintain w = snd (maintenance L w)"
| "ingest_run L (Set_days n) w = snd (SetRetentionDays n w)"
| "ingest_run L (Set_max n) w = snd (SetDatabaseMaxGiB n w)"
| "ingest_run L Start_maintenance w = snd (change StartMaintenance w)"
| "ingest_run L Close_begin w = snd (change close_begin w)"
| "ingest_run L Close_end w = snd (change close_end w)"

section \<open>Rules\<close>

text \<open>A predicate of the state in memory, as a predicate of the world.\<close>

definition onState :: "(ingest_state \<Rightarrow> bool) \<Rightarrow> 'm iworld \<Rightarrow> bool" where
  "onState J w = J (fst (w_ext w))"

lemma onState_iff [simp]: "onState J w = J (fst (w_ext w))"
  by (simp add: onState_def)

lemma wp_on_state [wp_simps]:
  "wp (on_state f) E Q w = (case f (fst (w_ext w)) of (r, s) \<Rightarrow>
     (case r of Inl e \<Rightarrow> E e (w\<lparr>w_ext := (s, snd (w_ext w))\<rparr>) | Inr a \<Rightarrow> Q a (w\<lparr>w_ext := (s, snd (w_ext w))\<rparr>)))"
  by (simp add: on_state_def wp_call split: prod.splits sum.splits)

lemma wp_change [wp_simps]: "wp (change f) E Q w = Q () (w\<lparr>w_ext := (f (fst (w_ext w)), snd (w_ext w))\<rparr>)"
  by (simp add: change_def wp_on_state)

lemma wp_state [wp_simps]: "wp state E Q w = Q (fst (w_ext w)) w"
  by (cases w, cases "w_ext w") (simp add: state_def wp_on_state)

lemma snd_change [simp]: "snd (change f w) = w\<lparr>w_ext := (f (fst (w_ext w)), snd (w_ext w))\<rparr>"
  by (simp add: change_def on_state_def call_def split: prod.splits)

lemma snd_on_state: "snd (on_state f w) = w\<lparr>w_ext := (snd (f (fst (w_ext w))), snd (w_ext w))\<rparr>"
  by (simp add: on_state_def call_def split: prod.splits)

lemma stable_state [stable_intros]: "stable (onState J) state"
  by (simp add: stable_wp wp_state)

lemma stable_change [stable_intros]: "(\<And>s. J s \<Longrightarrow> J (f s)) \<Longrightarrow> stable (onState J) (change f)"
  by (simp add: stable_wp wp_change)

lemma stable_on_state [stable_intros]: "(\<And>s. J s \<Longrightarrow> J (snd (f s))) \<Longrightarrow> stable (onState J) (on_state f)"
  by (simp add: stable_def snd_on_state)

lemma stable_state_db [stable_intros]:
  "stable (onState J) (db_run u)" "stable (onState J) (db_exec v)" "stable (onState J) (db_query q)"
  "stable (onState J) time_now"
  by (simp_all add: stable_wp wp_simps pop_fault_def split: sum.splits list.splits)

lemma stable_state_call [stable_intros]:
  "(\<And>s m. J s \<Longrightarrow> J (fst (snd (f (s, m))))) \<Longrightarrow> stable (onState J) (call f)"
  by (auto simp: stable_wp wp_call split: sum.splits prod.splits) (metis fst_conv prod.collapse snd_conv)+

lemma stable_state_transaction [stable_intros]:
  assumes "stable (onState J) body"
  shows "stable (onState J) (transaction body)"
proof -
  have "stable (onState J) (bindM (db_query (\<lambda>d. Inr ())) (\<lambda>_. bindM body (\<lambda>a.
            bindM (db_query (\<lambda>d. Inr ())) (\<lambda>_. returnM a))))"
    by (intro stable_intros assms)
  then show ?thesis by (auto simp: stable_def transaction_def split: prod.splits sum.splits)
qed

section \<open>The invariant\<close>

definition sub_ids :: "ingest_state \<Rightarrow> nat set" where
  "sub_ids s = fst ` set (i_subscribers s)"

definition chan_ids :: "ingest_state \<Rightarrow> nat set" where
  "chan_ids s = fst ` set (i_chans s)"

definition chans_ok :: "ingest_state \<Rightarrow> bool" where
  "chans_ok s = (\<not> i_panic s
     \<and> (\<forall>i \<in> chan_ids s. i < i_nextSubscriber s)
     \<and> distinct (map fst (i_subscribers s))
     \<and> (\<forall>i \<in> sub_ids s. i \<in> chan_ids s \<and> \<not> ch_closed (chan_of i s))
     \<and> (\<forall>i. length (ch_buf (chan_of i s)) \<le> subscriberBuffer))"

definition answers_ok :: "ingest_state \<Rightarrow> bool" where
  "answers_ok s = (distinct (i_order s) \<and> distinct (map fst (i_answers s))
     \<and> set (i_order s) = set (map fst (i_answers s)) \<and> length (i_order s) \<le> maxAnswerDiagnostics)"

definition queue_ok :: "ingest_state \<Rightarrow> bool" where
  "queue_ok s = (length (i_queue s) \<le> queueCapacity \<and> m_queue (i_metrics s) = int (length (i_queue s)))"

lemma chan_of_set [simp]: "chan_of j (set_chan i c s) = (if j = i then c else chan_of j s)"
  by (simp add: chan_of_def set_chan_def update_conv)

lemma chan_of_more [simp]:
  "chan_of i (count_metric f s) = chan_of i s" "chan_of i (drop_subscriber j s) = chan_of i s"
  "chan_of i (s\<lparr>i_queue := q\<rparr>) = chan_of i s" "chan_of i (s\<lparr>i_batch := b\<rparr>) = chan_of i s"
  "chan_of i (s\<lparr>i_mode := md\<rparr>) = chan_of i s" "chan_of i (s\<lparr>i_panic := pn\<rparr>) = chan_of i s"
  "chan_of i (s\<lparr>i_done := dn\<rparr>) = chan_of i s" "chan_of i (s\<lparr>i_subscribers := sb\<rparr>) = chan_of i s"
  "chan_of i (s\<lparr>i_answers := an\<rparr>) = chan_of i s" "chan_of i (s\<lparr>i_order := od\<rparr>) = chan_of i s"
  "chan_of i (s\<lparr>i_retentionDays := rd\<rparr>) = chan_of i s" "chan_of i (s\<lparr>i_databaseMaxBytes := mb\<rparr>) = chan_of i s"
  "chan_of i (s\<lparr>i_maintenance := mt\<rparr>) = chan_of i s" "chan_of i (s\<lparr>i_nextSubscriber := nx\<rparr>) = chan_of i s"
  by (simp_all add: chan_of_def count_metric_def drop_subscriber_def)

text \<open>What a function of the state leaves alone.\<close>

lemma ids_more [simp]:
  "sub_ids (s\<lparr>i_panic := pn\<rparr>) = sub_ids s" "chan_ids (s\<lparr>i_panic := pn\<rparr>) = chan_ids s"
  by (simp_all add: sub_ids_def chan_ids_def)

lemma set_chan_sel [simp]:
  "i_panic (set_chan i c s) = i_panic s" "i_nextSubscriber (set_chan i c s) = i_nextSubscriber s"
  "i_subscribers (set_chan i c s) = i_subscribers s" "i_answers (set_chan i c s) = i_answers s"
  "i_order (set_chan i c s) = i_order s" "i_queue (set_chan i c s) = i_queue s"
  "i_batch (set_chan i c s) = i_batch s" "i_mode (set_chan i c s) = i_mode s"
  "i_metrics (set_chan i c s) = i_metrics s" "i_done (set_chan i c s) = i_done s"
  "chan_ids (set_chan i c s) = insert i (chan_ids s)" "sub_ids (set_chan i c s) = sub_ids s"
  by (simp_all add: set_chan_def chan_ids_def sub_ids_def dom_update [unfolded dom_map_of_conv_image_fst])

lemma drop_subscriber_sel [simp]:
  "i_subscribers (drop_subscriber i s) = filter (\<lambda>(j, _). j \<noteq> i) (i_subscribers s)"
  "sub_ids (drop_subscriber i s) = sub_ids s - {i}" "chan_ids (drop_subscriber i s) = chan_ids s"
  "i_panic (drop_subscriber i s) = i_panic s" "i_nextSubscriber (drop_subscriber i s) = i_nextSubscriber s"
  "i_chans (drop_subscriber i s) = i_chans s" "i_answers (drop_subscriber i s) = i_answers s"
  "i_order (drop_subscriber i s) = i_order s" "i_queue (drop_subscriber i s) = i_queue s"
  "i_batch (drop_subscriber i s) = i_batch s" "i_mode (drop_subscriber i s) = i_mode s"
  "i_metrics (drop_subscriber i s) = i_metrics s" "i_done (drop_subscriber i s) = i_done s"
  by (auto simp: drop_subscriber_def sub_ids_def chan_ids_def)

lemma count_metric_sel [simp]:
  "i_subscribers (count_metric f s) = i_subscribers s" "i_panic (count_metric f s) = i_panic s"
  "i_nextSubscriber (count_metric f s) = i_nextSubscriber s" "i_chans (count_metric f s) = i_chans s"
  "i_answers (count_metric f s) = i_answers s" "i_order (count_metric f s) = i_order s"
  "i_queue (count_metric f s) = i_queue s" "i_batch (count_metric f s) = i_batch s"
  "i_mode (count_metric f s) = i_mode s" "i_metrics (count_metric f s) = f (i_metrics s)"
  "i_done (count_metric f s) = i_done s"
  "sub_ids (count_metric f s) = sub_ids s" "chan_ids (count_metric f s) = chan_ids s"
  by (simp_all add: count_metric_def sub_ids_def chan_ids_def)

lemma close_chan_open: "\<not> ch_closed (chan_of i s) \<Longrightarrow> close_chan i s = set_chan i ((chan_of i s)\<lparr>ch_closed := True\<rparr>) s"
  by (simp add: close_chan_def)

lemma close_chan_ok:
  assumes "chans_ok s" and "i \<in> sub_ids s"
  shows "chans_ok (close_chan i (drop_subscriber i s))"
proof -
  have "\<not> ch_closed (chan_of i (drop_subscriber i s))" using assms by (auto simp: chans_ok_def)
  then show ?thesis using assms unfolding close_chan_open [OF \<open>\<not> ch_closed _\<close>]
    by (auto simp: chans_ok_def distinct_map_filter)
qed

lemma metric_ok [simp]: "chans_ok (count_metric f s) = chans_ok s" "answers_ok (count_metric f s) = answers_ok s"
  by (simp_all add: chans_ok_def answers_ok_def)

lemma offer_ok:
  assumes "chans_ok s" and "i \<in> sub_ids s"
  shows "chans_ok (offer e (i, q) s)"
  using assms close_chan_ok [OF assms]
  by (auto simp: offer_def chans_ok_def)

lemma offer_subscribers: "j \<noteq> i \<Longrightarrow> j \<in> sub_ids s \<Longrightarrow> j \<in> sub_ids (offer e (i, q) s)"
  by (auto simp: offer_def close_chan_def)

lemma fold_subscribers_ok:
  assumes "\<And>i q s. chans_ok s \<Longrightarrow> i \<in> sub_ids s \<Longrightarrow> chans_ok (f (i, q) s)"
    and "\<And>i q j s. j \<noteq> i \<Longrightarrow> j \<in> sub_ids s \<Longrightarrow> j \<in> sub_ids (f (i, q) s)"
    and "chans_ok s" "distinct (map fst xs)" "set (map fst xs) \<subseteq> sub_ids s"
  shows "chans_ok (fold f xs s)"
  using assms(3-5)
proof (induction xs arbitrary: s)
  case (Cons x xs)
  obtain i q where x: "x = (i, q)" by (cases x)
  have "chans_ok (f x s)" using Cons.prems by (auto simp: x intro: assms(1))
  moreover have "set (map fst xs) \<subseteq> sub_ids (f x s)"
  proof
    fix j assume "j \<in> set (map fst xs)"
    with Cons.prems show "j \<in> sub_ids (f x s)"
      unfolding x by (intro assms(2)) (auto simp: x)
  qed
  ultimately show ?case using Cons by simp
qed simp

lemma fold_all_subscribers:
  assumes "\<And>i q s. chans_ok s \<Longrightarrow> i \<in> sub_ids s \<Longrightarrow> chans_ok (f (i, q) s)"
    and "\<And>i q j s. j \<noteq> i \<Longrightarrow> j \<in> sub_ids s \<Longrightarrow> j \<in> sub_ids (f (i, q) s)" and "chans_ok s"
  shows "chans_ok (fold f (i_subscribers s) s)"
  by (rule fold_subscribers_ok) (use assms in \<open>auto simp: chans_ok_def [of s] sub_ids_def [of s]\<close>)

lemma publish_events_ok: "chans_ok s \<Longrightarrow> chans_ok (publish_events es s)"
proof -
  have "chans_ok (publish_event e s)" if "chans_ok s" for e s
    unfolding publish_event_def
    by (rule fold_all_subscribers [OF _ _ that]; rule offer_ok offer_subscribers; assumption)
  then show "chans_ok s \<Longrightarrow> chans_ok (publish_events es s)"
    by (induction es arbitrary: s) (auto simp: publish_events_def)
qed

lemma Subscribe_ok: "chans_ok s \<Longrightarrow> chans_ok (snd (Subscribe L q s))"
proof -
  assume s: "chans_ok s"
  let ?t = "s\<lparr>i_nextSubscriber := i_nextSubscriber s + 1,
      i_chans := (i_nextSubscriber s, \<lparr>ch_buf = [], ch_closed = False\<rparr>) # i_chans s,
      i_subscribers := i_subscribers s @ [(i_nextSubscriber s, q)]\<rparr>"
  have "chan_of j ?t = (if j = i_nextSubscriber s then \<lparr>ch_buf = [], ch_closed = False\<rparr> else chan_of j s)" for j
    by (simp add: chan_of_def)
  moreover have "chan_ids ?t = insert (i_nextSubscriber s) (chan_ids s)" "sub_ids ?t = insert (i_nextSubscriber s) (sub_ids s)"
    by (auto simp: chan_ids_def sub_ids_def)
  moreover have "i_nextSubscriber s \<notin> sub_ids s" using s by (auto simp: chans_ok_def)
  moreover from this s have "distinct (map fst (i_subscribers ?t))" by (auto simp: sub_ids_def chans_ok_def)
  ultimately have "chans_ok ?t" using s by (auto simp: chans_ok_def less_Suc_eq simp del: map_append)
  then show ?thesis using s by (auto simp: Subscribe_def Let_def split: sum.splits)
qed

lemma close_subscriber_ok: "chans_ok s \<Longrightarrow> chans_ok (close_subscriber i s)"
  using close_chan_ok [of s i] by (auto simp: close_subscriber_def map_of_eq_None_iff sub_ids_def)

lemma receive_ok: "chans_ok s \<Longrightarrow> chans_ok (snd (receive i s))"
proof -
  assume s: "chans_ok s"
  have c: "i \<in> chan_ids s" if "ch_buf (chan_of i s) \<noteq> []"
    using that by (force simp: chan_of_def chan_ids_def split: option.splits dest: map_of_SomeD)
  have "length es \<le> subscriberBuffer" if "ch_buf (chan_of i s) = e # es" for e es
    using s that by (metis chans_ok_def length_Cons Suc_leD)
  then show ?thesis using s c
    by (auto simp: receive_def chans_ok_def split: list.splits)
qed

lemma close_end_ok: "chans_ok s \<Longrightarrow> chans_ok (close_end s)"
  unfolding close_end_def
proof (cases "i_mode s = Stopped")
  assume s: "chans_ok s"
  case True
  have "chans_ok (fold (\<lambda>(i, _) s. close_chan i (drop_subscriber i s)) (i_subscribers s) s)"
    by (rule fold_all_subscribers [OF _ _ s]) (simp_all add: close_chan_ok, simp add: close_chan_def)
  with True show "chans_ok (if i_mode s = Stopped then fold (\<lambda>(i, _) s. close_chan i (drop_subscriber i s)) (i_subscribers s) s else s)"
    by simp
qed simp

lemma drop_first_key:
  assumes "distinct (k # ks)" "distinct (map fst xs)" "set (k # ks) = fst ` set xs"
  shows "distinct ks" "distinct (map fst (filter (\<lambda>(j, _). j \<noteq> k) xs))" "set ks = fst ` set (filter (\<lambda>(j, _). j \<noteq> k) xs)"
proof -
  have "fst ` set (filter (\<lambda>(j, _). j \<noteq> k) xs) = fst ` set xs - {k}" by force
  then show "set ks = fst ` set (filter (\<lambda>(j, _). j \<noteq> k) xs)" using assms(1) assms(3) [symmetric] by auto
qed (use assms in \<open>auto intro: distinct_map_filter\<close>)

lemma cacheAnswerDiagnostics_ok: "answers_ok s \<Longrightarrow> answers_ok (cacheAnswerDiagnostics es s)"
proof (induction es s rule: cacheAnswerDiagnostics.induct)
  case (2 e es s)
  show ?case
  proof (cases "map_of (i_answers s) (q_EventID e) = None")
    case True
    let ?x = "(q_EventID e, \<lparr>ad_AnswerIPs = ev_AnswerIPs e, ad_AnswerRecords = ev_AnswerRecords e\<rparr>)"
    let ?t = "s\<lparr>i_answers := ?x # i_answers s, i_order := i_order s @ [q_EventID e]\<rparr>"
    from True 2(3) have t: "distinct (i_order s @ [q_EventID e])" "distinct (map fst (?x # i_answers s))"
      "set (i_order s @ [q_EventID e]) = fst ` set (?x # i_answers s)" "length (i_order s) \<le> maxAnswerDiagnostics"
      by (auto simp: answers_ok_def map_of_eq_None_iff)
    obtain k ks where o: "i_order s @ [q_EventID e] = k # ks" by (cases "i_order s @ [q_EventID e]") auto
    note d = drop_first_key [OF t(1) [unfolded o] t(2) t(3) [unfolded o]]
    have "length ks \<le> maxAnswerDiagnostics" using t(4) arg_cong [OF o, of length] by simp
    with d have "answers_ok (?t\<lparr>i_answers := filter (\<lambda>(j, _). j \<noteq> k) (?x # i_answers s), i_order := ks\<rparr>)"
      by (simp add: answers_ok_def del: filter.simps)
    moreover have "answers_ok ?t" if "\<not> maxAnswerDiagnostics < length (i_order s @ [q_EventID e])"
      using that t by (simp add: answers_ok_def)
    ultimately show ?thesis using True 2(2) o by (auto simp: Let_def)
  next
    case False
    with 2 show ?thesis by simp
  qed
qed simp

text \<open>The whole invariant; \<open>b\<close> says whether the service was closed.\<close>

definition memory_ok :: "bool \<Rightarrow> ingest_state \<Rightarrow> bool" where
  "memory_ok b s = (chans_ok s \<and> answers_ok s \<and> queue_ok s \<and> i_done s = b)"

text \<open>Functions that touch one part only.\<close>

lemma frame_more [simp]:
  "chans_ok (s\<lparr>i_queue := q, i_batch := bt\<rparr>) = chans_ok s" "answers_ok (s\<lparr>i_queue := q, i_batch := bt\<rparr>) = answers_ok s"
  "chans_ok (s\<lparr>i_queue := q\<rparr>) = chans_ok s" "answers_ok (s\<lparr>i_queue := q\<rparr>) = answers_ok s"
  "chans_ok (s\<lparr>i_batch := bt\<rparr>) = chans_ok s" "answers_ok (s\<lparr>i_batch := bt\<rparr>) = answers_ok s"
  "queue_ok (s\<lparr>i_batch := bt\<rparr>) = queue_ok s" "queue_ok (s\<lparr>i_mode := md\<rparr>) = queue_ok s"
  "chans_ok (s\<lparr>i_mode := md\<rparr>) = chans_ok s" "answers_ok (s\<lparr>i_mode := md\<rparr>) = answers_ok s"
  "chans_ok (s\<lparr>i_done := dn\<rparr>) = chans_ok s" "answers_ok (s\<lparr>i_done := dn\<rparr>) = answers_ok s"
  "queue_ok (s\<lparr>i_done := dn\<rparr>) = queue_ok s"
  "chans_ok (s\<lparr>i_retentionDays := rd\<rparr>) = chans_ok s" "answers_ok (s\<lparr>i_retentionDays := rd\<rparr>) = answers_ok s"
  "queue_ok (s\<lparr>i_retentionDays := rd\<rparr>) = queue_ok s"
  "chans_ok (s\<lparr>i_databaseMaxBytes := mb\<rparr>) = chans_ok s" "answers_ok (s\<lparr>i_databaseMaxBytes := mb\<rparr>) = answers_ok s"
  "queue_ok (s\<lparr>i_databaseMaxBytes := mb\<rparr>) = queue_ok s"
  "chans_ok (s\<lparr>i_maintenance := mt\<rparr>) = chans_ok s" "answers_ok (s\<lparr>i_maintenance := mt\<rparr>) = answers_ok s"
  "queue_ok (s\<lparr>i_maintenance := mt\<rparr>) = queue_ok s"
  by (simp_all add: chans_ok_def answers_ok_def queue_ok_def chan_ids_def sub_ids_def chan_of_def)

lemma enqueue_loop_spec:
  "length (i_queue s) + length es \<le> queueCapacity \<Longrightarrow>
     enqueue_loop es s = (Inr (), count_metric (\<lambda>m. m\<lparr>m_received := m_received m + length es,
        m_queue := m_queue m + int (length es)\<rparr>) (s\<lparr>i_queue := i_queue s @ es\<rparr>))"
  by (induction es arbitrary: s) (simp_all add: count_metric_def)

lemma Enqueue_cases:
  "Enqueue L b s =
    (if validateBatch L b \<noteq> Inr () then (validateBatch L b, count_metric (\<lambda>m. m\<lparr>m_rejected := m_rejected m + 1\<rparr>) s)
     else if queueCapacity < length (i_queue s) + length (ba_Events b)
     then (Inl ErrOverloaded, count_metric (\<lambda>m. m\<lparr>m_queueFull := m_queueFull m + 1\<rparr>) s)
     else (Inr (), count_metric (\<lambda>m. m\<lparr>m_received := m_received m + length (ba_Events b),
        m_queue := m_queue m + int (length (ba_Events b))\<rparr>) (s\<lparr>i_queue := i_queue s @ ba_Events b\<rparr>)))"
  by (auto simp: Enqueue_def enqueue_loop_spec split: sum.splits)

lemma count_metric_queue_ok:
  "queue_ok (count_metric f s) \<longleftrightarrow> length (i_queue s) \<le> queueCapacity \<and> m_queue (f (i_metrics s)) = int (length (i_queue s))"
  by (simp add: queue_ok_def)

lemma Enqueue_ok: "memory_ok b s \<Longrightarrow> memory_ok b (snd (Enqueue L ba s))"
  by (auto simp: Enqueue_cases memory_ok_def count_metric_queue_ok queue_ok_def)

text \<open>Closing and delivering leave the queue and the caches alone.\<close>

definition same_rest :: "ingest_state \<Rightarrow> ingest_state \<Rightarrow> bool" where
  "same_rest s t = (i_queue t = i_queue s \<and> i_batch t = i_batch s \<and> i_mode t = i_mode s \<and> i_done t = i_done s
     \<and> i_answers t = i_answers s \<and> i_order t = i_order s \<and> m_queue (i_metrics t) = m_queue (i_metrics s))"

lemma same_rest_refl [simp]: "same_rest s s"
  by (simp add: same_rest_def)

lemma same_rest_trans: "same_rest s t \<Longrightarrow> same_rest t u \<Longrightarrow> same_rest s u"
  by (simp add: same_rest_def)

lemma same_rest_fold: "(\<And>x s. same_rest s (f x s)) \<Longrightarrow> same_rest s (fold f xs s)"
  by (induction xs arbitrary: s) (auto intro: same_rest_trans)

lemma same_rest_close [simp]: "same_rest s (close_chan i (drop_subscriber i s))"
  by (simp add: same_rest_def close_chan_def)

lemma same_rest_offer: "same_rest s (offer e x s)"
  by (cases x) (simp add: offer_def same_rest_def close_chan_def)

lemma same_rest_publish: "same_rest s (publish_events es s)"
  unfolding publish_events_def publish_event_def by (intro same_rest_fold same_rest_offer)

lemma same_rest_ok: "same_rest s t \<Longrightarrow> chans_ok t \<Longrightarrow> memory_ok b s \<Longrightarrow> memory_ok b t"
  by (simp add: same_rest_def memory_ok_def answers_ok_def queue_ok_def)

lemma same_rest_more: "same_rest s (snd (Subscribe L q s))" "same_rest s (close_subscriber i s)"
  "same_rest s (snd (receive i s))" "same_rest s (close_end s)"
proof -
  show "same_rest s (close_end s)"
    unfolding close_end_def by (auto intro!: same_rest_fold split: prod.splits)
qed (auto simp: Subscribe_def same_rest_def close_subscriber_def receive_def Let_def close_chan_def
    split: sum.splits list.splits)

lemma cacheAnswerDiagnostics_sel:
  "i_queue (cacheAnswerDiagnostics es s) = i_queue s" "i_batch (cacheAnswerDiagnostics es s) = i_batch s"
  "i_mode (cacheAnswerDiagnostics es s) = i_mode s" "i_done (cacheAnswerDiagnostics es s) = i_done s"
  "i_metrics (cacheAnswerDiagnostics es s) = i_metrics s" "i_subscribers (cacheAnswerDiagnostics es s) = i_subscribers s"
  "i_chans (cacheAnswerDiagnostics es s) = i_chans s" "i_panic (cacheAnswerDiagnostics es s) = i_panic s"
  "i_nextSubscriber (cacheAnswerDiagnostics es s) = i_nextSubscriber s"
  by (induction es s rule: cacheAnswerDiagnostics.induct) (simp_all add: Let_def)

lemma cache_memory_ok: "memory_ok b s \<Longrightarrow> memory_ok b (cacheAnswerDiagnostics es s)"
  by (simp add: memory_ok_def cacheAnswerDiagnostics_ok)
    (simp add: chans_ok_def queue_ok_def sub_ids_def chan_ids_def chan_of_def cacheAnswerDiagnostics_sel)

section \<open>The invariant along the runs\<close>

lemma stable_insert_events [stable_intros]: "stable (onState J) (insert_events now es)"
  by (induction es) (simp_all only: insert_events.simps name_devices.simps, (intro stable_intros; assumption?)+)

lemma stable_name_devices [stable_intros]: "stable (onState J) (name_devices es)"
  by (induction es) (simp_all only: insert_events.simps name_devices.simps, (intro stable_intros; assumption?)+)

lemma stable_persist: 
  assumes "\<And>s es. J s \<Longrightarrow> J (cacheAnswerDiagnostics es s)"
    and "\<And>s n. J s \<Longrightarrow> J (count_metric (\<lambda>m. m\<lparr>m_written := m_written m + n\<rparr>) s)"
  shows "stable (onState J) (persist es)"
  unfolding persist_def persist_tx_def aggregate_def by (intro stable_intros assms) (auto intro: assms)

lemma stable_flush:
  assumes "\<And>s es. J s \<Longrightarrow> J (cacheAnswerDiagnostics es s)"
    and "\<And>s n. J s \<Longrightarrow> J (count_metric (\<lambda>m. m\<lparr>m_written := m_written m + n\<rparr>) s)"
    and "\<And>s es. J s \<Longrightarrow> J (publish_events es s)" and "\<And>s. J s \<Longrightarrow> J (s\<lparr>i_batch := []\<rparr>)"
  shows "stable (onState J) flush"
  unfolding flush_def by (intro stable_intros stable_persist assms) (auto intro: assms)

lemma take_event_ok: "memory_ok b s \<Longrightarrow> i_queue s \<noteq> [] \<Longrightarrow> memory_ok b (take_event s)"
  by (auto simp: take_event_def memory_ok_def queue_ok_def neq_Nil_conv)

lemma stable_memory_flush: "stable (onState (memory_ok b)) flush"
proof (rule stable_flush)
  show "memory_ok b (count_metric (\<lambda>m. m\<lparr>m_written := m_written m + n\<rparr>) s)" if "memory_ok b s" for s n
    using that by (simp add: memory_ok_def queue_ok_def)
  show "memory_ok b (publish_events es s)" if "memory_ok b s" for s es
    using that by (intro same_rest_ok [OF same_rest_publish publish_events_ok]) (auto simp: memory_ok_def)
  show "memory_ok b (s\<lparr>i_batch := []\<rparr>)" if "memory_ok b s" for s using that by (simp add: memory_ok_def)
qed (rule cache_memory_ok)

lemma stable_memory_writer: "stable (onState (memory_ok b)) (writer t :: (error, 'm iworld, unit) prog)"
proof -
  have f: "wp flush (\<lambda>_. onState (memory_ok b)) (\<lambda>_. onState (memory_ok b)) w" if "memory_ok b (fst (w_ext w))" for w :: "'m iworld"
    using stable_wpD [OF stable_memory_flush, of b w] that by simp
  have m: "memory_ok b (s\<lparr>i_mode := md\<rparr>)" if "memory_ok b s" for s md
    using that by (simp add: memory_ok_def)
  have "wp (writer_turn (i_mode (fst (w_ext w))) t (fst (w_ext w))) (\<lambda>_. onState (memory_ok b)) (\<lambda>_. onState (memory_ok b)) w"
    if "memory_ok b (fst (w_ext w))" for w :: "'m iworld"
    using that
    by (cases "(i_mode (fst (w_ext w)), t, fst (w_ext w))" rule: writer_turn.cases)
      (auto simp: wp_simps take_event_ok m intro!: f wp_mono [OF f])
  then show ?thesis unfolding stable_wp writer_def by (simp add: wp_simps)
qed

lemma stable_retain: "stable (onState J) (retain L)"
  unfolding retain_def by (intro stable_intros) auto

lemma stable_state_snd: "stable (onState J) m \<Longrightarrow> J (fst (w_ext w)) \<Longrightarrow> J (fst (w_ext (snd (m w))))"
  by (simp add: stable_def)

lemma ingest_step_ok:
  assumes "memory_ok b (fst (w_ext w))" and "c \<noteq> Close_begin"
  shows "memory_ok b (fst (w_ext (ingest_run L c w)))"
proof (cases c)
  case (Turn t)
  then show ?thesis using assms(1) by (simp add: stable_state_snd stable_memory_writer)
next
  case Maintain
  have "stable (onState (memory_ok b)) (maintenance L)"
    unfolding maintenance_def by (intro stable_intros stable_retain)
  with Maintain show ?thesis using assms(1) by (simp add: stable_def)
next
  case (Set_days n)
  have "stable (onState (memory_ok b)) (SetRetentionDays n :: (error, 'a iworld, unit) prog)"
    unfolding SetRetentionDays_def by (intro stable_intros) (simp add: memory_ok_def)
  with Set_days show ?thesis using assms(1) by (simp add: stable_def)
next
  case (Set_max n)
  have "stable (onState (memory_ok b)) (SetDatabaseMaxGiB n :: (error, 'a iworld, unit) prog)"
    unfolding SetDatabaseMaxGiB_def by (intro stable_intros) (simp add: memory_ok_def)
  with Set_max show ?thesis using assms(1) by (simp add: stable_def)
next
  case (Unsubscribe i)
  with assms show ?thesis
    by (simp add: same_rest_ok [OF same_rest_more(2)] close_subscriber_ok memory_ok_def [of b "fst (w_ext w)"])
next
  case (Subscribe_step q)
  with assms show ?thesis
    by (simp add: snd_on_state same_rest_ok [OF same_rest_more(1)] Subscribe_ok memory_ok_def [of b "fst (w_ext w)"])
next
  case (Receive i)
  with assms show ?thesis
    by (simp add: same_rest_ok [OF same_rest_more(3)] receive_ok memory_ok_def [of b "fst (w_ext w)"])
next
  case Close_end
  with assms show ?thesis
    by (simp add: same_rest_ok [OF same_rest_more(4)] close_end_ok memory_ok_def [of b "fst (w_ext w)"])
qed (use assms in \<open>simp_all add: snd_on_state Enqueue_ok StartMaintenance_def memory_ok_def [of b "_\<lparr>i_maintenance := True\<rparr>"],
  simp_all add: memory_ok_def\<close>)

lemma New_ok: "memory_ok False (New_ingest token path)"
  by (simp add: memory_ok_def New_ingest_def chans_ok_def answers_ok_def queue_ok_def sub_ids_def chan_ids_def chan_of_def)

lemma ingest_runs_ok:
  assumes "memory_ok b (fst (w_ext w))" and "count_list cs Close_begin + (if b then 1 else 0) \<le> 1"
  shows "\<exists>b'. memory_ok b' (fst (w_ext (fold (ingest_run L) cs w)))"
  using assms
proof (induction cs arbitrary: b w)
  case (Cons c cs)
  show ?case
  proof (cases "c = Close_begin")
    case True
    with Cons.prems have "memory_ok True (fst (w_ext (ingest_run L c w)))"
      by (simp add: memory_ok_def close_begin_def split: if_splits)
    with Cons True show ?thesis by (cases b) (auto split: if_splits)
  next
    case False
    with Cons.prems Cons.IH [of b "ingest_run L c w"] ingest_step_ok [of b w c L] show ?thesis by simp
  qed
qed auto

end
