(* ===== verification/HourlyStats.thy ===== *)
theory HourlyStats
  imports IngestState
begin

text \<open>
  The hourly statistics against the raw log: a table that is kept with
  \<open>INSERT ... ON CONFLICT DO UPDATE\<close> equals the one recomputed from the rows, whatever the order of
  the batches and the faults; and what the summary makes of it.
\<close>

section \<open>A counted table\<close>

text \<open>A loop refines a fold: \<open>R i\<close> relates the state to the abstract value \<open>i\<close>.\<close>

lemma wp_traverse_fold:
  assumes "\<And>i x s. R i s \<Longrightarrow> wp (f x) E (\<lambda>_. R (step x i)) s" and "R i s"
  shows "wp (traverseM f xs) E (\<lambda>_. R (fold step xs i)) s"
  using assms(2)
proof (induction xs arbitrary: i s)
  case (Cons x xs)
  then show ?case by (auto intro!: wp_bindM_I wp_mono [OF assms(1)])
qed (simp add: wp_returnM)

lemma wp_traverse_inv:
  assumes "\<And>x s. R s \<Longrightarrow> wp (f x) E (\<lambda>_. R) s" and "R s"
  shows "wp (traverseM f xs) E (\<lambda>_. R) s"
  using wp_traverse_fold [where R = "\<lambda>_ :: unit. R" and step = "\<lambda>_ _. ()"] assms by blast

text \<open>The reference: group the rows by key and total each group.\<close>

definition reference :: "('r \<Rightarrow> 'k) \<Rightarrow> ('r list \<Rightarrow> 'v) \<Rightarrow> 'r list \<Rightarrow> 'k \<Rightarrow> 'v option" where
  "reference key tot rows k =
     (let rs = filter (\<lambda>r. key r = k) rows in if rs = [] then None else Some (tot rs))"

locale counted_table =
  fixes merge :: "'v \<Rightarrow> 'v \<Rightarrow> 'v" and one :: "'r \<Rightarrow> 'v" and tot :: "'r list \<Rightarrow> 'v"
  assumes tot_single: "tot [r] = one r"
    and tot_snoc: "rs \<noteq> [] \<Longrightarrow> tot (rs @ [r]) = merge (tot rs) (one r)"
begin

lemma counted: "map_of (fold (\<lambda>r. upsert merge (key r) (one r)) rows []) = reference key tot rows"
proof (induction rows rule: rev_induct)
  case (snoc r rows)
  have "map_of (fold (\<lambda>r. upsert merge (key r) (one r)) (rows @ [r]) []) k = reference key tot (rows @ [r]) k" for k
    by (cases "k = key r")
      (auto simp: map_of_upsert snoc.IH reference_def Let_def tot_single tot_snoc)
  then show ?case by (rule ext)
qed (simp add: reference_def fun_eq_iff)

lemma counted_keys: "distinct (map fst (fold (\<lambda>r. upsert merge (key r) (one r)) rows []))"
  by (induction rows rule: rev_induct) (simp_all add: distinct_upsert)

end

text \<open>Sums over the rows whose key is admitted.\<close>

definition sum_where :: "('k \<Rightarrow> bool) \<Rightarrow> ('v \<Rightarrow> int) \<Rightarrow> ('k \<times> 'v) list \<Rightarrow> int" where
  "sum_where P f xs = sum_by (\<lambda>x. f (snd x)) (filter (\<lambda>x. P (fst x)) xs)"

lemma sum_by_simps [simp]: "sum_by f [] = 0" "sum_by f (x # xs) = f x + sum_by f xs" "sum_by f (xs @ ys) = sum_by f xs + sum_by f ys"
  by (simp_all add: sum_by_def)

lemma sum_where_upsert:
  assumes "\<And>v'. f (m v' v) = f v' + f v"
  shows "sum_where P f (upsert m k v xs) = sum_where P f xs + (if P k then f v else 0)"
  using assms by (induction xs) (auto simp: sum_where_def)

lemma sum_where_counted:
  assumes "\<And>r v'. f (m v' (one r)) = f v' + f (one r)"
  shows "sum_where P f (fold (\<lambda>r. upsert m (key r) (one r)) rows []) = sum_by (\<lambda>r. f (one r)) (filter (\<lambda>r. P (key r)) rows)"
  by (induction rows rule: rev_induct) (simp_all add: sum_where_upsert [of f m, OF assms], simp add: sum_where_def)

section \<open>The tables of the service\<close>

definition tally :: "('r \<Rightarrow> bool) \<Rightarrow> 'r list \<Rightarrow> int" where
  "tally P rs = int (length (filter P rs))"

lemma tally_simps [simp]: "tally P [] = 0" "tally P (r # rs) = boolInt (P r) + tally P rs" "tally P (rs @ ss) = tally P rs + tally P ss"
  by (simp_all add: tally_def boolInt_def)

lemma sum_boolInt: "sum_by (\<lambda>r. boolInt (P r)) rs = tally P rs"
  by (induction rs) simp_all

lemma max_by_Max: "xs \<noteq> [] \<Longrightarrow> max_by f xs = Max (f ` set xs)"
proof (cases xs)
  case (Cons a as)
  then show ?thesis using Max.set_eq_fold [of "f a" "map f as"] by (simp add: max_by_def)
qed simp

lemma max_by_snoc: "xs \<noteq> [] \<Longrightarrow> max_by f (xs @ [x]) = max (max_by f xs) (f x)"
  by (cases xs) (simp_all add: max_by_def max.commute)

definition stat_total :: "query_row list \<Rightarrow> stat" where
  "stat_total rs = \<lparr>sc_query_count = int (length rs), sc_error_count = tally (\<lambda>r. resultClass r = ''processing_error'') rs,
     sc_cache_hit_count = tally q_CacheHit rs, sc_latency_sum_us = sum_by q_LatencyUS rs\<rparr>"

definition max_stat_total :: "query_row list \<Rightarrow> max_stat" where
  "max_stat_total rs = stat.extend (stat_total rs) (max_stat.fields (max_by q_LatencyUS rs))"

definition global_total :: "query_row list \<Rightarrow> global_stat" where
  "global_total rs = max_stat.extend (max_stat_total rs) (global_stat.fields
     (tally (\<lambda>r. resultClass r = ''success'') rs) (tally (\<lambda>r. resultClass r = ''negative_answer'') rs)
     (tally (\<lambda>r. resultClass r = ''policy_block'') rs) (tally (\<lambda>r. resultClass r = ''processing_error'') rs))"

lemmas stat_defs = stat_of_def max_stat_of_def global_stat_of_def add_stat_def add_max_stat_def add_global_stat_def
  stat_total_def max_stat_total_def global_total_def stat.defs max_stat.defs global_stat.defs

lemma max_by_single [simp]: "max_by f [x] = f x"
  by (simp add: max_by_def)

interpretation plain: counted_table add_stat stat_of stat_total
  by unfold_locales (simp_all add: stat_defs)

interpretation maxed: counted_table add_max_stat max_stat_of max_stat_total
  by unfold_locales (simp_all add: stat_defs max_by_snoc)

interpretation global: counted_table add_global_stat global_stat_of global_total
  by unfold_locales (simp_all add: stat_defs max_by_snoc)

interpretation number: counted_table "\<lambda>n _. n + 1" "\<lambda>_. 1" "\<lambda>rs. int (length rs)"
  by unfold_locales simp_all

definition global_key :: "query_row \<Rightarrow> int \<times> string \<times> 16 word \<times> int" where
  "global_key r = (hour_of r, q_Route r, q_QType r, q_RCode r)"

text \<open>The statistics of a log, as the statements of \<open>aggregate\<close> add them up.\<close>

definition count_row :: "'z query_cols_scheme \<Rightarrow> hourly \<Rightarrow> hourly" where
  "count_row r h = fold (\<lambda>f. f) (statements r) h"

definition hourly_of :: "query_row list \<Rightarrow> hourly" where
  "hourly_of rows = fold count_row rows empty_hourly"

lemmas count_defs = count_global_def count_domain_def count_client_def count_client_domain_def count_group_def
  count_latency_def

lemma count_row_sel:
  "h_global (count_row r h) = upsert add_global_stat (hour_of r, q_Route r, q_QType r, q_RCode r) (global_stat_of r) (h_global h)"
  "h_domain (count_row r h) = upsert add_stat (hour_of r, q_QName r, q_Route r) (stat_of r) (h_domain h)"
  "h_client (count_row r h) = upsert add_stat (hour_of r, q_ClientIP r, q_Route r) (stat_of r) (h_client h)"
  "h_client_domain (count_row r h) = upsert (\<lambda>n _. n + 1) (hour_of r, q_ClientIP r, q_QName r, q_Route r) 1 (h_client_domain h)"
  "h_upstream_group (count_row r h) = (if q_UpstreamGroup r = '''' then h_upstream_group h
     else upsert add_max_stat (hour_of r, q_UpstreamGroup r) (max_stat_of r) (h_upstream_group h))"
  "h_latency_bucket (count_row r h) = upsert (\<lambda>n _. n + 1) (hour_of r, upper_bound (q_LatencyUS r)) 1 (h_latency_bucket h)"
  by (simp_all add: count_row_def statements_def count_defs)

lemma hourly_of_sel:
  "h_global (hourly_of rows) = fold (\<lambda>r. upsert add_global_stat (global_key r) (global_stat_of r)) rows []"
  "h_domain (hourly_of rows) = fold (\<lambda>r. upsert add_stat (hour_of r, q_QName r, q_Route r) (stat_of r)) rows []"
  "h_client (hourly_of rows) = fold (\<lambda>r. upsert add_stat (hour_of r, q_ClientIP r, q_Route r) (stat_of r)) rows []"
  "h_client_domain (hourly_of rows) = fold (\<lambda>r. upsert (\<lambda>n _. n + 1) (hour_of r, q_ClientIP r, q_QName r, q_Route r) 1) rows []"
  "h_upstream_group (hourly_of rows) = fold (\<lambda>r. upsert add_max_stat (hour_of r, q_UpstreamGroup r) (max_stat_of r))
     (filter (\<lambda>r. q_UpstreamGroup r \<noteq> '''') rows) []"
  "h_latency_bucket (hourly_of rows) = fold (\<lambda>r. upsert (\<lambda>n _. n + 1) (hour_of r, upper_bound (q_LatencyUS r)) 1) rows []"
  unfolding hourly_of_def
  by (induction rows rule: rev_induct) (simp_all add: empty_hourly_def count_row_sel global_key_def)

section \<open>The statistics match the log\<close>

definition log_of :: "db \<Rightarrow> query_row list" where
  "log_of d = map snd (tb_rows (d_queries d))"

definition logged :: "db \<Rightarrow> bool" where
  "logged d = (d_hourly d = hourly_of (log_of d))"

lemma query_row_of_sel [simp]:
  "q_EventID (query_row_of e now) = q_EventID e" "q_TimestampMS (query_row_of e now) = q_TimestampMS e"
  "q_ClientIP (query_row_of e now) = q_ClientIP e" "q_QName (query_row_of e now) = q_QName e"
  "q_QType (query_row_of e now) = q_QType e" "q_RCode (query_row_of e now) = q_RCode e"
  "q_Route (query_row_of e now) = q_Route e" "q_UpstreamGroup (query_row_of e now) = q_UpstreamGroup e"
  "q_CacheHit (query_row_of e now) = q_CacheHit e" "q_LatencyUS (query_row_of e now) = q_LatencyUS e"
  "q_ErrorCode (query_row_of e now) = q_ErrorCode e" "q_ErrorText (query_row_of e now) = q_ErrorText e"
  "q_AnswerCount (query_row_of e now) = q_AnswerCount e" "q_result_class (query_row_of e now) = resultClass e"
  "q_RouteSource (query_row_of e now) = q_RouteSource e" "q_UpstreamTag (query_row_of e now) = q_UpstreamTag e"
  "q_Protocol (query_row_of e now) = q_Protocol e"
  by (simp_all add: query_row_of_def query_cols.defs query_row.defs)

lemma resultClass_row [simp]: "resultClass (query_row_of e now) = resultClass e"
  by (simp add: resultClass_def)

lemma count_row_of: "count_row (query_row_of e now) = count_row e"
proof -
  have "stat_of (query_row_of e now) = stat_of e" "hour_of (query_row_of e now) = hour_of e"
    by (simp_all add: stat_of_def hour_of_def)
  then have "statements (query_row_of e now) = statements e"
    by (simp add: statements_def count_defs max_stat_of_def global_stat_of_def fun_eq_iff)
  then show ?thesis by (simp add: count_row_def fun_eq_iff)
qed

text \<open>What the insertions leave: the new rows, in the order of the events.\<close>

definition rows_added :: "int \<Rightarrow> (Event \<times> StoredEvent) list \<Rightarrow> db \<Rightarrow> db \<Rightarrow> bool" where
  "rows_added now ins d d' = (\<exists>t. d' = d\<lparr>d_queries := t\<rparr>
     \<and> tb_rows t = tb_rows (d_queries d) @ map (\<lambda>(e, s). (sv_ID s, query_row_of e now)) ins)"

lemma touch_device_frame: "touch_device e now d = Inr d' \<Longrightarrow> d_hourly d' = d_hourly d \<and> d_queries d' = d_queries d"
  by (auto simp: touch_device_def split: if_splits)

lemma insert_query_cases:
  "insert_query r d = Inr (n, d') \<Longrightarrow> n = None \<and> d' = d
     \<or> n = Some (tb_seq (d_queries d) + 1) \<and> d' = d\<lparr>d_queries := insert_row r (d_queries d)\<rparr>"
  by (simp add: insert_query_def split: if_splits)

lemma rows_added_Cons:
  assumes "rows_added now ins (d\<lparr>d_queries := insert_row (query_row_of e now) (d_queries d)\<rparr>) d'"
  shows "rows_added now ((e, (fromEvent e)\<lparr>sv_ID := tb_seq (d_queries d) + 1\<rparr>) # ins) d d'"
  using assms by (auto simp: rows_added_def insert_row_def)

lemma insert_events_rows:
  "wp (insert_events now es) (\<lambda>_ _. True) (\<lambda>ins w'. rows_added now ins (w_db w) (w_db w')
     \<and> w_ext w' = w_ext w) (w :: 'm world)"
proof (induction es arbitrary: w)
  case Nil
  have "rows_added now [] d d" for d
    unfolding rows_added_def by (rule exI [of _ "d_queries d"]) simp
  then show ?case by (simp add: wp_simps)
next
  case (Cons e es)
  show ?case
    unfolding insert_events.simps
  proof (intro wp_intros, simp)
    fix n d and w' :: "'m world" assume n: "insert_query (query_row_of e now) (w_db w) = Inr (n, d)" and w': "w_db w' = d" "w_ext w' = w_ext w"
    show "wp (insert_events now es) (\<lambda>_ _. True) (\<lambda>a. wp (returnM (case n of None \<Rightarrow> a | Some i \<Rightarrow> (e, fromEvent e\<lparr>sv_ID := i\<rparr>) # a))
        (\<lambda>_ _. True) (\<lambda>ins w'. rows_added now ins (w_db w) (w_db w') \<and> w_ext w' = w_ext w)) w'"
    proof (rule wp_mono [OF Cons.IH [of w']], simp)
      fix ins t assume t: "rows_added now ins (w_db w') (w_db t) \<and> w_ext t = w_ext w'"
      show "wp (returnM (case n of None \<Rightarrow> ins | Some i \<Rightarrow> (e, fromEvent e\<lparr>sv_ID := i\<rparr>) # ins)) (\<lambda>_ _. True)
          (\<lambda>ins w'. rows_added now ins (w_db w) (w_db w') \<and> w_ext w' = w_ext w) t"
        using insert_query_cases [OF n] t w' by (auto simp: wp_simps dest: rows_added_Cons)
    qed
  qed
qed

lemma aggregates_count:
  "wp (traverseM (aggregate now) es) (\<lambda>_ _. True) (\<lambda>_ w'. d_hourly (w_db w') = fold count_row es (d_hourly (w_db w))
     \<and> d_queries (w_db w') = d_queries (w_db w) \<and> w_ext w' = w_ext w) w"
proof -
  let ?R = "\<lambda>h w'. d_hourly (w_db w') = h \<and> d_queries (w_db w') = d_queries (w_db w) \<and> w_ext w' = w_ext w"
  have st: "wp (traverseM (\<lambda>f. db_exec (on_hourly f)) fs) (\<lambda>_ _. True) (\<lambda>_. ?R (fold (\<lambda>f. f) fs h)) w'"
    if "?R h w'" for fs h w'
    by (rule wp_traverse_fold [where R = ?R, OF _ that]) (intro wp_intros, auto simp: on_hourly_def)
  have "wp (aggregate now e) (\<lambda>_ _. True) (\<lambda>_. ?R (count_row e h)) w'" if "?R h w'" for e h w'
    unfolding aggregate_def count_row_def using that
    by (intro wp_bindM_I wp_db_exec_I st) (auto dest: touch_device_frame)
  then show ?thesis by (rule wp_traverse_fold [where R = ?R]) auto
qed

lemma persist_tx_logged:
  assumes "logged (w_db w)"
  shows "wp (persist_tx es) (\<lambda>_ w'. w_db w' = w_db w) (\<lambda>_ w'. logged (w_db w')) w"
proof -
  have body: "wp (insert_events now es) (\<lambda>_ _. True) (\<lambda>ins. wp (traverseM (aggregate now) (map fst ins)) (\<lambda>_ _. True)
      (\<lambda>_ w'. logged (w_db w'))) w'" if "w_db w' = w_db w" for now and w' :: "'a world"
  proof (rule wp_mono [OF insert_events_rows], simp)
    fix ins and t :: "'a world"
    assume t: "rows_added now ins (w_db w') (w_db t) \<and> w_ext t = w_ext w'"
    then have h: "d_hourly (w_db t) = hourly_of (log_of (w_db w))"
      and q: "log_of (w_db t) = log_of (w_db w) @ map (\<lambda>(e, s). query_row_of e now) ins"
      using assms that by (auto simp: rows_added_def logged_def log_of_def comp_def case_prod_beta)
    have "hourly_of (log_of (w_db t)) = fold count_row (map fst ins) (hourly_of (log_of (w_db w)))"
      by (simp add: q hourly_of_def fold_map comp_def case_prod_beta count_row_of)
    then show "wp (traverseM (aggregate now) (map fst ins)) (\<lambda>_ _. True) (\<lambda>_ w'. logged (w_db w')) t"
      using h by (intro wp_mono [OF aggregates_count]) (auto simp: logged_def log_of_def)
  qed
  have put: "logged d'" if "logged d" "put_state k v d = Inr d'" for d d' k v
    using that by (auto simp: put_state_def logged_def log_of_def)
  show ?thesis
    unfolding persist_tx_def
    by (intro wp_transaction_I wp_bindM_I wp_time_now_I; simp?)
      (auto simp: wp_simps intro!: wp_mono [OF body] wp_db_exec_I wp_returnM_I elim!: wp_mono dest: put)
qed

text \<open>What does not touch the tables.\<close>

lemma stable_memory_db [stable_intros]:
  "stable (onDB J) (on_state f)" "stable (onDB J) (change g)" "stable (onDB J) state"
  unfolding change_def state_def on_state_def by (intro stable_intros)+

lemma stable_name_devices_db [stable_intros]: "stable (onDB J) (name_devices es)"
  by (induction es) (simp_all only: name_devices.simps, (intro stable_intros; assumption?)+)

lemma stable_persist_tx: "stable (onDB logged) (persist_tx es)"
  by (auto simp: stable_wp intro!: wp_mono [OF persist_tx_logged])

lemma stable_writer_db:
  assumes "\<And>es. stable (onDB J) (persist_tx es :: (error, 'm iworld, (Event \<times> StoredEvent) list) prog)"
  shows "stable (onDB J) (writer t :: (error, 'm iworld, unit) prog)"
proof -
  have f: "stable (onDB J) (flush :: (error, 'm iworld, unit) prog)"
    unfolding flush_def persist_def by (intro stable_intros assms)
  have "stable (onDB J) (writer_turn md t s :: (error, 'm iworld, unit) prog)" for md s
    by (cases "(md, t, s)" rule: writer_turn.cases; simp only: writer_turn.simps prod.inject; (intro stable_intros f)?; simp?)
  then show ?thesis unfolding writer_def by (intro stable_bindM stable_memory_db)
qed

lemma run_keeps_db:
  assumes "\<And>es. stable (onDB J) (persist_tx es :: (error, 'm iworld, (Event \<times> StoredEvent) list) prog)"
    and "J (w_db (w :: 'm iworld))" and "Maintain \<notin> set cs"
  shows "J (w_db (fold (ingest_run L) cs w))"
proof -
  have step: "J (w_db (ingest_run L c w))" if "J (w_db w)" "c \<noteq> Maintain" for c and w :: "'m iworld"
  proof (cases c)
    case (Turn t)
    with that stable_writer_db [OF assms(1), of t] show ?thesis by (simp add: stable_def)
  next
    case (Set_days n)
    have "stable (onDB J) (SetRetentionDays n :: (error, 'm iworld, unit) prog)"
      unfolding SetRetentionDays_def by (intro stable_intros)
    with that Set_days show ?thesis by (simp add: stable_def)
  next
    case (Set_max n)
    have "stable (onDB J) (SetDatabaseMaxGiB n :: (error, 'm iworld, unit) prog)"
      unfolding SetDatabaseMaxGiB_def by (intro stable_intros)
    with that Set_max show ?thesis by (simp add: stable_def)
  qed (use that in \<open>simp_all add: snd_on_state\<close>)
  show ?thesis using assms(2,3)
  proof (induction cs arbitrary: w)
    case (Cons c cs)
    then have "J (w_db (ingest_run L c w))" by (intro step) auto
    with Cons show ?case by simp
  qed simp
qed

lemma logged_empty: "d_queries d = empty_table \<Longrightarrow> d_hourly d = empty_hourly \<Longrightarrow> logged d"
  by (simp add: logged_def log_of_def hourly_of_def empty_table_def)

lemma logged_run:
  "logged (w_db w) \<Longrightarrow> Maintain \<notin> set cs \<Longrightarrow> logged (w_db (fold (ingest_run L) cs w))"
  by (rule run_keeps_db [OF stable_persist_tx])

lemma logged_tables:
  assumes "logged d"
  shows "map_of (h_global (d_hourly d)) = reference global_key global_total (log_of d)"
    "map_of (h_domain (d_hourly d)) = reference (\<lambda>r. (hour_of r, q_QName r, q_Route r)) stat_total (log_of d)"
    "map_of (h_client (d_hourly d)) = reference (\<lambda>r. (hour_of r, q_ClientIP r, q_Route r)) stat_total (log_of d)"
    "map_of (h_client_domain (d_hourly d))
       = reference (\<lambda>r. (hour_of r, q_ClientIP r, q_QName r, q_Route r)) (\<lambda>rs. int (length rs)) (log_of d)"
    "map_of (h_upstream_group (d_hourly d)) = reference (\<lambda>r. (hour_of r, q_UpstreamGroup r)) max_stat_total
       (filter (\<lambda>r. q_UpstreamGroup r \<noteq> '''') (log_of d))"
    "map_of (h_latency_bucket (d_hourly d))
       = reference (\<lambda>r. (hour_of r, upper_bound (q_LatencyUS r))) (\<lambda>rs. int (length rs)) (log_of d)"
  using assms by (simp_all add: logged_def hourly_of_sel global.counted plain.counted maxed.counted number.counted)

end
