(* ===== verification/IngestSummary.thy ===== *)
theory IngestSummary
  imports HourlyStats "HOL-Library.Multiset"
begin

text \<open>
  What the summary page shows, computed from the hourly tables, against the raw log: the counts,
  the latencies, and the 95th percentile with its rounding in double precision.
\<close>

section \<open>The percentile\<close>

lemma round_double_error:
  assumes "0 \<le> n"
  shows "\<bar>round_double n - n\<bar> * 2 ^ 53 \<le> n"
proof (cases "bitlen n - 53 \<le> 0")
  case True
  then show ?thesis using assms by (simp add: round_double_def)
next
  case False
  define k where "k = nat (bitlen n - 53)"
  define m :: int where "m = 2 ^ k"
  have n: "0 < n" using False assms by (cases "n = 0") auto
  have "nat (bitlen n - 1) = k + 52" using False unfolding k_def by linarith
  then have "m * 2 ^ 52 = 2 ^ nat (bitlen n - 1)" unfolding m_def by (simp add: power_add)
  then have big: "m * 2 ^ 52 \<le> n" using bitlen_bounds [OF n] by simp
  have m: "0 < m" by (simp add: m_def)
  define q r where "q = n div m * m" and "r = n mod m"
  have n: "n = q + r" "0 \<le> r" "r < m" using m by (simp_all add: q_def r_def)
  have "round_double n = (if 2 * r < m \<or> 2 * r = m \<and> even (n div m) then n div m else n div m + 1) * m"
    using False by (simp add: round_double_def Let_def m_def k_def r_def)
  then have "round_double n = q \<and> 2 * r \<le> m \<or> round_double n = q + m \<and> m \<le> 2 * r"
    by (auto simp: q_def distrib_right)
  then have "2 * \<bar>round_double n - n\<bar> \<le> m" using n by (elim disjE conjE) (simp_all add: abs_if)
  then have "2 * \<bar>round_double n - n\<bar> * 2 ^ 52 \<le> m * 2 ^ 52" by (rule mult_right_mono) simp
  then show ?thesis using big by simp
qed

lemma percentile_target_exact:
  assumes "0 \<le> n" and "n \<le> 2 ^ 30"
  shows "percentile_target n = (95 * n + 99) div 100"
proof -
  define M C K :: int where "M = 8556839292003942" and "C = 9007190247541737" and "K = 2 ^ 53"
  define t where "t = (95 * n + 99) div 100"
  have "\<bar>round_double n - n\<bar> * 2 ^ 53 < 1 * 2 ^ 53" 
    using order_le_less_trans [OF round_double_error [OF assms(1)], of "2 ^ 53"] assms(2) by simp
  then have "\<bar>round_double n - n\<bar> < 1" by (rule mult_right_less_imp_less) simp
  then have a: "round_double n = n" by linarith
  define P where "P = round_double (n * M)"
  have "\<bar>P - n * M\<bar> * K \<le> n * M" unfolding P_def K_def using assms(1) by (intro round_double_error) (simp add: M_def)
  also have "\<dots> \<le> n * K" using assms(1) by (simp add: M_def K_def)
  finally have P: "\<bar>P - n * M\<bar> \<le> n" by (simp add: K_def)
  then have P0: "0 \<le> P" using assms(1) by (simp add: M_def)
  define S where "S = round_double (P + C)"
  have "\<bar>S - (P + C)\<bar> * K \<le> P + C" unfolding S_def K_def using P0 by (intro round_double_error) (simp add: C_def)
  also have "\<dots> \<le> (n + 1) * K" using P assms by (simp add: M_def C_def K_def)
  finally have S: "\<bar>S - (P + C)\<bar> \<le> n + 1" by (simp add: K_def)
  have t: "19 * n \<le> 20 * t" "20 * t \<le> 19 * n + 19" unfolding t_def by linarith+
  have "K * t \<le> S" using S P t assms by (simp add: M_def C_def K_def)
  moreover have "S < K * (t + 1)" using S P t assms by (simp add: M_def C_def K_def)
  ultimately have "S div K = t" by (intro int_div_pos_eq [where r = "S - K * t"]) (simp_all add: algebra_simps)
  then show ?thesis
    by (simp add: percentile_target_def a t_def P_def S_def M_def C_def K_def)
qed

lemma percentile_loop_spec:
  assumes "percentile_loop target c counts = Some b" and "sorted (map fst counts)" "distinct (map fst counts)"
    and "c < target"
  shows "target \<le> c + sum_where (\<lambda>k. k \<le> b) (\<lambda>n. n) counts \<and> c + sum_where (\<lambda>k. k < b) (\<lambda>n. n) counts < target"
  using assms
proof (induction target c counts rule: percentile_loop.induct)
  case (2 target c k n counts)
  have later: "k < j" if "j \<in> fst ` set counts" for j
    using that 2(3,4) by (auto simp: order_less_le)
  show ?case
  proof (cases "target \<le> c + n")
    case True
    with 2(2) have b: "b = k" by simp
    have "filter (\<lambda>x. fst x \<le> k) counts = []" "filter (\<lambda>x. fst x < k) counts = []"
      using later by (force simp: filter_empty_conv)+
    with True b 2(5) show ?thesis by (simp add: sum_where_def)
  next
    case False
    with 2 have r: "percentile_loop target (c + n) counts = Some b"
      "target \<le> c + n + sum_where (\<lambda>k. k \<le> b) (\<lambda>n. n) counts" "c + n + sum_where (\<lambda>k. k < b) (\<lambda>n. n) counts < target"
      by auto
    from r(1) have "b \<in> fst ` set counts"
      by (induction target "c + n" counts arbitrary: c n rule: percentile_loop.induct) (auto split: if_splits simp: add.assoc)
    with later have "k < b" by blast
    with r show ?thesis by (simp add: sum_where_def)
  qed
qed simp

lemma percentile_loop_total:
  "target \<le> c + sum_by snd counts \<Longrightarrow> c < target \<Longrightarrow> percentile_loop target c counts \<noteq> None"
  by (induction target c counts rule: percentile_loop.induct) auto

text \<open>The bound returned is the least that 95 percent of the samples do not exceed.\<close>

lemma percentile_of_spec:
  assumes "sorted (map fst counts)" "distinct (map fst counts)"
    and "0 < sum_by snd counts" "sum_by snd counts \<le> 2 ^ 30"
    and "percentile_of counts = (b, n)"
  shows "n = sum_by snd counts \<and> 95 * n \<le> 100 * sum_where (\<lambda>k. k \<le> b) (\<lambda>n. n) counts
     \<and> 100 * sum_where (\<lambda>k. k < b) (\<lambda>n. n) counts < 95 * n"
proof -
  define t where "t = percentile_target (sum_by snd counts)"
  have t: "t = (95 * sum_by snd counts + 99) div 100"
    unfolding t_def using assms(3,4) by (intro percentile_target_exact) auto
  with assms(3) have t0: "0 < t" "t \<le> sum_by snd counts" by auto
  obtain k where k: "percentile_loop t 0 counts = Some k"
    using percentile_loop_total [of t 0 counts] t0 by auto
  with assms(3,5) have "b = k" "n = sum_by snd counts"
    by (auto simp: percentile_of_def Let_def t_def sum_by_def)
  moreover have "x \<le> 100 * ((x + 99) div 100)" "100 * ((x + 99) div 100 - 1) < x" for x :: int
    by presburger+
  then have "95 * sum_by snd counts \<le> 100 * t" "100 * (t - 1) < 95 * sum_by snd counts"
    unfolding t by blast+
  ultimately show ?thesis using percentile_loop_spec [OF k assms(1,2) t0(1)] by auto
qed

section \<open>The summary\<close>

lemma group_sums_where:
  "sum_where P (\<lambda>n. n) (group_sums xs) = sum_where P (\<lambda>n. n) xs"
proof -
  have "sum_where P (\<lambda>n. n) (fold (\<lambda>(k, n). upsert (+) k n) xs acc) = sum_where P (\<lambda>n. n) acc + sum_where P (\<lambda>n. n) xs" for acc
    by (induction xs arbitrary: acc) (auto simp: sum_where_upsert, auto simp: sum_where_def)
  from this [of "[]"] show ?thesis by (simp add: group_sums_def sum_where_def)
qed

lemma group_sums_keys: "distinct (map fst (group_sums xs))"
proof -
  have "distinct (map fst (fold (\<lambda>(k, n). upsert (+) k n) xs acc))" if "distinct (map fst acc)" for acc
    using that by (induction xs arbitrary: acc) (auto simp: distinct_upsert)
  then show ?thesis by (simp add: group_sums_def)
qed

lemma sum_where_sort: "sum_where P f (sort_key g xs) = sum_where P f xs"
proof -
  have "sum_by h (filter Q (sort_key g xs)) = sum_by h (filter Q xs)" for h Q
    unfolding sum_by_def sum_mset_sum_list [symmetric] mset_map mset_filter mset_sort ..
  then show ?thesis by (simp add: sum_where_def)
qed

lemma sum_where_all: "sum_where (\<lambda>_. True) (\<lambda>n. n) xs = sum_by snd xs"
  by (simp add: sum_where_def sum_by_def case_prod_beta)

text \<open>The rows of the log whose hour begins at \<open>from\<close> or later.\<close>

definition since :: "int \<Rightarrow> db \<Rightarrow> query_row list" where
  "since from d = filter (\<lambda>r. from \<le> hour_of r) (log_of d)"

lemma latency_counts_spec:
  assumes "logged d"
  shows "sum_where P (\<lambda>n. n) (latency_counts from d) = tally (\<lambda>r. P (upper_bound (q_LatencyUS r))) (since from d)"
    "sorted (map fst (latency_counts from d))" "distinct (map fst (latency_counts from d))"
proof -
  let ?t = "h_latency_bucket (d_hourly d)"
  have "sum_where P (\<lambda>n. n) (latency_counts from d)
      = sum_where P (\<lambda>n. n) (map (\<lambda>((_, b), n). (b, n)) (filter (\<lambda>((h, _), _). from \<le> h) ?t))"
    by (simp add: latency_counts_def sum_where_sort group_sums_where)
  also have "\<dots> = sum_where (\<lambda>(h, b). from \<le> h \<and> P b) (\<lambda>n. n) ?t"
    by (simp add: sum_where_def filter_map sum_by_def comp_def case_prod_beta conj_commute)
  also have "\<dots> = sum_by (\<lambda>_. 1) (filter (\<lambda>r. from \<le> hour_of r \<and> P (upper_bound (q_LatencyUS r))) (log_of d))"
    using assms sum_where_counted [where f = "\<lambda>n. n" and m = "\<lambda>n _. n + 1" and one = "\<lambda>_. 1"
        and P = "\<lambda>(h, b). from \<le> h \<and> P b" and key = "\<lambda>r. (hour_of r, upper_bound (q_LatencyUS r))"
        and rows = "log_of d"]
    by (simp add: logged_def hourly_of_sel)
  finally show "sum_where P (\<lambda>n. n) (latency_counts from d) = tally (\<lambda>r. P (upper_bound (q_LatencyUS r))) (since from d)"
    by (simp add: tally_def since_def sum_by_def sum_list_triv conj_commute)
  show "sorted (map fst (latency_counts from d))" by (simp add: latency_counts_def)
  show "distinct (map fst (latency_counts from d))"
    using group_sums_keys by (auto simp: latency_counts_def distinct_map)
qed

lemma global_since_sum:
  assumes "logged d" and "\<And>v (x :: query_row). f (add_global_stat v (global_stat_of x)) = f v + f (global_stat_of x)"
  shows "sum_by f (global_since from d) = sum_by (\<lambda>r. f (global_stat_of r)) (since from d)"
proof -
  have "sum_by f (global_since from d) = sum_where (\<lambda>(h, _). from \<le> h) f (h_global (d_hourly d))"
    by (simp add: global_since_def sum_where_def sum_by_def comp_def case_prod_unfold)
  also have "\<dots> = sum_by (\<lambda>r. f (global_stat_of r)) (filter (\<lambda>r. case global_key r of (h, _) \<Rightarrow> from \<le> h) (log_of d))"
    using assms(1) sum_where_counted [of f add_global_stat global_stat_of "\<lambda>(h, _). from \<le> h" global_key "log_of d", OF assms(2)]
    by (simp add: logged_def hourly_of_sel)
  finally show ?thesis by (simp add: since_def global_key_def)
qed

lemma global_entries:
  assumes "logged d" and "((h, c), v) \<in> set (h_global (d_hourly d))"
  shows "v = global_total (filter (\<lambda>r. global_key r = (h, c)) (log_of d))"
    "filter (\<lambda>r. global_key r = (h, c)) (log_of d) \<noteq> []"
proof -
  have "distinct (map fst (h_global (d_hourly d)))"
    using assms(1) by (simp add: logged_def hourly_of_sel global.counted_keys)
  with assms(2) have "map_of (h_global (d_hourly d)) (h, c) = Some v" by simp
  then show "v = global_total (filter (\<lambda>r. global_key r = (h, c)) (log_of d))"
    "filter (\<lambda>r. global_key r = (h, c)) (log_of d) \<noteq> []"
    using logged_tables(1) [OF assms(1)] by (auto simp: reference_def Let_def split: if_splits)
qed

lemma global_since_max:
  assumes "logged d"
  shows "max_by sc_latency_max_us (global_since from d) = max_by q_LatencyUS (since from d)"
proof -
  let ?t = "h_global (d_hourly d)"
  have lat: "sc_latency_max_us (global_total rs) = max_by q_LatencyUS rs" for rs by (simp add: stat_defs)
  have row: "\<exists>v. (global_key r, v) \<in> set ?t \<and> q_LatencyUS r \<le> sc_latency_max_us v" if "r \<in> set (log_of d)" for r
  proof -
    let ?rs = "filter (\<lambda>s. global_key s = global_key r) (log_of d)"
    have "map_of ?t (global_key r) = Some (global_total ?rs)"
      using that logged_tables(1) [OF assms] by (auto simp: reference_def Let_def filter_empty_conv)
    moreover have "q_LatencyUS r \<le> max_by q_LatencyUS ?rs"
      using that by (subst max_by_Max) (auto simp: filter_empty_conv)
    ultimately show ?thesis using lat by (metis map_of_SomeD)
  qed
  have entry: "\<exists>r \<in> set (log_of d). global_key r = k \<and> sc_latency_max_us v = q_LatencyUS r" if "(k, v) \<in> set ?t" for k v
  proof -
    obtain h c where k: "k = (h, c)" by (cases k)
    let ?rs = "filter (\<lambda>r. global_key r = k) (log_of d)"
    have v: "v = global_total ?rs" "?rs \<noteq> []" using global_entries [OF assms that [unfolded k]] k by auto
    have "max_by q_LatencyUS ?rs \<in> q_LatencyUS ` set ?rs" using v(2) by (subst max_by_Max) (auto intro: Max_in)
    with v(1) lat show ?thesis by auto
  qed
  show ?thesis
  proof (cases "since from d = []")
    case True
    have "global_since from d = []"
      using entry True by (fastforce simp: global_since_def since_def filter_empty_conv global_key_def)
    with True show ?thesis by (simp add: max_by_def)
  next
    case False
    then obtain r where r: "r \<in> set (log_of d)" "from \<le> hour_of r" by (auto simp: since_def filter_empty_conv)
    from row [OF r(1)] r(2) have ne: "global_since from d \<noteq> []"
      by (force simp: global_since_def filter_empty_conv global_key_def)
    have "Max (sc_latency_max_us ` set (global_since from d)) = Max (q_LatencyUS ` set (since from d))"
    proof (rule Max_eq_if)
      show "\<forall>m \<in> sc_latency_max_us ` set (global_since from d). \<exists>n \<in> q_LatencyUS ` set (since from d). m \<le> n"
        using entry by (fastforce simp: global_since_def since_def global_key_def)
      show "\<forall>m \<in> q_LatencyUS ` set (since from d). \<exists>n \<in> sc_latency_max_us ` set (global_since from d). m \<le> n"
        using row by (fastforce simp: global_since_def since_def global_key_def)
    qed simp_all
    with ne False show ?thesis by (simp add: max_by_Max)
  qed
qed

lemmas global_sel = global_stat_of_def max_stat_of_def stat_of_def add_global_stat_def stat.defs max_stat.defs global_stat.defs

lemma global_since_sums:
  assumes "logged d"
  shows "sum_by sc_query_count (global_since from d) = int (length (since from d))"
    "sum_by sc_latency_sum_us (global_since from d) = sum_by q_LatencyUS (since from d)"
    "sum_by sc_cache_hit_count (global_since from d) = tally q_CacheHit (since from d)"
    "sum_by sc_success_count (global_since from d) = tally (\<lambda>r. resultClass r = ''success'') (since from d)"
    "sum_by sc_negative_answer_count (global_since from d) = tally (\<lambda>r. resultClass r = ''negative_answer'') (since from d)"
    "sum_by sc_policy_block_count (global_since from d) = tally (\<lambda>r. resultClass r = ''policy_block'') (since from d)"
    "sum_by sc_processing_error_count (global_since from d) = tally (\<lambda>r. resultClass r = ''processing_error'') (since from d)"
proof -
  have "sum_by (\<lambda>r. 1) rs = int (length rs)" for rs :: "query_row list" by (induction rs) simp_all
  then show "sum_by sc_query_count (global_since from d) = int (length (since from d))"
    using global_since_sum [OF assms, of sc_query_count] by (simp add: global_sel)
qed (subst global_since_sum [OF assms]; simp add: global_sel sum_boolInt)+

text \<open>The result classes partition the events.\<close>

lemma class_partition:
  "tally (\<lambda>r. resultClass r = ''success'') rs + tally (\<lambda>r. resultClass r = ''negative_answer'') rs
   + tally (\<lambda>r. resultClass r = ''policy_block'') rs + tally (\<lambda>r. resultClass r = ''processing_error'') rs = int (length rs)"
  by (induction rs) (auto simp: resultClass_def boolInt_def)

definition summary_matches :: "int \<Rightarrow> int \<Rightarrow> db \<Rightarrow> Summary \<Rightarrow> bool" where
  "summary_matches now now2 d r =
     (let day = since (now - 24 * hour_ms) d; n = int (length day) in
      sm_query_count r = n \<and> sm_last_hour_query_count r = int (length (since (now2 - hour_ms) d))
      \<and> sm_success_count r = tally (\<lambda>r. resultClass r = ''success'') day
      \<and> sm_negative_answer_count r = tally (\<lambda>r. resultClass r = ''negative_answer'') day
      \<and> sm_policy_block_count r = tally (\<lambda>r. resultClass r = ''policy_block'') day
      \<and> sm_processing_error_count r = tally (\<lambda>r. resultClass r = ''processing_error'') day
      \<and> sm_cache_hit_count r = tally q_CacheHit day
      \<and> sm_average_latency_us r = (if n = 0 then 0 else sum_by q_LatencyUS day sdiv n)
      \<and> sm_max_latency_us r = max_by q_LatencyUS day
      \<and> sm_p95_sample_count r = n
      \<and> (0 < n \<longrightarrow> n \<le> 2 ^ 30 \<longrightarrow>
           95 * n \<le> 100 * tally (\<lambda>r'. upper_bound (q_LatencyUS r') \<le> sm_p95_latency_us r) day
         \<and> 100 * tally (\<lambda>r'. upper_bound (q_LatencyUS r') < sm_p95_latency_us r) day < 95 * n))"

lemma latency_counts_total: "logged d \<Longrightarrow> sum_by snd (latency_counts from d) = int (length (since from d))"
  using latency_counts_spec(1) [where P = "\<lambda>_. True" and d = d] by (simp add: sum_where_all tally_def)

lemma percentile_of_samples: "snd (percentile_of counts) = sum_by snd counts"
  by (auto simp: percentile_of_def Let_def sum_by_def split: option.splits)

lemma faulty_mem: "faulty w \<Longrightarrow> True \<in> set (w_faults w)"
  by (auto simp: faulty_def split: list.splits)

lemma pop_fault_mem: "x \<in> set (w_faults (pop_fault w)) \<Longrightarrow> x \<in> set (w_faults w)"
  by (cases "w_faults w") (simp_all add: pop_fault_def)

lemma SummaryOf_matches:
  assumes "logged (w_db w)" and "w_clock w = now # now2 # ts"
  shows "wp SummaryOf (\<lambda>e _. e = Fault \<and> True \<in> set (w_faults w)) (\<lambda>r w'. summary_matches now now2 (w_db w) r \<and> w_db w' = w_db w) w"
proof -
  let ?d = "w_db w"
  note total = latency_counts_total [OF assms(1)]
  have p: "95 * int (length (since f ?d)) \<le> 100 * tally (\<lambda>r'. upper_bound (q_LatencyUS r') \<le> b) (since f ?d)
      \<and> 100 * tally (\<lambda>r'. upper_bound (q_LatencyUS r') < b) (since f ?d) < 95 * int (length (since f ?d))"
    if "percentile_of (latency_counts f ?d) = (b, n)" "since f ?d \<noteq> []" "length (since f ?d) \<le> 1073741824" for b n f
    using percentile_of_spec [OF latency_counts_spec(2,3) [OF assms(1)] _ _ that(1)] that(2,3)
    by (simp add: total latency_counts_spec(1) [OF assms(1)])
  have n: "n = int (length (since f ?d))" if "percentile_of (latency_counts f ?d) = (b, n)" for b n f
    using percentile_of_samples [of "latency_counts f ?d"] that by (simp add: total)
  show ?thesis
    unfolding SummaryOf_def latencyPercentile_def
    using assms(2)
    by (auto simp: wp_simps summary_matches_def Let_def global_since_sums [OF assms(1)] global_since_max [OF assms(1)]
        dest: n p dest!: faulty_mem pop_fault_mem split: prod.splits)
qed

end
