(* ===== verification/IngestDelivery.thy ===== *)
theory IngestDelivery
  imports HourlyStats
begin

text \<open>
  Delivery: as long as the store works, every accepted event is in the queue, in the batch of the
  writer or in the log, where it is once; after the shutdown it is in the log. When a batch
  cannot be stored it is dropped.
\<close>

section \<open>Without faults\<close>

definition event_ok :: "Event \<Rightarrow> bool" where
  "event_ok e = (q_Route e \<in> set [''forward'', ''block'', ''local''])"

lemma resultClass_range: "resultClass e \<in> set [''success'', ''negative_answer'', ''policy_block'', ''processing_error'']"
  by (simp add: resultClass_def)

lemma query_check_of: "event_ok e \<Longrightarrow> query_check (query_row_of e now)"
  using resultClass_range [of e] by (simp add: query_check_def event_ok_def)

lemma validateEvent_ok: "validateEvent L e = Inr () \<Longrightarrow> event_ok e"
  by (auto simp: validateEvent_def event_ok_def split: if_splits)

lemma validateBatch_ok: "validateBatch L b = Inr () \<Longrightarrow> \<forall>e \<in> set (ba_Events b). event_ok e"
proof -
  have "validate_events L es = Inr () \<Longrightarrow> \<forall>e \<in> set es. event_ok e" for es
    by (induction es) (auto simp: validateEvent_ok split: sum.splits)
  then show "validateBatch L b = Inr () \<Longrightarrow> \<forall>e \<in> set (ba_Events b). event_ok e"
    by (auto simp: validateBatch_def split: if_splits)
qed

text \<open>The rows of the log are events of \<open>acc\<close>, with distinct ids that cover those of \<open>es\<close>.\<close>

definition log_from :: "Event set \<Rightarrow> db \<Rightarrow> bool" where
  "log_from acc d = (distinct (map q_EventID (log_of d)) \<and> (\<forall>r \<in> set (log_of d). \<exists>e \<in> acc. \<exists>now. r = query_row_of e now))"

definition log_ids :: "db \<Rightarrow> string set" where
  "log_ids d = q_EventID ` set (log_of d)"

lemma insert_query_log:
  assumes "event_ok e" "e \<in> acc" "log_from acc d" "insert_query (query_row_of e now) d = Inr (n, d')"
  shows "log_from acc d'" "log_ids d' = insert (q_EventID e) (log_ids d)"
proof -
  have "(\<exists>x \<in> set (tb_rows (d_queries d)). q_EventID (snd x) = q_EventID e) \<longleftrightarrow> q_EventID e \<in> log_ids d"
    by (force simp: log_ids_def log_of_def)
  then have "q_EventID e \<in> log_ids d \<and> d' = d \<or> q_EventID e \<notin> log_ids d \<and> log_of d' = log_of d @ [query_row_of e now]"
    using assms(1,4) by (auto simp: insert_query_def query_check_of list_ex_iff log_of_def insert_row_def
        case_prod_beta split: if_splits)
  then show "log_from acc d'" "log_ids d' = insert (q_EventID e) (log_ids d)"
    using assms(2,3) by (auto simp: log_from_def log_ids_def) blast
qed

lemma insert_events_total:
  assumes "w_faults w = []" "\<forall>e \<in> set es. event_ok e \<and> e \<in> acc" "log_from acc (w_db w)"
  shows "wp (insert_events now es) (\<lambda>_ _. False) (\<lambda>_ w'. w_faults w' = [] \<and> w_ext w' = w_ext w
     \<and> log_from acc (w_db w') \<and> log_ids (w_db w') = log_ids (w_db w) \<union> q_EventID ` set es) w"
  using assms
proof (induction es arbitrary: w)
  case (Cons e es)
  have "\<exists>n d. insert_query (query_row_of e now) (w_db w) = Inr (n, d)"
    by (simp add: insert_query_def)
  then obtain n d where n: "insert_query (query_row_of e now) (w_db w) = Inr (n, d)" by blast
  with Cons.prems have d: "log_from acc d" "log_ids d = insert (q_EventID e) (log_ids (w_db w))"
    using insert_query_log [of e acc "w_db w" now n d] by auto
  let ?w = "(pop_fault w)\<lparr>w_db := d\<rparr>"
  have "w_faults ?w = []" "\<not> faulty w" using Cons.prems(1) by (simp_all add: pop_fault_def faulty_def)
  with Cons.IH [of ?w] Cons.prems(2) d n show ?case
    by (auto simp: wp_simps elim!: wp_mono)
qed (simp add: wp_simps)

lemma aggregates_total:
  assumes "w_faults w = []"
  shows "wp (traverseM (aggregate now) es) (\<lambda>_ _. False) (\<lambda>_ w'. w_faults w' = [] \<and> w_ext w' = w_ext w
     \<and> d_queries (w_db w') = d_queries (w_db w)) w"
proof -
  let ?R = "\<lambda>w'. w_faults w' = [] \<and> w_ext w' = w_ext w \<and> d_queries (w_db w') = d_queries (w_db w)"
  have step: "wp (db_exec u) (\<lambda>_ _. False) (\<lambda>_. ?R) w'"
    if "?R w'" "\<exists>d. u (w_db w') = Inr d \<and> d_queries d = d_queries (w_db w')" for u w'
    using that by (auto simp: wp_db_exec faulty_def pop_fault_def)
  have "wp (traverseM (\<lambda>f. db_exec (on_hourly f)) fs) (\<lambda>_ _. False) (\<lambda>_. ?R) w'" if "?R w'" for fs w'
    by (rule wp_traverse_inv [OF step that]) (simp_all add: on_hourly_def)
  then have "wp (aggregate now e) (\<lambda>_ _. False) (\<lambda>_. ?R) w'" if "?R w'" for e w'
    unfolding aggregate_def using that by (intro wp_bindM_I wp_mono [OF step]) (simp_all add: touch_device_def)
  then show ?thesis by (rule wp_traverse_inv [where R = ?R]) (simp_all add: assms)
qed

lemma persist_tx_total:
  assumes "w_faults w = []" "\<forall>e \<in> set es. event_ok e \<and> e \<in> acc" "log_from acc (w_db w)"
  shows "wp (persist_tx es) (\<lambda>_ _. False) (\<lambda>_ w'. w_faults w' = [] \<and> w_ext w' = w_ext w
     \<and> log_from acc (w_db w') \<and> log_ids (w_db w') = log_ids (w_db w) \<union> q_EventID ` set es) w"
proof -
  let ?R = "\<lambda>w'. w_faults w' = [] \<and> w_ext w' = w_ext w \<and> log_from acc (w_db w')
      \<and> log_ids (w_db w') = log_ids (w_db w) \<union> q_EventID ` set es"
  have ff: "\<not> faulty u \<and> pop_fault u = u" if "w_faults u = []" for u :: "'a world"
    using that by (cases u) (simp add: faulty_def pop_fault_def)
  have fin: "wp (db_exec (put_state k v)) (\<lambda>_ _. False) (\<lambda>_. ?R) u" if "?R u" for k v u
    using that ff [of u] by (simp add: wp_db_exec put_state_def log_from_def log_ids_def log_of_def)
  have agg: "wp (traverseM (aggregate now) xs) (\<lambda>_ _. False) (\<lambda>_. ?R) u" if "?R u" for now xs u
    by (rule wp_mono [OF aggregates_total]) (use that in \<open>auto simp: log_from_def log_ids_def log_of_def\<close>)
  have ins: "wp (insert_events now es) (\<lambda>_ _. False) (\<lambda>_. ?R) u"
    if "w_faults u = []" "w_db u = w_db w" "w_ext u = w_ext w" for now u
    using insert_events_total [of u es acc now] that assms by simp
  have body: "wp (bindM (insert_events now es) (\<lambda>inserted. bindM (traverseM (aggregate now) (map fst inserted)) (\<lambda>_.
      bindM (db_exec (put_state k v)) (\<lambda>_. returnM inserted)))) (\<lambda>_ _. False) (\<lambda>_. ?R) u"
    if "w_faults u = []" "w_db u = w_db w" "w_ext u = w_ext w" for now u k v
    unfolding wp_bindM wp_returnM
    by (rule wp_mono [OF ins [OF that]], assumption, rule wp_mono [OF agg], assumption, assumption, rule fin)
  have "wp (bindM time_now (\<lambda>now. bindM (insert_events now es) (\<lambda>inserted. bindM (traverseM (aggregate now) (map fst inserted)) (\<lambda>_.
      bindM (db_exec (put_state ''last_successful_ingest_at'' (FormatInt now))) (\<lambda>_. returnM inserted))))) (\<lambda>_ _. False) (\<lambda>_. ?R) w"
    by (rule wp_bindM_I) (use assms(1) in \<open>auto simp: wp_time_now intro!: body split: list.splits\<close>)
  then show ?thesis
    unfolding persist_tx_def wp_transaction wp_db_query
    using ff assms(1) by (auto elim!: wp_mono)
qed

lemma name_devices_total:
  "w_faults w = [] \<Longrightarrow> wp (name_devices es) (\<lambda>_ _. False) (\<lambda>_ w'. w_faults w' = [] \<and> w_ext w' = w_ext w \<and> w_db w' = w_db w) w"
proof (induction es arbitrary: w)
  case (Cons e es)
  then have "\<not> faulty w" "pop_fault w = w" by (cases w; simp add: faulty_def pop_fault_def)+
  with Cons show ?case by (auto simp: wp_simps elim!: wp_mono split: sum.splits)
qed (simp add: wp_simps)

section \<open>The writer\<close>

definition pending :: "ingest_state \<Rightarrow> Event list" where
  "pending s = i_batch s @ i_queue s"

definition delivering :: "Event set \<Rightarrow> 'm iworld \<Rightarrow> bool" where
  "delivering acc w = (let s = fst (w_ext w) in
     w_faults w = [] \<and> log_from acc (w_db w) \<and> (\<forall>e \<in> set (pending s). event_ok e \<and> e \<in> acc)
     \<and> q_EventID ` acc = log_ids (w_db w) \<union> q_EventID ` set (pending s) \<and> (i_mode s = Stopped \<longrightarrow> i_batch s = []))"

lemma flush_delivers:
  assumes "delivering acc (w :: 'm iworld)"
  shows "wp flush (\<lambda>_ _. False) (\<lambda>_ w'. delivering acc w' \<and> i_batch (fst (w_ext w')) = []
     \<and> i_queue (fst (w_ext w')) = i_queue (fst (w_ext w)) \<and> i_mode (fst (w_ext w')) = i_mode (fst (w_ext w))) w"
proof (cases "i_batch (fst (w_ext w)) = []")
  case True
  with assms show ?thesis by (simp add: flush_def wp_simps)
next
  case False
  let ?s = "fst (w_ext w)"
  let ?ids = "q_EventID ` set (i_batch ?s)"
  let ?R = "\<lambda>w'. w_faults w' = [] \<and> log_from acc (w_db w') \<and> log_ids (w_db w') = log_ids (w_db w) \<union> ?ids
      \<and> i_queue (fst (w_ext w')) = i_queue ?s \<and> i_mode (fst (w_ext w')) = i_mode ?s \<and> i_batch (fst (w_ext w')) = i_batch ?s"
  have tx: "wp (persist_tx (i_batch ?s)) (\<lambda>_ _. False) (\<lambda>_. ?R) w"
    by (rule wp_mono [OF persist_tx_total [where acc = acc]]) (use assms in \<open>auto simp: delivering_def Let_def pending_def\<close>)
  have nm: "wp (name_devices es) (\<lambda>_ _. False) (\<lambda>_. ?R) w'" if "?R w'" for es w'
    by (rule wp_mono [OF name_devices_total]) (use that in auto)
  have rest: "i_queue (publish_events es s) = i_queue s" "i_batch (publish_events es s) = i_batch s"
    "i_mode (publish_events es s) = i_mode s" for es s
    using same_rest_publish [of s es] by (simp_all add: same_rest_def)
  have p: "wp (persist (i_batch ?s)) (\<lambda>_ _. False) (\<lambda>_. ?R) w"
    unfolding persist_def wp_bindM wp_change wp_returnM
    by (rule wp_mono [OF tx], assumption, rule wp_mono [OF nm]) (simp_all add: cacheAnswerDiagnostics_sel)
  have "delivering acc (w'\<lparr>w_ext := ((publish_events es (fst (w_ext w')))\<lparr>i_batch := []\<rparr>, snd (w_ext w'))\<rparr>)" if "?R w'" for es and w' :: "'m iworld"
    using that assms by (auto simp: delivering_def Let_def pending_def rest)
  then show ?thesis
    using False unfolding flush_def by (auto simp: wp_simps rest intro!: wp_mono [OF p])
qed

lemma delivering_same:
  assumes "delivering acc w" and "same_rest (fst (w_ext w)) s"
  shows "delivering acc (w\<lparr>w_ext := (s, m)\<rparr>)"
  using assms by (simp add: delivering_def Let_def pending_def same_rest_def)

lemma bind_state: "bindM state f w = f (fst (w_ext w)) w"
  by (cases w) (simp add: bindM_def state_def on_state_def call_def split: prod.splits)

lemma writer_delivers:
  assumes "delivering acc w"
  shows "delivering acc (snd (writer t w))"
proof -
  have "wp (writer_turn (i_mode (fst (w_ext w))) t (fst (w_ext w))) (\<lambda>_ _. False) (\<lambda>_ w'. delivering acc w') w"
  proof -
    have q: "i_queue s = hd (i_queue s) # tl (i_queue s)" if "i_queue s \<noteq> []" for s using that by simp
    have t: "delivering acc (w\<lparr>w_ext := (take_event (fst (w_ext w)), snd (w_ext w))\<rparr>)"
      if "i_queue (fst (w_ext w)) \<noteq> []" "i_mode (fst (w_ext w)) \<noteq> Stopped"
    proof -
      have "set (pending (take_event (fst (w_ext w)))) = set (pending (fst (w_ext w)))"
        using q [OF that(1)] by (simp add: pending_def take_event_def)
      with assms that show ?thesis by (simp add: delivering_def Let_def) (simp add: take_event_def)
    qed
    have f: "wp flush (\<lambda>_ _. False) (\<lambda>_. delivering acc) u" if "delivering acc u" for u
      by (rule wp_mono [OF flush_delivers [OF that]]) auto
    have l: "wp flush (\<lambda>_ _. False) (\<lambda>_. wp (change (\<lambda>s. s\<lparr>i_mode := Stopped\<rparr>)) (\<lambda>_ _. False) (\<lambda>_. delivering acc)) w"
      by (rule wp_mono [OF flush_delivers [OF assms]]) (auto simp: wp_change delivering_def Let_def pending_def)
    have d: "delivering acc (w\<lparr>w_ext := ((fst (w_ext w))\<lparr>i_mode := Draining\<rparr>, snd (w_ext w))\<rparr>)"
      using assms by (simp add: delivering_def Let_def pending_def)
    show ?thesis
      by (cases "(i_mode (fst (w_ext w)), t, fst (w_ext w))" rule: writer_turn.cases)
        (auto simp: wp_simps assms t d f [OF assms] intro!: f l)
  qed
  from wp_total [OF this] show ?thesis
    by (auto simp: writer_def bind_state)
qed

section \<open>Runs\<close>

text \<open>The events accepted along a run.\<close>

fun accepted :: "'m ingestlib \<Rightarrow> ingest_step list \<Rightarrow> 'm iworld \<Rightarrow> Event list" where
  "accepted L [] w = []"
| "accepted L (c # cs) w =
     (case c of Enqueue_step b \<Rightarrow> if fst (Enqueue L b (fst (w_ext w))) = Inr () then ba_Events b else [] | _ \<Rightarrow> [])
     @ accepted L cs (ingest_run L c w)"

lemma same_rest_set: "same_rest s (s\<lparr>i_maintenance := b\<rparr>)" "same_rest s (s\<lparr>i_retentionDays := n\<rparr>)"
  "same_rest s (s\<lparr>i_databaseMaxBytes := m\<rparr>)"
  by (simp_all add: same_rest_def)

lemma Set_delivers:
  assumes "delivering acc (w :: 'm iworld)"
  shows "delivering acc (snd (SetRetentionDays n w))" "delivering acc (snd (SetDatabaseMaxGiB m w))"
proof -
  have "stable (delivering acc) (SetRetentionDays n :: (error, 'm iworld, unit) prog)"
    unfolding SetRetentionDays_def
    by (intro stable_intros) (auto simp: stable_def intro!: delivering_same same_rest_set)
  then show "delivering acc (snd (SetRetentionDays n w))" using assms by (simp add: stable_def)
  have "stable (delivering acc) (SetDatabaseMaxGiB m :: (error, 'm iworld, unit) prog)"
    unfolding SetDatabaseMaxGiB_def
    by (intro stable_intros) (auto simp: stable_def intro!: delivering_same same_rest_set)
  then show "delivering acc (snd (SetDatabaseMaxGiB m w))" using assms by (simp add: stable_def)
qed

lemma delivering_step:
  assumes "delivering acc w" and "c \<noteq> Maintain"
  shows "delivering (acc \<union> (case c of Enqueue_step b \<Rightarrow>
      if fst (Enqueue L b (fst (w_ext w))) = Inr () then set (ba_Events b) else {} | _ \<Rightarrow> {})) (ingest_run L c w)"
proof (cases c)
  case (Enqueue_step b)
  show ?thesis
  proof (cases "fst (Enqueue L b (fst (w_ext w))) = Inr ()")
    case True
    then have v: "validateBatch L b = Inr ()" and q: "i_queue (snd (Enqueue L b (fst (w_ext w)))) = i_queue (fst (w_ext w)) @ ba_Events b"
      "i_batch (snd (Enqueue L b (fst (w_ext w)))) = i_batch (fst (w_ext w))"
      "i_mode (snd (Enqueue L b (fst (w_ext w)))) = i_mode (fst (w_ext w))"
      by (auto simp: Enqueue_cases split: if_splits)
    from assms(1) True validateBatch_ok [OF v] show ?thesis
      by (auto simp: Enqueue_step snd_on_state delivering_def Let_def pending_def q log_from_def)
        (metis (no_types, lifting) UnCI)+
  next
    case False
    then have "same_rest (fst (w_ext w)) (snd (Enqueue L b (fst (w_ext w))))"
      by (auto simp: Enqueue_cases same_rest_def split: if_splits)
    with False assms(1) show ?thesis by (simp add: Enqueue_step snd_on_state delivering_same)
  qed
next
  case Close_begin
  with assms(1) show ?thesis
    by (simp add: close_begin_def delivering_def Let_def pending_def)
qed (use assms in \<open>simp_all add: snd_on_state writer_delivers Set_delivers same_rest_more delivering_same
  StartMaintenance_def same_rest_set\<close>)

lemma delivering_run:
  assumes "delivering acc w" and "Maintain \<notin> set cs"
  shows "delivering (acc \<union> set (accepted L cs w)) (fold (ingest_run L) cs w)"
  using assms
proof (induction cs arbitrary: acc w)
  case (Cons c cs)
  let ?new = "case c of Enqueue_step b \<Rightarrow> if fst (Enqueue L b (fst (w_ext w))) = Inr () then ba_Events b else [] | _ \<Rightarrow> []"
  have "delivering (acc \<union> set ?new) (ingest_run L c w)"
    using delivering_step [OF Cons.prems(1), of c L] Cons.prems(2) by (auto split: ingest_step.splits if_splits)
  from Cons.IH [OF this] Cons.prems(2) show ?case by (simp add: Un_assoc)
qed simp

definition fresh_world :: "'m iworld \<Rightarrow> bool" where
  "fresh_world w = (w_faults w = [] \<and> d_queries (w_db w) = empty_table \<and> d_hourly (w_db w) = empty_hourly
     \<and> (\<exists>token path. fst (w_ext w) = New_ingest token path))"

lemma delivering_fresh: "fresh_world w \<Longrightarrow> delivering {} w"
  by (auto simp: fresh_world_def delivering_def log_from_def log_ids_def log_of_def empty_table_def pending_def New_ingest_def)

section \<open>A batch that cannot be stored is dropped\<close>

lemma failed_flush_drops:
  assumes "i_batch (fst (w_ext w)) \<noteq> []" and "w_faults w = True # fs"
  shows "w_db (snd (flush w)) = w_db w \<and> i_batch (fst (w_ext (snd (flush w)))) = []
     \<and> i_queue (fst (w_ext (snd (flush w)))) = i_queue (fst (w_ext w))"
proof -
  have "faulty w" using assms(2) by (simp add: faulty_def)
  then have "wp flush (\<lambda>_ _. False) (\<lambda>_ w'. w_db w' = w_db w \<and> i_batch (fst (w_ext w')) = []
     \<and> i_queue (fst (w_ext w')) = i_queue (fst (w_ext w))) w"
    using assms(1) by (simp add: flush_def persist_def persist_tx_def wp_bindM wp_attemptM wp_transaction wp_db_query wp_simps)
  from wp_total [OF this] show ?thesis by auto
qed


section \<open>Shutdown\<close>

lemma wp_any: "wp m (\<lambda>_ _. True) (\<lambda>_ _. True) w"
  by (simp add: wp_def split: prod.split sum.split)

lemma flush_empties: "i_batch (fst (w_ext (snd (flush (w :: 'm iworld))))) = []"
proof -
  have "wp flush (\<lambda>_ _. False) (\<lambda>_ w'. i_batch (fst (w_ext w')) = []) w"
    unfolding flush_def by (auto simp: wp_simps intro!: wp_mono [OF wp_any [of "persist (i_batch (fst (w_ext w)))"]])
  from wp_total [OF this] show ?thesis by auto
qed

lemma flush_frame:
  "i_queue (fst (w_ext (snd (flush (w :: 'm iworld))))) = i_queue (fst (w_ext w))"
  "i_mode (fst (w_ext (snd (flush w)))) = i_mode (fst (w_ext w))"
  "i_done (fst (w_ext (snd (flush w)))) = i_done (fst (w_ext w))"
proof -
  let ?J = "\<lambda>s. i_queue s = i_queue (fst (w_ext w)) \<and> i_mode s = i_mode (fst (w_ext w)) \<and> i_done s = i_done (fst (w_ext w))"
  have rest: "i_queue (publish_events es s) = i_queue s" "i_mode (publish_events es s) = i_mode s"
    "i_done (publish_events es s) = i_done s" for es s
    using same_rest_publish [of s es] by (simp_all add: same_rest_def)
  have "stable (onState ?J) (flush :: (error, 'm iworld, unit) prog)"
    by (rule stable_flush) (auto simp: cacheAnswerDiagnostics_sel rest)
  from stable_state_snd [OF this, of w] show
    "i_queue (fst (w_ext (snd (flush w)))) = i_queue (fst (w_ext w))"
    "i_mode (fst (w_ext (snd (flush w)))) = i_mode (fst (w_ext w))"
    "i_done (fst (w_ext (snd (flush w)))) = i_done (fst (w_ext w))" by simp_all
qed

lemma flush_succeeds: "fst (flush (w :: 'm iworld)) = Inr ()"
proof -
  have "wp flush (\<lambda>_ _. False) (\<lambda>_ _. True) w"
    unfolding flush_def by (auto simp: wp_simps intro!: wp_mono [OF wp_any [of "persist (i_batch (fst (w_ext w)))"]])
  from wp_total [OF this] show ?thesis by auto
qed

lemma close_end_closes:
  assumes "i_mode s = Stopped"
  shows "i_subscribers (close_end s) = []"
proof -
  have one: "i_subscribers (close_chan i (drop_subscriber i s)) = filter (\<lambda>(j, _). j \<noteq> i) (i_subscribers s)" for i s
    by (simp add: close_chan_def)
  have "i_subscribers (fold (\<lambda>(i, _) s. close_chan i (drop_subscriber i s)) xs s) = filter (\<lambda>(j, _). j \<notin> fst ` set xs) (i_subscribers s)"
    for xs :: "(nat \<times> Query) list" and s
  proof (induction xs arbitrary: s)
    case (Cons x xs)
    then show ?case by (auto simp: one case_prod_beta intro!: filter_cong)
  qed (simp add: case_prod_beta)
  then have "i_subscribers (close_end s) = filter (\<lambda>(j, _). j \<notin> fst ` set (i_subscribers s)) (i_subscribers s)"
    using assms by (simp add: close_end_def)
  also have "\<dots> = []" by (force simp: filter_empty_conv)
  finally show ?thesis .
qed

text \<open>
  The branches that the \<open>select\<close> of the writer may take in a state; a turn without an enabled branch
  does nothing. \<open>Tick\<close> is a ready timer, which only the outer loop looks at.
\<close>

definition enabled :: "turn \<Rightarrow> ingest_state \<Rightarrow> bool" where
  "enabled t s = (case i_mode s of
     Running \<Rightarrow> (case t of Take \<Rightarrow> i_queue s \<noteq> [] | Tick \<Rightarrow> True | Leave \<Rightarrow> i_done s)
   | Draining \<Rightarrow> (case t of Take \<Rightarrow> i_queue s \<noteq> [] | Tick \<Rightarrow> False | Leave \<Rightarrow> i_queue s = [])
   | Stopped \<Rightarrow> False)"

text \<open>The turns of a run in which the writer gets ahead: it takes an event or leaves a loop.\<close>

definition advance :: "ingest_step \<Rightarrow> 'm iworld \<Rightarrow> nat" where
  "advance c w = (case c of Turn t \<Rightarrow> if t \<noteq> Tick \<and> enabled t (fst (w_ext w)) then 1 else 0 | _ \<Rightarrow> 0)"

fun writer_turns :: "'m ingestlib \<Rightarrow> ingest_step list \<Rightarrow> 'm iworld \<Rightarrow> nat" where
  "writer_turns L [] w = 0"
| "writer_turns L (c # cs) w =
     advance c w + writer_turns L cs (ingest_run L c w)"

text \<open>What is left to do: the queue and the two loops.\<close>

definition to_do :: "ingest_state \<Rightarrow> nat" where
  "to_do s = length (i_queue s) + (case i_mode s of Running \<Rightarrow> 2 | Draining \<Rightarrow> 1 | Stopped \<Rightarrow> 0)"

lemma to_do_same: "same_rest s t \<Longrightarrow> to_do t = to_do s"
  by (simp add: to_do_def same_rest_def)

lemma same_rest_settings:
  "same_rest (fst (w_ext (w :: 'm iworld))) (fst (w_ext (snd (SetRetentionDays n w))))"
  "same_rest (fst (w_ext w)) (fst (w_ext (snd (SetDatabaseMaxGiB m w))))"
  "same_rest (fst (w_ext w)) (fst (w_ext (snd (maintenance L w))))"
proof -
  let ?J = "onState (same_rest (fst (w_ext w)))"
  have "stable ?J (SetRetentionDays n)" "stable ?J (SetDatabaseMaxGiB m)" "stable ?J (maintenance L)"
    unfolding SetRetentionDays_def SetDatabaseMaxGiB_def maintenance_def
    by (intro stable_intros stable_retain; auto simp: same_rest_def)+
  from this [THEN stable_state_snd, of w] show
    "same_rest (fst (w_ext w)) (fst (w_ext (snd (SetRetentionDays n w))))"
    "same_rest (fst (w_ext w)) (fst (w_ext (snd (SetDatabaseMaxGiB m w))))"
    "same_rest (fst (w_ext w)) (fst (w_ext (snd (maintenance L w))))" by simp_all
qed

lemma snd_bind_flush: "snd (bindM flush f (w :: 'm iworld)) = snd (f () (snd (flush w)))"
  using flush_succeeds [of w] by (cases "flush w") (simp add: bindM_def)

lemma writer_ahead:
  fixes w :: "'m iworld"
  defines "s \<equiv> fst (w_ext w)" and "s' \<equiv> \<lambda>t. fst (w_ext (snd (writer t w)))"
  shows "to_do (s' t) + (if t \<noteq> Tick \<and> enabled t s then 1 else 0) = to_do s"
    and "i_done (s' t) = i_done s"
    and "i_mode (s' t) = Stopped \<Longrightarrow> (i_mode s = Stopped \<Longrightarrow> i_batch s = [] \<and> i_queue s = []) \<Longrightarrow> i_batch (s' t) = [] \<and> i_queue (s' t) = []"
proof -
  have st: "snd (returnM x u) = u" for x :: unit and u :: "'m iworld" by (simp add: returnM_def)
  have tk: "snd (bindM (change take_event) f w) = snd (f () (w\<lparr>w_ext := (take_event s, snd (w_ext w))\<rparr>))"
    for f :: "unit \<Rightarrow> (error, 'm iworld, unit) prog"
    by (simp add: bindM_def change_def on_state_def call_def s_def split: prod.split)
  have "to_do (s' t) + (if t \<noteq> Tick \<and> enabled t s then 1 else 0) = to_do s \<and> i_done (s' t) = i_done s
     \<and> (i_mode (s' t) = Stopped \<longrightarrow> (i_mode s = Stopped \<longrightarrow> i_batch s = [] \<and> i_queue s = []) \<longrightarrow> i_batch (s' t) = [] \<and> i_queue (s' t) = [])"
    unfolding s'_def writer_def bind_state s_def [symmetric]
    by (cases "(i_mode s, t, s)" rule: writer_turn.cases)
      (auto simp: st tk snd_bind_flush flush_frame flush_empties enabled_def to_do_def take_event_def s_def [symmetric]
        neq_Nil_conv split: list.splits)
  then show "to_do (s' t) + (if t \<noteq> Tick \<and> enabled t s then 1 else 0) = to_do s" "i_done (s' t) = i_done s"
    "i_mode (s' t) = Stopped \<Longrightarrow> (i_mode s = Stopped \<Longrightarrow> i_batch s = [] \<and> i_queue s = []) \<Longrightarrow> i_batch (s' t) = [] \<and> i_queue (s' t) = []"
    by auto
qed

text \<open>A run: what was to do and what was accepted is what was done and what is still to do.\<close>

definition stopped_clean :: "ingest_state \<Rightarrow> bool" where
  "stopped_clean s = (i_mode s = Stopped \<longrightarrow> i_batch s = [])"

fun accepts :: "'m ingestlib \<Rightarrow> ingest_step \<Rightarrow> 'm iworld \<Rightarrow> Event list" where
  "accepts L (Enqueue_step b) w = (if fst (Enqueue L b (fst (w_ext w))) = Inr () then ba_Events b else [])"
| "accepts L c w = []"

lemma accepted_accepts: "accepted L (c # cs) w = accepts L c w @ accepted L cs (ingest_run L c w)"
  by (cases c) simp_all

lemma accepted_none: "list_all (\<lambda>c. case c of Enqueue_step _ \<Rightarrow> False | _ \<Rightarrow> True) cs \<Longrightarrow> accepted L cs w = []"
  by (induction cs arbitrary: w) (auto split: ingest_step.splits)

definition drained :: "ingest_state \<Rightarrow> bool" where
  "drained s = (i_mode s = Stopped \<longrightarrow> i_batch s = [] \<and> i_queue s = [])"

lemma step_account:
  fixes w :: "'m iworld" and c :: ingest_step and L :: "'m ingestlib"
  defines "s \<equiv> fst (w_ext w)" and "s' \<equiv> fst (w_ext (ingest_run L c w))"
  shows "to_do s' + advance c w = to_do s + length (accepts L c w) \<and> (i_done s \<longrightarrow> i_done s')
     \<and> (stopped_clean s \<longrightarrow> stopped_clean s') \<and> (drained s \<longrightarrow> accepts L c w = [] \<longrightarrow> drained s')"
proof -
  have frame: ?thesis if "same_rest s s'" "advance c w = 0" "accepts L c w = []"
    using that to_do_same [OF that(1)] by (simp add: same_rest_def stopped_clean_def drained_def)
  show ?thesis
  proof (cases c)
    case (Enqueue_step b)
    show ?thesis
    proof (cases "fst (Enqueue L b s) = Inr ()")
      case True
      then have "i_queue s' = i_queue s @ ba_Events b" "i_mode s' = i_mode s" "i_done s' = i_done s" "i_batch s' = i_batch s"
        by (auto simp: s'_def Enqueue_step snd_on_state s_def Enqueue_cases split: if_splits)
      with True show ?thesis
        by (simp add: Enqueue_step advance_def to_do_def stopped_clean_def drained_def s_def)
    next
      case False
      then have "same_rest s s'"
        by (auto simp: s'_def Enqueue_step snd_on_state s_def Enqueue_cases same_rest_def split: if_splits)
      with False show ?thesis by (intro frame) (simp_all add: Enqueue_step advance_def s_def)
    qed
  next
    case (Turn t)
    have "i_mode s' = Stopped \<Longrightarrow> i_batch s' = []" if "stopped_clean s"
    proof (cases "i_mode s = Stopped")
      case True
      then have "s' = s" by (cases t) (simp_all add: s'_def s_def Turn writer_def bind_state returnM_def)
      with True that show ?thesis by (simp add: stopped_clean_def)
    next
      case False
      then show "i_mode s' = Stopped \<Longrightarrow> i_batch s' = []"
        using writer_ahead(3) [where w = w and t = t] by (simp add: s'_def s_def Turn)
    qed
    then show ?thesis using writer_ahead [where w = w and t = t]
      by (auto simp: Turn advance_def s_def s'_def stopped_clean_def drained_def)
  next
    case Close_begin
    then show ?thesis by (simp add: s'_def s_def advance_def close_begin_def to_do_def stopped_clean_def drained_def)
  qed (intro frame; simp add: s'_def s_def advance_def snd_on_state same_rest_more same_rest_settings StartMaintenance_def same_rest_set)+
qed

lemma run_account:
  "to_do (fst (w_ext (fold (ingest_run L) cs w))) + writer_turns L cs w = to_do (fst (w_ext w)) + length (accepted L cs w)
   \<and> (i_done (fst (w_ext w)) \<longrightarrow> i_done (fst (w_ext (fold (ingest_run L) cs w))))
   \<and> (stopped_clean (fst (w_ext w)) \<longrightarrow> stopped_clean (fst (w_ext (fold (ingest_run L) cs w))))
   \<and> (drained (fst (w_ext w)) \<longrightarrow> accepted L cs w = [] \<longrightarrow> drained (fst (w_ext (fold (ingest_run L) cs w))))"
proof (induction cs arbitrary: w)
  case (Cons c cs)
  from step_account [of L c w] Cons.IH [of "ingest_run L c w"] show ?case
    unfolding accepted_accepts by auto
qed simp

lemma unfinished_enabled: "i_done s \<Longrightarrow> i_mode s \<noteq> Stopped \<Longrightarrow> enabled Take s \<or> enabled Leave s"
  by (cases "i_mode s") (auto simp: enabled_def)

lemma nothing_to_do: "to_do s = 0 \<Longrightarrow> i_mode s = Stopped"
  by (cases "i_mode s") (simp_all add: to_do_def)

end
