(* ===== verification/IngestQuery.thy ===== *)
theory IngestQuery
  imports HourlyStats
begin

text \<open>
  Queries on the log: the filter of the live stream against the WHERE clause of the history,
  SQLite's LIKE with escaped patterns, and the pages.
\<close>

section \<open>LIKE\<close>

definition lower :: "string \<Rightarrow> string" where
  "lower s = map lower_byte s"

lemma escapeLike_simps [simp]:
  "escapeLike [] = []"
  "escapeLike (c # v) = (if c = CHR 0x5C \<or> c = CHR ''%'' \<or> c = CHR ''_'' then [CHR 0x5C, c] else [c]) @ escapeLike v"
  by (simp_all add: escapeLike_def)

text \<open>An escaped string matches itself, without the case of ASCII letters.\<close>

lemma like_escaped:
  "like (escapeLike v @ p) s \<longleftrightarrow> (\<exists>a b. s = a @ b \<and> lower a = lower v \<and> like p b)"
proof (induction v arbitrary: s)
  case Nil
  then show ?case by (simp add: lower_def)
next
  case (Cons c v)
  have "like (escapeLike (c # v) @ p) s \<longleftrightarrow> s \<noteq> [] \<and> lower_byte (hd s) = lower_byte c \<and> like (escapeLike v @ p) (tl s)"
    by auto
  also have "\<dots> \<longleftrightarrow> (\<exists>a b. s = a @ b \<and> lower a = lower (c # v) \<and> like p b)"
    unfolding Cons.IH
  proof (intro iffI; elim conjE exE)
    fix a b assume "s \<noteq> []" "lower_byte (hd s) = lower_byte c" "tl s = a @ b" "lower a = lower v" "like p b"
    then show "\<exists>a b. s = a @ b \<and> lower a = lower (c # v) \<and> like p b"
      by (intro exI [of _ "hd s # a"] exI [of _ b]) (cases s; simp add: lower_def)
  next
    fix a b assume "s = a @ b" "lower a = lower (c # v)" "like p b"
    then show "s \<noteq> [] \<and> lower_byte (hd s) = lower_byte c \<and> (\<exists>a b. tl s = a @ b \<and> lower a = lower v \<and> like p b)"
      by (cases a) (auto simp: lower_def)
  qed
  finally show ?case .
qed

lemma like_percent: "like (CHR ''%'' # p) s \<longleftrightarrow> (\<exists>a b. s = a @ b \<and> like p b)"
proof -
  have "(\<exists>n < Suc (length s). like p (drop n s)) \<longleftrightarrow> (\<exists>a b. s = a @ b \<and> like p b)"
  proof (intro iffI; elim exE conjE)
    fix n assume "like p (drop n s)"
    then show "\<exists>a b. s = a @ b \<and> like p b" by (intro exI [of _ "take n s"] exI [of _ "drop n s"]) simp
  next
    fix a b assume "s = a @ b" "like p b"
    then show "\<exists>n < Suc (length s). like p (drop n s)" by (intro exI [of _ "length a"]) simp
  qed
  then show ?thesis by (auto simp: list_ex_iff simp del: upt_Suc)
qed

lemma like_contains:
  "like (''%'' @ escapeLike v @ ''%'') s \<longleftrightarrow> Contains (lower s) (lower v)"
proof -
  have any: "like ''%'' b" for b
    unfolding like_percent by (intro exI [of _ b] exI [of _ "[]"]) simp
  have "(\<exists>a b c. s = a @ b @ c \<and> lower b = lower v) \<longleftrightarrow> (\<exists>a c. lower s = a @ lower v @ c)"
  proof (intro iffI; elim exE conjE)
    fix a b c assume "s = a @ b @ c" "lower b = lower v"
    then show "\<exists>a c. lower s = a @ lower v @ c"
      by (intro exI [of _ "lower a"] exI [of _ "lower c"]) (simp add: lower_def)
  next
    fix a c assume "lower s = a @ lower v @ c"
    then obtain x r where "s = x @ r" and r: "lower v @ c = map lower_byte r"
      unfolding lower_def [of s] map_eq_append_conv by blast
    moreover from r [symmetric] obtain y z where "r = y @ z" "map lower_byte y = lower v"
      unfolding map_eq_append_conv by metis
    ultimately have "s = x @ y @ z" "map lower_byte y = lower v" by simp_all
    then show "\<exists>a b c. s = a @ b @ c \<and> lower b = lower v" by (auto simp: lower_def)
  qed
  moreover have "like (''%'' @ escapeLike v @ ''%'') s \<longleftrightarrow> (\<exists>a b c. s = a @ b @ c \<and> lower b = lower v)"
    unfolding append_Cons append_Nil like_percent [of _ s] like_escaped by (auto simp: any)
  ultimately show ?thesis by (simp add: Contains_iff)
qed

section \<open>The live stream and the history\<close>

lemma fromEvent_sel [simp]:
  "q_TimestampMS ((fromEvent e)\<lparr>sv_ID := i, sv_DeviceName := n\<rparr>) = q_TimestampMS e"
  "q_ClientIP ((fromEvent e)\<lparr>sv_ID := i, sv_DeviceName := n\<rparr>) = q_ClientIP e"
  "q_Route ((fromEvent e)\<lparr>sv_ID := i, sv_DeviceName := n\<rparr>) = q_Route e"
  "q_RouteSource ((fromEvent e)\<lparr>sv_ID := i, sv_DeviceName := n\<rparr>) = q_RouteSource e"
  "q_UpstreamGroup ((fromEvent e)\<lparr>sv_ID := i, sv_DeviceName := n\<rparr>) = q_UpstreamGroup e"
  "q_UpstreamTag ((fromEvent e)\<lparr>sv_ID := i, sv_DeviceName := n\<rparr>) = q_UpstreamTag e"
  "q_Protocol ((fromEvent e)\<lparr>sv_ID := i, sv_DeviceName := n\<rparr>) = q_Protocol e"
  "q_QType ((fromEvent e)\<lparr>sv_ID := i, sv_DeviceName := n\<rparr>) = q_QType e"
  "q_RCode ((fromEvent e)\<lparr>sv_ID := i, sv_DeviceName := n\<rparr>) = q_RCode e"
  "q_CacheHit ((fromEvent e)\<lparr>sv_ID := i, sv_DeviceName := n\<rparr>) = q_CacheHit e"
  "q_QName ((fromEvent e)\<lparr>sv_ID := i, sv_DeviceName := n\<rparr>) = q_QName e"
  "sv_ResultClass ((fromEvent e)\<lparr>sv_ID := i, sv_DeviceName := n\<rparr>) = resultClass e"
  by (simp_all add: fromEvent_def query_cols.defs StoredEvent.defs)

lemma boolInt_eq [simp]: "boolInt a = boolInt b \<longleftrightarrow> a = b"
  by (simp add: boolInt_def)

lemma list_all_if: "list_all P (if c then xs else []) \<longleftrightarrow> (c \<longrightarrow> list_all P xs)"
  by simp

lemma holds_simps [simp]:
  "holds r (From n) \<longleftrightarrow> n \<le> q_TimestampMS r"
  "holds r (To n) \<longleftrightarrow> q_TimestampMS r \<le> n"
  "holds r (ClientIs v) \<longleftrightarrow> q_ClientIP r = v"
  "holds r (RouteIs v) \<longleftrightarrow> q_Route r = v"
  "holds r (RouteSourceIs v) \<longleftrightarrow> q_RouteSource r = v"
  "holds r (TagIs v) \<longleftrightarrow> q_UpstreamTag r = v"
  "holds r (GroupIs v) \<longleftrightarrow> q_UpstreamGroup r = v"
  "holds r (ProtocolIs v) \<longleftrightarrow> q_Protocol r = v"
  "holds r (QTypeIs n) \<longleftrightarrow> uint (q_QType r) = n"
  "holds r (RCodeIs n) \<longleftrightarrow> q_RCode r = n"
  "holds r (CacheHitIs n) \<longleftrightarrow> boolInt (q_CacheHit r) = n"
  "holds r (ClassIs v) \<longleftrightarrow> q_result_class r = v"
  "holds r (ClassIsNot v) \<longleftrightarrow> q_result_class r \<noteq> v"
  "holds r (NameLike p) \<longleftrightarrow> like p (q_QName r)"
  "holds r (NameIs v) \<longleftrightarrow> q_QName r = v"
  by (simp_all add: holds_def)

text \<open>What a row has to satisfy, one implication per field of the query.\<close>

definition meets :: "query_row \<Rightarrow> Query \<Rightarrow> bool \<Rightarrow> bool" where
  "meets r q named \<longleftrightarrow>
     (qu_FromMS q \<noteq> 0 \<longrightarrow> qu_FromMS q \<le> q_TimestampMS r) \<and>
     (qu_ToMS q \<noteq> 0 \<longrightarrow> q_TimestampMS r \<le> qu_ToMS q) \<and>
     (qu_ClientIP q \<noteq> '''' \<longrightarrow> q_ClientIP r = qu_ClientIP q) \<and>
     (qu_Route q \<noteq> '''' \<longrightarrow> q_Route r = qu_Route q) \<and>
     (qu_RouteSource q \<noteq> '''' \<longrightarrow> q_RouteSource r = qu_RouteSource q) \<and>
     (qu_UpstreamTag q \<noteq> '''' \<longrightarrow> q_UpstreamTag r = qu_UpstreamTag q) \<and>
     (qu_UpstreamGroup q \<noteq> '''' \<longrightarrow> q_UpstreamGroup r = qu_UpstreamGroup q) \<and>
     (qu_Protocol q \<noteq> '''' \<longrightarrow> q_Protocol r = qu_Protocol q) \<and>
     (qu_QType q \<noteq> 0 \<longrightarrow> uint (q_QType r) = qu_QType q) \<and>
     (case qu_RCode q of None \<Rightarrow> True | Some c \<Rightarrow> q_RCode r = c) \<and>
     (case qu_CacheHit q of None \<Rightarrow> True | Some b \<Rightarrow> q_CacheHit r = b) \<and>
     (case qu_HasError q of None \<Rightarrow> True | Some b \<Rightarrow> (q_result_class r = ''processing_error'') = b) \<and>
     (qu_ResultClass q \<noteq> '''' \<longrightarrow> q_result_class r = qu_ResultClass q) \<and>
     (qu_QName q \<noteq> '''' \<longrightarrow> named)"

lemma where_clause_meets:
  "list_all (holds r) (where_clause q) \<longleftrightarrow> meets r q
     (if qu_QNameMatch q = ''contains'' then like (''%'' @ escapeLike (qu_QName q) @ ''%'') (q_QName r) else q_QName r = qu_QName q)"
proof -
  have opt: "list_all (holds r) (case qu_RCode q of None \<Rightarrow> [] | Some c \<Rightarrow> [RCodeIs c])
      = (case qu_RCode q of None \<Rightarrow> True | Some c \<Rightarrow> q_RCode r = c)"
    "list_all (holds r) (case qu_CacheHit q of None \<Rightarrow> [] | Some b \<Rightarrow> [CacheHitIs (boolInt b)])
      = (case qu_CacheHit q of None \<Rightarrow> True | Some b \<Rightarrow> q_CacheHit r = b)"
    "list_all (holds r) (case qu_HasError q of None \<Rightarrow> []
        | Some b \<Rightarrow> if b then [ClassIs ''processing_error''] else [ClassIsNot ''processing_error''])
      = (case qu_HasError q of None \<Rightarrow> True | Some b \<Rightarrow> (q_result_class r = ''processing_error'') = b)"
    by (simp_all split: option.split)
  have name: "list_all (holds r) (if qu_QNameMatch q = ''contains''
       then [NameLike (''%'' @ escapeLike (qu_QName q) @ ''%'')] else [NameIs (qu_QName q)])
     = (if qu_QNameMatch q = ''contains'' then like (''%'' @ escapeLike (qu_QName q) @ ''%'') (q_QName r) else q_QName r = qu_QName q)"
    by (simp split: if_split)
  show ?thesis
    unfolding where_clause_def meets_def list_all_append list_all_if opt name
    by (simp only: list.pred_inject holds_simps simp_thms)
qed

lemma queryMatches_meets:
  assumes "sv_ResultClass s = q_result_class r"
    and "q_TimestampMS s = q_TimestampMS r" "q_ClientIP s = q_ClientIP r" "q_Route s = q_Route r"
      "q_RouteSource s = q_RouteSource r" "q_UpstreamTag s = q_UpstreamTag r" "q_UpstreamGroup s = q_UpstreamGroup r"
      "q_Protocol s = q_Protocol r" "q_QType s = q_QType r" "q_RCode s = q_RCode r" "q_CacheHit s = q_CacheHit r"
      "q_QName s = q_QName r"
  shows "queryMatches s q \<longleftrightarrow> meets r q
     (if qu_QNameMatch q = ''contains'' then Contains (q_QName r) (qu_QName q) else q_QName r = qu_QName q)"
proof -
  have opt: "(case qu_RCode q of None \<Rightarrow> False | Some c \<Rightarrow> q_RCode r \<noteq> c) \<longleftrightarrow> \<not> (case qu_RCode q of None \<Rightarrow> True | Some c \<Rightarrow> q_RCode r = c)"
    "(case qu_CacheHit q of None \<Rightarrow> False | Some b \<Rightarrow> q_CacheHit r \<noteq> b) \<longleftrightarrow> \<not> (case qu_CacheHit q of None \<Rightarrow> True | Some b \<Rightarrow> q_CacheHit r = b)"
    "(case qu_HasError q of None \<Rightarrow> False | Some b \<Rightarrow> (q_result_class r = ''processing_error'') \<noteq> b)
      \<longleftrightarrow> \<not> (case qu_HasError q of None \<Rightarrow> True | Some b \<Rightarrow> (q_result_class r = ''processing_error'') = b)"
    by (simp_all split: option.split)
  show ?thesis
    unfolding queryMatches_def meets_def assms opt not_less [symmetric]
    by argo
qed

lemma live_iff_where:
  assumes "qu_QNameMatch q = ''contains'' \<Longrightarrow> lower (qu_QName q) = qu_QName q \<and> lower (q_QName e) = q_QName e"
  shows "queryMatches ((fromEvent e)\<lparr>sv_ID := i, sv_DeviceName := n\<rparr>) q
     \<longleftrightarrow> list_all (holds (query_row_of e now)) (where_clause q)"
proof -
  have row: "q_TimestampMS (query_row_of e now) = q_TimestampMS e" "q_result_class (query_row_of e now) = resultClass e"
    "q_ClientIP (query_row_of e now) = q_ClientIP e" "q_Route (query_row_of e now) = q_Route e"
    "q_RouteSource (query_row_of e now) = q_RouteSource e" "q_UpstreamTag (query_row_of e now) = q_UpstreamTag e"
    "q_UpstreamGroup (query_row_of e now) = q_UpstreamGroup e" "q_Protocol (query_row_of e now) = q_Protocol e"
    "q_QType (query_row_of e now) = q_QType e" "q_RCode (query_row_of e now) = q_RCode e"
    "q_CacheHit (query_row_of e now) = q_CacheHit e" "q_QName (query_row_of e now) = q_QName e"
    by simp_all
  have name: "like (''%'' @ escapeLike (qu_QName q) @ ''%'') (q_QName e) \<longleftrightarrow> Contains (q_QName e) (qu_QName q)"
    if "qu_QNameMatch q = ''contains''"
    using like_contains [of "qu_QName q" "q_QName e"] assms [OF that] by (simp only:)
  show ?thesis
    unfolding where_clause_meets
    by (subst queryMatches_meets [of _ "query_row_of e now"]) (simp_all only: fromEvent_sel row name cong: if_cong)
qed

text \<open>With an upper-case letter in the pattern the two differ: the history finds the name, the live stream
  does not.\<close>

lemma contains_case_differs:
  "like (''%'' @ escapeLike ''Example'' @ ''%'') ''www.example'' \<and> \<not> Contains ''www.example'' ''Example''"
  by code_simp

section \<open>Pages\<close>

definition query_fetch :: "'m world \<Rightarrow> condition list \<Rightarrow> int \<Rightarrow> string \<Rightarrow> (StoredEvent list \<times> string) option" where
  "query_fetch w conditions limit c =
     (case fst (query_page conditions limit c (w\<lparr>w_faults := []\<rparr>)) of Inr page \<Rightarrow> Some page | Inl _ \<Rightarrow> None)"

lemma stored_event_key: "stored_key \<circ> stored_event d = query_key"
  by (auto simp: stored_key_def stored_event_def query_key_def query_cols.defs StoredEvent.defs)

lemma query_fetch_eq:
  "query_fetch w conditions limit c = (case query_cursor c of Inl _ \<Rightarrow> None
     | Inr after \<Rightarrow> Some (cut_page stored_key (query_limit limit)
        (page_rows stored_key (map (stored_event (w_db w)) (matching conditions (w_db w))) after (Suc (query_limit limit)))))"
  by (simp add: query_fetch_def query_page_def bindM_def liftM_def throwM_def returnM_def db_query_def db_run_def faulty_def
      page_rows_map stored_event_key split: sum.splits)

interpretation history: keyset_paging stored_key "map (stored_event (w_db w)) (matching conditions (w_db w))"
    "query_limit limit" "query_fetch w conditions limit" for w :: "'m world" and conditions limit
proof unfold_locales
  show "0 < query_limit limit" by (auto simp: query_limit_def)
qed (auto simp: query_fetch_eq query_cursor_def)

lemma distinct_query_keys: "auto_ok (d_queries d) \<Longrightarrow> distinct (map stored_key (map (stored_event d) (matching conditions d)))"
  unfolding map_map stored_event_key
  by (auto simp: auto_ok_def distinct_map query_key_def inj_on_def matching_def intro: distinct_filter)

end
