(* ===== verification/IngestStream.thy ===== *)
theory IngestStream
  imports IngestState
begin

text \<open>
  The live stream: what one subscriber finds in its channel after a batch was published.
\<close>

lemma offer_other:
  assumes "j \<noteq> i"
  shows "chan_of i (offer e (j, q') s) = chan_of i s" "i \<in> sub_ids (offer e (j, q') s) \<longleftrightarrow> i \<in> sub_ids s"
    "(i, q) \<in> set (i_subscribers (offer e (j, q') s)) \<longleftrightarrow> (i, q) \<in> set (i_subscribers s)"
  using assms by (auto simp: offer_def close_chan_def sub_ids_def)

lemma fold_offer_other:
  assumes "i \<notin> fst ` set xs"
  shows "chan_of i (fold (offer e) xs s) = chan_of i s" "i \<in> sub_ids (fold (offer e) xs s) \<longleftrightarrow> i \<in> sub_ids s"
    "(i, q) \<in> set (i_subscribers (fold (offer e) xs s)) \<longleftrightarrow> (i, q) \<in> set (i_subscribers s)"
proof -
  have "i \<notin> fst ` set xs \<Longrightarrow> chan_of i (fold (offer e) xs s) = chan_of i s
    \<and> (i \<in> sub_ids (fold (offer e) xs s) \<longleftrightarrow> i \<in> sub_ids s)
    \<and> ((i, q) \<in> set (i_subscribers (fold (offer e) xs s)) \<longleftrightarrow> (i, q) \<in> set (i_subscribers s))"
    by (induction xs arbitrary: s) (auto simp: offer_other)
  with assms show "chan_of i (fold (offer e) xs s) = chan_of i s" "i \<in> sub_ids (fold (offer e) xs s) \<longleftrightarrow> i \<in> sub_ids s"
    "(i, q) \<in> set (i_subscribers (fold (offer e) xs s)) \<longleftrightarrow> (i, q) \<in> set (i_subscribers s)"
    by blast+
qed

text \<open>Of all the offers of one event, a subscriber sees its own.\<close>

lemma publish_event_own:
  assumes "chans_ok s" and "(i, q) \<in> set (i_subscribers s)"
  shows "chan_of i (publish_event e s) = chan_of i (offer e (i, q) s)"
    "i \<in> sub_ids (publish_event e s) \<longleftrightarrow> i \<in> sub_ids (offer e (i, q) s)"
    "(i, q) \<in> set (i_subscribers (publish_event e s)) \<longleftrightarrow> (i, q) \<in> set (i_subscribers (offer e (i, q) s))"
proof -
  from assms(2) obtain ys zs where split: "i_subscribers s = ys @ (i, q) # zs" by (meson split_list)
  with assms(1) have "i \<notin> fst ` set ys" "i \<notin> fst ` set zs" by (auto simp: chans_ok_def)
  note other = fold_offer_other [OF this(1)] fold_offer_other [OF this(2)]
  let ?t = "fold (offer e) ys s"
  have own: "chan_of i (offer e (i, q) ?t) = chan_of i (offer e (i, q) s)"
    "i \<in> sub_ids (offer e (i, q) ?t) \<longleftrightarrow> i \<in> sub_ids (offer e (i, q) s)"
    "(i, q) \<in> set (i_subscribers (offer e (i, q) ?t)) \<longleftrightarrow> (i, q) \<in> set (i_subscribers (offer e (i, q) s))"
    using other by (auto simp: offer_def close_chan_def sub_ids_def)
  show "chan_of i (publish_event e s) = chan_of i (offer e (i, q) s)"
    "i \<in> sub_ids (publish_event e s) \<longleftrightarrow> i \<in> sub_ids (offer e (i, q) s)"
    "(i, q) \<in> set (i_subscribers (publish_event e s)) \<longleftrightarrow> (i, q) \<in> set (i_subscribers (offer e (i, q) s))"
    by (simp_all add: publish_event_def split other own)
qed

lemma publish_event_ok: "chans_ok s \<Longrightarrow> chans_ok (publish_event e s)"
  using publish_events_ok [of s "[e]"] by (simp add: publish_events_def)

lemma publish_events_gone:
  assumes "i \<notin> sub_ids s"
  shows "chan_of i (publish_events es s) = chan_of i s" "i \<notin> sub_ids (publish_events es s)"
proof -
  have "i \<notin> sub_ids s \<Longrightarrow> chan_of i (fold publish_event es s) = chan_of i s \<and> i \<notin> sub_ids (fold publish_event es s)"
  proof (induction es arbitrary: s)
    case (Cons e es)
    then have "i \<notin> fst ` set (i_subscribers s)" by (simp add: sub_ids_def)
    with Cons show ?case by (simp add: publish_event_def fold_offer_other)
  qed simp
  with assms show "chan_of i (publish_events es s) = chan_of i s" "i \<notin> sub_ids (publish_events es s)"
    by (simp_all add: publish_events_def)
qed

text \<open>The matching events arrive in order; when they do not all fit, those that fit arrive and the channel is closed.\<close>

definition stream_end :: "Query \<Rightarrow> StoredEvent list \<Rightarrow> StoredEvent list \<Rightarrow> channel" where
  "stream_end q es buf = (let ms = filter (\<lambda>e. queryMatches e q) es; free = subscriberBuffer - length buf in
     \<lparr>ch_buf = buf @ take free ms, ch_closed = (free < length ms)\<rparr>)"

lemma subscriber_stream_from:
  assumes "chans_ok s" and "(i, q) \<in> set (i_subscribers s)"
  shows "chan_of i (publish_events es s) = stream_end q es (ch_buf (chan_of i s))
    \<and> (i \<in> sub_ids (publish_events es s) \<longleftrightarrow> \<not> ch_closed (stream_end q es (ch_buf (chan_of i s))))"
  using assms
proof (induction es arbitrary: s)
  case Nil
  then have "i \<in> sub_ids s" by (force simp: sub_ids_def)
  moreover with Nil.prems(1) have "\<not> ch_closed (chan_of i s)" by (simp add: chans_ok_def)
  ultimately show ?case by (cases "chan_of i s") (simp add: publish_events_def stream_end_def)
next
  case (Cons e es)
  then have sub: "i \<in> sub_ids s" by (force simp: sub_ids_def)
  with Cons.prems(1) have c: "\<not> ch_closed (chan_of i s)" "length (ch_buf (chan_of i s)) \<le> subscriberBuffer"
    by (simp_all add: chans_ok_def)
  have step: "publish_events (e # es) s = publish_events es (publish_event e s)" by (simp add: publish_events_def)
  note own = publish_event_own [OF Cons.prems, of e]
  show ?case
  proof (cases "queryMatches e q \<and> length (ch_buf (chan_of i s)) = subscriberBuffer")
    case True
    with c have "offer e (i, q) s = count_metric (\<lambda>m. m\<lparr>m_subscribers := m_subscribers m - 1, m_sseDropped := m_sseDropped m + 1\<rparr>)
        (close_chan i (drop_subscriber i s))"
      by (simp add: offer_def)
    with own c have "i \<notin> sub_ids (publish_event e s)"
      "chan_of i (publish_event e s) = (chan_of i s)\<lparr>ch_closed := True\<rparr>"
      by (simp_all add: close_chan_def)
    with True show ?thesis
      by (cases "chan_of i s") (simp add: step publish_events_gone stream_end_def)
  next
    case False
    with c own Cons.prems(2) have keep: "(i, q) \<in> set (i_subscribers (publish_event e s))"
      by (auto simp: offer_def)
    have "chan_of i (publish_event e s) = (if queryMatches e q
        then (chan_of i s)\<lparr>ch_buf := ch_buf (chan_of i s) @ [e]\<rparr> else chan_of i s)"
      using False c own by (auto simp: offer_def)
    with False c Cons.IH [OF publish_event_ok [OF Cons.prems(1)] keep] show ?thesis
      by (auto simp: step stream_end_def Let_def take_Cons' Suc_diff_le)
  qed
qed

end
