(* ===== verification/IngestRetention.thy ===== *)
theory IngestRetention
  imports HourlyStats
begin

text \<open>
  What the retention deletes, whatever statement fails: no row of the log that is young enough unless
  the file is too large, and then the oldest ones; no statistic and no audit row within its time.
\<close>

lemma wp_traverse_execs:
  assumes "\<And>u d d'. u \<in> set us \<Longrightarrow> R d \<Longrightarrow> u d = Inr d' \<Longrightarrow> R d'" and "R (w_db w)"
  shows "wp (traverseM db_exec us) (\<lambda>_ w'. R (w_db w')) (\<lambda>_ w'. R (w_db w') \<and> w_ext w' = w_ext w) w"
  using assms
proof (induction us arbitrary: w)
  case (Cons u us)
  have "wp (db_exec u) (\<lambda>_ w'. R (w_db w')) (\<lambda>_ w'. R (w_db w') \<and> w_ext w' = w_ext w) w"
    using Cons.prems by (auto simp: wp_db_exec split: sum.split)
  then show ?case
    by (auto simp: wp_bindM wp_returnM intro!: wp_mono [OF Cons.IH] elim!: wp_mono intro: Cons.prems(1))
qed (simp add: wp_returnM)

definition recent :: "int \<Rightarrow> db \<Rightarrow> (int \<times> query_row) list" where
  "recent since_ms d = filter (\<lambda>(_, r). since_ms \<le> q_TimestampMS r) (tb_rows (d_queries d))"

definition audit_since :: "int \<Rightarrow> db \<Rightarrow> (int \<times> audit_row) list" where
  "audit_since ms d = filter (\<lambda>(_, a). ms \<le> au_created_at_ms a) (tb_rows (d_audit d))"

text \<open>Everything but the log.\<close>

definition statistics_kept :: "int \<Rightarrow> int \<Rightarrow> db \<Rightarrow> db \<Rightarrow> bool" where
  "statistics_kept days90 year d d' =
    (prune days90 (h_client_domain (d_hourly d')) = prune days90 (h_client_domain (d_hourly d))
     \<and> prune year (h_domain (d_hourly d')) = prune year (h_domain (d_hourly d))
     \<and> prune year (h_client (d_hourly d')) = prune year (h_client (d_hourly d))
     \<and> prune year (h_global (d_hourly d')) = prune year (h_global (d_hourly d))
     \<and> prune year (h_upstream_group (d_hourly d')) = prune year (h_upstream_group (d_hourly d))
     \<and> prune year (h_latency_bucket (d_hourly d')) = prune year (h_latency_bucket (d_hourly d))
     \<and> audit_since year d' = audit_since year d
     \<and> d_versions d' = d_versions d \<and> d_rules d' = d_rules d \<and> d_subs d' = d_subs d \<and> d_bindings d' = d_bindings d
     \<and> d_devices d' = d_devices d \<and> d_admins d' = d_admins d \<and> d_sessions d' = d_sessions d)"

lemma prune_twice [simp]: "prune c (prune c xs) = prune c xs"
  by (auto simp: prune_def intro!: filter_cong)

lemma statistics_kept_refl [simp]: "statistics_kept a b d d"
  by (simp add: statistics_kept_def)

lemma audit_since_more [simp]:
  "audit_since ms (d\<lparr>d_hourly := h\<rparr>) = audit_since ms d" "audit_since ms (d\<lparr>d_queries := q\<rparr>) = audit_since ms d"
  "audit_since ms (d\<lparr>d_state := st\<rparr>) = audit_since ms d"
  "audit_since ms (d\<lparr>d_audit := delete_where (\<lambda>_ a. au_created_at_ms a < ms) (d_audit d)\<rparr>) = audit_since ms d"
  by (auto simp: audit_since_def delete_where_def intro!: filter_cong)

lemma prune_statements_keep:
  assumes "u \<in> set (prune_statements L now)" and "statistics_kept (il_AddDate L now 0 90) (il_AddDate L now 1 0) d0 d"
    and "u d = Inr d'"
  shows "statistics_kept (il_AddDate L now 0 90) (il_AddDate L now 1 0) d0 d' \<and> d_queries d' = d_queries d"
  using assms
  by (auto simp: prune_statements_def Let_def statistics_kept_def on_hourly_def)

lemma statistics_kept_queries [simp]: "statistics_kept a b d0 (d\<lparr>d_queries := q\<rparr>) = statistics_kept a b d0 d"
  by (simp add: statistics_kept_def)

lemma statistics_kept_state: "statistics_kept a b d0 d \<Longrightarrow> put_state k v d = Inr d' \<Longrightarrow> statistics_kept a b d0 d'"
  by (auto simp: put_state_def statistics_kept_def)

text \<open>Deleting the oldest rows.\<close>

definition trimmed :: "(int \<times> query_row) list \<Rightarrow> (int \<times> query_row) list \<Rightarrow> bool" where
  "trimmed rows rows' = (\<exists>old. length old \<le> 10000 \<and> rows' = filter (\<lambda>(i, _). i \<notin> set old) rows
     \<and> (\<forall>(i, r) \<in> set rows. i \<in> set old \<longrightarrow> (\<forall>(_, r') \<in> set rows'. q_TimestampMS r \<le> q_TimestampMS r')))"

lemma oldest_trimmed:
  assumes "distinct (map fst (tb_rows (d_queries d)))"
  shows "trimmed (tb_rows (d_queries d)) (filter (\<lambda>(i, _). i \<notin> set (oldest 10000 d)) (tb_rows (d_queries d)))"
proof -
  let ?rows = "tb_rows (d_queries d)"
  let ?s = "sort_key (\<lambda>(_, r). q_TimestampMS r) ?rows"
  have old: "oldest 10000 d = map fst (take 10000 ?s)" by (simp add: oldest_def)
  have sorted: "sorted (map (\<lambda>(_, r). q_TimestampMS r) ?s)" by (rule sorted_sort_key)
  have dist: "distinct (map fst ?s)" using assms by (metis distinct_map distinct_sort set_sort)
  have le: "q_TimestampMS r \<le> q_TimestampMS r'"
    if "(i, r) \<in> set ?rows" "i \<in> set (oldest 10000 d)" "(j, r') \<in> set ?rows" "j \<notin> set (oldest 10000 d)" for i r j r'
  proof -
    have mem: "(i, r) \<in> set (take 10000 ?s @ drop 10000 ?s)" "(j, r') \<in> set (take 10000 ?s @ drop 10000 ?s)"
      unfolding append_take_drop_id using that by simp_all
    from that(2) obtain r2 where r2: "(i, r2) \<in> set (take 10000 ?s)" unfolding old by auto
    then have "(i, r2) \<in> set ?s" by (rule in_set_takeD)
    moreover have "(i, r) \<in> set ?s" using that(1) by simp
    ultimately have "r = r2" using eq_key_imp_eq_value [OF dist] by blast
    moreover have "(j, r') \<notin> set (take 10000 ?s)" using that(4) unfolding old by (force simp: image_iff)
    ultimately have "(i, r) \<in> set (take 10000 ?s)" "(j, r') \<in> set (drop 10000 ?s)"
      using r2 mem(2) unfolding set_append by blast+
    moreover have "sorted (map (\<lambda>(_, r). q_TimestampMS r) (take 10000 ?s @ drop 10000 ?s))"
      unfolding append_take_drop_id by (rule sorted)
    ultimately show ?thesis unfolding map_append sorted_append by fastforce
  qed
  show ?thesis
    unfolding trimmed_def
  proof (intro exI [of _ "oldest 10000 d"] conjI)
    show "length (oldest 10000 d) \<le> 10000" by (simp add: old)
  qed (auto intro: le)
qed

text \<open>What may be gone after \<open>retain\<close>.\<close>

definition retained :: "'m ingestlib \<Rightarrow> int \<Rightarrow> ingest_state \<Rightarrow> 'm \<Rightarrow> db \<Rightarrow> db \<Rightarrow> bool" where
  "retained L now s m d d' =
     (let rows = recent (il_AddDate L now 0 (i_retentionDays s)) in
      statistics_kept (il_AddDate L now 0 90) (il_AddDate L now 1 0) d d'
      \<and> (if i_databaseMaxBytes s * 9 sdiv 10 \<le> databaseBytes L (i_dbPath s) m
         then rows d' = rows d \<or> trimmed (rows d) (rows d') else rows d' = rows d))"

lemma retain_retained:
  assumes "auto_ok (d_queries (w_db w))" and "w_ext w = (s, m)" and "w_clock w = now # ts"
  shows "wp (retain L) (\<lambda>_ w'. retained L now s m (w_db w) (w_db w'))
     (\<lambda>_ w'. retained L now s m (w_db w) (w_db w')
        \<and> (databaseBytes L (i_dbPath s) m < i_databaseMaxBytes s * 9 sdiv 10 \<longrightarrow>
            tb_rows (d_queries (w_db w')) = recent (il_AddDate L now 0 (i_retentionDays s)) (w_db w))) w"
proof -
  let ?cut = "il_AddDate L now 0 (i_retentionDays s)"
  let ?K = "statistics_kept (il_AddDate L now 0 90) (il_AddDate L now 1 0) (w_db w)"
  let ?R = "\<lambda>d. ?K d \<and> d_queries d = d_queries (w_db w)"
  have R: "retained L now s m (w_db w) d" if "?R d" for d
    using that by (simp add: retained_def Let_def recent_def)
  have recent_delete: "recent ?cut (d\<lparr>d_queries := delete_where (\<lambda>_ r. q_TimestampMS r < ?cut) (d_queries (w_db w))\<rparr>) = recent ?cut (w_db w)"
    "tb_rows (delete_where (\<lambda>_ r. q_TimestampMS r < ?cut) (d_queries (w_db w))) = recent ?cut (w_db w)" for d
    by (simp_all add: recent_def delete_where_def case_prod_unfold not_less)
  let ?D = "delete_where (\<lambda>_ r. q_TimestampMS r < ?cut) (d_queries (w_db w))"
  have R2: "retained L now s m (w_db w) (d\<lparr>d_queries := ?D\<rparr>)" if "?K d" for d
    using that by (simp add: retained_def Let_def recent_delete)
  have state: "retained L now s m d0 (d\<lparr>d_state := st\<rparr>) = retained L now s m d0 d" for d0 d st
    by (simp add: retained_def Let_def recent_def statistics_kept_def)
  have trim: "trimmed (recent ?cut (w_db w)) (tb_rows (delete_where (\<lambda>i _. i \<in> set (oldest 10000 d)) (d_queries d)))"
    if "tb_rows (d_queries d) = recent ?cut (w_db w)" for d
  proof -
    have "distinct (map fst (tb_rows (d_queries d)))"
      using assms(1) unfolding that recent_def auto_ok_def by (simp add: distinct_map_filter)
    from oldest_trimmed [OF this] show ?thesis by (simp add: that delete_where_def)
  qed
  have again: "recent ?cut (d\<lparr>d_queries := delete_where P ?D\<rparr>) = tb_rows (delete_where P ?D)" for d P
    by (auto simp: recent_def delete_where_def intro!: filter_cong)
  have R3: "retained L now s m (w_db w) (d\<lparr>d_queries := delete_where (\<lambda>i _. i \<in> set (oldest 10000 (d\<lparr>d_queries := ?D\<rparr>))) ?D\<rparr>)"
    if "?K d" "i_databaseMaxBytes s * 9 sdiv 10 \<le> databaseBytes L (i_dbPath s) m" for d
    using that trim [of "d\<lparr>d_queries := ?D\<rparr>"] by (simp add: retained_def Let_def again recent_delete(2))
  have "wp (traverseM db_exec (prune_statements L now)) (\<lambda>_ w'. ?R (w_db w')) (\<lambda>_ w'. ?R (w_db w') \<and> w_ext w' = w_ext w)
      (w\<lparr>w_now := now, w_clock := ts\<rparr>)"
  proof (rule wp_mono [OF wp_traverse_execs [where R = ?R]])
    show "?R d'" if "u \<in> set (prune_statements L now)" "?R d" "u d = Inr d'" for u d d'
      using prune_statements_keep [of u L now "w_db w" d d'] that by simp
  qed simp_all
  moreover have "wp (bindM state (\<lambda>s.
     bindM (db_exec (delete_queries (\<lambda>_ r. q_TimestampMS r < il_AddDate L now 0 (i_retentionDays s)))) (\<lambda>_.
     bindM (call (\<lambda>(s, m). (Inr (databaseBytes L (i_dbPath s) m), (s, m)))) (\<lambda>bytes.
     bindM (if i_databaseMaxBytes s * 9 sdiv 10 \<le> bytes
            then db_exec (\<lambda>d. let old = oldest sizeRetentionBatch d in delete_queries (\<lambda>i _. i \<in> set old) d)
            else returnM ()) (\<lambda>_.
     bindM (db_exec Inr) (\<lambda>_.
     db_exec (put_state ''last_retention_at'' (FormatInt now)))))))) (\<lambda>_ w'. retained L now s m (w_db w) (w_db w'))
     (\<lambda>_ w'. retained L now s m (w_db w) (w_db w')
        \<and> (databaseBytes L (i_dbPath s) m < i_databaseMaxBytes s * 9 sdiv 10 \<longrightarrow>
            tb_rows (d_queries (w_db w')) = recent (il_AddDate L now 0 (i_retentionDays s)) (w_db w))) w'"
    if "?R (w_db w')" "w_ext w' = (s, m)" for w'
    using that
    by (auto simp: wp_simps delete_queries_def put_state_def sizeRetentionBatch_def Let_def R R2 R3 state recent_delete(2))
  ultimately show ?thesis
    unfolding retain_def using assms(2,3) R by (auto simp: wp_simps elim!: wp_mono)
qed

end
