(* ===== verification/IngestProperties.thy ===== *)
theory IngestProperties
  imports IngestSummary IngestDelivery IngestQuery IngestStream IngestRetention Demo
begin

text \<open>
  The properties of the query ingestion service, with the instances on which they are applied.
\<close>

section \<open>An instance\<close>

definition demo_ilib :: "unit ingestlib" where
  "demo_ilib = \<lparr>lib_ToASCII = lib_ToASCII demo_lib, lib_ToLower = lib_ToLower demo_lib, lib_Compile = lib_Compile demo_lib,
     lib_ParseAddr = lib_ParseAddr demo_lib, lib_Sum = lib_Sum demo_lib, lib_Quote = lib_Quote demo_lib,
     il_AddDate = (\<lambda>now years days. now - (365 * years + days) * 86400000), il_Size = (\<lambda>p m. None), il_arrange = (\<lambda>xs. xs)\<rparr>"

definition demo_event :: "string \<Rightarrow> int \<Rightarrow> Event" where
  "demo_event n t = \<lparr>q_EventID = n, q_TimestampMS = t, q_ClientIP = ''192.0.2.1'', q_Protocol = ''udp'',
     q_QName = ''www.example'', q_QType = 1, q_QClass = 1, q_RCode = 0, q_Route = ''forward'', q_RouteSource = ''default'',
     q_UpstreamGroup = ''default'', q_UpstreamTag = [], q_CacheHit = False, q_Snapshot = 0, q_AccessRuleID = 0,
     q_RouteRuleID = 0, q_AnswerRuleID = 0, q_SubscriptionSourceID = 0, q_SubscriptionBindingID = 0,
     q_SubscriptionSourceName = [], q_SubscriptionCategories = [], q_AnswerCount = 1, q_AnswerMinTTLSeconds = None,
     q_LatencyUS = 900, q_ErrorCode = [], q_ErrorText = [], ev_SchemaVersion = 3, ev_ProcessStartedAtMS = 1,
     ev_AnswerIPs = [], ev_AnswerRecords = []\<rparr>"

definition demo_batch :: EventBatch where
  "demo_batch = \<lparr>ba_SchemaVersion = 3, ba_SenderID = ''mosdns'', ba_SentAtMS = 1,
     ba_Events = [demo_event ''a'' 7200001, demo_event ''b'' 7200002, demo_event ''a'' 7200001]\<rparr>"

definition any_query :: Query where
  "any_query = \<lparr>qu_Limit = 0, qu_FromMS = 0, qu_ToMS = 0, qu_QType = 0, qu_RCode = None, qu_CacheHit = None,
     qu_HasError = None, qu_Cursor = [], qu_ClientIP = [], qu_Route = [], qu_QName = [], qu_QNameMatch = [],
     qu_RouteSource = [], qu_UpstreamGroup = [], qu_UpstreamTag = [], qu_Protocol = [], qu_ResultClass = []\<rparr>"

definition demo_iworld :: "unit iworld" where
  "demo_iworld = \<lparr>w_db = empty_db, w_faults = [], w_now = 7200000, w_clock = [], w_ext = (New_ingest ''secret'' ''data.db'', ())\<rparr>"

section \<open>Bounds\<close>

lemma memory_ok_bounds:
  assumes "memory_ok b s"
  shows "\<not> i_panic s" "length (i_queue s) \<le> 8192" "m_queue (i_metrics s) = int (length (i_queue s))"
    "length (ch_buf (chan_of i s)) \<le> 256" "length (i_answers s) \<le> 1024"
proof -
  have "chans_ok s" "answers_ok s" "queue_ok s" using assms by (simp_all add: memory_ok_def)
  then show "\<not> i_panic s" "length (i_queue s) \<le> 8192" "m_queue (i_metrics s) = int (length (i_queue s))"
    "length (ch_buf (chan_of i s)) \<le> 256"
    by (simp_all add: chans_ok_def queue_ok_def queueCapacity_def subscriberBuffer_def)
  from \<open>answers_ok s\<close> have "length (i_answers s) = length (i_order s)"
    unfolding answers_ok_def by (metis distinct_card length_map)
  with \<open>answers_ok s\<close> show "length (i_answers s) \<le> 1024" by (simp add: answers_ok_def maxAnswerDiagnostics_def)
qed

text \<open>C26: Whatever batches, queries, subscribers, ticks and faults come, in whatever order, the service
  closed at most once does not panic (no send on a closed channel, no channel closed twice);
  its queue never holds more than 8192 events and the gauge shows how many; no subscriber's
  buffer holds more than 256 events; at most 1024 answer diagnostics are kept.\<close>

theorem ingest_bounded:
  assumes "fst (w_ext w) = New_ingest token path" and "count_list cs Close_begin \<le> 1"
  shows "let s = fst (w_ext (fold (ingest_run L) cs w)) in
     \<not> i_panic s \<and> length (i_queue s) \<le> 8192 \<and> m_queue (i_metrics s) = int (length (i_queue s))
     \<and> (\<forall>i. length (ch_buf (chan_of i s)) \<le> 256) \<and> length (i_answers s) \<le> 1024"
proof -
  have "memory_ok False (fst (w_ext w))" unfolding assms(1) by (rule New_ok)
  from ingest_runs_ok [OF this, of cs L] assms(2) obtain b where
    "memory_ok b (fst (w_ext (fold (ingest_run L) cs w)))" by auto
  then show ?thesis by (simp add: Let_def memory_ok_bounds)
qed

definition demo_steps :: "ingest_step list" where
  "demo_steps = [Subscribe_step any_query, Enqueue_step demo_batch, Turn Take, Turn Take, Turn Tick, Turn Take, Receive 0,
     Close_begin, Turn Leave, Turn Leave, Close_end]"

theorem ingest_bounded_witness:
  "let s = fst (w_ext (fold (ingest_run demo_ilib) demo_steps demo_iworld)) in
     \<not> i_panic s \<and> length (i_queue s) \<le> 8192 \<and> m_queue (i_metrics s) = int (length (i_queue s))
     \<and> (\<forall>i. length (ch_buf (chan_of i s)) \<le> 256) \<and> length (i_answers s) \<le> 1024"
  by (rule ingest_bounded [where token = "''secret''" and path = "''data.db''"]) (simp_all add: demo_iworld_def demo_steps_def)

section \<open>Receiving\<close>

text \<open>A batch is taken whole or not at all: a valid batch that fits into the queue is appended in
  order, otherwise the queue stays as it is; the loop that sends never finds the queue full,
  and each outcome is counted once.\<close>

theorem enqueue_atomic:
  "Enqueue L b s =
    (if validateBatch L b \<noteq> Inr () then (validateBatch L b, count_metric (\<lambda>m. m\<lparr>m_rejected := m_rejected m + 1\<rparr>) s)
     else if 8192 < length (i_queue s) + length (ba_Events b)
     then (Inl ErrOverloaded, count_metric (\<lambda>m. m\<lparr>m_queueFull := m_queueFull m + 1\<rparr>) s)
     else (Inr (), count_metric (\<lambda>m. m\<lparr>m_received := m_received m + length (ba_Events b),
        m_queue := m_queue m + int (length (ba_Events b))\<rparr>) (s\<lparr>i_queue := i_queue s @ ba_Events b\<rparr>)))"
  using Enqueue_cases [of L b s] by (simp add: queueCapacity_def)

section \<open>Delivery\<close>

text \<open>C23: From an empty database, as long as it works, every event of an accepted batch is in the log
  under its id exactly once, or still waiting in the queue or in the batch of the writer; the
  log holds nothing else. Once the service has stopped with an empty queue the log has them all.\<close>

theorem delivered_once:
  assumes "fresh_world w" and "Maintain \<notin> set cs"
  shows "let w' = fold (ingest_run L) cs w; s = fst (w_ext w'); ids = map q_EventID (log_of (w_db w')) in
     distinct ids \<and> q_EventID ` set (accepted L cs w) = set ids \<union> q_EventID ` (set (i_batch s) \<union> set (i_queue s))
     \<and> set (log_of (w_db w')) \<subseteq> {query_row_of e now | e now. e \<in> set (accepted L cs w)}
     \<and> (if i_mode s = Stopped \<and> i_queue s = [] then set ids = q_EventID ` set (accepted L cs w) else True)"
proof -
  let ?w = "fold (ingest_run L) cs w"
  have d: "delivering (set (accepted L cs w)) ?w"
    using delivering_run [OF delivering_fresh [OF assms(1)] assms(2), of L] by simp
  then have "set (log_of (w_db ?w)) \<subseteq> {query_row_of e now | e now. e \<in> set (accepted L cs w)}"
    unfolding delivering_def Let_def log_from_def by blast
  with d show ?thesis by (simp add: delivering_def Let_def log_from_def log_ids_def pending_def)
qed

lemma demo_fresh: "fresh_world demo_iworld"
  by (auto simp: fresh_world_def demo_iworld_def empty_db_def)

theorem delivered_once_witness:
  "let w' = fold (ingest_run demo_ilib) demo_steps demo_iworld; s = fst (w_ext w'); ids = map q_EventID (log_of (w_db w')) in
     distinct ids \<and> q_EventID ` set (accepted demo_ilib demo_steps demo_iworld)
         = set ids \<union> q_EventID ` (set (i_batch s) \<union> set (i_queue s))
     \<and> set (log_of (w_db w')) \<subseteq> {query_row_of e now | e now. e \<in> set (accepted demo_ilib demo_steps demo_iworld)}
     \<and> (if i_mode s = Stopped \<and> i_queue s = [] then set ids = q_EventID ` set (accepted demo_ilib demo_steps demo_iworld) else True)"
  by (rule delivered_once [OF demo_fresh]) (simp add: demo_steps_def)

text \<open>C31: Closing the service ends, whatever the order in which the \<open>select\<close> of the writer picks its branches
  and whatever callers, the timer, the maintenance and failing statements do meanwhile. Once \<open>done\<close> is
  closed the writer is never stuck before it has stopped: it can take an event or leave its loop. It
  gets ahead at most once for each event queued or accepted since, and twice more to leave
  its two loops, and after that many turns it has stopped. (The only other branch is the timer, every batch interval,
  until the first loop is left.) When it has stopped it has nothing in its hands, nothing is queued but what
  was accepted since, and \<open>Close\<close> leaves no subscriber.\<close>

theorem shutdown_terminates:
  assumes "i_mode (fst (w_ext w)) = Running" and "i_done (fst (w_ext w))"
  shows "let s = fst (w_ext w); s' = fst (w_ext (fold (ingest_run L) cs w));
       turns = writer_turns L cs w; budget = length (i_queue s) + length (accepted L cs w) + 2 in
     turns \<le> budget \<and> (turns = budget \<longrightarrow> i_mode s' = Stopped)
     \<and> (i_mode s' \<noteq> Stopped \<longrightarrow> enabled Take s' \<or> enabled Leave s')
     \<and> (i_mode s' = Stopped \<longrightarrow> i_batch s' = [] \<and> i_subscribers (close_end s') = []
          \<and> (accepted L cs w = [] \<longrightarrow> i_queue s' = []))"
proof -
  have "stopped_clean (fst (w_ext w))" "drained (fst (w_ext w))" "to_do (fst (w_ext w)) = length (i_queue (fst (w_ext w))) + 2"
    using assms(1) by (simp_all add: stopped_clean_def drained_def to_do_def)
  with run_account [of L cs w] assms(2) show ?thesis
    using unfinished_enabled [of "fst (w_ext (fold (ingest_run L) cs w))"] close_end_closes [of "fst (w_ext (fold (ingest_run L) cs w))"]
      nothing_to_do [of "fst (w_ext (fold (ingest_run L) cs w))"]
    unfolding Let_def stopped_clean_def drained_def by auto
qed

definition closing_world :: "unit iworld" where
  "closing_world = demo_iworld\<lparr>w_ext := ((New_ingest ''secret'' ''data.db'')\<lparr>i_done := True, i_queue := ba_Events demo_batch\<rparr>, ()),
     w_faults := [True]\<rparr>"

text \<open>An event is taken before \<open>done\<close> is noticed, the timer fires, and a client still subscribes.\<close>

definition closing_steps :: "ingest_step list" where
  "closing_steps = [Turn Take, Turn Tick, Turn Leave, Subscribe_step any_query] @ replicate (length (ba_Events demo_batch) - 1) (Turn Take)
     @ [Turn Leave]"

theorem shutdown_terminates_witness:
  "i_mode (fst (w_ext (fold (ingest_run demo_ilib) closing_steps closing_world))) = Stopped
   \<and> i_batch (fst (w_ext (fold (ingest_run demo_ilib) closing_steps closing_world))) = []
   \<and> i_queue (fst (w_ext (fold (ingest_run demo_ilib) closing_steps closing_world))) = []"
proof -
  have n: "writer_turns demo_ilib closing_steps closing_world = length (i_queue (fst (w_ext closing_world))) + 2"
    by code_simp
  have a: "accepted demo_ilib closing_steps closing_world = []"
    by (rule accepted_none) code_simp
  have w: "i_mode (fst (w_ext closing_world)) = Running" "i_done (fst (w_ext closing_world))"
    by (simp_all add: closing_world_def New_ingest_def)
  from shutdown_terminates [OF w, where L = demo_ilib and cs = closing_steps] show ?thesis
    by (auto simp: Let_def n a)
qed


section \<open>Statistics\<close>

text \<open>C24: As long as nothing was pruned, the six hourly tables are the log, grouped by hour and key and
  totalled, whatever batches were stored, with whatever duplicates, and whatever failed.\<close>

theorem statistics_match_log:
  assumes "d_queries (w_db w) = empty_table" and "d_hourly (w_db w) = empty_hourly" and "Maintain \<notin> set cs"
  shows "let d = w_db (fold (ingest_run L) cs w) in
     map_of (h_global (d_hourly d)) = reference global_key global_total (log_of d)
     \<and> map_of (h_domain (d_hourly d)) = reference (\<lambda>r. (hour_of r, q_QName r, q_Route r)) stat_total (log_of d)
     \<and> map_of (h_client (d_hourly d)) = reference (\<lambda>r. (hour_of r, q_ClientIP r, q_Route r)) stat_total (log_of d)
     \<and> map_of (h_client_domain (d_hourly d))
         = reference (\<lambda>r. (hour_of r, q_ClientIP r, q_QName r, q_Route r)) (\<lambda>rs. int (length rs)) (log_of d)
     \<and> map_of (h_upstream_group (d_hourly d)) = reference (\<lambda>r. (hour_of r, q_UpstreamGroup r)) max_stat_total
         (filter (\<lambda>r. q_UpstreamGroup r \<noteq> '''') (log_of d))
     \<and> map_of (h_latency_bucket (d_hourly d))
         = reference (\<lambda>r. (hour_of r, upper_bound (q_LatencyUS r))) (\<lambda>rs. int (length rs)) (log_of d)"
  using logged_tables [OF logged_run [OF logged_empty [OF assms(1,2)] assms(3), of L]] by (simp add: Let_def)

theorem statistics_match_log_witness:
  "let d = w_db (fold (ingest_run demo_ilib) demo_steps demo_iworld) in
     map_of (h_global (d_hourly d)) = reference global_key global_total (log_of d)
     \<and> map_of (h_domain (d_hourly d)) = reference (\<lambda>r. (hour_of r, q_QName r, q_Route r)) stat_total (log_of d)
     \<and> map_of (h_client (d_hourly d)) = reference (\<lambda>r. (hour_of r, q_ClientIP r, q_Route r)) stat_total (log_of d)
     \<and> map_of (h_client_domain (d_hourly d))
         = reference (\<lambda>r. (hour_of r, q_ClientIP r, q_QName r, q_Route r)) (\<lambda>rs. int (length rs)) (log_of d)
     \<and> map_of (h_upstream_group (d_hourly d)) = reference (\<lambda>r. (hour_of r, q_UpstreamGroup r)) max_stat_total
         (filter (\<lambda>r. q_UpstreamGroup r \<noteq> '''') (log_of d))
     \<and> map_of (h_latency_bucket (d_hourly d))
         = reference (\<lambda>r. (hour_of r, upper_bound (q_LatencyUS r))) (\<lambda>rs. int (length rs)) (log_of d)"
  by (rule statistics_match_log) (simp_all add: demo_iworld_def empty_db_def demo_steps_def)

text \<open>C25: What the summary page computes from the hourly tables is what a count over the raw log gives for
  the hours that begin within the last 24: number, result classes, cache hits, average and
  maximum latency; and the 95th percentile, computed in double precision, is the least bucket
  bound that 95 percent of the latencies do not exceed, for up to 2^30 queries. Only a failing
  query of the database stops it.\<close>

theorem summary_from_log:
  assumes "d_queries (w_db w) = empty_table" and "d_hourly (w_db w) = empty_hourly" and "Maintain \<notin> set cs"
    and "w' = fold (ingest_run L) cs w" and "w_clock w' = now # now2 # ts"
  shows "case fst (SummaryOf w') of
      Inr r \<Rightarrow> summary_matches now now2 (w_db w') r
    | Inl e \<Rightarrow> e = Fault \<and> True \<in> set (w_faults w')"
proof -
  have "logged (w_db w')" unfolding assms(4) by (rule logged_run [OF logged_empty [OF assms(1,2)] assms(3)])
  from SummaryOf_matches [OF this assms(5)] show ?thesis by (auto simp: wp_def split: prod.splits sum.splits)
qed

definition summary_world :: "unit iworld" where
  "summary_world = demo_iworld\<lparr>w_clock := [7200005, 7200006]\<rparr>"

theorem summary_from_log_witness:
  "case fst (SummaryOf summary_world) of
      Inr r \<Rightarrow> summary_matches 7200005 7200006 (w_db summary_world) r
    | Inl e \<Rightarrow> e = Fault \<and> True \<in> set (w_faults summary_world)"
  by (rule summary_from_log [where cs = "[]" and w = summary_world and L = demo_ilib])
    (simp_all add: summary_world_def demo_iworld_def empty_db_def)

section \<open>Reading\<close>

text \<open>C27: The live stream and the history agree: an event passes the filter of a subscriber exactly when
  its row is selected by the WHERE clause of the same query (for "contains", when neither the
  pattern nor the name has upper-case letters).\<close>

theorem live_equals_history:
  assumes "qu_QNameMatch q = ''contains'' \<Longrightarrow> lower (qu_QName q) = qu_QName q \<and> lower (q_QName e) = q_QName e"
    and "(i, query_row_of e now) \<in> set (tb_rows (d_queries d))"
  shows "queryMatches ((fromEvent e)\<lparr>sv_ID := i, sv_DeviceName := n\<rparr>) q
     \<longleftrightarrow> (i, query_row_of e now) \<in> set (matching (where_clause q) d)"
  using live_iff_where [OF assms(1), where i = i and n = n and now = now] assms(2) by (simp add: matching_def)

definition logged_db :: db where
  "logged_db = empty_db\<lparr>d_queries := insert_row (query_row_of (demo_event ''b'' 7300000) 7300001)
     (insert_row (query_row_of (demo_event ''a'' 7200001) 7200002) empty_table)\<rparr>"

theorem live_equals_history_witness:
  "queryMatches ((fromEvent (demo_event ''a'' 7200001))\<lparr>sv_ID := 1, sv_DeviceName := ''pc''\<rparr>)
      (any_query\<lparr>qu_QName := ''w.ex'', qu_QNameMatch := ''contains''\<rparr>)
     \<longleftrightarrow> (1, query_row_of (demo_event ''a'' 7200001) 7200002)
        \<in> set (matching (where_clause (any_query\<lparr>qu_QName := ''w.ex'', qu_QNameMatch := ''contains''\<rparr>)) logged_db)"
proof (rule live_equals_history)
  show "lower (qu_QName (any_query\<lparr>qu_QName := ''w.ex'', qu_QNameMatch := ''contains''\<rparr>))
      = qu_QName (any_query\<lparr>qu_QName := ''w.ex'', qu_QNameMatch := ''contains''\<rparr>)
    \<and> lower (q_QName (demo_event ''a'' 7200001)) = q_QName (demo_event ''a'' 7200001)"
    by code_simp
qed (simp add: logged_db_def insert_row_def empty_table_def)

text \<open>C29: Following the cursors of a query from its first page returns every row of the log that matches,
  newest first, each once, whatever page size is asked for.\<close>

theorem query_pages:
  assumes "auto_ok (d_queries (w_db w))"
    and "\<forall>(i, r) \<in> set (tb_rows (d_queries (w_db w))). 0 \<le> q_TimestampMS r \<and> q_TimestampMS r \<le> int64_max \<and> i \<le> int64_max"
  shows "let rows = map (stored_event (w_db w)) (matching (where_clause q) (w_db w)) in
     follow (query_fetch w (where_clause q) (qu_Limit q)) (Suc (length rows)) '''' = Some (order_desc stored_key rows)"
proof -
  have "\<forall>x \<in> set (map (stored_event (w_db w)) (matching (where_clause q) (w_db w))).
      0 \<le> fst (stored_key x) \<and> fst (stored_key x) \<le> int64_max \<and> 1 \<le> snd (stored_key x) \<and> snd (stored_key x) \<le> int64_max"
    using assms by (fastforce simp: stored_key_def stored_event_def auto_ok_def matching_def query_cols.defs StoredEvent.defs)
  from history.follow_all [OF distinct_query_keys [OF assms(1)] this] show ?thesis by (simp only: Let_def)
qed

theorem query_pages_witness:
  "let rows = map (stored_event logged_db) (matching (where_clause (any_query\<lparr>qu_Limit := 1\<rparr>)) logged_db) in
     follow (query_fetch (demo_iworld\<lparr>w_db := logged_db\<rparr>) (where_clause (any_query\<lparr>qu_Limit := 1\<rparr>)) 1) (Suc (length rows)) ''''
       = Some (order_desc stored_key rows)"
  using query_pages [of "demo_iworld\<lparr>w_db := logged_db\<rparr>" "any_query\<lparr>qu_Limit := 1\<rparr>"]
  by (simp add: logged_db_def insert_row_def empty_table_def auto_ok_def query_row_of_def demo_event_def int64_max_def
      query_cols.defs query_row.defs)

text \<open>C28: What a subscriber reads: when a batch is published, the events that match its query are appended to
  its channel in their order; if they do not all fit into the 256 places, those that fit
  arrive, the channel is closed and the subscriber is dropped, without disturbing the others.\<close>

theorem subscriber_stream:
  assumes "chans_ok s" and "(i, q) \<in> set (i_subscribers s)"
  shows "let s' = publish_events es s; ms = filter (\<lambda>e. queryMatches e q) es; buf = ch_buf (chan_of i s); free = 256 - length buf in
     ch_buf (chan_of i s') = buf @ take free ms
     \<and> ch_closed (chan_of i s') = (free < length ms) \<and> (i \<in> sub_ids s') = (length ms \<le> free) \<and> chans_ok s'"
  using subscriber_stream_from [OF assms, of es] publish_events_ok [OF assms(1), of es]
  by (simp add: stream_end_def Let_def subscriberBuffer_def not_less)

definition watched :: ingest_state where
  "watched = snd (Subscribe demo_ilib any_query (New_ingest ''secret'' ''data.db''))"

theorem subscriber_stream_witness:
  "let es = [fromEvent (demo_event ''a'' 7200001), fromEvent (demo_event ''b'' 7200001)];
     s' = publish_events es watched; ms = filter (\<lambda>e. queryMatches e any_query) es; buf = ch_buf (chan_of 0 watched);
     free = 256 - length buf in
     ch_buf (chan_of 0 s') = buf @ take free ms
     \<and> ch_closed (chan_of 0 s') = (free < length ms) \<and> (0 \<in> sub_ids s') = (length ms \<le> free) \<and> chans_ok s'"
proof -
  have "memory_ok False (New_ingest ''secret'' ''data.db'')" by (rule New_ok)
  then have "chans_ok watched" unfolding watched_def memory_ok_def by (blast intro: Subscribe_ok)
  moreover have "(0, any_query) \<in> set (i_subscribers watched)" by code_simp
  ultimately show ?thesis
    using subscriber_stream [of watched 0 any_query "[fromEvent (demo_event ''a'' 7200001), fromEvent (demo_event ''b'' 7200001)]"]
    by (simp only: Let_def)
qed

section \<open>Retention\<close>

text \<open>C30: Retention, whichever of its statements fails, takes no row of the log that is younger than the days
  set, unless the file has reached 90 percent of its limit; then at most the 10000 oldest go.
  It takes no statistic and no audit entry within its time and nothing of any other table;
  and when it succeeds below the limit exactly the young rows are left.\<close>

theorem retain_keeps:
  assumes "auto_ok (d_queries (w_db w))" and "w_ext w = (s, m)" and "w_clock w = now # ts"
  shows "let since_ms = il_AddDate L now 0 (i_retentionDays s); d = w_db w; d' = w_db (snd (retain L w));
           full = (i_databaseMaxBytes s * 9 sdiv 10 \<le> databaseBytes L (i_dbPath s) m) in
     statistics_kept (il_AddDate L now 0 90) (il_AddDate L now 1 0) d d'
     \<and> (recent since_ms d' = recent since_ms d \<or> full \<and> trimmed (recent since_ms d) (recent since_ms d'))
     \<and> (if fst (retain L w) = Inr () \<and> \<not> full then tb_rows (d_queries d') = recent since_ms d else True)"
  using retain_retained [OF assms, of L]
  by (auto simp: Let_def wp_def retained_def not_le split: prod.splits sum.splits if_splits)

theorem retain_keeps_witness:
  "let w = demo_iworld\<lparr>w_db := logged_db, w_clock := [604800000 + 7250000], w_faults := [False, True]\<rparr>;
     since_ms = il_AddDate demo_ilib (604800000 + 7250000) 0 7; d = w_db w; d' = w_db (snd (retain demo_ilib w));
     full = (2 * 2 ^ 30 * 9 sdiv 10 \<le> databaseBytes demo_ilib ''data.db'' ()) in
     statistics_kept (il_AddDate demo_ilib (604800000 + 7250000) 0 90) (il_AddDate demo_ilib (604800000 + 7250000) 1 0) d d'
     \<and> (recent since_ms d' = recent since_ms d \<or> full \<and> trimmed (recent since_ms d) (recent since_ms d'))
     \<and> (if fst (retain demo_ilib w) = Inr () \<and> \<not> full then tb_rows (d_queries d') = recent since_ms d else True)"
  using retain_keeps [of "demo_iworld\<lparr>w_db := logged_db, w_clock := [604800000 + 7250000], w_faults := [False, True]\<rparr>"
      "New_ingest ''secret'' ''data.db''" "()" "604800000 + 7250000" "[]" demo_ilib]
  by (simp add: demo_iworld_def logged_db_def insert_row_def empty_table_def auto_ok_def New_ingest_def)

end
