(* ===== verification/Migrations.thy ===== *)
theory Migrations
  imports Prelude GoStrings "HOL-Library.AList"
begin

text \<open>
  The schema of the database and its migration (\<open>internal/storage/migrations.go\<close>): the SQL statements as
  data, what each does to tables, columns, rows and indexes, and \<open>Migrate\<close>, which creates the baseline,
  takes version 1 to version 2, and refuses everything else. Types, checks and foreign keys of the
  columns are not part of this model: a statement that breaks one fails like a fault.
\<close>

section \<open>Statements\<close>

datatype statement =
    Pragma | CreateTable string "string list" | CreateIndex string string "string list" | CopyAll string string
  | CopyColumns string string "string list" | DropIndex string | DropTable string | RenameTable string string

text \<open>A row maps columns to values; a column it does not map holds its default.\<close>

type_synonym row = "string \<Rightarrow> string option"

record sql_table =
  sq_columns :: "string list"
  sq_rows :: "row list"

text \<open>\<open>sd_marker\<close> are the rows of \<open>schema_migrations\<close>.\<close>

record sql_db =
  sd_tables :: "(string \<times> sql_table) list"
  sd_indexes :: "(string \<times> string) list"
  sd_marker :: "int list"

definition table_exists :: "string \<Rightarrow> error" where
  "table_exists t = Msg (''table '' @ t @ '' already exists'')"

definition index_exists :: "string \<Rightarrow> error" where
  "index_exists i = Msg (''index '' @ i @ '' already exists'')"

definition no_such :: "string \<Rightarrow> error" where
  "no_such x = Msg (''no such table, column or index: '' @ x)"

definition put_table :: "string \<Rightarrow> sql_table \<Rightarrow> sql_db \<Rightarrow> sql_db" where
  "put_table t v d = d\<lparr>sd_tables := AList.update t v (sd_tables d)\<rparr>"

definition remove_table :: "string \<Rightarrow> sql_db \<Rightarrow> sql_db" where
  "remove_table t d = d\<lparr>sd_tables := AList.delete t (sd_tables d)\<rparr>"

text \<open>\<open>INSERT INTO t SELECT * FROM s\<close> pairs the columns by their places.\<close>

definition by_place :: "string list \<Rightarrow> string list \<Rightarrow> row \<Rightarrow> row" where
  "by_place new old r = (\<lambda>c. case map_of (zip new old) c of None \<Rightarrow> None | Some c' \<Rightarrow> r c')"

definition only_columns :: "string list \<Rightarrow> row \<Rightarrow> row" where
  "only_columns cols r = (\<lambda>c. if c \<in> set cols then r c else None)"

fun sql_exec :: "statement \<Rightarrow> sql_db \<Rightarrow> error + sql_db" where
  "sql_exec Pragma d = Inr d"
| "sql_exec (CreateTable t cols) d =
     (if map_of (sd_tables d) t \<noteq> None then Inl (table_exists t)
      else Inr (put_table t \<lparr>sq_columns = cols, sq_rows = []\<rparr> d))"
| "sql_exec (CreateIndex i t cols) d =
     (case map_of (sd_tables d) t of
        None \<Rightarrow> Inl (no_such t)
      | Some v \<Rightarrow>
          if map_of (sd_indexes d) i \<noteq> None then Inl (index_exists i)
          else if \<not> set cols \<subseteq> set (sq_columns v) then Inl (no_such i)
          else Inr (d\<lparr>sd_indexes := (i, t) # sd_indexes d\<rparr>))"
| "sql_exec (CopyAll t s) d =
     (case (map_of (sd_tables d) t, map_of (sd_tables d) s) of
        (Some v, Some u) \<Rightarrow>
          if length (sq_columns v) \<noteq> length (sq_columns u) then Inl (no_such s)
          else Inr (put_table t (v\<lparr>sq_rows := sq_rows v @ map (by_place (sq_columns v) (sq_columns u)) (sq_rows u)\<rparr>) d)
      | _ \<Rightarrow> Inl (no_such s))"
| "sql_exec (CopyColumns t s cols) d =
     (case (map_of (sd_tables d) t, map_of (sd_tables d) s) of
        (Some v, Some u) \<Rightarrow>
          if \<not> set cols \<subseteq> set (sq_columns v) \<inter> set (sq_columns u) then Inl (no_such s)
          else Inr (put_table t (v\<lparr>sq_rows := sq_rows v @ map (only_columns cols) (sq_rows u)\<rparr>) d)
      | _ \<Rightarrow> Inl (no_such s))"
| "sql_exec (DropIndex i) d =
     (if map_of (sd_indexes d) i = None then Inl (no_such i) else Inr (d\<lparr>sd_indexes := AList.delete i (sd_indexes d)\<rparr>))"
| "sql_exec (DropTable t) d =
     (if map_of (sd_tables d) t = None then Inl (no_such t)
      else Inr ((remove_table t d)\<lparr>sd_indexes := filter (\<lambda>(_, u). u \<noteq> t) (sd_indexes d)\<rparr>))"
| "sql_exec (RenameTable s t) d =
     (case map_of (sd_tables d) s of
        None \<Rightarrow> Inl (no_such s)
      | Some v \<Rightarrow>
          if map_of (sd_tables d) t \<noteq> None then Inl (table_exists t)
          else Inr ((put_table t v (remove_table s d))\<lparr>sd_indexes := map (\<lambda>(i, u). (i, if u = s then t else u)) (sd_indexes d)\<rparr>))"

section \<open>The schema\<close>

definition baselineVersion :: int where "baselineVersion = 2"

definition ErrLegacySchema :: error where
  "ErrLegacySchema = Msg ''existing controller database uses an unsupported schema; a new empty database is required''"

definition baselineSchema :: "statement list" where
  "baselineSchema = [
     CreateTable ''schema_migrations'' [''version''],
     CreateTable ''admins'' [''id'', ''username'', ''password_hash'', ''disabled'', ''created_at_ms'',
       ''updated_at_ms''],
     CreateTable ''sessions'' [''token_hash'', ''admin_id'', ''csrf_hash'', ''client_ip'', ''user_agent'',
       ''created_at_ms'', ''last_seen_at_ms'', ''expires_at_ms''],
     CreateIndex ''idx_sessions_admin'' ''sessions'' [''admin_id''],
     CreateIndex ''idx_sessions_expires'' ''sessions'' [''expires_at_ms''],
     CreateTable ''rule_versions'' [''version'', ''schema_version'', ''checksum'', ''status'', ''previous_version'',
       ''rollback_from_version'', ''rule_count'', ''regexp_rule_count'', ''snapshot_json'', ''rules_json'',
       ''created_by'', ''error_code'', ''error_message'', ''created_at_ms'', ''activated_at_ms''],
     CreateIndex ''uq_rule_versions_active'' ''rule_versions'' [''status''],
     CreateIndex ''idx_rule_versions_created'' ''rule_versions'' [''created_at_ms''],
     CreateTable ''domain_rules'' [''id'', ''version'', ''category'', ''action'', ''upstream_group_id'',
       ''match_type'', ''pattern'', ''normalized_pattern'', ''priority'', ''source'', ''comment'', ''enabled'',
       ''created_at_ms'', ''updated_at_ms'', ''ipv4_addresses_json'', ''ipv6_addresses_json'', ''ttl''],
     CreateIndex ''idx_domain_rules_category'' ''domain_rules'' [''category'', ''action'', ''enabled''],
     CreateIndex ''idx_domain_rules_pattern'' ''domain_rules'' [''normalized_pattern''],
     CreateIndex ''idx_domain_rules_upstream_group'' ''domain_rules'' [''upstream_group_id''],
     CreateTable ''rule_subscriptions'' [''id'', ''category'', ''action'', ''kind'', ''name'', ''source_url'',
       ''refresh_interval_seconds'', ''enabled'', ''content_checksum'', ''rule_count'', ''last_checked_at_ms'',
       ''last_success_at_ms'', ''last_error'', ''created_at_ms'', ''updated_at_ms'', ''domains_json''],
     CreateIndex ''idx_rule_subscriptions_due'' ''rule_subscriptions'' [''kind'', ''enabled'',
       ''last_checked_at_ms''],
     CreateTable ''subscription_bindings'' [''id'', ''subscription_id'', ''upstream_group_id'', ''priority'',
       ''created_at_ms'', ''updated_at_ms''],
     CreateIndex ''idx_subscription_bindings_group'' ''subscription_bindings'' [''upstream_group_id''],
     CreateTable ''admin_audit_logs'' [''id'', ''admin_id'', ''action'', ''resource_type'', ''resource_id'',
       ''request_id'', ''client_ip'', ''before_json'', ''after_json'', ''result'', ''error_code'',
       ''created_at_ms''],
     CreateIndex ''idx_admin_audit_created'' ''admin_audit_logs'' [''created_at_ms''],
     CreateIndex ''idx_admin_audit_created_id'' ''admin_audit_logs'' [''created_at_ms'', ''id''],
     CreateTable ''devices'' [''id'', ''ip'', ''mac'', ''hostname'', ''display_name'', ''note'', ''source'',
       ''first_seen_at_ms'', ''last_seen_at_ms'', ''updated_at_ms''],
     CreateIndex ''idx_devices_last_seen'' ''devices'' [''last_seen_at_ms''],
     CreateTable ''dns_queries'' [''id'', ''event_id'', ''timestamp_unix_ms'', ''client_ip'', ''protocol'',
       ''qname'', ''qtype'', ''qclass'', ''rcode'', ''route'', ''route_source'', ''upstream_group'',
       ''upstream_tag'', ''cache_hit'', ''snapshot_version'', ''access_rule_id'', ''route_rule_id'',
       ''answer_rule_id'', ''subscription_source_id'', ''subscription_binding_id'', ''subscription_source_name'',
       ''subscription_categories_json'', ''answer_count'', ''answer_min_ttl_seconds'', ''latency_us'',
       ''error_code'', ''error_text'', ''result_class'', ''created_at_ms''],
     CreateIndex ''idx_dns_queries_time'' ''dns_queries'' [''timestamp_unix_ms'', ''id''],
     CreateIndex ''idx_dns_queries_client_time'' ''dns_queries'' [''client_ip'', ''timestamp_unix_ms'', ''id''],
     CreateIndex ''idx_dns_queries_qname_time'' ''dns_queries'' [''qname'', ''timestamp_unix_ms'', ''id''],
     CreateIndex ''idx_dns_queries_route_time'' ''dns_queries'' [''route'', ''timestamp_unix_ms'', ''id''],
     CreateIndex ''idx_dns_queries_qtype_time'' ''dns_queries'' [''qtype'', ''timestamp_unix_ms'', ''id''],
     CreateIndex ''idx_dns_queries_rcode_time'' ''dns_queries'' [''rcode'', ''timestamp_unix_ms'', ''id''],
     CreateIndex ''idx_dns_queries_cache_time'' ''dns_queries'' [''cache_hit'', ''timestamp_unix_ms'', ''id''],
     CreateIndex ''idx_dns_queries_upstream_tag_time'' ''dns_queries'' [''upstream_tag'', ''timestamp_unix_ms'',
       ''id''],
     CreateIndex ''idx_dns_queries_upstream_group_time'' ''dns_queries'' [''upstream_group'', ''timestamp_unix_ms'',
       ''id''],
     CreateIndex ''idx_dns_queries_result_class_time'' ''dns_queries'' [''result_class'', ''timestamp_unix_ms'',
       ''id''],
     CreateTable ''dns_stats_hourly_global'' [''hour_start_ms'', ''route'', ''qtype'', ''rcode'', ''query_count'',
       ''error_count'', ''cache_hit_count'', ''latency_sum_us'', ''latency_max_us'', ''success_count'',
       ''negative_answer_count'', ''policy_block_count'', ''processing_error_count''],
     CreateTable ''dns_stats_hourly_domain'' [''hour_start_ms'', ''qname'', ''route'', ''query_count'',
       ''error_count'', ''cache_hit_count'', ''latency_sum_us''],
     CreateTable ''dns_stats_hourly_client'' [''hour_start_ms'', ''client_ip'', ''route'', ''query_count'',
       ''error_count'', ''cache_hit_count'', ''latency_sum_us''],
     CreateTable ''dns_stats_hourly_client_domain'' [''hour_start_ms'', ''client_ip'', ''qname'', ''route'',
       ''query_count''],
     CreateTable ''dns_stats_hourly_upstream_group'' [''hour_start_ms'', ''upstream_group_id'', ''query_count'',
       ''error_count'', ''cache_hit_count'', ''latency_sum_us'', ''latency_max_us''],
     CreateTable ''dns_stats_hourly_latency_bucket'' [''hour_start_ms'', ''upper_bound_us'', ''query_count''],
     CreateTable ''system_state'' [''key'', ''value_json'', ''updated_at_ms'']]"

definition upgrade_statements :: "statement list" where
  "upgrade_statements = [
     Pragma,
     CreateTable ''rule_versions_v2'' [''version'', ''schema_version'', ''checksum'', ''status'',
       ''previous_version'', ''rollback_from_version'', ''rule_count'', ''regexp_rule_count'', ''snapshot_json'',
       ''rules_json'', ''created_by'', ''error_code'', ''error_message'', ''created_at_ms'', ''activated_at_ms''],
     CopyAll ''rule_versions_v2'' ''rule_versions'',
     CreateTable ''domain_rules_v2'' [''id'', ''version'', ''category'', ''action'', ''upstream_group_id'',
       ''match_type'', ''pattern'', ''normalized_pattern'', ''priority'', ''source'', ''comment'', ''enabled'',
       ''created_at_ms'', ''updated_at_ms'', ''ipv4_addresses_json'', ''ipv6_addresses_json'', ''ttl''],
     CopyColumns ''domain_rules_v2'' ''domain_rules'' [''id'', ''version'', ''category'', ''action'',
       ''upstream_group_id'', ''match_type'', ''pattern'', ''normalized_pattern'', ''priority'', ''source'',
       ''comment'', ''enabled'', ''created_at_ms'', ''updated_at_ms''],
     CreateTable ''dns_queries_v2'' [''id'', ''event_id'', ''timestamp_unix_ms'', ''client_ip'', ''protocol'',
       ''qname'', ''qtype'', ''qclass'', ''rcode'', ''route'', ''route_source'', ''upstream_group'',
       ''upstream_tag'', ''cache_hit'', ''snapshot_version'', ''access_rule_id'', ''route_rule_id'',
       ''answer_rule_id'', ''subscription_source_id'', ''subscription_binding_id'', ''subscription_source_name'',
       ''subscription_categories_json'', ''answer_count'', ''answer_min_ttl_seconds'', ''latency_us'',
       ''error_code'', ''error_text'', ''result_class'', ''created_at_ms''],
     CopyColumns ''dns_queries_v2'' ''dns_queries'' [''id'', ''event_id'', ''timestamp_unix_ms'', ''client_ip'',
       ''protocol'', ''qname'', ''qtype'', ''qclass'', ''rcode'', ''route'', ''route_source'', ''upstream_group'',
       ''upstream_tag'', ''cache_hit'', ''snapshot_version'', ''access_rule_id'', ''route_rule_id'',
       ''subscription_source_id'', ''subscription_binding_id'', ''subscription_source_name'',
       ''subscription_categories_json'', ''answer_count'', ''answer_min_ttl_seconds'', ''latency_us'',
       ''error_code'', ''error_text'', ''result_class'', ''created_at_ms''],
     DropIndex ''uq_rule_versions_active'',
     DropIndex ''idx_rule_versions_created'',
     DropIndex ''idx_domain_rules_category'',
     DropIndex ''idx_domain_rules_pattern'',
     DropIndex ''idx_domain_rules_upstream_group'',
     DropIndex ''idx_dns_queries_time'',
     DropIndex ''idx_dns_queries_client_time'',
     DropIndex ''idx_dns_queries_qname_time'',
     DropIndex ''idx_dns_queries_route_time'',
     DropIndex ''idx_dns_queries_qtype_time'',
     DropIndex ''idx_dns_queries_rcode_time'',
     DropIndex ''idx_dns_queries_cache_time'',
     DropIndex ''idx_dns_queries_upstream_tag_time'',
     DropIndex ''idx_dns_queries_upstream_group_time'',
     DropIndex ''idx_dns_queries_result_class_time'',
     DropTable ''domain_rules'',
     DropTable ''dns_queries'',
     DropTable ''rule_versions'',
     RenameTable ''rule_versions_v2'' ''rule_versions'',
     RenameTable ''domain_rules_v2'' ''domain_rules'',
     RenameTable ''dns_queries_v2'' ''dns_queries'']"

section \<open>Migration\<close>

text \<open>The database and the faults to come; a transaction brings the database back when it fails.\<close>

record migration =
  mg_db :: sql_db
  mg_faults :: "bool list"

type_synonym 'a migrating = "(error, migration, 'a) prog"

definition statement_run :: "(sql_db \<Rightarrow> error + 'a \<times> sql_db) \<Rightarrow> 'a migrating" where
  "statement_run f = (\<lambda>s. let s' = s\<lparr>mg_faults := tl (mg_faults s)\<rparr> in
     if mg_faults s \<noteq> [] \<and> hd (mg_faults s) then (Inl Fault, s')
     else case f (mg_db s) of Inl e \<Rightarrow> (Inl e, s') | Inr (a, d) \<Rightarrow> (Inr a, s'\<lparr>mg_db := d\<rparr>))"

definition sql :: "statement \<Rightarrow> unit migrating" where
  "sql st = statement_run (\<lambda>d. case sql_exec st d of Inl e \<Rightarrow> Inl e | Inr d' \<Rightarrow> Inr ((), d'))"

definition sql_select :: "(sql_db \<Rightarrow> error + 'a) \<Rightarrow> 'a migrating" where
  "sql_select q = statement_run (\<lambda>d. case q d of Inl e \<Rightarrow> Inl e | Inr a \<Rightarrow> Inr (a, d))"

definition inside :: "'a migrating \<Rightarrow> 'a migrating" where
  "inside body = bindM (sql_select (\<lambda>_. Inr ())) (\<lambda>_. (\<lambda>s. case body s of
       (Inl e, s') \<Rightarrow> (Inl e, s'\<lparr>mg_db := mg_db s\<rparr>)
     | (Inr a, s') \<Rightarrow> (case sql_select (\<lambda>_. Inr ()) s' of
           (Inl e, s'') \<Rightarrow> (Inl e, s''\<lparr>mg_db := mg_db s\<rparr>) | (Inr _, s'') \<Rightarrow> (Inr a, s''))))"

text \<open>The first row of \<open>schema_migrations\<close>, when the table exists and has one.\<close>

definition select_marker :: "sql_db \<Rightarrow> error + int" where
  "select_marker d = (case map_of (sd_tables d) ''schema_migrations'' of
       None \<Rightarrow> Inl (no_such ''schema_migrations'')
     | Some _ \<Rightarrow> (case sd_marker d of [] \<Rightarrow> Inl ErrNoRows | v # _ \<Rightarrow> Inr v))"

definition count_column :: "string \<Rightarrow> string \<Rightarrow> sql_db \<Rightarrow> nat" where
  "count_column t c d = (case map_of (sd_tables d) t of None \<Rightarrow> 0 | Some v \<Rightarrow> count_list (sq_columns v) c)"

definition legacy :: "string \<Rightarrow> error" where
  "legacy m = Wrap ErrLegacySchema m"

text \<open>The columns asked for; Go walks its map in any order, the outcome is the same.\<close>

definition required_columns :: "(string \<times> string) list" where
  "required_columns = [(''domain_rules'', ''ttl''), (''rule_versions'', ''rules_json''),
     (''subscription_bindings'', ''upstream_group_id''), (''dns_queries'', ''subscription_binding_id''),
     (''dns_stats_hourly_upstream_group'', ''upstream_group_id''), (''dns_queries'', ''answer_rule_id'')]"

definition verifyBaseline :: "unit migrating" where
  "verifyBaseline =
     bindM (mapErr (\<lambda>_. legacy ''migration marker'') (sql_select select_marker)) (\<lambda>version.
     bindM (guardM (version = baselineVersion) (legacy ''migration marker'')) (\<lambda>_.
     bindM (mapErr (\<lambda>_. legacy ''migration history'') (sql_select (\<lambda>d. Inr (filter (\<lambda>v. v \<noteq> baselineVersion) (sd_marker d))))) (\<lambda>extra.
     bindM (guardM (extra = []) (legacy ''migration history'')) (\<lambda>_.
     bindM (traverseM (\<lambda>(t, c).
         bindM (mapErr (\<lambda>_. legacy (''missing '' @ t @ ''.'' @ c)) (sql_select (\<lambda>d. Inr (count_column t c d)))) (\<lambda>n.
         guardM (n = 1) (legacy (''missing '' @ t @ ''.'' @ c)))) required_columns) (\<lambda>_.
     returnM ())))))"

fun is_index :: "statement \<Rightarrow> bool" where
  "is_index (CreateIndex i t cols) = True"
| "is_index _ = False"

definition recreate_index :: "statement \<Rightarrow> unit migrating" where
  "recreate_index st = bindM (attemptM (sql st)) (\<lambda>r. case r of
         Inl e \<Rightarrow> if Contains (Error e) ''already exists'' then returnM () else throwM e
       | Inr _ \<Rightarrow> returnM ())"

definition migrateV1ToV2 :: "unit migrating" where
  "migrateV1ToV2 = inside (
     bindM (traverseM (\<lambda>st. mapErr (wrapf ''migrate controller schema v1 to v2: '') (sql st)) upgrade_statements) (\<lambda>_.
     bindM (traverseM recreate_index (filter is_index baselineSchema)) (\<lambda>_.
     statement_run (\<lambda>d. Inr ((), d\<lparr>sd_marker := map (\<lambda>v. if v = 1 then 2 else v) (sd_marker d)\<rparr>)))))"

definition create_baseline :: "unit migrating" where
  "create_baseline = inside (
     bindM (traverseM (\<lambda>st. mapErr (wrapf ''create controller schema baseline: '') (sql st)) baselineSchema) (\<lambda>_.
     statement_run (\<lambda>d. Inr ((), d\<lparr>sd_marker := sd_marker d @ [baselineVersion]\<rparr>))))"

definition Migrate :: "unit migrating" where
  "Migrate =
     bindM (sql_select (\<lambda>d. Inr (length (sd_tables d)))) (\<lambda>tableCount.
     if tableCount \<noteq> 0 then
       bindM (mapErr (\<lambda>_. legacy ''migration marker'') (sql_select select_marker)) (\<lambda>version.
       bindM (if version = 1 then migrateV1ToV2 else returnM ()) (\<lambda>_.
       verifyBaseline))
     else create_baseline)"

section \<open>What the statements do to the tables\<close>

abbreviation tab :: "sql_db \<Rightarrow> string \<Rightarrow> sql_table option" where
  "tab d \<equiv> map_of (sd_tables d)"

fun tab_allows :: "statement \<Rightarrow> (string \<Rightarrow> sql_table option) \<Rightarrow> bool" where
  "tab_allows (CreateTable t cols) f = (f t = None)"
| "tab_allows (RenameTable s t) f = (f t = None)"
| "tab_allows _ f = True"

fun tab_after :: "statement \<Rightarrow> (string \<Rightarrow> sql_table option) \<Rightarrow> string \<Rightarrow> sql_table option" where
  "tab_after (CreateTable t cols) f = f(t \<mapsto> \<lparr>sq_columns = cols, sq_rows = []\<rparr>)"
| "tab_after (CopyAll t s) f = f(t \<mapsto> (the (f t))\<lparr>sq_rows := sq_rows (the (f t)) @
     map (by_place (sq_columns (the (f t))) (sq_columns (the (f s)))) (sq_rows (the (f s)))\<rparr>)"
| "tab_after (CopyColumns t s cols) f = f(t \<mapsto> (the (f t))\<lparr>sq_rows := sq_rows (the (f t)) @
     map (only_columns cols) (sq_rows (the (f s)))\<rparr>)"
| "tab_after (DropTable t) f = f(t := None)"
| "tab_after (RenameTable s t) f = f(s := None, t := f s)"
| "tab_after _ f = f"

fun run_all :: "statement list \<Rightarrow> sql_db \<Rightarrow> error + sql_db" where
  "run_all [] d = Inr d"
| "run_all (st # sts) d = (case sql_exec st d of Inl e \<Rightarrow> Inl e | Inr d' \<Rightarrow> run_all sts d')"

fun tab_run :: "statement list \<Rightarrow> (string \<Rightarrow> sql_table option) \<Rightarrow> (string \<Rightarrow> sql_table option) option" where
  "tab_run [] f = Some f"
| "tab_run (st # sts) f = (if tab_allows st f then tab_run sts (tab_after st f) else None)"

lemma sql_exec_tab:
  assumes "sql_exec st d = Inr d'"
  shows "tab_allows st (tab d) \<and> tab d' = tab_after st (tab d) \<and> sd_marker d' = sd_marker d"
  using assms
  by (cases st) (auto simp: put_table_def remove_table_def AList.update_conv' AList.delete_conv' fun_eq_iff
      split: if_splits option.splits)

lemma run_all_tab: "run_all sts d = Inr d' \<Longrightarrow> tab_run sts (tab d) = Some (tab d')"
proof (induction sts arbitrary: d)
  case (Cons st sts)
  then obtain d1 where d1: "sql_exec st d = Inr d1" "run_all sts d1 = Inr d'"
    by (auto split: sum.splits)
  show ?case using sql_exec_tab [OF d1(1)] Cons.IH [OF d1(2)] by simp
qed simp

lemma run_all_marker: "run_all sts d = Inr d' \<Longrightarrow> sd_marker d' = sd_marker d"
  by (induction sts arbitrary: d) (auto dest: sql_exec_tab split: sum.splits)

lemma index_exec: "is_index st \<Longrightarrow> sql_exec st d = Inr d' \<Longrightarrow> sd_tables d' = sd_tables d \<and> sd_marker d' = sd_marker d"
  by (cases st) (auto split: option.splits if_splits)

section \<open>Rules for the runs\<close>

lemma statement_run_wp:
  assumes "\<And>e t. mg_db t = mg_db s \<Longrightarrow> E e t" and "\<And>a d t. f (mg_db s) = Inr (a, d) \<Longrightarrow> mg_db t = d \<Longrightarrow> Q a t"
  shows "wp (statement_run f) E Q s"
  using assms by (auto simp: wp_def statement_run_def Let_def split: sum.splits)

lemma sql_select_wp:
  assumes "\<And>e t. mg_db t = mg_db s \<Longrightarrow> E e t" and "\<And>a t. q (mg_db s) = Inr a \<Longrightarrow> mg_db t = mg_db s \<Longrightarrow> Q a t"
  shows "wp (sql_select q) E Q s"
  unfolding sql_select_def by (rule statement_run_wp) (use assms in \<open>auto split: sum.splits\<close>)

lemma inside_wp:
  assumes "\<And>s'. mg_db s' = mg_db s \<Longrightarrow> wp body (\<lambda>_ _. True) (\<lambda>a t. Q a (mg_db t)) s'"
  shows "wp (inside body) (\<lambda>_ t. mg_db t = mg_db s) (\<lambda>a t. Q a (mg_db t)) s"
  unfolding inside_def
proof (intro wp_intros sql_select_wp)
  fix u and t :: migration assume t: "mg_db t = mg_db s"
  show "wp (\<lambda>s. case body s of (Inl e, s') \<Rightarrow> (Inl e, s'\<lparr>mg_db := mg_db s\<rparr>)
     | (Inr a, s') \<Rightarrow> (case sql_select (\<lambda>_. Inr ()) s' of
           (Inl e, s'') \<Rightarrow> (Inl e, s''\<lparr>mg_db := mg_db s\<rparr>) | (Inr _, s'') \<Rightarrow> (Inr a, s'')))
     (\<lambda>_ t. mg_db t = mg_db s) (\<lambda>a t. Q a (mg_db t)) t"
    using assms [OF t] t
    by (auto simp: wp_def sql_select_def statement_run_def Let_def split: prod.splits sum.splits if_splits)
qed simp

lemma traverse_sql:
  "wp (traverseM (\<lambda>st. mapErr g (sql st)) sts) (\<lambda>_ _. True) (\<lambda>_ t. run_all sts (mg_db s) = Inr (mg_db t)) s"
proof (induction sts arbitrary: s)
  case (Cons st sts)
  show ?case
    unfolding traverseM.simps sql_def
    by (intro wp_intros statement_run_wp, simp)
       (rule wp_mono [OF Cons.IH [unfolded sql_def]], auto split: sum.splits)
qed (simp add: wp_simps)

lemma recreate_index_wp:
  assumes "is_index st"
  shows "wp (recreate_index st) (\<lambda>_ _. True)
    (\<lambda>_ t. sd_tables (mg_db t) = sd_tables (mg_db s) \<and> sd_marker (mg_db t) = sd_marker (mg_db s)) s"
  unfolding recreate_index_def sql_def
  by (intro wp_intros statement_run_wp) (auto intro!: wp_intros simp: index_exec [OF assms] split: sum.splits)

lemma traverse_recreate:
  "list_all is_index sts \<Longrightarrow> wp (traverseM recreate_index sts) (\<lambda>_ _. True)
    (\<lambda>_ t. sd_tables (mg_db t) = sd_tables (mg_db s) \<and> sd_marker (mg_db t) = sd_marker (mg_db s)) s"
proof (induction sts arbitrary: s)
  case (Cons st sts)
  show ?case
    unfolding traverseM.simps
    by (intro wp_intros, rule wp_mono [OF recreate_index_wp], use Cons.prems in simp, simp,
        rule wp_mono [OF Cons.IH], use Cons.prems in auto)
qed (simp add: wp_simps)

section \<open>What a migration keeps\<close>

text \<open>Every table of the old database is there, with every row, and in the columns that both have the
  values are the old ones.\<close>

definition kept_table :: "sql_table \<Rightarrow> sql_table \<Rightarrow> bool" where
  "kept_table v v' = list_all2 (\<lambda>r r'. \<forall>c\<in>set (sq_columns v) \<inter> set (sq_columns v'). r' c = r c) (sq_rows v) (sq_rows v')"

definition kept :: "sql_db \<Rightarrow> sql_db \<Rightarrow> bool" where
  "kept d d' = (\<forall>t v. tab d t = Some v \<longrightarrow> (\<exists>v'. tab d' t = Some v' \<and> kept_table v v'))"

text \<open>The columns of version 1 in the three tables that version 2 changes.\<close>

definition v1_columns :: "string \<Rightarrow> string list" where
  "v1_columns t =
     (if t = ''rule_versions'' then [''version'', ''schema_version'', ''checksum'', ''status'', ''previous_version'',
        ''rollback_from_version'', ''rule_count'', ''regexp_rule_count'', ''snapshot_json'', ''rules_json'',
        ''created_by'', ''error_code'', ''error_message'', ''created_at_ms'', ''activated_at_ms'']
      else if t = ''domain_rules'' then [''id'', ''version'', ''category'', ''action'', ''upstream_group_id'',
        ''match_type'', ''pattern'', ''normalized_pattern'', ''priority'', ''source'', ''comment'', ''enabled'',
        ''created_at_ms'', ''updated_at_ms'']
      else [''id'', ''event_id'', ''timestamp_unix_ms'', ''client_ip'', ''protocol'', ''qname'', ''qtype'', ''qclass'',
        ''rcode'', ''route'', ''route_source'', ''upstream_group'', ''upstream_tag'', ''cache_hit'',
        ''snapshot_version'', ''access_rule_id'', ''route_rule_id'', ''subscription_source_id'',
        ''subscription_binding_id'', ''subscription_source_name'', ''subscription_categories_json'', ''answer_count'',
        ''answer_min_ttl_seconds'', ''latency_us'', ''error_code'', ''error_text'', ''result_class'', ''created_at_ms''])"

definition v1_schema :: "sql_db \<Rightarrow> bool" where
  "v1_schema d = list_all (\<lambda>t. case tab d t of None \<Rightarrow> True | Some v \<Rightarrow> sq_columns v = v1_columns t)
     [''rule_versions'', ''domain_rules'', ''dns_queries'']"

lemma kept_table_refl [simp]: "kept_table v v"
  by (simp add: kept_table_def list.rel_refl)

lemma kept_refl [simp]: "kept d d"
  by (simp add: kept_def)

lemma kept_tables: "sd_tables d' = sd_tables d1 \<Longrightarrow> kept d d' = kept d d1"
  by (simp add: kept_def)

lemma by_place_same: "distinct cols \<Longrightarrow> c \<in> set cols \<Longrightarrow> by_place cols cols r c = r c"
  by (auto simp: by_place_def zip_same_conv_map map_of_map_restrict)

lemma kept_table_by_place:
  "distinct (sq_columns v) \<Longrightarrow>
     kept_table v \<lparr>sq_columns = sq_columns v, sq_rows = map (by_place (sq_columns v) (sq_columns v)) (sq_rows v)\<rparr>"
  by (simp add: kept_table_def list.rel_map by_place_same list.rel_refl)

lemma kept_table_only:
  "set (sq_columns v) \<inter> set new \<subseteq> set cols \<Longrightarrow>
     kept_table v \<lparr>sq_columns = new, sq_rows = map (only_columns cols) (sq_rows v)\<rparr>"
  by (auto simp: kept_table_def list.rel_map only_columns_def intro!: list.rel_refl)

text \<open>One table copied into a new one, step by step over the names of the tables alone.\<close>

lemma tab_run_steps:
  "s \<noteq> t \<Longrightarrow> tab_run (CreateTable t new # CopyAll t s # sts) f = (if f t = None then
     tab_run sts (f(t \<mapsto> \<lparr>sq_columns = new, sq_rows = map (by_place new (sq_columns (the (f s)))) (sq_rows (the (f s)))\<rparr>)) else None)"
  "s \<noteq> t \<Longrightarrow> tab_run (CreateTable t new # CopyColumns t s cols # sts) f = (if f t = None then
     tab_run sts (f(t \<mapsto> \<lparr>sq_columns = new, sq_rows = map (only_columns cols) (sq_rows (the (f s)))\<rparr>)) else None)"
  "tab_run (Pragma # sts) f = tab_run sts f"
  "tab_run (DropIndex i # sts) f = tab_run sts f"
  "tab_run (DropTable t # sts) f = tab_run sts (f(t := None))"
  "tab_run (RenameTable s t # sts) f = (if f t = None then tab_run sts (f(s := None, t := f s)) else None)"
  by simp_all

lemma tab_run_drop_indexes: "tab_run (map DropIndex is @ sts) f = tab_run sts f"
  by (induction "is") simp_all

text \<open>Three tables rebuilt under new names, which they give up again.\<close>

definition rebuild :: "string \<Rightarrow> string \<Rightarrow> string \<Rightarrow> string \<Rightarrow> string \<Rightarrow> string \<Rightarrow> string list \<Rightarrow> string list
    \<Rightarrow> string list \<Rightarrow> string list \<Rightarrow> string list \<Rightarrow> string list \<Rightarrow> statement list" where
  "rebuild a b c a2 b2 c2 x y z y1 z1 is =
     Pragma # CreateTable a2 x # CopyAll a2 a # CreateTable b2 y # CopyColumns b2 b y1 # CreateTable c2 z # CopyColumns c2 c z1
     # map DropIndex is @ [DropTable b, DropTable c, DropTable a, RenameTable a2 a, RenameTable b2 b, RenameTable c2 c]"

definition rebuilt :: "string list \<Rightarrow> (row \<Rightarrow> row) \<Rightarrow> sql_table option \<Rightarrow> sql_table option" where
  "rebuilt cols g v = Some \<lparr>sq_columns = cols, sq_rows = map g (sq_rows (the v))\<rparr>"

lemma rebuild_tab:
  assumes d: "distinct [a, b, c, a2, b2, c2]"
    and run: "tab_run (rebuild a b c a2 b2 c2 x y z y1 z1 is) f = Some f'"
  shows "f a2 = None \<and> f b2 = None \<and> f c2 = None
    \<and> f' a = rebuilt x (by_place x (sq_columns (the (f a)))) (f a)
    \<and> f' b = rebuilt y (only_columns y1) (f b) \<and> f' c = rebuilt z (only_columns z1) (f c)
    \<and> (\<forall>t. t \<noteq> a \<longrightarrow> t \<noteq> b \<longrightarrow> t \<noteq> c \<longrightarrow> f' t = f t)"
proof -
  have ne: "a \<noteq> b" "a \<noteq> c" "b \<noteq> c" "a2 \<noteq> b2" "a2 \<noteq> c2" "b2 \<noteq> c2" "a \<noteq> a2" "a \<noteq> b2" "a \<noteq> c2"
    "b \<noteq> a2" "b \<noteq> b2" "b \<noteq> c2" "c \<noteq> a2" "c \<noteq> b2" "c \<noteq> c2"
    using d by auto
  note ne = ne ne [symmetric]
  have f: "f a2 = None" "f b2 = None" "f c2 = None"
    and f': "Some f' = tab_run (rebuild a b c a2 b2 c2 x y z y1 z1 is) f"
    using run by (simp_all add: rebuild_def tab_run_steps tab_run_drop_indexes ne del: tab_run.simps(2) split: if_split_asm)
  have "f' = f(a2 := None, b2 := None, c2 := None, a := rebuilt x (by_place x (sq_columns (the (f a)))) (f a),
      b := rebuilt y (only_columns y1) (f b), c := rebuilt z (only_columns z1) (f c))"
    using f' by (simp add: rebuild_def tab_run_steps tab_run_drop_indexes ne f del: tab_run.simps(2))
       (simp add: fun_eq_iff ne rebuilt_def)
  then show ?thesis by (simp add: ne f)
qed

lemma upgrade_rebuilds:
  "\<exists>y z is. upgrade_statements = rebuild ''rule_versions'' ''domain_rules'' ''dns_queries''
     ''rule_versions_v2'' ''domain_rules_v2'' ''dns_queries_v2'' (v1_columns ''rule_versions'') y z
     (v1_columns ''domain_rules'') (v1_columns ''dns_queries'') is"
proof -
  have "\<exists>is. upgrade_statements = take 7 upgrade_statements @ map DropIndex is @ drop 22 upgrade_statements"
    by (rule exI [of _ "[''uq_rule_versions_active'', ''idx_rule_versions_created'', ''idx_domain_rules_category'',
         ''idx_domain_rules_pattern'', ''idx_domain_rules_upstream_group'', ''idx_dns_queries_time'',
         ''idx_dns_queries_client_time'', ''idx_dns_queries_qname_time'', ''idx_dns_queries_route_time'',
         ''idx_dns_queries_qtype_time'', ''idx_dns_queries_rcode_time'', ''idx_dns_queries_cache_time'',
         ''idx_dns_queries_upstream_tag_time'', ''idx_dns_queries_upstream_group_time'', ''idx_dns_queries_result_class_time'']"])
      (simp add: upgrade_statements_def)
  then obtain "is" where "upgrade_statements = take 7 upgrade_statements @ map DropIndex is @ drop 22 upgrade_statements" ..
  moreover have "\<exists>y z. take 7 upgrade_statements = [Pragma, CreateTable ''rule_versions_v2'' (v1_columns ''rule_versions''),
     CopyAll ''rule_versions_v2'' ''rule_versions'', CreateTable ''domain_rules_v2'' y,
     CopyColumns ''domain_rules_v2'' ''domain_rules'' (v1_columns ''domain_rules''), CreateTable ''dns_queries_v2'' z,
     CopyColumns ''dns_queries_v2'' ''dns_queries'' (v1_columns ''dns_queries'')]"
    by (simp add: upgrade_statements_def v1_columns_def)
  moreover have "drop 22 upgrade_statements = [DropTable ''domain_rules'', DropTable ''dns_queries'', DropTable ''rule_versions'',
     RenameTable ''rule_versions_v2'' ''rule_versions'', RenameTable ''domain_rules_v2'' ''domain_rules'',
     RenameTable ''dns_queries_v2'' ''dns_queries'']"
    by (simp add: upgrade_statements_def)
  ultimately show ?thesis unfolding rebuild_def by (metis append_Cons append_Nil)
qed

lemma v1_distinct: "distinct (v1_columns ''rule_versions'')"
  by (simp add: v1_columns_def)

lemma upgrade_keeps:
  assumes run: "run_all upgrade_statements d = Inr d'" and v1: "v1_schema d"
  shows "kept d d'"
proof -
  obtain y z "is" where sts: "upgrade_statements = rebuild ''rule_versions'' ''domain_rules'' ''dns_queries''
     ''rule_versions_v2'' ''domain_rules_v2'' ''dns_queries_v2'' (v1_columns ''rule_versions'') y z
     (v1_columns ''domain_rules'') (v1_columns ''dns_queries'') is"
    using upgrade_rebuilds by blast
  have after: "tab d' ''rule_versions'' = rebuilt (v1_columns ''rule_versions'')
        (by_place (v1_columns ''rule_versions'') (sq_columns (the (tab d ''rule_versions'')))) (tab d ''rule_versions'')"
      "tab d' ''domain_rules'' = rebuilt y (only_columns (v1_columns ''domain_rules'')) (tab d ''domain_rules'')"
      "tab d' ''dns_queries'' = rebuilt z (only_columns (v1_columns ''dns_queries'')) (tab d ''dns_queries'')"
    and same: "\<And>t. t \<noteq> ''rule_versions'' \<Longrightarrow> t \<noteq> ''domain_rules'' \<Longrightarrow> t \<noteq> ''dns_queries'' \<Longrightarrow> tab d' t = tab d t"
    using rebuild_tab [OF _ run_all_tab [OF run, unfolded sts]] by simp_all
  have cols: "sq_columns v = v1_columns t"
    if "t = ''rule_versions'' \<or> t = ''domain_rules'' \<or> t = ''dns_queries''" "tab d t = Some v" for t v
    using v1 that unfolding v1_schema_def by auto
  show ?thesis
    unfolding kept_def
  proof (intro allI impI)
    fix t v assume t: "tab d t = Some v"
    show "\<exists>v'. tab d' t = Some v' \<and> kept_table v v'"
    proof (cases "t = ''rule_versions'' \<or> t = ''domain_rules'' \<or> t = ''dns_queries''")
      case True
      then show ?thesis
        using after t cols [OF True t] v1_distinct kept_table_by_place [of v] kept_table_only [of v]
        by (elim disjE) (simp_all add: rebuilt_def)
    qed (use t same in simp)
  qed
qed

section \<open>The outcome of a migration\<close>

definition baseline_ok :: "sql_db \<Rightarrow> bool" where
  "baseline_ok d = (select_marker d = Inr baselineVersion \<and> list_all (\<lambda>v. v = baselineVersion) (sd_marker d)
     \<and> list_all (\<lambda>(t, c). count_column t c d = 1) required_columns)"

lemma verify_columns:
  "wp (traverseM (\<lambda>(t, c).
         bindM (mapErr (\<lambda>_. legacy (''missing '' @ t @ ''.'' @ c)) (sql_select (\<lambda>d. Inr (count_column t c d)))) (\<lambda>n.
         guardM (n = 1) (legacy (''missing '' @ t @ ''.'' @ c)))) ps)
     (\<lambda>e t. mg_db t = mg_db s \<and> errors_Is e ErrLegacySchema)
     (\<lambda>_ t. mg_db t = mg_db s \<and> list_all (\<lambda>(t, c). count_column t c (mg_db s) = 1) ps) s"
proof (induction ps arbitrary: s)
  case (Cons p ps)
  show ?case
    unfolding traverseM.simps
    by (intro wp_intros sql_select_wp; (rule wp_mono [OF Cons.IH])?) (auto simp: legacy_def)
qed (simp add: wp_simps)

lemma verifyBaseline_wp:
  "wp verifyBaseline (\<lambda>e t. mg_db t = mg_db s \<and> errors_Is e ErrLegacySchema)
     (\<lambda>_ t. mg_db t = mg_db s \<and> baseline_ok (mg_db s)) s"
  unfolding verifyBaseline_def
  by (intro wp_intros sql_select_wp; (rule wp_mono [OF verify_columns])?)
     (auto simp: legacy_def baseline_ok_def list_all_iff filter_empty_conv intro!: wp_intros)

definition upgraded :: "sql_db \<Rightarrow> sql_db \<Rightarrow> bool" where
  "upgraded d d' = (\<exists>d1. run_all upgrade_statements d = Inr d1 \<and> sd_tables d' = sd_tables d1
     \<and> sd_marker d' = map (\<lambda>v. if v = 1 then 2 else v) (sd_marker d))"

lemma migrateV1ToV2_wp:
  "wp migrateV1ToV2 (\<lambda>_ t. mg_db t = mg_db s) (\<lambda>_ t. upgraded (mg_db s) (mg_db t)) s"
  unfolding migrateV1ToV2_def
proof (rule inside_wp, rule wp_bindM_I, rule wp_mono [OF traverse_sql])
  fix s' t :: migration assume "mg_db s' = mg_db s" and "run_all upgrade_statements (mg_db s') = Inr (mg_db t)"
  then show "wp (bindM (traverseM recreate_index (filter is_index baselineSchema)) (\<lambda>_.
      statement_run (\<lambda>d. Inr ((), d\<lparr>sd_marker := map (\<lambda>v. if v = 1 then 2 else v) (sd_marker d)\<rparr>))))
     (\<lambda>_ _. True) (\<lambda>a t. upgraded (mg_db s) (mg_db t)) t"
    by (intro wp_bindM_I, intro wp_mono [OF traverse_recreate] statement_run_wp)
       (auto simp: upgraded_def list_all_iff run_all_marker)
qed auto

lemma create_baseline_wp:
  "wp create_baseline (\<lambda>_ t. mg_db t = mg_db s)
     (\<lambda>_ t. \<exists>d1. run_all baselineSchema (mg_db s) = Inr d1 \<and> mg_db t = d1\<lparr>sd_marker := sd_marker d1 @ [baselineVersion]\<rparr>) s"
  unfolding create_baseline_def
  by (rule inside_wp, rule wp_bindM_I, rule wp_mono [OF traverse_sql], simp, rule statement_run_wp) auto

lemma upgraded_keeps: "upgraded d d' \<Longrightarrow> v1_schema d \<Longrightarrow> kept d d'"
  unfolding upgraded_def using upgrade_keeps kept_tables by metis

text \<open>Everything a run of \<open>Migrate\<close> may do, by the branch it takes.\<close>

lemma Migrate_wp:
  "wp Migrate
     (\<lambda>e t. mg_db t = mg_db s \<or> errors_Is e ErrLegacySchema \<and> select_marker (mg_db s) = Inr 1 \<and> upgraded (mg_db s) (mg_db t))
     (\<lambda>_ t. if sd_tables (mg_db s) = [] then
          (\<exists>d1. run_all baselineSchema (mg_db s) = Inr d1 \<and> mg_db t = d1\<lparr>sd_marker := sd_marker d1 @ [baselineVersion]\<rparr>)
        else baseline_ok (mg_db t) \<and> (mg_db t = mg_db s \<or> select_marker (mg_db s) = Inr 1 \<and> upgraded (mg_db s) (mg_db t))) s"
proof -
  let ?E = "\<lambda>e t. mg_db t = mg_db s \<or> errors_Is e ErrLegacySchema \<and> select_marker (mg_db s) = Inr 1 \<and> upgraded (mg_db s) (mg_db t)"
  let ?B = "\<lambda>t. baseline_ok (mg_db t) \<and> (mg_db t = mg_db s \<or> select_marker (mg_db s) = Inr 1 \<and> upgraded (mg_db s) (mg_db t))"
  have checked: "wp verifyBaseline ?E (\<lambda>_. ?B) t"
    if "mg_db t = mg_db s \<or> select_marker (mg_db s) = Inr 1 \<and> upgraded (mg_db s) (mg_db t)" for t :: migration
    by (rule wp_mono [OF verifyBaseline_wp]) (use that in auto)
  have upgrade: "wp (bindM (if version = 1 then migrateV1ToV2 else returnM ()) (\<lambda>_. verifyBaseline)) ?E (\<lambda>_. ?B) t"
    if t: "mg_db t = mg_db s" and v: "select_marker (mg_db s) = Inr version" for version and t :: migration
  proof (rule wp_bindM_I, cases "version = 1")
    case True
    have "wp migrateV1ToV2 ?E (\<lambda>_. wp verifyBaseline ?E (\<lambda>_. ?B)) t"
      by (rule wp_mono [OF migrateV1ToV2_wp]) (use t v True checked in auto)
    then show "wp (if version = 1 then migrateV1ToV2 else returnM ()) ?E (\<lambda>_. wp verifyBaseline ?E (\<lambda>_. ?B)) t"
      using True by simp
  qed (use t checked in \<open>simp add: wp_simps\<close>)
  have create: "wp create_baseline ?E (\<lambda>_ t. \<exists>d1. run_all baselineSchema (mg_db s) = Inr d1
      \<and> mg_db t = d1\<lparr>sd_marker := sd_marker d1 @ [baselineVersion]\<rparr>) t" if "mg_db t = mg_db s" for t :: migration
    by (rule wp_mono [OF create_baseline_wp]) (use that in auto)
  show ?thesis
    unfolding Migrate_def
  proof (rule wp_bindM_I, rule sql_select_wp)
    fix n and t :: migration
    assume n: "Inr (length (sd_tables (mg_db s))) = Inr n" and t: "mg_db t = mg_db s"
    show "wp (if n \<noteq> 0 then bindM (mapErr (\<lambda>_. legacy ''migration marker'') (sql_select select_marker)) (\<lambda>version.
        bindM (if version = 1 then migrateV1ToV2 else returnM ()) (\<lambda>_. verifyBaseline)) else create_baseline) ?E
      (\<lambda>_ t. if sd_tables (mg_db s) = [] then (\<exists>d1. run_all baselineSchema (mg_db s) = Inr d1
          \<and> mg_db t = d1\<lparr>sd_marker := sd_marker d1 @ [baselineVersion]\<rparr>) else ?B t) t"
    proof (cases "sd_tables (mg_db s) = []")
      case False
      then have "n \<noteq> 0" using n by auto
      moreover have "wp (bindM (mapErr (\<lambda>_. legacy ''migration marker'') (sql_select select_marker)) (\<lambda>version.
          bindM (if version = 1 then migrateV1ToV2 else returnM ()) (\<lambda>_. verifyBaseline))) ?E (\<lambda>_. ?B) t"
        by (rule wp_bindM_I, rule wp_mapErr_I, rule sql_select_wp) (use t upgrade in auto)
      ultimately show ?thesis using False by simp
    qed (use n create [OF t] in simp)
  qed simp
qed

end
