(* ===== verification/MigrationProperties.thy ===== *)
theory MigrationProperties
  imports Migrations
begin

text \<open>What \<open>Migrate\<close> promises of a database, whatever fails on the way: the schema it leaves, the rows
  it keeps, the databases it refuses.\<close>

definition empty_db :: sql_db where
  "empty_db = \<lparr>sd_tables = [], sd_indexes = [], sd_marker = []\<rparr>"

lemma baseline_created:
  "case run_all baselineSchema empty_db of
     Inl e \<Rightarrow> False | Inr d \<Rightarrow> baseline_ok (d\<lparr>sd_marker := sd_marker d @ [baselineVersion]\<rparr>)"
  by code_simp

lemma sql_select_quiet: "mg_faults s = [] \<Longrightarrow> q (mg_db s) = Inr a \<Longrightarrow> sql_select q s = (Inr a, s)"
  by (cases s) (simp add: sql_select_def statement_run_def Let_def)

lemma traverse_quiet: "(\<And>x. x \<in> set xs \<Longrightarrow> f x s = (Inr (), s)) \<Longrightarrow> traverseM f xs s = (Inr (), s)"
  by (induction xs) (simp_all add: returnM_def bindM_def)

lemma verifyBaseline_quiet:
  assumes s: "mg_faults s = []" and ok: "baseline_ok (mg_db s)"
  shows "verifyBaseline s = (Inr (), s)"
proof -
  have columns: "traverseM (\<lambda>(t, c).
      bindM (mapErr (\<lambda>_. legacy (''missing '' @ t @ ''.'' @ c)) (sql_select (\<lambda>d. Inr (count_column t c d)))) (\<lambda>n.
      guardM (n = 1) (legacy (''missing '' @ t @ ''.'' @ c)))) required_columns s = (Inr (), s)"
    by (rule traverse_quiet)
       (use ok s in \<open>auto simp: baseline_ok_def list_all_iff bindM_def mapErr_def guardM_def returnM_def sql_select_quiet\<close>)
  show ?thesis
    unfolding verifyBaseline_def
    by (use ok s columns in \<open>simp add: bindM_def mapErr_def guardM_def returnM_def sql_select_quiet baseline_ok_def
        list_all_iff filter_empty_conv\<close>)
qed

lemma Migrate_quiet:
  assumes s: "mg_faults s = []" and ok: "baseline_ok (mg_db s)"
  shows "Migrate s = (Inr (), s)"
proof -
  have "sd_tables (mg_db s) \<noteq> []"
    using ok by (auto simp: baseline_ok_def select_marker_def split: option.splits)
  moreover have "select_marker (mg_db s) = Inr 2"
    using ok by (simp add: baseline_ok_def baselineVersion_def)
  ultimately show ?thesis
    unfolding Migrate_def
    by (simp add: bindM_def mapErr_def returnM_def sql_select_quiet s verifyBaseline_quiet [OF s ok])
qed

text \<open>C36: a migration that succeeds leaves a database that has the marker of the current version, no
  other one, and the columns the controller relies on, whether it was empty, of version 1 or current;
  starting again then changes nothing.\<close>

theorem migrate_checked:
  assumes "sd_tables (mg_db s) = [] \<Longrightarrow> mg_db s = empty_db" and "Migrate s = (Inr (), t)"
  shows "baseline_ok (mg_db t) \<and> Migrate (t\<lparr>mg_faults := []\<rparr>) = (Inr (), t\<lparr>mg_faults := []\<rparr>)"
proof -
  have "baseline_ok (mg_db t)"
    using wp_Inr [OF Migrate_wp assms(2)] assms(1) baseline_created by (auto split: if_splits sum.splits)
  then show ?thesis by (simp add: Migrate_quiet)
qed

text \<open>C37: whatever the migration does, and wherever it fails, every table of the database is still there
  afterwards with every row, and the values in the columns that the old and the new table share are
  the old ones. (A database with the marker of version 1 has the columns of version 1.)\<close>

theorem migrate_keeps_rows:
  assumes "select_marker (mg_db s) = Inr 1 \<Longrightarrow> v1_schema (mg_db s)" and "Migrate s = (r, t)"
  shows "kept (mg_db s) (mg_db t)"
proof (cases r)
  case (Inl e)
  then show ?thesis using wp_Inl [OF Migrate_wp] assms upgraded_keeps by fastforce
next
  case (Inr u)
  show ?thesis
  proof (cases "sd_tables (mg_db s) = []")
    case True
    then show ?thesis by (simp add: kept_def)
  next
    case False
    then show ?thesis using wp_Inr [OF Migrate_wp] Inr assms upgraded_keeps by fastforce
  qed
qed

text \<open>C38: a database that is not empty and has neither the marker of version 1 nor that of version 2
  is refused and left as it is.\<close>

theorem migrate_refuses:
  assumes "sd_tables (mg_db s) \<noteq> []" and "select_marker (mg_db s) \<noteq> Inr 1" and "select_marker (mg_db s) \<noteq> Inr 2"
  shows "\<exists>e t. Migrate s = (Inl e, t) \<and> mg_db t = mg_db s"
proof (cases "Migrate s")
  case (Pair r t)
  show ?thesis
  proof (cases r)
    case (Inl e)
    then show ?thesis using wp_Inl [OF Migrate_wp] Pair assms by fastforce
  next
    case (Inr u)
    then have "baseline_ok (mg_db t) \<and> mg_db t = mg_db s"
      using wp_Inr [OF Migrate_wp] Pair assms by fastforce
    then show ?thesis using assms by (auto simp: baseline_ok_def baselineVersion_def)
  qed
qed

section \<open>Witnesses\<close>

text \<open>A database of version 1 with a rule and a version, and one that some other program wrote.\<close>

definition demo_row :: "string list \<Rightarrow> row" where
  "demo_row cols = (\<lambda>c. if c \<in> set cols then Some (''v '' @ c) else None)"

fun demo_table :: "statement \<Rightarrow> (string \<times> sql_table) list" where
  "demo_table (CreateTable t cols) = [(t, if t \<in> set [''rule_versions'', ''domain_rules'', ''dns_queries'']
     then \<lparr>sq_columns = v1_columns t, sq_rows = [demo_row (v1_columns t)]\<rparr> else \<lparr>sq_columns = cols, sq_rows = []\<rparr>)]"
| "demo_table _ = []"

fun demo_index :: "statement \<Rightarrow> (string \<times> string) list" where
  "demo_index (CreateIndex i t cols) = [(i, t)]"
| "demo_index _ = []"

definition demo_v1 :: sql_db where
  "demo_v1 = \<lparr>sd_tables = concat (map demo_table baselineSchema), sd_indexes = concat (map demo_index baselineSchema),
     sd_marker = [1]\<rparr>"

definition demo_foreign :: sql_db where
  "demo_foreign = \<lparr>sd_tables = [(''users'', \<lparr>sq_columns = [''name''], sq_rows = []\<rparr>)], sd_indexes = [], sd_marker = []\<rparr>"

definition run_migration :: "sql_db \<Rightarrow> (error + unit) \<times> migration" where
  "run_migration d = Migrate \<lparr>mg_db = d, mg_faults = []\<rparr>"

lemma demo_v1_marker: "select_marker demo_v1 = Inr 1"
  by code_simp

lemma demo_v1_schema: "v1_schema demo_v1"
  by code_simp

lemma demo_v1_ok: "sd_tables demo_v1 \<noteq> [] \<and> select_marker demo_v1 = Inr 1 \<and> v1_schema demo_v1"
  using demo_v1_marker demo_v1_schema by (auto simp: select_marker_def split: option.splits)

lemma demo_v1_migrates: "fst (run_migration demo_v1) = Inr ()"
  by code_simp

theorem migrate_checked_witness: "baseline_ok (mg_db (snd (run_migration demo_v1)))"
proof -
  have "Migrate \<lparr>mg_db = demo_v1, mg_faults = []\<rparr> = (Inr (), snd (run_migration demo_v1))"
    using demo_v1_migrates by (simp add: run_migration_def prod_eq_iff)
  then show ?thesis
    using migrate_checked [of "\<lparr>mg_db = demo_v1, mg_faults = []\<rparr>" "snd (run_migration demo_v1)"] demo_v1_ok by simp
qed

theorem migrate_keeps_rows_witness:
  "kept demo_v1 (mg_db (snd (run_migration demo_v1))) \<and> fst (run_migration demo_v1) = Inr ()"
  using migrate_keeps_rows [of "\<lparr>mg_db = demo_v1, mg_faults = []\<rparr>" "fst (run_migration demo_v1)" "snd (run_migration demo_v1)"]
    demo_v1_ok demo_v1_migrates by (simp add: run_migration_def)

theorem migrate_refuses_witness: "\<exists>e t. run_migration demo_foreign = (Inl e, t) \<and> mg_db t = demo_foreign"
proof -
  have "sd_tables demo_foreign \<noteq> [] \<and> select_marker demo_foreign \<noteq> Inr 1 \<and> select_marker demo_foreign \<noteq> Inr 2"
    by (simp add: demo_foreign_def select_marker_def)
  then show ?thesis
    using migrate_refuses [of "\<lparr>mg_db = demo_foreign, mg_faults = []\<rparr>"] by (simp add: run_migration_def)
qed

end
