(* ===== verification/HostPort.thy ===== *)
theory HostPort
  imports Strconv
begin

text \<open>
  Two functions of Go's library that the HTTP interface and the configuration use: \<open>net.SplitHostPort\<close>
  and \<open>strconv.ParseUint\<close>.
\<close>

text \<open>The part before and after the last colon.\<close>

definition last_colon :: "string \<Rightarrow> (string \<times> string) option" where
  "last_colon s =
     (if CHR '':'' \<notin> set s then None
      else Some (rev (tl (dropWhile (\<lambda>c. c \<noteq> CHR '':'') (rev s))), rev (takeWhile (\<lambda>c. c \<noteq> CHR '':'') (rev s))))"

definition SplitHostPort :: "string \<Rightarrow> (string \<times> string) option" where
  "SplitHostPort s =
     (case last_colon s of
        None \<Rightarrow> None
      | Some (front, port) \<Rightarrow>
          (if take 1 s = ''['' then
             (if CHR '']'' \<notin> set s then None
              else
                let host = takeWhile (\<lambda>c. c \<noteq> CHR '']'') (drop 1 s) in
                if length host + 2 \<noteq> length front then None
                else if CHR ''['' \<in> set (drop 1 s) \<or> CHR '']'' \<in> set (drop (length host + 2) s) then None
                else Some (host, port))
           else if CHR '':'' \<in> set front \<or> CHR ''['' \<in> set s \<or> CHR '']'' \<in> set s then None
           else Some (front, port)))"

lemma last_colon_append: "CHR '':'' \<notin> set p \<Longrightarrow> last_colon (h @ CHR '':'' # p) = Some (h, p)"
  by (simp add: last_colon_def takeWhile_append dropWhile_append)

definition plain_host :: "string \<Rightarrow> bool" where
  "plain_host h = (set h \<inter> {CHR '':'', CHR ''['', CHR '']''} = {})"

lemma SplitHostPort_plain:
  assumes "plain_host h" "plain_host p"
  shows "SplitHostPort (h @ CHR '':'' # p) = Some (h, p)"
proof -
  have "take 1 (h @ CHR '':'' # p) \<noteq> ''[''" using assms(1) by (cases h) (auto simp: plain_host_def)
  with assms show ?thesis by (auto simp: SplitHostPort_def last_colon_append plain_host_def)
qed

lemma SplitHostPort_brackets:
  assumes "set h \<inter> {CHR ''['', CHR '']''} = {}" "plain_host p"
  shows "SplitHostPort (CHR ''['' # h @ CHR '']'' # CHR '':'' # p) = Some (h, p)"
proof -
  have "last_colon (CHR ''['' # h @ CHR '']'' # CHR '':'' # p) = Some (CHR ''['' # h @ [CHR '']''], p)"
    using last_colon_append [of p "CHR ''['' # h @ [CHR '']'']"] assms(2) by (auto simp: plain_host_def)
  moreover have "takeWhile (\<lambda>c. c \<noteq> CHR '']'') (h @ CHR '']'' # CHR '':'' # p) = h"
    using assms(1) by (auto simp: takeWhile_append)
  ultimately show ?thesis using assms by (auto simp: SplitHostPort_def Let_def plain_host_def)
qed

lemma SplitHostPort_colon: "SplitHostPort s = Some (h, p) \<Longrightarrow> CHR '':'' \<in> set s"
  by (auto simp: SplitHostPort_def last_colon_def split: if_splits)

definition ParseUint :: "string \<Rightarrow> error + uint64" where
  "ParseUint s =
     (let err = Inl (Msg (''strconv.ParseUint: parsing '' @ s)) in
      if s = [] then err
      else (case parse_digits 0 s of
              None \<Rightarrow> err
            | Some n \<Rightarrow> if n < 2 ^ 64 then Inr (of_nat n) else err))"

end
