(* ===== verification/Config.thy ===== *)
theory Config
  imports HostPort
begin

text \<open>
  The configuration (\<open>internal/config/config.go\<close>): the defaults, the file over them, the environment
  over both, and the checks. The YAML decoder, the file system, the environment, \<open>time.ParseDuration\<close>,
  \<open>url.ParseRequestURI\<close> and the texts of two errors are parameters. A duration counts nanoseconds.
\<close>

record Config =
  cf_PublicListen :: string
  cf_InternalListen :: string
  cf_TrustedProxies :: "string list"
  cf_Path :: string
  cf_BaseURL :: string
  cf_TokenFile :: string
  cf_SecureCookie :: bool
  cf_SessionTTL :: int
  cf_SessionTTLRaw :: string
  cf_MaxBodyBytes :: int
  cf_Timeout :: int
  cf_TimeoutRaw :: string

text \<open>
  \<open>pf_Decode\<close> is the strict decoder on a text and the configuration it starts from; \<open>pf_ParseRequestURI\<close>
  gives scheme and host; an unset variable of the environment is the empty string.
\<close>

record platform =
  pf_ReadFile :: "string \<Rightarrow> error + string"
  pf_Decode :: "string \<Rightarrow> Config \<Rightarrow> error + Config"
  pf_Getenv :: "string \<Rightarrow> string"
  pf_ParseRequestURI :: "string \<Rightarrow> error + string \<times> string"
  pf_ParseDuration :: "string \<Rightarrow> error + int"
  pf_Quote :: "string \<Rightarrow> string"
  pf_AddrError :: "string \<Rightarrow> error"

definition Default :: Config where
  "Default = \<lparr>cf_PublicListen = ''0.0.0.0:8080'', cf_InternalListen = ''0.0.0.0:8081'', cf_TrustedProxies = [],
     cf_Path = ''/var/lib/mosdns-controller/controller.db'', cf_BaseURL = ''http://mosdns:9091'',
     cf_TokenFile = ''/run/secrets/mosdns_control_token'', cf_SecureCookie = False, cf_SessionTTL = 0,
     cf_SessionTTLRaw = ''24h'', cf_MaxBodyBytes = 64 * 2 ^ 20, cf_Timeout = 0, cf_TimeoutRaw = ''30s''\<rparr>"

definition setString :: "platform \<Rightarrow> string \<Rightarrow> string \<Rightarrow> string" where
  "setString P name target = (if pf_Getenv P name \<noteq> '''' then pf_Getenv P name else target)"

definition setBool :: "platform \<Rightarrow> string \<Rightarrow> bool \<Rightarrow> error + bool" where
  "setBool P name target = (if pf_Getenv P name \<noteq> ''''
     then (case ParseBool (pf_Getenv P name) of Inl e \<Rightarrow> Inl (wrapf (name @ '': '') e) | Inr b \<Rightarrow> Inr b) else Inr target)"

definition env_strings :: "platform \<Rightarrow> Config \<Rightarrow> Config" where
  "env_strings P c = c\<lparr>cf_PublicListen := setString P ''CONTROLLER_PUBLIC_LISTEN'' (cf_PublicListen c),
     cf_InternalListen := setString P ''CONTROLLER_INTERNAL_LISTEN'' (cf_InternalListen c),
     cf_Path := setString P ''CONTROLLER_STORAGE_PATH'' (cf_Path c),
     cf_BaseURL := setString P ''CONTROLLER_MOSDNS_BASE_URL'' (cf_BaseURL c),
     cf_TokenFile := setString P ''CONTROLLER_MOSDNS_TOKEN_FILE'' (cf_TokenFile c),
     cf_SessionTTLRaw := setString P ''CONTROLLER_SESSION_TTL'' (cf_SessionTTLRaw c),
     cf_TimeoutRaw := setString P ''CONTROLLER_HTTP_TIMEOUT'' (cf_TimeoutRaw c)\<rparr>"

definition applyEnv :: "platform \<Rightarrow> Config \<Rightarrow> error + Config" where
  "applyEnv P c =
     (let c = env_strings P c in
      case setBool P ''CONTROLLER_SECURE_COOKIE'' (cf_SecureCookie c) of Inl e \<Rightarrow> Inl e
      | Inr b \<Rightarrow>
     (let c = c\<lparr>cf_SecureCookie := b\<rparr>; raw = pf_Getenv P ''CONTROLLER_MAX_BODY_BYTES'' in
      if raw \<noteq> ''''
      then (case ParseInt raw of Inl e \<Rightarrow> Inl (wrapf ''CONTROLLER_MAX_BODY_BYTES: '' e) | Inr n \<Rightarrow> Inr (c\<lparr>cf_MaxBodyBytes := n\<rparr>))
      else Inr c))"

fun check_addresses :: "platform \<Rightarrow> string list \<Rightarrow> error option" where
  "check_addresses P [] = None"
| "check_addresses P (address # rest) =
     (case SplitHostPort address of
        None \<Rightarrow> Some (wrapf (''invalid listen address '' @ pf_Quote P address @ '': '') (pf_AddrError P address))
      | Some _ \<Rightarrow> check_addresses P rest)"

definition positive_duration :: "platform \<Rightarrow> string \<Rightarrow> int option" where
  "positive_duration P raw = (case pf_ParseDuration P raw of Inl _ \<Rightarrow> None | Inr n \<Rightarrow> if n \<le> 0 then None else Some n)"

text \<open>\<open>Validate\<close> also stores the two durations it has parsed.\<close>

definition Validate :: "platform \<Rightarrow> Config \<Rightarrow> error + Config" where
  "Validate P c =
     (case check_addresses P [cf_PublicListen c, cf_InternalListen c] of Some e \<Rightarrow> Inl e
      | None \<Rightarrow>
      if cf_PublicListen c = cf_InternalListen c then Inl (Msg ''public and internal listeners must differ'')
      else if TrimSpace (cf_Path c) = '''' then Inl (Msg ''storage.path is required'')
      else if (case pf_ParseRequestURI P (cf_BaseURL c) of Inl _ \<Rightarrow> True | Inr (scheme, host) \<Rightarrow> scheme = '''' \<or> host = '''')
        then Inl (Msg ''mosdns.base_url must be an absolute URL'')
      else case positive_duration P (cf_SessionTTLRaw c) of None \<Rightarrow> Inl (Msg ''web.session_ttl must be a positive duration'')
      | Some ttl \<Rightarrow>
     (case positive_duration P (cf_TimeoutRaw c) of None \<Rightarrow> Inl (Msg ''http.timeout must be a positive duration'')
      | Some timeout \<Rightarrow>
      if cf_MaxBodyBytes c \<le> 0 \<or> 64 * 2 ^ 20 < cf_MaxBodyBytes c
      then Inl (Msg ''http.max_body_bytes must be between 1 and 67108864'')
      else Inr (c\<lparr>cf_SessionTTL := ttl, cf_Timeout := timeout\<rparr>)))"

definition read_config :: "platform \<Rightarrow> string \<Rightarrow> error + Config" where
  "read_config P path =
     (if path = '''' then Inr Default
      else case pf_ReadFile P path of Inl e \<Rightarrow> Inl (wrapf ''read config: '' e)
      | Inr text \<Rightarrow> (case pf_Decode P text Default of Inl e \<Rightarrow> Inl (wrapf ''decode config: '' e) | Inr c \<Rightarrow> Inr c))"

definition Load :: "platform \<Rightarrow> string \<Rightarrow> error + Config" where
  "Load P path = (case read_config P path of Inl e \<Rightarrow> Inl e
     | Inr c \<Rightarrow> (case applyEnv P c of Inl e \<Rightarrow> Inl e | Inr c \<Rightarrow> Validate P c))"

section \<open>What a loaded configuration is\<close>

definition config_ok :: "platform \<Rightarrow> Config \<Rightarrow> bool" where
  "config_ok P c = (SplitHostPort (cf_PublicListen c) \<noteq> None \<and> SplitHostPort (cf_InternalListen c) \<noteq> None
     \<and> cf_PublicListen c \<noteq> cf_InternalListen c \<and> TrimSpace (cf_Path c) \<noteq> ''''
     \<and> (case pf_ParseRequestURI P (cf_BaseURL c) of Inl _ \<Rightarrow> False | Inr (scheme, host) \<Rightarrow> scheme \<noteq> '''' \<and> host \<noteq> '''')
     \<and> pf_ParseDuration P (cf_SessionTTLRaw c) = Inr (cf_SessionTTL c) \<and> 0 < cf_SessionTTL c
     \<and> pf_ParseDuration P (cf_TimeoutRaw c) = Inr (cf_Timeout c) \<and> 0 < cf_Timeout c
     \<and> 1 \<le> cf_MaxBodyBytes c \<and> cf_MaxBodyBytes c \<le> 67108864)"

lemma Validate_ok: "Validate P c = Inr c' \<Longrightarrow> config_ok P c' \<and> c' = c\<lparr>cf_SessionTTL := cf_SessionTTL c', cf_Timeout := cf_Timeout c'\<rparr>"
  by (auto simp: Validate_def config_ok_def positive_duration_def split: option.splits sum.splits if_splits prod.splits)

lemma Validate_complete: "config_ok P c \<Longrightarrow> Validate P c = Inr c"
  by (auto simp: Validate_def config_ok_def positive_duration_def split: option.splits sum.splits if_splits prod.splits)

text \<open>The environment goes before the file, the file before the defaults: a field is what the text of its
  variable denotes, or that of the file when the variable is not set.\<close>

definition chosen :: "platform \<Rightarrow> string \<Rightarrow> (string \<Rightarrow> error + 'a) \<Rightarrow> (Config \<Rightarrow> 'a) \<Rightarrow> Config \<Rightarrow> Config \<Rightarrow> bool" where
  "chosen P name parse field base c = (case pf_Getenv P name of
     [] \<Rightarrow> field c = field base
   | v # vs \<Rightarrow> (case parse (v # vs) of Inl _ \<Rightarrow> False | Inr x \<Rightarrow> field c = x))"

definition overridden :: "platform \<Rightarrow> Config \<Rightarrow> Config \<Rightarrow> bool" where
  "overridden P base c =
     (chosen P ''CONTROLLER_PUBLIC_LISTEN'' Inr cf_PublicListen base c
      \<and> chosen P ''CONTROLLER_INTERNAL_LISTEN'' Inr cf_InternalListen base c
      \<and> chosen P ''CONTROLLER_STORAGE_PATH'' Inr cf_Path base c
      \<and> chosen P ''CONTROLLER_MOSDNS_BASE_URL'' Inr cf_BaseURL base c
      \<and> chosen P ''CONTROLLER_MOSDNS_TOKEN_FILE'' Inr cf_TokenFile base c
      \<and> chosen P ''CONTROLLER_SESSION_TTL'' Inr cf_SessionTTLRaw base c
      \<and> chosen P ''CONTROLLER_HTTP_TIMEOUT'' Inr cf_TimeoutRaw base c
      \<and> chosen P ''CONTROLLER_SECURE_COOKIE'' ParseBool cf_SecureCookie base c
      \<and> chosen P ''CONTROLLER_MAX_BODY_BYTES'' ParseInt cf_MaxBodyBytes base c
      \<and> cf_TrustedProxies c = cf_TrustedProxies base)"

lemma chosen_string: "field c = setString P name (field base) \<Longrightarrow> chosen P name Inr field base c"
  by (simp add: chosen_def setString_def split: list.split if_splits)

lemma chosen_bool: "setBool P name (field base) = Inr (field c) \<Longrightarrow> chosen P name ParseBool field base c"
  by (auto simp: chosen_def setBool_def split: list.split if_splits sum.splits)

lemma applyEnv_overrides: "applyEnv P base = Inr c \<Longrightarrow> overridden P base c"
proof -
  assume *: "applyEnv P base = Inr c"
  then obtain b n where b: "setBool P ''CONTROLLER_SECURE_COOKIE'' (cf_SecureCookie base) = Inr b"
    and c: "c = (env_strings P base)\<lparr>cf_SecureCookie := b, cf_MaxBodyBytes := n\<rparr>"
    and n: "pf_Getenv P ''CONTROLLER_MAX_BODY_BYTES'' = [] \<and> n = cf_MaxBodyBytes base
        \<or> pf_Getenv P ''CONTROLLER_MAX_BODY_BYTES'' \<noteq> [] \<and> ParseInt (pf_Getenv P ''CONTROLLER_MAX_BODY_BYTES'') = Inr n"
    unfolding applyEnv_def Let_def by (auto simp: env_strings_def split: sum.splits if_splits)
  from b have "chosen P ''CONTROLLER_SECURE_COOKIE'' ParseBool cf_SecureCookie base c"
    by (intro chosen_bool) (simp add: c)
  moreover from n have "chosen P ''CONTROLLER_MAX_BODY_BYTES'' ParseInt cf_MaxBodyBytes base c"
    by (auto simp: c chosen_def split: list.split)
  ultimately show ?thesis
    unfolding overridden_def by (intro conjI chosen_string) (simp_all add: c env_strings_def)
qed

lemma chosen_field: "field c' = field c \<Longrightarrow> chosen P name parse field base c' = chosen P name parse field base c"
  by (simp only: chosen_def)

lemma overridden_durations: "overridden P base (c\<lparr>cf_SessionTTL := t, cf_Timeout := u\<rparr>) = overridden P base c"
  by (simp add: overridden_def chosen_field [of _ "c\<lparr>cf_SessionTTL := t, cf_Timeout := u\<rparr>" c])

text \<open>C39: a configuration that loads is one the controller can start with: both listeners have a port and differ, the
  database has a path, the URL of mosdns is absolute, the lifetime of sessions and the time limit of
  requests are positive and are the durations their texts denote, and bodies are limited to at
  most 64 MiB; and every text, the flag for secure cookies and the limit on bodies come from the environment when it
  sets them, else from the file when there is one, else from the defaults.\<close>

theorem config_checked:
  assumes "Load P path = Inr c"
  shows "config_ok P c \<and> (\<exists>base. read_config P path = Inr base \<and> overridden P base c)"
proof -
  obtain base c1 where c: "read_config P path = Inr base" "applyEnv P base = Inr c1" "Validate P c1 = Inr c"
    using assms by (auto simp: Load_def split: sum.splits)
  have "c = c1\<lparr>cf_SessionTTL := cf_SessionTTL c, cf_Timeout := cf_Timeout c\<rparr>" using Validate_ok [OF c(3)] by blast
  then have "overridden P base c" using applyEnv_overrides [OF c(2)] overridden_durations by metis
  then show ?thesis using Validate_ok [OF c(3)] c(1) by blast
qed

definition demo_platform :: platform where
  "demo_platform = \<lparr>pf_ReadFile = (\<lambda>p. Inr ''storage: {path: /data/c.db}''),
     pf_Decode = (\<lambda>t c. Inr (c\<lparr>cf_Path := ''/data/c.db''\<rparr>)),
     pf_Getenv = (\<lambda>n. if n = ''CONTROLLER_SESSION_TTL'' then ''1h'' else ''''),
     pf_ParseRequestURI = (\<lambda>u. Inr (''http'', ''mosdns:9091'')),
     pf_ParseDuration = (\<lambda>d. if d = ''1h'' then Inr 3600000000000 else if d = ''30s'' then Inr 30000000000 else Inl (Msg d)),
     pf_Quote = (\<lambda>s. s), pf_AddrError = Msg\<rparr>"

definition demo_config :: Config where
  "demo_config = Default\<lparr>cf_Path := ''/data/c.db'', cf_SessionTTLRaw := ''1h'', cf_SessionTTL := 3600000000000, cf_Timeout := 30000000000\<rparr>"

theorem config_checked_witness: "config_ok demo_platform demo_config"
proof -
  have "Load demo_platform ''controller.yaml'' = Inr demo_config" by code_simp
  then show ?thesis using config_checked by blast
qed

end
