(* ===== verification/Web.thy ===== *)
theory Web
  imports GoStrings
begin

text \<open>
  The handler of the web interface (\<open>internal/web/embed.go\<close>). The embedded files are parameters: the
  entry page and its placeholder, absent when not built in, and Go's file server on the rest.
\<close>

record web_files =
  wf_index :: "string option"
  wf_placeholder :: "string option"
  wf_FileServer :: "string \<Rightarrow> nat \<times> string"

definition web_Handler :: "web_files \<Rightarrow> string \<Rightarrow> nat \<times> string" where
  "web_Handler F path =
     (let p = TrimPrefix path ''/'' in
      if p = '''' \<or> \<not> Contains p ''.'' then
        (case wf_index F of Some index \<Rightarrow> (200, index)
         | None \<Rightarrow> (case wf_placeholder F of Some index \<Rightarrow> (200, index) | None \<Rightarrow> (500, ''web entry is unavailable'')))
      else wf_FileServer F path)"

text \<open>A page of the single-page application can be reloaded: its path, which has no dot, gets the entry page.\<close>

lemma web_history_route:
  assumes "CHR ''.'' \<notin> set path" and "wf_index F = Some index"
  shows "web_Handler F path = (200, index)"
proof -
  have "\<not> Contains (TrimPrefix path ''/'') ''.''"
  proof
    assume "Contains (TrimPrefix path ''/'') ''.''"
    then have "CHR ''.'' \<in> set (TrimPrefix path ''/'')" by (auto simp: Contains_iff)
    with assms(1) show False by (auto simp: TrimPrefix_def split: if_splits dest: in_set_dropD)
  qed
  with assms(2) show ?thesis by (simp add: web_Handler_def)
qed

end
