(* ===== verification/Auth.thy ===== *)
theory Auth
  imports Store Strconv Base64
begin

text \<open>
  Administrators, passwords and sessions (\<open>internal/auth/auth.go\<close>). Argon2, SHA-256, the
  system's random source and the wait for the password semaphore are parameters; the rest is
  as written. A \<open>[]byte\<close> is a string. The cookie's life time is held in milliseconds.
\<close>

section \<open>Parameters\<close>

record 'm authlib =
  al_IDKey :: "string \<Rightarrow> string \<Rightarrow> nat \<Rightarrow> string"  \<comment> \<open>argon2.IDKey(password, salt, 3, 64*1024, 2, n)\<close>
  al_Sum256 :: "string \<Rightarrow> string"
  al_Read :: "nat \<Rightarrow> 'm \<Rightarrow> (error + string) \<times> 'm"  \<comment> \<open>rand.Read\<close>
  al_Wait :: "'m \<Rightarrow> (error + unit) \<times> 'm"  \<comment> \<open>the semaphore, or the end of the context\<close>
  al_ttl :: int

section \<open>Passwords and tokens\<close>

definition validateCredentials :: "string \<Rightarrow> string \<Rightarrow> error + string" where
  "validateCredentials username password =
     (let username = TrimSpace username in
      if length username < 3 \<or> 64 < length username \<or> length password < 8
      then Inl (Msg ''username must be 3-64 characters and password at least 8 characters'')
      else Inr username)"

definition digest :: "'m authlib \<Rightarrow> string \<Rightarrow> string" where
  "digest A v = al_Sum256 A v"

definition randomToken :: "'m authlib \<Rightarrow> (error, 'm world, string) prog" where
  "randomToken A = bindM (call (al_Read A 32)) (\<lambda>raw. returnM (EncodeToString True raw))"

definition encode_hash :: "string \<Rightarrow> string \<Rightarrow> string" where
  "encode_hash salt hash = ''argon2id$v=19$m=65536,t=3,p=2$'' @ EncodeToString False salt @ ''$'' @ EncodeToString False hash"

definition hashPassword :: "'m authlib \<Rightarrow> string \<Rightarrow> (error, 'm world, string) prog" where
  "hashPassword A password =
     bindM (call (al_Wait A)) (\<lambda>_.
     bindM (call (al_Read A 16)) (\<lambda>salt.
     returnM (encode_hash salt (al_IDKey A password salt 32))))"

definition check_password :: "'m authlib \<Rightarrow> string \<Rightarrow> string \<Rightarrow> bool" where
  "check_password A password encoded =
     (case Split CHR ''$'' encoded of
        [p0, p1, p2, p3, p4] \<Rightarrow>
          (if p0 \<noteq> ''argon2id'' \<or> p2 \<noteq> ''m=65536,t=3,p=2'' then False
           else (case (DecodeString False p3, DecodeString False p4) of
                   (Some salt, Some expected) \<Rightarrow> expected = al_IDKey A password salt (length expected)
                 | _ \<Rightarrow> False))
      | _ \<Rightarrow> False)"

definition verifyPassword :: "'m authlib \<Rightarrow> string \<Rightarrow> string \<Rightarrow> (error, 'm world, bool) prog" where
  "verifyPassword A password encoded =
     bindM (call (al_Wait A)) (\<lambda>_. returnM (check_password A password encoded))"

section \<open>Tables\<close>

text \<open>\<open>COLLATE NOCASE\<close> folds the ASCII letters.\<close>

definition nocase :: "string \<Rightarrow> string" where
  "nocase s = map lower_byte s"

definition new_admin :: "string \<Rightarrow> string \<Rightarrow> int \<Rightarrow> admin_row" where
  "new_admin username hash now = \<lparr>ad_username = username, ad_password_hash = hash, ad_disabled = False,
     ad_created_at_ms = now, ad_updated_at_ms = now\<rparr>"

definition insert_admin :: "admin_row \<Rightarrow> db \<Rightarrow> error + db" where
  "insert_admin a d =
     (if list_ex (\<lambda>(_, b). nocase (ad_username b) = nocase (ad_username a)) (tb_rows (d_admins d)) then Inl Constraint
      else Inr (d\<lparr>d_admins := insert_row a (d_admins d)\<rparr>))"

text \<open>\<open>INSERT ... SELECT ... WHERE NOT EXISTS (SELECT 1 FROM admins)\<close>, with the rows affected.\<close>

definition insert_first_admin :: "admin_row \<Rightarrow> db \<Rightarrow> error + nat \<times> db" where
  "insert_first_admin a d =
     (if tb_rows (d_admins d) \<noteq> [] then Inr (0, d)
      else case insert_admin a d of Inl e \<Rightarrow> Inl e | Inr d' \<Rightarrow> Inr (1, d'))"

definition select_admin :: "string \<Rightarrow> db \<Rightarrow> error + int \<times> admin_row" where
  "select_admin username d =
     (case find (\<lambda>(_, a). nocase (ad_username a) = nocase username) (tb_rows (d_admins d)) of
        None \<Rightarrow> Inl ErrNoRows | Some x \<Rightarrow> Inr x)"

definition insert_session :: "session_row \<Rightarrow> db \<Rightarrow> error + db" where
  "insert_session s d =
     (if list_ex (\<lambda>t. se_token_hash t = se_token_hash s) (d_sessions d)
         \<or> \<not> list_ex (\<lambda>(i, _). i = se_admin_id s) (tb_rows (d_admins d)) then Inl Constraint
      else Inr (d\<lparr>d_sessions := d_sessions d @ [s]\<rparr>))"

definition select_session :: "string \<Rightarrow> db \<Rightarrow> error + session_row" where
  "select_session h d = (case find (\<lambda>s. se_token_hash s = h) (d_sessions d) of
     None \<Rightarrow> Inl ErrNoRows | Some s \<Rightarrow> Inr s)"

definition delete_sessions :: "(session_row \<Rightarrow> bool) \<Rightarrow> db \<Rightarrow> error + db" where
  "delete_sessions P d = Inr (d\<lparr>d_sessions := filter (\<lambda>s. \<not> P s) (d_sessions d)\<rparr>)"

definition update_sessions :: "(session_row \<Rightarrow> bool) \<Rightarrow> (session_row \<Rightarrow> session_row) \<Rightarrow> db \<Rightarrow> error + nat \<times> db" where
  "update_sessions P f d = Inr (length (filter P (d_sessions d)),
     d\<lparr>d_sessions := map (\<lambda>s. if P s then f s else s) (d_sessions d)\<rparr>)"

definition set_password :: "int \<Rightarrow> string \<Rightarrow> int \<Rightarrow> db \<Rightarrow> error + db" where
  "set_password i hash now d = Inr (d\<lparr>d_admins := update_where (\<lambda>j _. j = i)
     (\<lambda>a. a\<lparr>ad_password_hash := hash, ad_updated_at_ms := now\<rparr>) (d_admins d)\<rparr>)"

section \<open>Administrators\<close>

definition ErrInitialAdminExists :: error where
  "ErrInitialAdminExists = Msg ''an administrator already exists''"

definition ErrAdminNotFound :: error where
  "ErrAdminNotFound = Msg ''administrator not found''"

definition invalid_credentials :: error where
  "invalid_credentials = Msg ''invalid credentials''"

definition session_expired :: error where
  "session_expired = Msg ''session expired''"

definition CreateAdmin :: "'m authlib \<Rightarrow> string \<Rightarrow> string \<Rightarrow> (error, 'm world, unit) prog" where
  "CreateAdmin A username password =
     bindM (liftM (validateCredentials username password)) (\<lambda>username.
     bindM (hashPassword A password) (\<lambda>hash.
     bindM time_now (\<lambda>now.
     mapErr (wrapf ''create admin: '') (db_exec (insert_admin (new_admin username hash now))))))"

definition NeedsInitialAdmin :: "(error, 'm world, bool) prog" where
  "NeedsInitialAdmin = db_query (\<lambda>d. Inr (tb_rows (d_admins d) = []))"

text \<open>The second half of \<open>CreateInitialAdmin\<close>: other requests may have come in between.\<close>

definition initial_admin_commit :: "string \<Rightarrow> string \<Rightarrow> (error, 'm world, unit) prog" where
  "initial_admin_commit username hash =
     bindM time_now (\<lambda>now.
     bindM (mapErr (wrapf ''create initial admin: '') (db_run (insert_first_admin (new_admin username hash now)))) (\<lambda>created.
     guardM (created \<noteq> 0) ErrInitialAdminExists))"

definition CreateInitialAdmin :: "'m authlib \<Rightarrow> string \<Rightarrow> string \<Rightarrow> (error, 'm world, unit) prog" where
  "CreateInitialAdmin A username password =
     bindM NeedsInitialAdmin (\<lambda>required.
     bindM (guardM required ErrInitialAdminExists) (\<lambda>_.
     bindM (liftM (validateCredentials username password)) (\<lambda>username.
     bindM (hashPassword A password) (\<lambda>hash.
     initial_admin_commit username hash))))"

section \<open>Sessions\<close>

record Admin =
  a_ID :: int
  a_Username :: string

definition Login ::
  "'m authlib \<Rightarrow> string \<Rightarrow> string \<Rightarrow> string \<Rightarrow> string \<Rightarrow> (error, 'm world, string \<times> string) prog" where
  "Login A username password clientIP userAgent =
     bindM (attemptM (db_query (select_admin (TrimSpace username)))) (\<lambda>r.
     case r of
       Inl _ \<Rightarrow> throwM invalid_credentials
     | Inr (i, a) \<Rightarrow>
         (if ad_disabled a then throwM invalid_credentials
          else
            bindM (verifyPassword A password (ad_password_hash a)) (\<lambda>verified.
            bindM (guardM verified invalid_credentials) (\<lambda>_.
            bindM (randomToken A) (\<lambda>token.
            bindM (randomToken A) (\<lambda>csrf.
            bindM time_now (\<lambda>now.
            bindM (mapErr (wrapf ''create session: '') (db_exec (insert_session
              \<lparr>se_token_hash = digest A token, se_admin_id = i, se_csrf_hash = digest A csrf,
               se_client_ip = clientIP, se_user_agent = userAgent, se_created_at_ms = now,
               se_last_seen_at_ms = now, se_expires_at_ms = now + al_ttl A\<rparr>))) (\<lambda>_.
            returnM (token, csrf)))))))))"

definition Logout :: "'m authlib \<Rightarrow> string \<Rightarrow> (error, 'm world, unit) prog" where
  "Logout A token = db_exec (delete_sessions (\<lambda>s. se_token_hash s = digest A token))"

definition join_session :: "string \<Rightarrow> db \<Rightarrow> error + Admin \<times> int" where
  "join_session h d =
     (case select_session h d of
        Inl e \<Rightarrow> Inl e
      | Inr s \<Rightarrow>
          (case map_of (tb_rows (d_admins d)) (se_admin_id s) of
             None \<Rightarrow> Inl ErrNoRows
           | Some a \<Rightarrow> if ad_disabled a then Inl ErrNoRows
               else Inr (\<lparr>a_ID = se_admin_id s, a_Username = ad_username a\<rparr>, se_expires_at_ms s)))"

definition SessionOf :: "'m authlib \<Rightarrow> string \<Rightarrow> (error, 'm world, Admin) prog" where
  "SessionOf A token =
     bindM (attemptM (db_query (join_session (digest A token)))) (\<lambda>r.
     case r of
       Inl e \<Rightarrow> (if errors_Is e ErrNoRows then throwM session_expired else throwM e)
     | Inr (admin, expires) \<Rightarrow>
         bindM time_now (\<lambda>now.
         if expires \<le> now then
           bindM (attemptM (Logout A token)) (\<lambda>_. throwM session_expired)
         else
           bindM time_now (\<lambda>now.
           bindM (attemptM (db_run (update_sessions (\<lambda>s. se_token_hash s = digest A token)
             (\<lambda>s. s\<lparr>se_last_seen_at_ms := now\<rparr>)))) (\<lambda>_.
           returnM admin))))"

definition VerifyCSRF :: "'m authlib \<Rightarrow> string \<Rightarrow> string \<Rightarrow> (error, 'm world, bool) prog" where
  "VerifyCSRF A token csrf =
     bindM time_now (\<lambda>now.
     bindM (attemptM (db_query (\<lambda>d. case select_session (digest A token) d of
         Inl e \<Rightarrow> Inl e
       | Inr s \<Rightarrow> if now < se_expires_at_ms s then Inr (se_csrf_hash s) else Inl ErrNoRows))) (\<lambda>r.
     case r of Inl _ \<Rightarrow> returnM False | Inr expected \<Rightarrow> returnM (expected = digest A csrf)))"

definition RefreshCSRF :: "'m authlib \<Rightarrow> string \<Rightarrow> (error, 'm world, string) prog" where
  "RefreshCSRF A token =
     bindM (randomToken A) (\<lambda>csrf.
     bindM time_now (\<lambda>now.
     bindM (db_run (update_sessions (\<lambda>s. se_token_hash s = digest A token \<and> now < se_expires_at_ms s)
       (\<lambda>s. s\<lparr>se_csrf_hash := digest A csrf\<rparr>))) (\<lambda>updated.
     bindM (guardM (updated = 1) session_expired) (\<lambda>_.
     returnM csrf))))"

section \<open>Changing a password\<close>

definition select_password :: "int \<Rightarrow> db \<Rightarrow> error + string" where
  "select_password i d = (case map_of (tb_rows (d_admins d)) i of
     None \<Rightarrow> Inl ErrNoRows
   | Some a \<Rightarrow> if ad_disabled a then Inl ErrNoRows else Inr (ad_password_hash a))"

definition ChangePasswordKeepingSession ::
  "'m authlib \<Rightarrow> int \<Rightarrow> string \<Rightarrow> string \<Rightarrow> string \<Rightarrow> (error, 'm world, unit) prog" where
  "ChangePasswordKeepingSession A adminID currentPassword nextPassword session =
     bindM (guardM (8 \<le> length nextPassword) (Msg ''password must be at least 8 characters'')) (\<lambda>_.
     bindM (mapErr (\<lambda>_. invalid_credentials) (db_query (select_password adminID))) (\<lambda>currentHash.
     bindM (verifyPassword A currentPassword currentHash) (\<lambda>verified.
     bindM (guardM verified invalid_credentials) (\<lambda>_.
     bindM (hashPassword A nextPassword) (\<lambda>nextHash.
     transaction
       (bindM time_now (\<lambda>now.
        bindM (db_exec (set_password adminID nextHash now)) (\<lambda>_.
        if session = '''' then db_exec (delete_sessions (\<lambda>s. se_admin_id s = adminID))
        else db_exec (delete_sessions (\<lambda>s. se_admin_id s = adminID \<and> se_token_hash s \<noteq> digest A session))))))))))"

definition ChangePassword :: "'m authlib \<Rightarrow> int \<Rightarrow> string \<Rightarrow> string \<Rightarrow> (error, 'm world, unit) prog" where
  "ChangePassword A adminID currentPassword nextPassword =
     ChangePasswordKeepingSession A adminID currentPassword nextPassword ''''"

definition ResetPassword :: "'m authlib \<Rightarrow> string \<Rightarrow> string \<Rightarrow> (error, 'm world, unit) prog" where
  "ResetPassword A username nextPassword =
     bindM (liftM (validateCredentials username nextPassword)) (\<lambda>username.
     bindM (hashPassword A nextPassword) (\<lambda>nextHash.
     transaction
       (bindM (mapErr (\<lambda>e. if errors_Is e ErrNoRows then ErrAdminNotFound else e)
          (db_query (select_admin username))) (\<lambda>(adminID, _).
        bindM time_now (\<lambda>now.
        bindM (db_exec (set_password adminID nextHash now)) (\<lambda>_.
        db_exec (delete_sessions (\<lambda>s. se_admin_id s = adminID))))))))"

end
