(* ===== verification/LoginLimiter.thy ===== *)
theory LoginLimiter
  imports GoStrings
begin

text \<open>
  The login limiter (\<open>internal/auth/ratelimit.go\<close>): a map from client keys to failed attempts,
  of at most \<open>maxLoginLimiterEntries\<close> entries. Times are in nanoseconds; a zero \<open>time.Time\<close> is
  \<open>None\<close>. The map is a list of entries with distinct keys; which entry Go's unordered iteration
  meets first is the parameter \<open>pick\<close> (an index), so that the results hold for every order.
\<close>

definition maxLoginLimiterEntries :: nat where "maxLoginLimiterEntries = 4096"
definition loginAttemptRetention :: int where "loginAttemptRetention = 600000000000"
definition lock_time :: int where "lock_time = 300000000000"

record attempt =
  at_count :: int
  at_until :: "int option"
  at_lastSeen :: int

type_synonym limiter = "(string \<times> attempt) list"

definition after :: "int option \<Rightarrow> int \<Rightarrow> bool" where
  "after t now = (case t of None \<Rightarrow> False | Some u \<Rightarrow> now < u)"

definition delete_key :: "string \<Rightarrow> limiter \<Rightarrow> limiter" where
  "delete_key k l = filter (\<lambda>x. fst x \<noteq> k) l"

definition put_key :: "string \<Rightarrow> attempt \<Rightarrow> limiter \<Rightarrow> limiter" where
  "put_key k a l = (k, a) # delete_key k l"

definition Allowed :: "string \<Rightarrow> int \<Rightarrow> limiter \<Rightarrow> bool \<times> limiter" where
  "Allowed key now l =
     (case map_of l key of
        None \<Rightarrow> (True, l)
      | Some item \<Rightarrow>
          (if at_until item = None then (True, l)
           else if \<not> after (at_until item) now then (True, delete_key key l)
           else (False, l)))"

function evict_loop :: "(limiter \<Rightarrow> nat) \<Rightarrow> limiter \<Rightarrow> limiter" where
  "evict_loop pick l =
     (if maxLoginLimiterEntries \<le> length l
      then evict_loop pick (delete_key (fst (l ! (pick l mod length l))) l) else l)"
  by pat_completeness auto
termination
proof (relation "measure (length \<circ> snd)")
  fix pick :: "limiter \<Rightarrow> nat" and l :: limiter
  assume "maxLoginLimiterEntries \<le> length l"
  then have l: "0 < length l" unfolding maxLoginLimiterEntries_def by linarith
  then have "l ! (pick l mod length l) \<in> set l" by simp
  then have "length (delete_key (fst (l ! (pick l mod length l))) l) < length l"
    unfolding delete_key_def by (rule length_filter_less) simp
  then show "((pick, delete_key (fst (l ! (pick l mod length l))) l), pick, l) \<in> measure (length \<circ> snd)" by simp
qed simp

declare evict_loop.simps [simp del]

definition evict :: "(limiter \<Rightarrow> nat) \<Rightarrow> int \<Rightarrow> limiter \<Rightarrow> limiter" where
  "evict pick now l = evict_loop pick
     (filter (\<lambda>(k, item). \<not> (\<not> after (at_until item) now \<and> loginAttemptRetention \<le> now - at_lastSeen item)) l)"

definition zero_attempt :: attempt where
  "zero_attempt = \<lparr>at_count = 0, at_until = None, at_lastSeen = 0\<rparr>"

definition Failed_login :: "(limiter \<Rightarrow> nat) \<Rightarrow> string \<Rightarrow> int \<Rightarrow> limiter \<Rightarrow> limiter" where
  "Failed_login pick key now l =
     (let l = (if map_of l key = None \<and> maxLoginLimiterEntries \<le> length l then evict pick now l else l);
          item = (case map_of l key of None \<Rightarrow> zero_attempt | Some a \<Rightarrow> a);
          item = item\<lparr>at_count := at_count item + 1, at_lastSeen := now\<rparr>;
          item = (if 5 \<le> at_count item then item\<lparr>at_until := Some (now + lock_time), at_count := 0\<rparr> else item)
      in put_key key item l)"

definition Succeeded :: "string \<Rightarrow> limiter \<Rightarrow> limiter" where
  "Succeeded key l = delete_key key l"

section \<open>The invariant\<close>

definition limiter_ok :: "limiter \<Rightarrow> bool" where
  "limiter_ok l = (distinct (map fst l) \<and> length l \<le> maxLoginLimiterEntries
     \<and> (\<forall>(k, a) \<in> set l. 0 \<le> at_count a \<and> at_count a < 5))"

lemma limiter_ok_filter: "limiter_ok l \<Longrightarrow> limiter_ok (filter P l)"
  by (auto simp: limiter_ok_def distinct_map_filter intro: le_trans [OF length_filter_le])

lemma limiter_ok_delete [simp]: "limiter_ok l \<Longrightarrow> limiter_ok (delete_key k l)"
  by (simp add: delete_key_def limiter_ok_filter)

lemma evict_loop_ok: "limiter_ok l \<Longrightarrow> limiter_ok (evict_loop pick l) \<and> length (evict_loop pick l) < maxLoginLimiterEntries"
proof (induction pick l rule: evict_loop.induct)
  case (1 pick l)
  then show ?case by (cases "maxLoginLimiterEntries \<le> length l") (simp_all add: evict_loop.simps [of pick l])
qed

lemma evict_ok:
  "limiter_ok l \<Longrightarrow> limiter_ok (evict pick now l) \<and> length (evict pick now l) < maxLoginLimiterEntries"
  unfolding evict_def by (intro evict_loop_ok limiter_ok_filter)

lemma delete_key_length: "map_of l k \<noteq> None \<Longrightarrow> length (delete_key k l) < length l"
proof -
  assume "map_of l k \<noteq> None"
  then obtain a where "(k, a) \<in> set l" by (metis map_of_SomeD not_None_eq)
  then show ?thesis unfolding delete_key_def by (rule length_filter_less) simp
qed

lemma map_of_delete [simp]: "map_of (delete_key k l) j = (if j = k then None else map_of l j)"
  by (induction l) (auto simp: delete_key_def)

lemma map_of_put [simp]: "map_of (put_key k a l) j = (if j = k then Some a else map_of l j)"
  by (simp add: put_key_def)

lemma put_key_ok:
  assumes "limiter_ok l" and "map_of l k = None \<Longrightarrow> length l < maxLoginLimiterEntries"
    and "0 \<le> at_count a" "at_count a < 5"
  shows "limiter_ok (put_key k a l)"
proof -
  have d: "distinct (map fst (put_key k a l))"
    using assms(1) by (auto simp: put_key_def delete_key_def limiter_ok_def distinct_map_filter)
  have "length (delete_key k l) < maxLoginLimiterEntries"
  proof (cases "map_of l k = None")
    case True
    with assms(2) show ?thesis unfolding delete_key_def by (meson le_less_trans length_filter_le)
  next
    case False
    with assms(1) delete_key_length show ?thesis by (fastforce simp: limiter_ok_def)
  qed
  with d assms show ?thesis by (auto simp: limiter_ok_def put_key_def delete_key_def)
qed

lemma Failed_ok: "limiter_ok l \<Longrightarrow> limiter_ok (Failed_login pick key now l)"
proof -
  assume l: "limiter_ok l"
  define m where "m = (if map_of l key = None \<and> maxLoginLimiterEntries \<le> length l then evict pick now l else l)"
  have m: "limiter_ok m" using l evict_ok [of l pick now] by (simp add: m_def)
  have small: "length m < maxLoginLimiterEntries" if "map_of m key = None"
    using that evict_ok [OF l, of pick now] by (auto simp: m_def split: if_splits)
  have range: "0 \<le> at_count a \<and> at_count a < 5" if "map_of m key = Some a" for a
    using m map_of_SomeD [OF that] by (fastforce simp: limiter_ok_def)
  have item: "0 \<le> at_count (case map_of m key of None \<Rightarrow> zero_attempt | Some a \<Rightarrow> a)"
    by (auto simp: zero_attempt_def dest: range split: option.splits)
  show ?thesis
    unfolding Failed_login_def m_def [symmetric] Let_def
    by (rule put_key_ok [OF m]) (use small item in auto)
qed

lemma Allowed_ok: "limiter_ok l \<Longrightarrow> limiter_ok (snd (Allowed key now l))"
  by (auto simp: Allowed_def split: option.splits)

lemma Allowed_iff:
  "fst (Allowed key now l) \<longleftrightarrow> \<not> (\<exists>a u. map_of l key = Some a \<and> at_until a = Some u \<and> now < u)"
  by (auto simp: Allowed_def after_def split: option.splits)

text \<open>While there is room, a failure changes the entry of its key only.\<close>

lemma Failed_room:
  assumes "length l < maxLoginLimiterEntries \<or> map_of l key \<noteq> None"
  shows "Failed_login pick key now l = put_key key
     (let a = (case map_of l key of None \<Rightarrow> zero_attempt | Some a \<Rightarrow> a) in
      if 4 \<le> at_count a then a\<lparr>at_lastSeen := now, at_until := Some (now + lock_time), at_count := 0\<rparr>
      else a\<lparr>at_count := at_count a + 1, at_lastSeen := now\<rparr>) l"
proof -
  from assms have "\<not> (map_of l key = None \<and> maxLoginLimiterEntries \<le> length l)" by auto
  then show ?thesis by (simp add: Failed_login_def Let_def if_distrib cong: if_cong) auto
qed

text \<open>Sequences of calls.\<close>

datatype limiter_call = Ask string int | Fail (limiter_pick: "limiter \<Rightarrow> nat") string int | Succeed string

fun limiter_run :: "limiter_call \<Rightarrow> limiter \<Rightarrow> limiter" where
  "limiter_run (Ask key now) l = snd (Allowed key now l)"
| "limiter_run (Fail pick key now) l = Failed_login pick key now l"
| "limiter_run (Succeed key) l = Succeeded key l"

lemma limiter_run_ok: "limiter_ok l \<Longrightarrow> limiter_ok (limiter_run c l)"
  by (cases c) (auto simp: Allowed_ok Failed_ok Succeeded_def)

lemma limiter_runs_ok: "limiter_ok l \<Longrightarrow> limiter_ok (fold limiter_run cs l)"
  by (induction cs arbitrary: l) (auto simp: limiter_run_ok)

end
