(* ===== verification/CacheClient.thy ===== *)
theory CacheClient
  imports MosdnsClient
begin

text \<open>
  The methods of the mosdns client for the two fixed caches, the rule test and the audit status
  (\<open>internal/mosdnsclient/client.go\<close>), and the file with the token. As in \<open>MosdnsClient\<close> the
  transport is a parameter, one function per endpoint.
\<close>

record NegativeCacheSettings =
  ns_Enabled :: bool
  ns_TTLSeconds :: "32 word"

record AuditStatus =
  as_QueueDepth :: int
  as_QueueCapacity :: int
  as_DroppedEvents :: int

text \<open>The first argument is the tag of the cache in the path; \<open>'j\<close> is any JSON value.\<close>

record ('m, 'j) cache_transport =
  ct_flush :: "string \<Rightarrow> 'm \<Rightarrow> unit reply \<times> 'm"
  ct_negative :: "string \<Rightarrow> 'm \<Rightarrow> NegativeCacheSettings reply \<times> 'm"
  ct_set_negative :: "string \<Rightarrow> NegativeCacheSettings \<Rightarrow> 'm \<Rightarrow> NegativeCacheSettings reply \<times> 'm"
  ct_enabled :: "string \<Rightarrow> bool \<Rightarrow> 'm \<Rightarrow> bool reply \<times> 'm"
  ct_ttl :: "string \<Rightarrow> int \<Rightarrow> 'm \<Rightarrow> int reply \<times> 'm"
  ct_match :: "string \<Rightarrow> 'm \<Rightarrow> 'j reply \<times> 'm"
  ct_audit :: "'m \<Rightarrow> AuditStatus reply \<times> 'm"
  ct_quote :: "string \<Rightarrow> string"

definition cacheTag :: "string \<Rightarrow> bool" where
  "cacheTag tag = (tag = ''cache_local'' \<or> tag = ''cache_remote'')"

definition plugin_path :: "string \<Rightarrow> string \<Rightarrow> string" where
  "plugin_path tag rest = ''/plugins/'' @ tag @ rest"

text \<open>Without an \<open>output\<close> the body of a successful response is not read.\<close>

fun ignore_body :: "'b reply \<Rightarrow> unit reply" where
  "ignore_body (BuildFailed t) = BuildFailed t"
| "ignore_body (DoFailed t) = DoFailed t"
| "ignore_body (Response code status text body) = Response code status text (Decoded ())"

definition unsupported :: "('m, 'j) cache_transport \<Rightarrow> string \<Rightarrow> error" where
  "unsupported T tag = Msg (''unsupported cache tag '' @ ct_quote T tag)"

definition Flush :: "('m, 'j) cache_transport \<Rightarrow> string \<Rightarrow> 'm \<Rightarrow> (error + unit) \<times> 'm" where
  "Flush T tag m = (if \<not> cacheTag tag then (Inl (unsupported T tag), m)
     else plain GET (plugin_path tag ''/flush'') (\<lambda>m. case ct_flush T tag m of (r, m') \<Rightarrow> (ignore_body r, m')) m)"

definition NegativeCache :: "('m, 'j) cache_transport \<Rightarrow> string \<Rightarrow> 'm \<Rightarrow> (error + NegativeCacheSettings) \<times> 'm" where
  "NegativeCache T tag m = (if \<not> cacheTag tag then (Inl (unsupported T tag), m)
     else plain GET (plugin_path tag ''/negative-cache'') (ct_negative T tag) m)"

definition SetNegativeCache :: "('m, 'j) cache_transport \<Rightarrow> string \<Rightarrow> NegativeCacheSettings \<Rightarrow> 'm \<Rightarrow>
    (error + NegativeCacheSettings) \<times> 'm" where
  "SetNegativeCache T tag settings m = (if \<not> cacheTag tag then (Inl (unsupported T tag), m)
     else case plain PUT (plugin_path tag ''/negative-cache'') (ct_set_negative T tag settings) m of
         (Inl e, m') \<Rightarrow> (Inl e, m')
       | (Inr v, m') \<Rightarrow> (if v \<noteq> settings then Inl (Msg ''negative cache setting was not applied'') else Inr v, m'))"

definition SetCacheEnabled :: "('m, 'j) cache_transport \<Rightarrow> bool \<Rightarrow> 'm \<Rightarrow> (error + unit) \<times> 'm" where
  "SetCacheEnabled T enabled m =
     (case plain PUT ''/plugins/cache_local/enabled'' (ct_enabled T ''cache_local'' enabled) m of
        (Inl e, m1) \<Rightarrow> (Inl e, m1)
      | (Inr local, m1) \<Rightarrow>
     (case plain PUT ''/plugins/cache_remote/enabled'' (ct_enabled T ''cache_remote'' enabled) m1 of
        (Inl e, m2) \<Rightarrow> (Inl e, m2)
      | (Inr remote, m2) \<Rightarrow>
          (if local \<noteq> enabled \<or> remote \<noteq> enabled then Inl (Msg ''cache setting was not applied'') else Inr (), m2)))"

definition SetCacheTTL :: "('m, 'j) cache_transport \<Rightarrow> int \<Rightarrow> (error, 'm, unit) prog" where
  "SetCacheTTL T ttl = traverseM (\<lambda>tag.
     bindM (plain PUT (plugin_path tag ''/ttl'') (ct_ttl T tag ttl)) (\<lambda>result.
     guardM (result = ttl) (Msg ''cache TTL was not applied''))) [''cache_local'', ''cache_remote'']"

definition Match :: "('m, 'j) cache_transport \<Rightarrow> string \<Rightarrow> 'm \<Rightarrow> (error + 'j) \<times> 'm" where
  "Match T qname = plain POST ''/plugins/dynamic_rules/match'' (ct_match T qname)"

definition AuditStatus_call :: "('m, 'j) cache_transport \<Rightarrow> 'm \<Rightarrow> (error + AuditStatus) \<times> 'm" where
  "AuditStatus_call T = plain GET ''/plugins/query_audit/status'' (ct_audit T)"

definition ReadToken :: "(string \<Rightarrow> error + string) \<Rightarrow> string \<Rightarrow> error + string" where
  "ReadToken readFile path =
     (case readFile path of Inl e \<Rightarrow> Inl (wrapf ''read mosdns token: '' e)
      | Inr data \<Rightarrow> (if TrimSpace data = '''' then Inl (Msg ''mosdns token is empty'') else Inr (TrimSpace data)))"

section \<open>What a success means\<close>

lemma plain_cases:
  "plain meth path t m = (Inr v, m') \<longleftrightarrow> (\<exists>r. t m = (r, m') \<and> request meth path r = Inr v)"
  by (auto simp: plain_def split: prod.splits)

text \<open>The reply to a request that succeeded carried the value.\<close>

definition confirms :: "'b reply \<times> 'm \<Rightarrow> 'b \<Rightarrow> 'm \<Rightarrow> bool" where
  "confirms x v m' = (\<exists>code status text. x = (Response code status text (Decoded v), m') \<and> 200 \<le> code \<and> code < 300)"

lemma plain_confirms: "plain meth path t m = (Inr v, m') \<longleftrightarrow> confirms (t m) v m'"
proof -
  have "request meth path r = Inr v \<longleftrightarrow> (\<exists>code status text. r = Response code status text (Decoded v) \<and> 200 \<le> code \<and> code < 300)" for r
    by (cases r) (auto simp: request_def Let_def split: body.splits if_splits)
  then show ?thesis by (auto simp: plain_cases confirms_def)
qed

lemma other_tags_untouched:
  assumes "\<not> cacheTag tag"
  shows "snd (Flush T tag m) = m" "snd (NegativeCache T tag m) = m" "snd (SetNegativeCache T tag s m) = m"
  using assms by (simp_all add: Flush_def NegativeCache_def SetNegativeCache_def)

text \<open>A call that succeeds went through its parts.\<close>

lemma case_succeeds:
  "(case x of (Inl e, m1) \<Rightarrow> (Inl e, m1) | (Inr v, m1) \<Rightarrow> k v m1) = (Inr a, m2) \<longleftrightarrow>
     (\<exists>v m1. x = (Inr v, m1) \<and> k v m1 = (Inr a, m2))"
  by (auto split: prod.splits sum.splits)

lemma bindM_succeeds: "bindM f g m = (Inr a, m2) \<longleftrightarrow> (\<exists>v m1. f m = (Inr v, m1) \<and> g v m1 = (Inr a, m2))"
  by (auto simp: bindM_def split: prod.splits sum.splits)

lemma guardM_succeeds: "guardM b e m = (Inr u, m2) \<longleftrightarrow> b \<and> m2 = m"
  by (auto simp: guardM_def returnM_def throwM_def)

lemma SetCacheTTL_confirmed:
  "SetCacheTTL T ttl m = (Inr (), m') \<longleftrightarrow>
     (\<exists>m1. confirms (ct_ttl T ''cache_local'' ttl m) ttl m1 \<and> confirms (ct_ttl T ''cache_remote'' ttl m1) ttl m')"
  by (simp add: SetCacheTTL_def bindM_succeeds guardM_succeeds plain_confirms returnM_def)

text \<open>a change of the two fixed caches is reported as done exactly when mosdns has confirmed the value
  itself, for the local cache first and then for the remote one: switching both on or off, their time to live, and the
  negative cache of one of them; a tag of another cache is refused without a request.\<close>

theorem cache_settings_confirmed:
  "(SetCacheEnabled T enabled m = (Inr (), m2) \<longleftrightarrow>
      (\<exists>m1. confirms (ct_enabled T ''cache_local'' enabled m) enabled m1 \<and> confirms (ct_enabled T ''cache_remote'' enabled m1) enabled m2))
   \<and> (SetCacheTTL T ttl m = (Inr (), m2) \<longleftrightarrow>
      (\<exists>m1. confirms (ct_ttl T ''cache_local'' ttl m) ttl m1 \<and> confirms (ct_ttl T ''cache_remote'' ttl m1) ttl m2))
   \<and> (SetNegativeCache T tag s m = (Inr v, m2) \<longleftrightarrow> v = s \<and> cacheTag tag \<and> confirms (ct_set_negative T tag s m) s m2)
   \<and> (cacheTag tag \<or> snd (SetNegativeCache T tag s m) = m \<and> snd (Flush T tag m) = m \<and> snd (NegativeCache T tag m) = m)"
proof (intro conjI)
  show "SetCacheEnabled T enabled m = (Inr (), m2) \<longleftrightarrow>
      (\<exists>m1. confirms (ct_enabled T ''cache_local'' enabled m) enabled m1 \<and> confirms (ct_enabled T ''cache_remote'' enabled m1) enabled m2)"
    unfolding SetCacheEnabled_def case_succeeds plain_confirms by (auto split: if_splits)
  show "SetNegativeCache T tag s m = (Inr v, m2) \<longleftrightarrow> v = s \<and> cacheTag tag \<and> confirms (ct_set_negative T tag s m) s m2"
  proof (cases "cacheTag tag")
    case True
    have eq: "SetNegativeCache T tag s m = (case plain PUT (plugin_path tag ''/negative-cache'') (ct_set_negative T tag s) m of
         (Inl e, m') \<Rightarrow> (Inl e, m')
       | (Inr v, m') \<Rightarrow> (if v \<noteq> s then Inl (Msg ''negative cache setting was not applied'') else Inr v, m'))"
      using True by (simp only: SetNegativeCache_def not_True_eq_False if_False)
    have step: "(if u \<noteq> s then Inl (Msg ''negative cache setting was not applied'') else Inr u, m1) = (Inr v, m2) \<longleftrightarrow>
        u = s \<and> v = s \<and> m1 = m2" for u m1 by auto
    show ?thesis
      unfolding eq case_succeeds plain_confirms step using True by blast
  qed (simp add: SetNegativeCache_def)
  show "cacheTag tag \<or> snd (SetNegativeCache T tag s m) = m \<and> snd (Flush T tag m) = m \<and> snd (NegativeCache T tag m) = m"
    by (cases "cacheTag tag") (simp_all add: other_tags_untouched)
qed (rule SetCacheTTL_confirmed)

end
