(* ===== verification/Messages.thy ===== *)
theory Messages
  imports GoStrings
begin

text \<open>
  The texts of the error answers (\<open>chineseErrorMessage\<close> of \<open>internal/app/app.go\<close>). The Chinese strings are given by
  their code points, encoded as UTF-8 like every string of the model.
\<close>

definition utf8_rune :: "nat \<Rightarrow> string" where
  "utf8_rune n = map char_of
     (if n < 0x80 then [n]
      else if n < 0x800 then [0xC0 + n div 64, 0x80 + n mod 64]
      else if n < 0x10000 then [0xE0 + n div 4096, 0x80 + n div 64 mod 64, 0x80 + n mod 64]
      else [0xF0 + n div 262144, 0x80 + n div 4096 mod 64, 0x80 + n div 64 mod 64, 0x80 + n mod 64])"

definition utf8 :: "nat list \<Rightarrow> string" where
  "utf8 runes = concat (map utf8_rune runes)"

text \<open>The table of the known messages, as in the code.\<close>

definition localized :: "(string \<times> string) list" where
  "localized = [
     (''database is unavailable'', utf8 [0x6570, 0x636E, 0x5E93, 0x6682, 0x4E0D, 0x53EF, 0x7528]),
     (''too many login attempts'', utf8 [0x767B, 0x5F55, 0x5C1D, 0x8BD5, 0x6B21, 0x6570, 0x8FC7, 0x591A, 0xFF0C,
        0x8BF7, 0x7A0D, 0x540E, 0x518D, 0x8BD5]),
     (''invalid username or password'', utf8 [0x7528, 0x6237, 0x540D, 0x6216, 0x5BC6, 0x7801, 0x9519, 0x8BEF]),
     (''too many setup attempts'', utf8 [0x521D, 0x59CB, 0x5316, 0x5C1D, 0x8BD5, 0x6B21, 0x6570, 0x8FC7, 0x591A,
        0xFF0C, 0x8BF7, 0x7A0D, 0x540E, 0x518D, 0x8BD5]),
     (''an administrator already exists'', utf8 [0x7BA1, 0x7406, 0x5458, 0x5DF2, 0x5B58, 0x5728]),
     (''initial administrator was created but session creation failed'', utf8 [0x521D, 0x59CB, 0x7BA1, 0x7406,
        0x5458, 0x5DF2, 0x521B, 0x5EFA, 0xFF0C, 0x4F46, 0x4F1A, 0x8BDD, 0x521B, 0x5EFA, 0x5931, 0x8D25]),
     (''list rules failed'', utf8 [0x8BFB, 0x53D6, 0x89C4, 0x5219, 0x5931, 0x8D25]),
     (''rule limit exceeded'', utf8 [0x89C4, 0x5219, 0x6570, 0x91CF, 0x8D85, 0x51FA, 0x9650, 0x5236]),
     (''list versions failed'', utf8 [0x8BFB, 0x53D6, 0x89C4, 0x5219, 0x7248, 0x672C, 0x5931, 0x8D25]),
     (''version not found'', utf8 [0x89C4, 0x5219, 0x7248, 0x672C, 0x4E0D, 0x5B58, 0x5728]),
     (''read version failed'', utf8 [0x8BFB, 0x53D6, 0x89C4, 0x5219, 0x7248, 0x672C, 0x5931, 0x8D25]),
     (''invalid internal token'', utf8 [0x5185, 0x90E8, 0x4EE4, 0x724C, 0x65E0, 0x6548]),
     (''query ingestion is overloaded'', utf8 [0x67E5, 0x8BE2, 0x4E8B, 0x4EF6, 0x63A5, 0x6536, 0x670D, 0x52A1,
        0x7E41, 0x5FD9]),
     (''invalid event identifier'', utf8 [0x4E8B, 0x4EF6, 0x6807, 0x8BC6, 0x65E0, 0x6548]),
     (''answer diagnostics are no longer available in memory'', utf8 [0x5E94, 0x7B54, 0x8BCA, 0x65AD, 0x6570, 0x636E,
        0x5DF2, 0x4E0D, 0x5728, 0x5185, 0x5B58, 0x4E2D]),
     (''streaming is unavailable'', utf8 [0x6D41, 0x5F0F, 0x4F20, 0x8F93, 0x4E0D, 0x53EF, 0x7528]),
     (''read summary failed'', utf8 [0x8BFB, 0x53D6, 0x6C47, 0x603B, 0x7EDF, 0x8BA1, 0x5931, 0x8D25]),
     (''read statistics failed'', utf8 [0x8BFB, 0x53D6, 0x7EDF, 0x8BA1, 0x6570, 0x636E, 0x5931, 0x8D25]),
     (''read latency failed'', utf8 [0x8BFB, 0x53D6, 0x5EF6, 0x8FDF, 0x7EDF, 0x8BA1, 0x5931, 0x8D25]),
     (''list devices failed'', utf8 [0x8BFB, 0x53D6, 0x8BBE, 0x5907, 0x5217, 0x8868, 0x5931, 0x8D25]),
     (''device not found'', utf8 [0x8BBE, 0x5907, 0x4E0D, 0x5B58, 0x5728]),
     (''cache flush failed'', utf8 [0x7F13, 0x5B58, 0x6E05, 0x7406, 0x5931, 0x8D25]),
     (''upstream or ECS runtime configuration is unavailable; deploy matching mosdns binary and configuration'',
        utf8 [0x4E0A, 0x6E38, 0x6216] @ '' ECS '' @ utf8 [0x8FD0, 0x884C, 0x65F6, 0x914D, 0x7F6E, 0x4E0D, 0x53EF,
        0x7528, 0xFF0C, 0x8BF7, 0x90E8, 0x7F72, 0x5339, 0x914D, 0x7684] @ '' mosdns '' @ utf8 [0x4E8C, 0x8FDB,
        0x5236, 0x6587, 0x4EF6, 0x548C, 0x914D, 0x7F6E]),
     (''upstream configuration changed; refresh and retry'', utf8 [0x4E0A, 0x6E38, 0x914D, 0x7F6E, 0x5DF2, 0x53D8,
        0x66F4, 0xFF0C, 0x8BF7, 0x5237, 0x65B0, 0x540E, 0x91CD, 0x8BD5]),
     (''ECS configuration changed; refresh and retry'', ''ECS '' @ utf8 [0x914D, 0x7F6E, 0x5DF2, 0x53D8, 0x66F4,
        0xFF0C, 0x8BF7, 0x5237, 0x65B0, 0x540E, 0x91CD, 0x8BD5]),
     (''read settings failed'', utf8 [0x8BFB, 0x53D6, 0x8BBE, 0x7F6E, 0x5931, 0x8D25]),
     (''invalid subscription upload'', utf8 [0x8BA2, 0x9605, 0x4E0A, 0x4F20, 0x8BF7, 0x6C42, 0x65E0, 0x6548]),
     (''subscription file is required'', utf8 [0x5FC5, 0x987B, 0x63D0, 0x4F9B, 0x8BA2, 0x9605, 0x6587, 0x4EF6]),
     (''subscription file exceeds 20 MiB'', utf8 [0x8BA2, 0x9605, 0x6587, 0x4EF6, 0x8D85, 0x8FC7] @ '' 20 MiB ''
        @ utf8 [0x9650, 0x5236]),
     (''invalid limit'', ''limit '' @ utf8 [0x53C2, 0x6570, 0x65E0, 0x6548]),
     (''list audit logs failed'', utf8 [0x8BFB, 0x53D6, 0x5BA1, 0x8BA1, 0x65E5, 0x5FD7, 0x5931, 0x8D25]),
     (''rule or version not found'', utf8 [0x89C4, 0x5219, 0x6216, 0x89C4, 0x5219, 0x7248, 0x672C, 0x4E0D, 0x5B58,
        0x5728]),
     (''invalid identifier'', utf8 [0x6807, 0x8BC6, 0x7B26, 0x65E0, 0x6548]),
     (''authentication required'', utf8 [0x9700, 0x8981, 0x767B, 0x5F55]),
     (''csrf token is invalid'', ''CSRF '' @ utf8 [0x4EE4, 0x724C, 0x65E0, 0x6548]),
     (''request body is too large'', utf8 [0x8BF7, 0x6C42, 0x4F53, 0x8D85, 0x8FC7, 0x5927, 0x5C0F, 0x9650, 0x5236]),
     (''invalid JSON request body'', ''JSON '' @ utf8 [0x8BF7, 0x6C42, 0x4F53, 0x65E0, 0x6548]),
     (''internal server error'', utf8 [0x670D, 0x52A1, 0x5668, 0x5185, 0x90E8, 0x9519, 0x8BEF]),
     (''ids must not be empty'', utf8 [0x89C4, 0x5219] @ '' ID '' @ utf8 [0x5217, 0x8868, 0x4E0D, 0x80FD, 0x4E3A,
        0x7A7A]),
     (''unsupported batch operation'', utf8 [0x4E0D, 0x652F, 0x6301, 0x7684, 0x6279, 0x91CF, 0x64CD, 0x4F5C]),
     (''priority must be between 0 and 1000'', utf8 [0x4F18, 0x5148, 0x7EA7, 0x5FC5, 0x987B, 0x5728] @ '' 0 ''
        @ utf8 [0x5230] @ '' 1000 '' @ utf8 [0x4E4B, 0x95F4]),
     (''comment exceeds 500 characters'', utf8 [0x5907, 0x6CE8, 0x4E0D, 0x80FD, 0x8D85, 0x8FC7] @ '' 500 ''
        @ utf8 [0x4E2A, 0x5B57, 0x7B26]),
     (''invalid category/action'', utf8 [0x89C4, 0x5219, 0x7C7B, 0x522B, 0x6216, 0x52A8, 0x4F5C, 0x65E0, 0x6548]),
     (''regexp exceeds 512 bytes'', utf8 [0x6B63, 0x5219, 0x8868, 0x8FBE, 0x5F0F, 0x4E0D, 0x80FD, 0x8D85, 0x8FC7]
        @ '' 512 '' @ utf8 [0x5B57, 0x8282]),
     (''duplicate rule pattern in category'', utf8 [0x540C, 0x4E00, 0x7C7B, 0x522B, 0x4E2D, 0x5B58, 0x5728, 0x91CD,
        0x590D, 0x7684, 0x89C4, 0x5219, 0x6A21, 0x5F0F]),
     (''regexp rule limit exceeded'', utf8 [0x6B63, 0x5219, 0x8868, 0x8FBE, 0x5F0F, 0x89C4, 0x5219, 0x6570, 0x91CF,
        0x8D85, 0x51FA, 0x9650, 0x5236]),
     (''regexp is empty'', utf8 [0x6B63, 0x5219, 0x8868, 0x8FBE, 0x5F0F, 0x4E0D, 0x80FD, 0x4E3A, 0x7A7A]),
     (''invalid match type'', utf8 [0x5339, 0x914D, 0x7C7B, 0x578B, 0x65E0, 0x6548]),
     (''invalid domain pattern'', utf8 [0x57DF, 0x540D, 0x6A21, 0x5F0F, 0x65E0, 0x6548]),
     (''invalid domain length'', utf8 [0x57DF, 0x540D, 0x957F, 0x5EA6, 0x65E0, 0x6548]),
     (''invalid domain label'', utf8 [0x57DF, 0x540D, 0x6807, 0x7B7E, 0x65E0, 0x6548]),
     (''at least one device field is required'', utf8 [0x81F3, 0x5C11, 0x9700, 0x8981, 0x63D0, 0x4F9B, 0x4E00,
        0x4E2A, 0x8BBE, 0x5907, 0x5B57, 0x6BB5]),
     (''display_name exceeds 128 characters'', utf8 [0x8BBE, 0x5907, 0x663E, 0x793A, 0x540D, 0x79F0, 0x4E0D, 0x80FD,
        0x8D85, 0x8FC7] @ '' 128 '' @ utf8 [0x4E2A, 0x5B57, 0x7B26]),
     (''note exceeds 500 characters'', utf8 [0x8BBE, 0x5907, 0x5907, 0x6CE8, 0x4E0D, 0x80FD, 0x8D85, 0x8FC7]
        @ '' 500 '' @ utf8 [0x4E2A, 0x5B57, 0x7B26]),
     (''query retention days must be within 1..365'', utf8 [0x67E5, 0x8BE2, 0x4FDD, 0x7559, 0x5929, 0x6570, 0x5FC5,
        0x987B, 0x5728] @ '' 1 '' @ utf8 [0x5230] @ '' 365 '' @ utf8 [0x4E4B, 0x95F4]),
     (''cache TTL must be within 0..604800'', utf8 [0x7F13, 0x5B58] @ '' TTL '' @ utf8 [0x5FC5, 0x987B, 0x5728]
        @ '' 0 '' @ utf8 [0x5230] @ '' 604800 '' @ utf8 [0x4E4B, 0x95F4]),
     (''invalid upstream group'', utf8 [0x4E0A, 0x6E38, 0x7EC4, 0x65E0, 0x6548]),
     (''subscription source_url must be an HTTP(S) URL'', utf8 [0x8BA2, 0x9605, 0x5730, 0x5740, 0x5FC5, 0x987B,
        0x662F] @ '' HTTP '' @ utf8 [0x6216] @ '' HTTPS URL''),
     (''subscription file must contain 1..20971520 bytes'', utf8 [0x8BA2, 0x9605, 0x6587, 0x4EF6, 0x5927, 0x5C0F,
        0x5FC5, 0x987B, 0x5728] @ '' 1 '' @ utf8 [0x5230] @ '' 20971520 '' @ utf8 [0x5B57, 0x8282, 0x4E4B, 0x95F4]),
     (''subscription upload must be a .txt file'', utf8 [0x8BA2, 0x9605, 0x4E0A, 0x4F20, 0x6587, 0x4EF6, 0x5FC5,
        0x987B, 0x662F] @ '' .txt '' @ utf8 [0x6587, 0x4EF6]),
     (''invalid event batch'', utf8 [0x67E5, 0x8BE2, 0x4E8B, 0x4EF6, 0x6279, 0x6B21, 0x65E0, 0x6548]),
     (''invalid event'', utf8 [0x67E5, 0x8BE2, 0x4E8B, 0x4EF6, 0x65E0, 0x6548]),
     (''invalid event fields'', utf8 [0x67E5, 0x8BE2, 0x4E8B, 0x4EF6, 0x5B57, 0x6BB5, 0x65E0, 0x6548]),
     (''invalid event values'', utf8 [0x67E5, 0x8BE2, 0x4E8B, 0x4EF6, 0x5B57, 0x6BB5, 0x503C, 0x65E0, 0x6548]),
     (''invalid event route'', utf8 [0x67E5, 0x8BE2, 0x4E8B, 0x4EF6, 0x8DEF, 0x7531, 0x65E0, 0x6548]),
     (''event field exceeds limit'', utf8 [0x67E5, 0x8BE2, 0x4E8B, 0x4EF6, 0x5B57, 0x6BB5, 0x8D85, 0x8FC7, 0x957F,
        0x5EA6, 0x9650, 0x5236]),
     (''too many answer IPs'', utf8 [0x5E94, 0x7B54] @ '' IP '' @ utf8 [0x6570, 0x91CF, 0x8D85, 0x8FC7, 0x9650,
        0x5236]),
     (''invalid answer IP'', utf8 [0x5E94, 0x7B54] @ '' IP '' @ utf8 [0x65E0, 0x6548]),
     (''too many answer records'', utf8 [0x5E94, 0x7B54, 0x8BB0, 0x5F55, 0x6570, 0x91CF, 0x8D85, 0x8FC7, 0x9650,
        0x5236]),
     (''invalid answer record'', utf8 [0x5E94, 0x7B54, 0x8BB0, 0x5F55, 0x65E0, 0x6548]),
     (''answer records exceed size limit'', utf8 [0x5E94, 0x7B54, 0x8BB0, 0x5F55, 0x8D85, 0x8FC7, 0x5927, 0x5C0F,
        0x9650, 0x5236]),
     (''invalid cursor'', utf8 [0x5206, 0x9875, 0x6E38, 0x6807, 0x65E0, 0x6548]),
     (''invalid client_ip'', ''client_ip '' @ utf8 [0x53C2, 0x6570, 0x65E0, 0x6548]),
     (''invalid route'', ''route '' @ utf8 [0x53C2, 0x6570, 0x65E0, 0x6548]),
     (''invalid qname_match'', ''qname_match '' @ utf8 [0x53C2, 0x6570, 0x65E0, 0x6548]),
     (''invalid qtype'', ''qtype '' @ utf8 [0x53C2, 0x6570, 0x65E0, 0x6548]),
     (''invalid rcode'', ''rcode '' @ utf8 [0x53C2, 0x6570, 0x65E0, 0x6548]),
     (''invalid time range'', utf8 [0x65F6, 0x95F4, 0x8303, 0x56F4, 0x65E0, 0x6548]),
     (''qname contains requires a time range of at most 7 days'', ''qname contains '' @ utf8 [0x7B5B, 0x9009, 0x7684,
        0x65F6, 0x95F4, 0x8303, 0x56F4, 0x4E0D, 0x80FD, 0x8D85, 0x8FC7] @ '' 7 '' @ utf8 [0x5929]),
     (''invalid statistic'', utf8 [0x7EDF, 0x8BA1, 0x7C7B, 0x578B, 0x65E0, 0x6548]),
     (''invalid credentials'', utf8 [0x51ED, 0x636E, 0x65E0, 0x6548]),
     (''password must be at least 8 characters'', utf8 [0x5BC6, 0x7801, 0x81F3, 0x5C11, 0x9700, 0x8981] @ '' 8 ''
        @ utf8 [0x4E2A, 0x5B57, 0x7B26]),
     (''username must be 3-64 characters and password at least 8 characters'', utf8 [0x7528, 0x6237, 0x540D, 0x957F,
        0x5EA6, 0x5FC5, 0x987B, 0x4E3A] @ '' 3 '' @ utf8 [0x5230] @ '' 64 '' @ utf8 [0x4E2A, 0x5B57, 0x7B26, 0xFF0C,
        0x5BC6, 0x7801, 0x81F3, 0x5C11, 0x9700, 0x8981] @ '' 8 '' @ utf8 [0x4E2A, 0x5B57, 0x7B26]),
     (''runtime checksum does not match active version'', utf8 [0x8FD0, 0x884C, 0x65F6, 0x6821, 0x9A8C, 0x548C,
        0x4E0E, 0x5F53, 0x524D, 0x751F, 0x6548, 0x7248, 0x672C, 0x4E0D, 0x5339, 0x914D]),
     (''mosdns rejected snapshot'', ''mosdns '' @ utf8 [0x62D2, 0x7EDD, 0x4E86, 0x89C4, 0x5219, 0x5FEB, 0x7167]),
     (''mosdns returned a different checksum'', ''mosdns '' @ utf8 [0x8FD4, 0x56DE, 0x7684, 0x6821, 0x9A8C, 0x548C,
        0x4E0D, 0x4E00, 0x81F4]),
     (''mosdns retained previous snapshot'', ''mosdns '' @ utf8 [0x4FDD, 0x7559, 0x4E86, 0x5148, 0x524D, 0x7684,
        0x89C4, 0x5219, 0x5FEB, 0x7167]),
     (''invalid apply response'', ''mosdns '' @ utf8 [0x8FD4, 0x56DE, 0x7684, 0x53D1, 0x5E03, 0x7ED3, 0x679C, 0x65E0,
        0x6548])]"

text \<open>The texts by cases: the two of an upstream address, and one for each group of codes.\<close>

definition bad_address_text :: string where
  "bad_address_text = utf8 [0x4E0A, 0x6E38, 0x5730, 0x5740, 0x683C, 0x5F0F, 0x65E0, 0x6548, 0xFF0C, 0x8BF7, 0x8F93,
     0x5165] @ '' IP'' @ utf8 [0x3001, 0x4E3B, 0x673A, 0x540D, 0x6216, 0x5E26, 0x534F, 0x8BAE, 0x7684, 0x5B8C,
     0x6574, 0x5730, 0x5740]"

definition bad_scheme_text :: string where
  "bad_scheme_text = utf8 [0x4E0A, 0x6E38, 0x5730, 0x5740, 0x534F, 0x8BAE, 0x4E0D, 0x53D7, 0x652F, 0x6301, 0xFF0C,
     0x8BF7, 0x4F7F, 0x7528] @ '' udp'' @ utf8 [0x3001] @ ''tcp'' @ utf8 [0x3001] @ ''tls'' @ utf8 [0x3001]
     @ ''https '' @ utf8 [0x6216] @ '' quic''"

definition validation_failed_text :: string where
  "validation_failed_text = utf8 [0x8BF7, 0x6C42, 0x53C2, 0x6570, 0x6821, 0x9A8C, 0x5931, 0x8D25]"

definition mosdns_down_text :: string where
  "mosdns_down_text = ''mosdns '' @ utf8 [0x670D, 0x52A1, 0x4E0D, 0x53EF, 0x7528]"

definition settings_failed_text :: string where
  "settings_failed_text = utf8 [0x8BBE, 0x7F6E, 0x5E94, 0x7528, 0x5931, 0x8D25]"

definition subscription_failed_text :: string where
  "subscription_failed_text = utf8 [0x8BA2, 0x9605, 0x6E90, 0x64CD, 0x4F5C, 0x5931, 0x8D25]"

definition request_failed_text :: string where
  "request_failed_text = utf8 [0x8BF7, 0x6C42, 0x5904, 0x7406, 0x5931, 0x8D25]"

definition subscription_codes :: "string list" where
  "subscription_codes = [''SUBSCRIPTION_CREATE_FAILED'', ''SUBSCRIPTION_UPLOAD_FAILED'', ''SUBSCRIPTION_UPDATE_FAILED'',
     ''SUBSCRIPTION_REFRESH_FAILED'', ''SUBSCRIPTION_DELETE_FAILED'']"

definition chineseErrorMessage :: "string \<Rightarrow> string \<Rightarrow> string" where
  "chineseErrorMessage code message =
     (case map_of localized message of Some t \<Rightarrow> t
      | None \<Rightarrow>
          if code = ''VALIDATION_ERROR'' \<and> Contains message ''address must be a valid'' then bad_address_text
          else if code = ''VALIDATION_ERROR'' \<and> Contains message ''uses an unsupported scheme'' then bad_scheme_text
          else if code = ''VALIDATION_ERROR'' then validation_failed_text
          else if code = ''MOSDNS_UNAVAILABLE'' then mosdns_down_text
          else if code = ''SETTINGS_APPLY_FAILED'' then settings_failed_text
          else if code \<in> set subscription_codes then subscription_failed_text
          else request_failed_text)"

text \<open>The texts a user can be shown, whatever the cause of an error.\<close>

definition user_texts :: "string list" where
  "user_texts = map snd localized @ [bad_address_text, bad_scheme_text, validation_failed_text, mosdns_down_text,
     settings_failed_text, subscription_failed_text, request_failed_text]"

lemma chinese_user_text [simp]: "chineseErrorMessage code message \<in> set user_texts"
proof (cases "map_of localized message")
  case None
  then show ?thesis by (simp add: chineseErrorMessage_def user_texts_def)
next
  case (Some t)
  then have "t \<in> snd ` set localized" by (force dest: map_of_SomeD)
  with Some show ?thesis by (simp add: chineseErrorMessage_def user_texts_def)
qed

text \<open>
  The messages of the conflicts an editor has to resolve have no entry, so their answers only say that
  the request failed.
\<close>

lemma conflict_texts:
  "chineseErrorMessage ''RULE_CONFLICT'' ''rule changed; refresh and retry'' = request_failed_text"
  "chineseErrorMessage ''VERSION_CONFLICT'' ''upstream registry changed; refresh and retry'' = request_failed_text"
  by (simp_all add: chineseErrorMessage_def localized_def subscription_codes_def)

end
