(* ===== verification/StatusPage.thy ===== *)
theory StatusPage
  imports Operations CacheClient Messages
begin

text \<open>
  The status page: the resident set of the process (\<open>internal/operations/memory.go\<close>), the sizes of
  the database files, the two runtimes and the times of the last ingestion and retention
  (\<open>SystemStatus\<close> of \<open>internal/operations/service.go\<close>), and the version (\<open>internal/version\<close>). The files read
  and the values set by the linker are parameters.
\<close>

section \<open>Fields of a line\<close>

text \<open>\<open>strings.Fields\<close>: the maximal runs of runes that are not spaces; \<open>word\<close> is the run being read.\<close>

definition emit :: "string \<Rightarrow> string list \<Rightarrow> string list" where
  "emit word rest = (if word = [] then rest else word # rest)"

function fields_loop :: "string \<Rightarrow> string \<Rightarrow> string list" where
  "fields_loop word [] = emit word []"
| "fields_loop word (c # r) =
     (case find (HasPrefix (c # r)) space_runes of
        Some p \<Rightarrow> emit word (fields_loop [] (drop (length p - 1) r))
      | None \<Rightarrow> fields_loop (word @ [c]) r)"
  by pat_completeness auto
termination by (relation "measure (\<lambda>(word, s). length s)") auto

definition Fields :: "string \<Rightarrow> string list" where
  "Fields s = fields_loop [] s"

section \<open>Memory of the process\<close>

text \<open>The product is an \<open>int64\<close> and may wrap.\<close>

definition kilobytes :: "int \<Rightarrow> int" where
  "kilobytes value = sint (word_of_int (value * 1024) :: 64 word)"

fun rss_lines :: "string list \<Rightarrow> int" where
  "rss_lines [] = 0"
| "rss_lines (line # ls) =
     (let fields = Fields line in
      if length fields \<noteq> 3 \<or> fields ! 0 \<noteq> ''VmRSS:'' \<or> fields ! 2 \<noteq> ''kB'' then rss_lines ls
      else case ParseInt (fields ! 1) of Inr value \<Rightarrow> (if 0 \<le> value then kilobytes value else 0) | Inl _ \<Rightarrow> 0)"

definition processRSSBytes :: "error + string \<Rightarrow> int" where
  "processRSSBytes readFile = (case readFile of Inl _ \<Rightarrow> 0 | Inr data \<Rightarrow> rss_lines (Split (CHR 0x0A) data))"

section \<open>The status\<close>

record DatabaseStatus =
  ds_Bytes :: int
  ds_WALBytes :: int

text \<open>An absent status is \<open>None\<close> and its error says so.\<close>

record SystemStatus =
  ss_Database :: DatabaseStatus
  ss_ControllerMemoryRSSBytes :: int
  ss_Mosdns :: "Status option"
  ss_MosdnsError :: string
  ss_LastSuccessfulIngest :: string
  ss_LastRetention :: string
  ss_Audit :: "AuditStatus option"
  ss_AuditError :: string

text \<open>What the page reads outside the services: \<open>os.Stat\<close>, \<open>/proc/self/status\<close>, the audit plugin, the path of the database.\<close>

record 'm status_sources =
  sy_Stat :: "string \<Rightarrow> 'm \<Rightarrow> int option"
  sy_ProcStatus :: "'m \<Rightarrow> error + string"
  sy_AuditStatus :: "'m \<Rightarrow> (error + AuditStatus) \<times> 'm"
  sy_dbPath :: string

definition fileSize :: "'m status_sources \<Rightarrow> string \<Rightarrow> 'm \<Rightarrow> int" where
  "fileSize Y path m = (if path = '''' \<or> path = '':memory:'' then 0
     else case sy_Stat Y path m of None \<Rightarrow> 0 | Some n \<Rightarrow> n)"

definition DatabaseStatus_of :: "'m status_sources \<Rightarrow> 'm \<Rightarrow> DatabaseStatus" where
  "DatabaseStatus_of Y m = \<lparr>ds_Bytes = fileSize Y (sy_dbPath Y) m, ds_WALBytes = fileSize Y (sy_dbPath Y @ ''-wal'') m\<rparr>"

definition mosdns_unavailable :: string where
  "mosdns_unavailable = ''mosdns '' @ utf8 [0x8FD0, 0x884C, 0x65F6, 0x4E0D, 0x53EF, 0x7528]"

definition audit_unavailable :: string where
  "audit_unavailable = utf8 [0x67E5, 0x8BE2, 0x5BA1, 0x8BA1, 0x8FD0, 0x884C, 0x65F6, 0x4E0D, 0x53EF, 0x7528]"

definition select_times :: "db \<Rightarrow> error + (string \<times> string) list" where
  "select_times d = Inr (concat (map (\<lambda>k. case d_state d k of None \<Rightarrow> [] | Some v \<Rightarrow> [(k, v)])
     [''last_retention_at'', ''last_successful_ingest_at'']))"

fun read_times :: "(string \<times> string) list \<Rightarrow> SystemStatus \<Rightarrow> SystemStatus" where
  "read_times [] s = s"
| "read_times ((key, v) # rows) s =
     read_times rows (if key = ''last_successful_ingest_at'' then s\<lparr>ss_LastSuccessfulIngest := v\<rparr>
                      else s\<lparr>ss_LastRetention := v\<rparr>)"

definition SystemStatus_of :: "'m client \<Rightarrow> 'm status_sources \<Rightarrow> (error, 'm world, SystemStatus) prog" where
  "SystemStatus_of C Y =
     bindM (call (\<lambda>m. (Inr (DatabaseStatus_of Y m, processRSSBytes (sy_ProcStatus Y m)), m))) (\<lambda>(database, rss).
     bindM (attemptM (call (c_Status C))) (\<lambda>st.
     bindM (attemptM (call (sy_AuditStatus Y))) (\<lambda>au.
       let result = \<lparr>ss_Database = database, ss_ControllerMemoryRSSBytes = rss,
           ss_Mosdns = (case st of Inl _ \<Rightarrow> None | Inr s \<Rightarrow> Some s),
           ss_MosdnsError = (case st of Inl _ \<Rightarrow> mosdns_unavailable | Inr _ \<Rightarrow> ''''),
           ss_LastSuccessfulIngest = '''', ss_LastRetention = '''',
           ss_Audit = (case au of Inl _ \<Rightarrow> None | Inr s \<Rightarrow> Some s),
           ss_AuditError = (case au of Inl _ \<Rightarrow> audit_unavailable | Inr _ \<Rightarrow> '''')\<rparr> in
       bindM (attemptM (db_query select_times)) (\<lambda>rows.
       returnM (case rows of Inl _ \<Rightarrow> result | Inr rows \<Rightarrow> read_times rows result)))))"

section \<open>The version\<close>

text \<open>The variables of the package, which the linker sets.\<close>

record version_vars =
  ProjectVersion :: string
  GitCommit :: string
  MosdnsBase :: string
  BuildTime :: string

definition Info :: "version_vars \<Rightarrow> (string \<times> string) list" where
  "Info V = [(''version'', ProjectVersion V), (''git_commit'', GitCommit V), (''mosdns_base'', MosdnsBase V),
     (''build_time'', BuildTime V)]"

definition String_of :: "version_vars \<Rightarrow> string" where
  "String_of V = ''version='' @ ProjectVersion V @ '' commit='' @ GitCommit V @ '' mosdns_base='' @ MosdnsBase V
     @ '' build_time='' @ BuildTime V"

section \<open>What the page shows\<close>

text \<open>A run of visible ASCII characters is a field, and blanks separate.\<close>

lemma space_head: "find (HasPrefix (CHR '' '' # s)) space_runes = Some '' ''"
  "find (HasPrefix (CHR 0x09 # s)) space_runes = Some [CHR 0x09]"
  by (simp_all add: space_runes_def)

definition no_space :: "string \<Rightarrow> bool" where
  "no_space s = (\<forall>c \<in> set s. (0x20 :: nat) < of_char c \<and> of_char c < (0x80 :: nat))"

lemma space_lead: "p \<in> set space_runes \<Longrightarrow> of_char (hd p) \<le> (0x20 :: nat) \<or> (0x80 :: nat) \<le> of_char (hd p)"
  by (auto simp: space_runes_def)

lemma no_space_head:
  assumes "no_space (c # s)"
  shows "find (HasPrefix (c # t)) space_runes = None"
proof -
  have "\<not> HasPrefix (c # t) p" if "p \<in> set space_runes" for p
    using space_lead [OF that] space_runes_nonempty [OF that] assms by (cases p) (auto simp: no_space_def)
  then show ?thesis by (auto simp: find_None_iff)
qed

lemma fields_word: "no_space u \<Longrightarrow> fields_loop w (u @ s) = fields_loop (w @ u) s"
proof (induction u arbitrary: w)
  case (Cons c u)
  then have "no_space u" by (simp add: no_space_def)
  with Cons no_space_head [OF Cons.prems] show ?case by simp
qed simp

lemma fields_spaces: "fields_loop [] (replicate n (CHR '' '') @ s) = fields_loop [] s"
  by (induction n) (simp_all add: space_head emit_def)

lemma no_space_show_nat: "no_space (show_nat n)"
  unfolding no_space_def
proof
  fix c assume "c \<in> set (show_nat n)"
  then show "(0x20 :: nat) < of_char c \<and> of_char c < (0x80 :: nat)"
    using show_nat_digits [of c n] by (auto simp: char_digit_def Let_def split: if_splits)
qed

text \<open>The resident set reported is that of the first \<open>VmRSS\<close> line, in bytes.\<close>

definition rss_line :: "nat \<Rightarrow> nat \<Rightarrow> string" where
  "rss_line k n = ''VmRSS:'' @ CHR 0x09 # replicate k (CHR '' '') @ show_nat n @ '' kB''"

lemma fields_rss:
  "Fields (rss_line k n) = [''VmRSS:'', show_nat n, ''kB'']"
proof -
  have w: "no_space ''VmRSS:''" "no_space ''kB''" by (simp_all add: no_space_def)
  show ?thesis
    unfolding Fields_def rss_line_def
    using fields_word [OF w(1), of "[]"] fields_word [OF no_space_show_nat, of "[]"] fields_word [OF w(2), of "[]" "[]"]
    by (simp add: space_head fields_spaces emit_def del: append.simps)
qed

lemma kilobytes_exact:
  assumes "n < 2 ^ 53"
  shows "kilobytes (int n) = 1024 * int n"
proof -
  have "int n < 2 ^ 53" using assms by (metis of_nat_less_iff of_nat_numeral of_nat_power)
  then show ?thesis unfolding kilobytes_def sint_sbintrunc' by (simp add: signed_take_bit_int_eq_self)
qed

lemma ParseInt_show_nat: "n < 2 ^ 53 \<Longrightarrow> ParseInt (show_nat n) = Inr (int n)"
  using ParseInt_FormatInt [of "int n"] by (simp add: FormatInt_def int64_min_def int64_max_def)

lemma rss_found:
  assumes "\<forall>l \<in> set pre. Fields l = [] \<or> hd (Fields l) \<noteq> ''VmRSS:''" and "n < 2 ^ 53"
  shows "rss_lines (pre @ rss_line k n # post) = 1024 * int n"
  using assms(1)
proof (induction pre)
  case Nil
  then show ?case
    using assms(2) by (simp add: fields_rss ParseInt_show_nat kilobytes_exact)
next
  case (Cons l pre)
  then have "length (Fields l) \<noteq> 3 \<or> Fields l ! 0 \<noteq> ''VmRSS:''" by (cases "Fields l") auto
  with Cons show ?case by (auto simp: Let_def)
qed

text \<open>
  The page is always answered and reads only; each runtime is shown or said to be down, and a time
  that is shown is the one recorded.
\<close>

lemma unavailable_texts: "mosdns_unavailable \<noteq> ''''" "audit_unavailable \<noteq> ''''"
  by (simp_all add: mosdns_unavailable_def audit_unavailable_def utf8_def utf8_rune_def)

lemma SystemStatus_wp:
  "wp (SystemStatus_of C Y) (\<lambda>_ _. False)
     (\<lambda>s w'. w_db w' = w_db w \<and> (ss_Mosdns s = None \<longleftrightarrow> ss_MosdnsError s \<noteq> '''') \<and> (ss_Audit s = None \<longleftrightarrow> ss_AuditError s \<noteq> '''')
        \<and> (ss_LastSuccessfulIngest s = '''' \<or> d_state (w_db w) ''last_successful_ingest_at'' = Some (ss_LastSuccessfulIngest s))
        \<and> (ss_LastRetention s = '''' \<or> d_state (w_db w) ''last_retention_at'' = Some (ss_LastRetention s))) w"
  unfolding SystemStatus_of_def Let_def
  by (intro wp_intros) (auto simp: unavailable_texts select_times_def split: option.splits sum.splits)

end
