(* ===== verification/App.thy ===== *)
theory App
  imports RuleSystem QueryIngest Auth LoginLimiter HostPort StatusPage
begin

text \<open>
  The HTTP interface (\<open>internal/app/app.go\<close>): the routes with their guards, the handlers with the
  answer for each outcome of the services. The router and the JSON decoder are parameters: a
  route is an entry of a table, and a decoded body is a value of the type of its target. What is
  outside the services is the state of the ingestion service, of the login limiter, and the rest.
\<close>

section \<open>Requests and responses\<close>

type_synonym 'n outside = "ingest_state \<times> limiter \<times> 'n"
type_synonym 'n aworld = "'n outside world"

text \<open>\<open>values.Get\<close> of an absent parameter is the empty string. \<open>rq_ID\<close> is the request id the middleware made.\<close>

record form =
  fm_Value :: "string \<Rightarrow> string"
  fm_File :: "(string \<times> string) option"

record http_request =
  rq_ID :: string
  rq_Cookie :: "string option"
  rq_CSRF :: string
  rq_Authorization :: string
  rq_UserAgent :: string
  rq_RemoteAddr :: string
  rq_Param :: "string \<Rightarrow> string"
  rq_Query :: "string \<Rightarrow> string"
  rq_Form :: "form option"
  rq_Body :: string

datatype payload =
    P_Status string | P_Token string | P_Flag string bool | P_Admin Admin | P_Rules "Rule list" | P_Count "Rule list" nat
  | P_Version Version | P_Versions "Version list" | P_Snapshot Snapshot | P_Test string | P_Accepted nat
  | P_Page "StoredEvent list" string | P_Diagnostics AnswerDiagnostics | P_Stream nat | P_Summary Summary
  | P_Top "(top_key \<times> int) list" | P_Latency "latency_row list" | P_Devices "Device list" | P_Device Device
  | P_Runtime RegistryRuntimeStatus | P_Registry RegistrySnapshot | P_Settings Settings
  | P_Subscriptions "Subscription list" | P_Subscription Subscription "Version option" | P_Audit "AuditLog list" string
  | P_Info "(string \<times> string) list" | P_System "(string \<times> string) list" SystemStatus nat

text \<open>A body is data, or an error code with its message.\<close>

record http_response =
  rs_Status :: nat
  rs_Body :: "payload + (string \<times> string)"
  rs_RequestID :: string
  rs_Cookie :: "(string \<times> int) option"
  rs_NoStore :: bool

datatype 'a decoded = Parsed 'a | TooLarge | Malformed

text \<open>\<open>json.Decoder\<close> on the bodies, one function per type of target.\<close>

record decoders =
  dc_Credentials :: "string \<Rightarrow> (string \<times> string) decoded"
  dc_Passwords :: "string \<Rightarrow> (string \<times> string) decoded"
  dc_Rule :: "string \<Rightarrow> Rule decoded"
  dc_BatchEdit :: "string \<Rightarrow> (string \<times> int list \<times> uint64 option) decoded"
  dc_Rules :: "string \<Rightarrow> Rule list decoded"
  dc_Expected :: "string \<Rightarrow> uint64 option decoded"
  dc_QName :: "string \<Rightarrow> string decoded"
  dc_Events :: "string \<Rightarrow> EventBatch decoded"
  dc_Device :: "string \<Rightarrow> DevicePatch decoded"
  dc_Group :: "string \<Rightarrow> UpstreamGroupWrite decoded"
  dc_Precondition :: "string \<Rightarrow> uint64 decoded"
  dc_Settings :: "string \<Rightarrow> Settings decoded"
  dc_Subscription :: "string \<Rightarrow> SubscriptionInput decoded"
  dc_Enabled :: "string \<Rightarrow> bool decoded"
  dc_Binding :: "string \<Rightarrow> BindingInput decoded"

text \<open>The application: the services it is made of and their parameters.\<close>

record 'n app =
  ap_rlib :: rlib
  ap_client :: "'n outside client"
  ap_fetcher :: "'n outside fetcher"
  ap_auth :: "'n outside authlib"
  ap_ingest :: "(limiter \<times> 'n) ingestlib"
  ap_evict :: "limiter \<Rightarrow> nat"
  ap_decode :: decoders
  ap_Match :: "string \<Rightarrow> 'n outside \<Rightarrow> (error + string) \<times> 'n outside"
  ap_status :: "'n outside status_sources"
  ap_version :: version_vars

type_synonym 'n handler = "http_request \<Rightarrow> (error, 'n aworld, http_response) prog"

definition writeData :: "http_request \<Rightarrow> nat \<Rightarrow> payload \<Rightarrow> http_response" where
  "writeData rq status body =
     \<lparr>rs_Status = status, rs_Body = Inl body, rs_RequestID = rq_ID rq, rs_Cookie = None, rs_NoStore = False\<rparr>"

definition writeError :: "http_request \<Rightarrow> nat \<Rightarrow> string \<Rightarrow> string \<Rightarrow> http_response" where
  "writeError rq status code message =
     \<lparr>rs_Status = status, rs_Body = Inr (code, chineseErrorMessage code message), rs_RequestID = rq_ID rq, rs_Cookie = None, rs_NoStore = False\<rparr>"

definition decodeJSON :: "http_request \<Rightarrow> (string \<Rightarrow> 'a decoded) \<Rightarrow> ('a \<Rightarrow> (error, 'n aworld, http_response) prog) \<Rightarrow>
    (error, 'n aworld, http_response) prog" where
  "decodeJSON rq decode next = (case decode (rq_Body rq) of
       Parsed a \<Rightarrow> next a
     | TooLarge \<Rightarrow> returnM (writeError rq 413 ''LIMIT_EXCEEDED'' ''request body is too large'')
     | Malformed \<Rightarrow> returnM (writeError rq 400 ''VALIDATION_ERROR'' ''invalid JSON request body''))"

definition pathID :: "http_request \<Rightarrow> string \<Rightarrow> (int \<Rightarrow> (error, 'n aworld, http_response) prog) \<Rightarrow>
    (error, 'n aworld, http_response) prog" where
  "pathID rq name next = (case ParseInt (rq_Param rq name) of
       Inr i \<Rightarrow> if i \<le> 0 then returnM (writeError rq 400 ''VALIDATION_ERROR'' ''invalid identifier'') else next i
     | Inl _ \<Rightarrow> returnM (writeError rq 400 ''VALIDATION_ERROR'' ''invalid identifier''))"

definition sessionToken :: "http_request \<Rightarrow> string" where
  "sessionToken rq = (case rq_Cookie rq of None \<Rightarrow> '''' | Some v \<Rightarrow> v)"

definition remoteIP :: "http_request \<Rightarrow> string" where
  "remoteIP rq = (case SplitHostPort (rq_RemoteAddr rq) of None \<Rightarrow> TrimSpace (rq_RemoteAddr rq) | Some (host, _) \<Rightarrow> host)"

text \<open>The two results of a call and what the handler makes of them.\<close>

definition answer :: "('e, 'n aworld, 'a) prog \<Rightarrow> ('a \<Rightarrow> http_response) \<Rightarrow> ('e \<Rightarrow> http_response) \<Rightarrow>
    (error, 'n aworld, http_response) prog" where
  "answer m ok bad = bindM (attemptM m) (\<lambda>r. returnM (case r of Inr a \<Rightarrow> ok a | Inl e \<Rightarrow> bad e))"

section \<open>The guards\<close>

definition requireSession :: "'n app \<Rightarrow> (Admin \<Rightarrow> 'n handler) \<Rightarrow> 'n handler" where
  "requireSession A next rq =
     bindM (attemptM (SessionOf (ap_auth A) (sessionToken rq))) (\<lambda>r. case r of
       Inl _ \<Rightarrow> returnM (writeError rq 401 ''AUTH_REQUIRED'' ''authentication required'')
     | Inr admin \<Rightarrow> next admin rq)"

definition requireCSRF :: "'n app \<Rightarrow> 'n handler \<Rightarrow> 'n handler" where
  "requireCSRF A next rq =
     bindM (VerifyCSRF (ap_auth A) (sessionToken rq) (rq_CSRF rq)) (\<lambda>ok.
     if ok then next rq else returnM (writeError rq 403 ''FORBIDDEN'' ''csrf token is invalid''))"

section \<open>Sessions\<close>

text \<open>The limiter counts in nanoseconds.\<close>

definition on_limiter :: "(int \<Rightarrow> limiter \<Rightarrow> 'a \<times> limiter) \<Rightarrow> (error, 'n aworld, 'a) prog" where
  "on_limiter f = bindM time_now (\<lambda>now. call (\<lambda>(s, l, m). case f (now * 1000000) l of (r, l') \<Rightarrow> (Inr r, (s, l', m))))"

definition allowed :: "string \<Rightarrow> (error, 'n aworld, bool) prog" where
  "allowed ip = on_limiter (Allowed ip)"

definition failed :: "'n app \<Rightarrow> string \<Rightarrow> (error, 'n aworld, unit) prog" where
  "failed A ip = on_limiter (\<lambda>now l. ((), Failed_login (ap_evict A) ip now l))"

definition succeeded :: "string \<Rightarrow> (error, 'n aworld, unit) prog" where
  "succeeded ip = call (\<lambda>(s, l, m). (Inr (), (s, Succeeded ip l, m)))"

definition set_cookie :: "'n app \<Rightarrow> string \<Rightarrow> http_response \<Rightarrow> http_response" where
  "set_cookie A token resp = resp\<lparr>rs_Cookie := Some (token, al_ttl (ap_auth A) div 1000)\<rparr>"

definition login :: "'n app \<Rightarrow> 'n handler" where
  "login A rq =
     (let clientIP = remoteIP rq in
      bindM (allowed clientIP) (\<lambda>ok.
      if \<not> ok then returnM (writeError rq 429 ''LOGIN_RATE_LIMITED'' ''too many login attempts'')
      else decodeJSON rq (dc_Credentials (ap_decode A)) (\<lambda>(username, password).
        bindM (attemptM (Login (ap_auth A) username password clientIP (rq_UserAgent rq))) (\<lambda>r. case r of
          Inl _ \<Rightarrow> bindM (failed A clientIP) (\<lambda>_.
            returnM (writeError rq 401 ''AUTH_REQUIRED'' ''invalid username or password''))
        | Inr (token, csrf) \<Rightarrow> bindM (succeeded clientIP) (\<lambda>_.
            returnM (set_cookie A token (writeData rq 200 (P_Token csrf))))))))"

definition bootstrapStatus :: "'n app \<Rightarrow> 'n handler" where
  "bootstrapStatus A rq = answer NeedsInitialAdmin (\<lambda>required. writeData rq 200 (P_Flag ''required'' required))
     (\<lambda>_. writeError rq 503 ''NOT_READY'' ''database is unavailable'')"

definition bootstrap :: "'n app \<Rightarrow> 'n handler" where
  "bootstrap A rq =
     (let clientIP = remoteIP rq in
      bindM (allowed clientIP) (\<lambda>ok.
      if \<not> ok then returnM (writeError rq 429 ''LOGIN_RATE_LIMITED'' ''too many setup attempts'')
      else decodeJSON rq (dc_Credentials (ap_decode A)) (\<lambda>(username, password).
        bindM (attemptM (CreateInitialAdmin (ap_auth A) username password)) (\<lambda>r. case r of
          Inl e \<Rightarrow>
            (if errors_Is e ErrInitialAdminExists
             then returnM (writeError rq 409 ''INITIAL_SETUP_COMPLETE'' ''an administrator already exists'')
             else bindM (failed A clientIP) (\<lambda>_. returnM (writeError rq 400 ''VALIDATION_ERROR'' (Error e))))
        | Inr _ \<Rightarrow>
            bindM (attemptM (Login (ap_auth A) username password clientIP (rq_UserAgent rq))) (\<lambda>r. case r of
              Inl _ \<Rightarrow> returnM (writeError rq 500 ''INTERNAL_ERROR'' ''initial administrator was created but session creation failed'')
            | Inr (token, csrf) \<Rightarrow> bindM (succeeded clientIP) (\<lambda>_.
                returnM (set_cookie A token (writeData rq 201 (P_Token csrf)))))))))"

definition me :: "Admin \<Rightarrow> 'n handler" where
  "me admin rq = returnM (writeData rq 200 (P_Admin admin))"

definition refreshCSRF :: "'n app \<Rightarrow> 'n handler" where
  "refreshCSRF A rq = answer (RefreshCSRF (ap_auth A) (sessionToken rq))
     (\<lambda>csrf. (writeData rq 200 (P_Token csrf))\<lparr>rs_NoStore := True\<rparr>)
     (\<lambda>_. writeError rq 401 ''AUTH_REQUIRED'' ''authentication required'')"

definition logout :: "'n app \<Rightarrow> 'n handler" where
  "logout A rq = answer (Logout (ap_auth A) (sessionToken rq))
     (\<lambda>_. (writeData rq 200 (P_Flag ''logged_out'' True))\<lparr>rs_Cookie := Some ('''', - 1)\<rparr>)
     (\<lambda>_. (writeData rq 200 (P_Flag ''logged_out'' True))\<lparr>rs_Cookie := Some ('''', - 1)\<rparr>)"

definition changePassword :: "'n app \<Rightarrow> Admin \<Rightarrow> 'n handler" where
  "changePassword A admin rq = decodeJSON rq (dc_Passwords (ap_decode A)) (\<lambda>(current, new).
     bindM (attemptM (ChangePasswordKeepingSession (ap_auth A) (a_ID admin) current new (sessionToken rq))) (\<lambda>r. case r of
       Inl e \<Rightarrow> returnM (writeError rq 400 ''VALIDATION_ERROR'' (Error e))
     | Inr _ \<Rightarrow> answer (Audit (a_ID admin) ''update'' ''password'' (FormatInt (a_ID admin)) (rq_ID rq) (remoteIP rq) ''success'' '''')
         (\<lambda>_. writeData rq 200 (P_Flag ''changed'' True)) (\<lambda>_. writeData rq 200 (P_Flag ''changed'' True))))"


section \<open>Rules\<close>

definition publishRule :: "http_request \<Rightarrow> (Version \<times> error, 'n aworld, Version) prog \<Rightarrow> (error, 'n aworld, http_response) prog" where
  "publishRule rq operation = answer operation (\<lambda>value. writeData rq 200 (P_Version value))
     (\<lambda>(value, err).
        if errors_Is err ErrUnknown then writeData rq 202 (P_Version value)
        else if errors_Is err ErrNoRows then writeError rq 404 ''NOT_FOUND'' ''rule or version not found''
        else if errors_Is err ErrRuleConflict then writeError rq 409 ''RULE_CONFLICT'' ''rule changed; refresh and retry''
        else if errors_Is err ErrConflict then writeError rq 409 ''VERSION_CONFLICT'' ''upstream registry changed; refresh and retry''
        else writeError rq 400 ''VALIDATION_ERROR'' (Error err))"

definition listRules :: "'n handler" where
  "listRules rq = answer List (\<lambda>values. writeData rq 200 (P_Rules values))
     (\<lambda>_. writeError rq 500 ''INTERNAL_ERROR'' ''list rules failed'')"

definition createRule :: "'n app \<Rightarrow> Admin \<Rightarrow> 'n handler" where
  "createRule A admin rq = decodeJSON rq (dc_Rule (ap_decode A)) (\<lambda>value.
     publishRule rq (Create (ap_rlib A) (ap_client A) value (a_ID admin) (rq_ID rq) (remoteIP rq)))"

definition updateRule :: "'n app \<Rightarrow> Admin \<Rightarrow> 'n handler" where
  "updateRule A admin rq = pathID rq ''id'' (\<lambda>i. decodeJSON rq (dc_Rule (ap_decode A)) (\<lambda>value.
     publishRule rq (Update (ap_rlib A) (ap_client A) i value (a_ID admin) (rq_ID rq) (remoteIP rq))))"

definition deleteRule :: "'n app \<Rightarrow> Admin \<Rightarrow> 'n handler" where
  "deleteRule A admin rq = pathID rq ''id'' (\<lambda>i.
     publishRule rq (Delete (ap_rlib A) (ap_client A) i (a_ID admin) (rq_ID rq) (remoteIP rq)))"

definition batchRules :: "'n app \<Rightarrow> Admin \<Rightarrow> 'n handler" where
  "batchRules A admin rq = decodeJSON rq (dc_BatchEdit (ap_decode A)) (\<lambda>(operation, ids, expected).
     publishRule rq (Batch (ap_rlib A) (ap_client A) operation ids expected (a_ID admin) (rq_ID rq) (remoteIP rq)))"

definition previewImport :: "'n app \<Rightarrow> 'n handler" where
  "previewImport A rq = decodeJSON rq (dc_Rules (ap_decode A)) (\<lambda>rs. returnM
     (if 200000 < length rs then writeError rq 413 ''LIMIT_EXCEEDED'' ''rule limit exceeded''
      else writeData rq 200 (P_Count rs (length rs))))"

definition importRules :: "'n app \<Rightarrow> Admin \<Rightarrow> 'n handler" where
  "importRules A admin rq = decodeJSON rq (dc_Rules (ap_decode A)) (\<lambda>rs.
     publishRule rq (Import (ap_rlib A) (ap_client A) rs (a_ID admin) (rq_ID rq) (remoteIP rq)))"

definition rollback :: "'n app \<Rightarrow> Admin \<Rightarrow> 'n handler" where
  "rollback A admin rq = pathID rq ''version'' (\<lambda>v. decodeJSON rq (dc_Expected (ap_decode A)) (\<lambda>expected.
     publishRule rq (Rollback (ap_rlib A) (ap_client A) (nat v) expected (a_ID admin) (rq_ID rq) (remoteIP rq))))"

definition listVersions :: "'n handler" where
  "listVersions rq = answer Versions (\<lambda>values. writeData rq 200 (P_Versions values))
     (\<lambda>_. writeError rq 500 ''INTERNAL_ERROR'' ''list versions failed'')"

definition versionDetail :: "'n handler" where
  "versionDetail rq = pathID rq ''version'' (\<lambda>v. answer (getVersion (nat v)) (\<lambda>value. writeData rq 200 (P_Snapshot value))
     (\<lambda>e. if errors_Is e ErrNoRows then writeError rq 404 ''NOT_FOUND'' ''version not found''
          else writeError rq 500 ''INTERNAL_ERROR'' ''read version failed''))"

definition reconcile :: "'n app \<Rightarrow> 'n handler" where
  "reconcile A rq = answer (Reconcile (ap_rlib A) (ap_client A)) (\<lambda>s. writeData rq 200 (P_Status s))
     (\<lambda>(_, e). writeError rq 503 ''MOSDNS_UNAVAILABLE'' (Error e))"

text \<open>\<open>rules.Test\<close> passes the name on to mosdns.\<close>

definition testRule :: "'n app \<Rightarrow> 'n handler" where
  "testRule A rq = decodeJSON rq (dc_QName (ap_decode A)) (\<lambda>qname.
     answer (call (ap_Match A qname)) (\<lambda>result. writeData rq 200 (P_Test result))
       (\<lambda>e. writeError rq 502 ''MOSDNS_UNAVAILABLE'' (Error e)))"

section \<open>Queries and statistics\<close>

definition ingestEvents :: "'n app \<Rightarrow> 'n handler" where
  "ingestEvents A rq = bindM state (\<lambda>s.
     if \<not> Authorized (rq_Authorization rq) s then returnM (writeError rq 401 ''AUTH_REQUIRED'' ''invalid internal token'')
     else decodeJSON rq (dc_Events (ap_decode A)) (\<lambda>batch.
       answer (on_state (Enqueue (ap_ingest A) batch)) (\<lambda>_. writeData rq 202 (P_Accepted (length (ba_Events batch))))
         (\<lambda>e. if errors_Is e ErrOverloaded then writeError rq 503 ''INGEST_OVERLOADED'' ''query ingestion is overloaded''
              else writeError rq 400 ''VALIDATION_ERROR'' (Error e))))"

text \<open>The closures \<open>parseInt\<close> (\<open>Atoi\<close>) and \<open>parseMS\<close> agree; \<open>parseBool\<close>.\<close>

definition parse_int :: "http_request \<Rightarrow> string \<Rightarrow> error + int" where
  "parse_int rq name = (if rq_Query rq name = '''' then Inr 0
     else case ParseInt (rq_Query rq name) of Inl _ \<Rightarrow> Inl (Msg (''invalid '' @ name)) | Inr n \<Rightarrow> Inr n)"

definition parse_bool :: "http_request \<Rightarrow> string \<Rightarrow> error + bool option" where
  "parse_bool rq name = (if rq_Query rq name = '''' then Inr None
     else case ParseBool (rq_Query rq name) of Inl _ \<Rightarrow> Inl (Msg (''invalid '' @ name)) | Inr b \<Rightarrow> Inr (Some b))"

definition queryFromRequest :: "'n app \<Rightarrow> http_request \<Rightarrow> error + Query" where
  "queryFromRequest A rq =
     (case parse_int rq ''limit'' of Inl e \<Rightarrow> Inl e | Inr limit \<Rightarrow>
     (case parse_int rq ''qtype'' of Inl e \<Rightarrow> Inl e | Inr qtype \<Rightarrow>
     (case parse_int rq ''rcode'' of Inl e \<Rightarrow> Inl e | Inr rcode \<Rightarrow>
     (case parse_int rq ''from'' of Inl e \<Rightarrow> Inl e | Inr from_ms \<Rightarrow>
     (case parse_int rq ''to'' of Inl e \<Rightarrow> Inl e | Inr to_ms \<Rightarrow>
     (case parse_bool rq ''cache_hit'' of Inl e \<Rightarrow> Inl e | Inr cacheHit \<Rightarrow>
     (case parse_bool rq ''has_error'' of Inl e \<Rightarrow> Inl e | Inr hasError \<Rightarrow>
       Inr \<lparr>qu_Limit = limit, qu_FromMS = from_ms, qu_ToMS = to_ms, qu_QType = qtype,
         qu_RCode = (if rq_Query rq ''rcode'' \<noteq> '''' then Some rcode else None), qu_CacheHit = cacheHit, qu_HasError = hasError,
         qu_Cursor = rq_Query rq ''cursor'', qu_ClientIP = rq_Query rq ''client_ip'', qu_Route = rq_Query rq ''route'',
         qu_QName = TrimSuffix (ToLower (ap_ingest A) (TrimSpace (rq_Query rq ''qname''))) ''.'',
         qu_QNameMatch = rq_Query rq ''qname_match'', qu_RouteSource = rq_Query rq ''route_source'',
         qu_UpstreamGroup = rq_Query rq ''upstream_group'', qu_UpstreamTag = rq_Query rq ''upstream_tag'',
         qu_Protocol = rq_Query rq ''protocol'', qu_ResultClass = rq_Query rq ''result_class''\<rparr>)))))))"

definition queries :: "'n app \<Rightarrow> 'n handler" where
  "queries A rq = (case queryFromRequest A rq of
       Inl e \<Rightarrow> returnM (writeError rq 400 ''VALIDATION_ERROR'' (Error e))
     | Inr q \<Rightarrow> answer (Queries (ap_ingest A) q) (\<lambda>(items, cursor). writeData rq 200 (P_Page items cursor))
         (\<lambda>e. writeError rq 400 ''VALIDATION_ERROR'' (Error e)))"

definition answerIPs :: "'n handler" where
  "answerIPs rq =
     (let eventID = rq_Param rq ''eventID'' in
      if length eventID = 0 \<or> 128 < length eventID
      then returnM (writeError rq 400 ''VALIDATION_ERROR'' ''invalid event identifier'')
      else bindM state (\<lambda>s. returnM (case AnswerDiagnosticsOf eventID s of (diagnostics, ok) \<Rightarrow>
        if \<not> ok then writeError rq 404 ''ANSWER_DIAGNOSTICS_UNAVAILABLE'' ''answer diagnostics are no longer available in memory''
        else writeData rq 200 (P_Diagnostics diagnostics))))"

text \<open>
  The stream until its loop starts; the loop takes events from the channel (\<open>receive\<close>), the deferred
  \<open>Close\<close> is \<open>close_subscriber\<close>: steps of their own in \<open>ingest_run\<close>.
\<close>

definition queryStream :: "'n app \<Rightarrow> 'n handler" where
  "queryStream A rq = (case queryFromRequest A rq of
       Inl e \<Rightarrow> returnM (writeError rq 400 ''VALIDATION_ERROR'' (Error e))
     | Inr q \<Rightarrow> answer (on_state (Subscribe (ap_ingest A) q)) (\<lambda>i. writeData rq 200 (P_Stream i))
         (\<lambda>e. writeError rq 400 ''VALIDATION_ERROR'' (Error e)))"

definition summary :: "'n handler" where
  "summary rq = answer SummaryOf (\<lambda>r. writeData rq 200 (P_Summary r))
     (\<lambda>_. writeError rq 500 ''INTERNAL_ERROR'' ''read summary failed'')"

text \<open>An \<open>Atoi\<close> out of range gives a limit that \<open>Top\<close> replaces like 0.\<close>

definition statistics :: "'n app \<Rightarrow> string \<Rightarrow> 'n handler" where
  "statistics A kind rq =
     (let limit = (case ParseInt (rq_Query rq ''limit'') of Inl _ \<Rightarrow> 0 | Inr n \<Rightarrow> n) in
      answer (Top (ap_ingest A) kind limit) (\<lambda>items. writeData rq 200 (P_Top items))
        (\<lambda>_. writeError rq 500 ''INTERNAL_ERROR'' ''read statistics failed''))"

definition latency :: "'n handler" where
  "latency rq = answer Latency (\<lambda>items. writeData rq 200 (P_Latency items))
     (\<lambda>_. writeError rq 500 ''INTERNAL_ERROR'' ''read latency failed'')"


section \<open>Devices, upstream groups, settings\<close>

definition devices :: "'n handler" where
  "devices rq = answer Devices (\<lambda>items. writeData rq 200 (P_Devices items))
     (\<lambda>_. writeError rq 500 ''INTERNAL_ERROR'' ''list devices failed'')"

definition upstreamRuntimeStatus :: "'n app \<Rightarrow> 'n handler" where
  "upstreamRuntimeStatus A rq = answer (UpstreamRuntimeStatus (ap_client A))
     (\<lambda>status. (writeData rq 200 (P_Runtime status))\<lparr>rs_NoStore := True\<rparr>)
     (\<lambda>_. writeError rq 502 ''MOSDNS_UNAVAILABLE'' ''upstream runtime status is unavailable'')"

definition updateDevice :: "'n app \<Rightarrow> Admin \<Rightarrow> 'n handler" where
  "updateDevice A admin rq = pathID rq ''id'' (\<lambda>i. decodeJSON rq (dc_Device (ap_decode A)) (\<lambda>patch.
     answer (UpdateDevice i patch (a_ID admin) (rq_ID rq) (remoteIP rq)) (\<lambda>device. writeData rq 200 (P_Device device))
       (\<lambda>e. if errors_Is e ErrNoRows then writeError rq 404 ''NOT_FOUND'' ''device not found''
            else writeError rq 400 ''VALIDATION_ERROR'' (Error e))))"

definition flushCaches :: "'n app \<Rightarrow> Admin \<Rightarrow> 'n handler" where
  "flushCaches A admin rq = answer (FlushCaches (ap_client A) (a_ID admin) (rq_ID rq) (remoteIP rq))
     (\<lambda>_. writeData rq 200 (P_Flag ''flushed'' True))
     (\<lambda>_. writeError rq 502 ''MOSDNS_UNAVAILABLE'' ''cache flush failed'')"

definition upstreamGroups :: "'n app \<Rightarrow> 'n handler" where
  "upstreamGroups A rq = answer (UpstreamGroups (ap_client A)) (\<lambda>r. writeData rq 200 (P_Registry r))
     (\<lambda>_. writeError rq 502 ''MOSDNS_UNAVAILABLE'' ''upstream registry runtime configuration is unavailable'')"

definition writeUpstreamGroupMutation :: "http_request \<Rightarrow> nat \<Rightarrow> (group_error, 'n aworld, RegistrySnapshot) prog \<Rightarrow>
    (error, 'n aworld, http_response) prog" where
  "writeUpstreamGroupMutation rq status operation = answer operation (\<lambda>value. writeData rq status (P_Registry value))
     (\<lambda>(_, err).
        if errors_Is err ErrConflict then writeError rq 409 ''VERSION_CONFLICT'' ''upstream registry changed; refresh and retry''
        else if errors_Is err ErrNotFound then writeError rq 404 ''NOT_FOUND'' ''upstream group not found''
        else if errors_Is err ErrProtectedGroup \<or> errors_Is err ErrGroupReferenced
          then writeError rq 409 ''UPSTREAM_GROUP_PROTECTED'' (Error err)
        else if errors_Is err ErrUnknown
          then writeError rq 502 ''MOSDNS_UNAVAILABLE'' ''upstream registry update outcome could not be reconciled''
        else if errors_Is err ErrValidation \<or> errors_Is err ErrRejected then writeError rq 400 ''VALIDATION_ERROR'' (Error err)
        else writeError rq 502 ''MOSDNS_UNAVAILABLE'' ''upstream registry runtime configuration is unavailable'')"

definition createUpstreamGroup :: "'n app \<Rightarrow> Admin \<Rightarrow> 'n handler" where
  "createUpstreamGroup A admin rq = decodeJSON rq (dc_Group (ap_decode A)) (\<lambda>input.
     writeUpstreamGroupMutation rq 201 (CreateUpstreamGroup (ap_client A) input (a_ID admin) (rq_ID rq) (remoteIP rq)))"

definition updateUpstreamGroup :: "'n app \<Rightarrow> Admin \<Rightarrow> 'n handler" where
  "updateUpstreamGroup A admin rq = decodeJSON rq (dc_Group (ap_decode A)) (\<lambda>input.
     writeUpstreamGroupMutation rq 200
       (UpdateUpstreamGroup (ap_client A) (rq_Param rq ''id'') input (a_ID admin) (rq_ID rq) (remoteIP rq)))"

definition deleteUpstreamGroup :: "'n app \<Rightarrow> Admin \<Rightarrow> 'n handler" where
  "deleteUpstreamGroup A admin rq = decodeJSON rq (dc_Precondition (ap_decode A)) (\<lambda>expected.
     writeUpstreamGroupMutation rq 200
       (DeleteUpstreamGroup (ap_client A) (rq_Param rq ''id'') expected (a_ID admin) (rq_ID rq) (remoteIP rq)))"

definition flushUpstreamGroup :: "'n app \<Rightarrow> Admin \<Rightarrow> 'n handler" where
  "flushUpstreamGroup A admin rq = decodeJSON rq (dc_Precondition (ap_decode A)) (\<lambda>expected.
     answer (FlushUpstreamGroup (ap_client A) (rq_Param rq ''id'') expected (a_ID admin) (rq_ID rq) (remoteIP rq))
       (\<lambda>_. writeData rq 200 (P_Flag ''flushed'' True))
       (\<lambda>e. if errors_Is e ErrConflict then writeError rq 409 ''VERSION_CONFLICT'' ''upstream registry changed; refresh and retry''
            else if errors_Is e ErrNotFound then writeError rq 404 ''NOT_FOUND'' ''upstream group not found''
            else writeError rq 502 ''MOSDNS_UNAVAILABLE'' ''cache flush failed''))"

definition settings :: "'n app \<Rightarrow> 'n handler" where
  "settings A rq = answer (SettingsOf (ap_client A)) (\<lambda>s. writeData rq 200 (P_Settings s))
     (\<lambda>_. writeError rq 502 ''MOSDNS_UNAVAILABLE'' ''read settings failed'')"

definition updateSettings :: "'n app \<Rightarrow> Admin \<Rightarrow> 'n handler" where
  "updateSettings A admin rq = decodeJSON rq (dc_Settings (ap_decode A)) (\<lambda>s.
     bindM (attemptM (UpdateSettings (ap_client A) (Some (ingest_of (ap_ingest A))) s (a_ID admin) (rq_ID rq) (remoteIP rq)))
       (\<lambda>r. case r of
         Inl e \<Rightarrow> returnM (if errors_Is e ErrConflict
           then writeError rq 409 ''VERSION_CONFLICT'' ''upstream registry changed; refresh and retry''
           else writeError rq 502 ''SETTINGS_APPLY_FAILED'' (Error e))
       | Inr _ \<Rightarrow> answer (SettingsOf (ap_client A)) (\<lambda>applied. writeData rq 200 (P_Settings applied))
           (\<lambda>_. writeError rq 502 ''SETTINGS_APPLY_FAILED'' ''settings were applied but could not be read back'')))"

section \<open>Subscriptions\<close>

definition listSubscriptions :: "'n handler" where
  "listSubscriptions rq = answer (Subscriptions (rq_Query rq ''category'') (rq_Query rq ''action''))
     (\<lambda>items. writeData rq 200 (P_Subscriptions items)) (\<lambda>e. writeError rq 400 ''VALIDATION_ERROR'' (Error e))"

definition createSubscription_handler :: "'n app \<Rightarrow> Admin \<Rightarrow> 'n handler" where
  "createSubscription_handler A admin rq = decodeJSON rq (dc_Subscription (ap_decode A)) (\<lambda>input.
     answer (CreateURLSubscription (ap_rlib A) (ap_client A) (ap_fetcher A) input (a_ID admin) (rq_ID rq) (remoteIP rq))
       (\<lambda>(item, published). writeData rq 200 (P_Subscription item (Some published)))
       (\<lambda>(item, published, err).
          if errors_Is err ErrUnknown then writeData rq 202 (P_Subscription item (Some published))
          else if errors_Is err ErrConflict then writeError rq 409 ''VERSION_CONFLICT'' ''upstream registry changed; refresh and retry''
          else writeError rq 400 ''SUBSCRIPTION_CREATE_FAILED'' (Error err)))"

definition upload_limit :: nat where "upload_limit = 20 * 2 ^ 20"

text \<open>The form of an upload: \<open>Atoi\<close> of an empty interval is 0.\<close>

definition upload_input :: "form \<Rightarrow> int \<Rightarrow> int option \<Rightarrow> uint64 option \<Rightarrow> SubscriptionInput" where
  "upload_input f interval priority expected =
     \<lparr>in_Category = fm_Value f ''category'', in_Action = fm_Value f ''action'', in_Name = fm_Value f ''name'', in_SourceURL = '''',
      in_RefreshIntervalSeconds = interval, in_Enabled = (fm_Value f ''enabled'' \<noteq> ''false''),
      in_UpstreamGroupID = fm_Value f ''upstream_group_id'', in_Priority = priority,
      in_ExpectedUpstreamRegistryVersion = expected\<rparr>"

definition optional :: "(string \<Rightarrow> error + 'a) \<Rightarrow> string \<Rightarrow> error + 'a option" where
  "optional parse v = (if v = '''' then Inr None else case parse v of Inl e \<Rightarrow> Inl e | Inr a \<Rightarrow> Inr (Some a))"

definition uploadSubscription :: "'n app \<Rightarrow> Admin \<Rightarrow> 'n handler" where
  "uploadSubscription A admin rq =
     (let bad = (\<lambda>m. returnM (writeError rq 400 ''VALIDATION_ERROR'' m)) in
      case rq_Form rq of None \<Rightarrow> bad ''invalid subscription upload''
      | Some f \<Rightarrow>
     (case fm_File f of None \<Rightarrow> bad ''subscription file is required''
      | Some (name, file) \<Rightarrow>
     (let content = take (upload_limit + 1) file in
      if upload_limit < length content
      then returnM (writeError rq 413 ''LIMIT_EXCEEDED'' ''subscription file exceeds 20 MiB'')
      else
     (case optional ParseInt (fm_Value f ''refresh_interval_seconds'') of Inl _ \<Rightarrow> bad ''invalid refresh interval''
      | Inr interval \<Rightarrow>
     (case optional ParseInt (fm_Value f ''priority'') of Inl _ \<Rightarrow> bad ''invalid priority''
      | Inr priority \<Rightarrow>
     (case optional ParseUint (fm_Value f ''expected_upstream_registry_version'') of Inl _ \<Rightarrow> bad ''invalid upstream registry version''
      | Inr expected \<Rightarrow>
        answer (CreateUploadSubscription (ap_rlib A) (ap_client A)
            (upload_input f (case interval of None \<Rightarrow> 0 | Some n \<Rightarrow> n) priority expected)
            name content (a_ID admin) (rq_ID rq) (remoteIP rq))
          (\<lambda>(item, published). writeData rq 200 (P_Subscription item (Some published)))
          (\<lambda>(item, published, err).
             if errors_Is err ErrUnknown then writeData rq 202 (P_Subscription item (Some published))
             else if errors_Is err ErrConflict then writeError rq 409 ''VERSION_CONFLICT'' ''upstream registry changed; refresh and retry''
             else writeError rq 400 ''SUBSCRIPTION_UPLOAD_FAILED'' (Error err))))))))"

definition updateSubscription :: "'n app \<Rightarrow> Admin \<Rightarrow> 'n handler" where
  "updateSubscription A admin rq = pathID rq ''id'' (\<lambda>i. decodeJSON rq (dc_Enabled (ap_decode A)) (\<lambda>enabled.
     answer (SetSubscriptionEnabled (ap_rlib A) (ap_client A) i enabled (a_ID admin) (rq_ID rq) (remoteIP rq))
       (\<lambda>(item, published). writeData rq 200 (P_Subscription item (Some published)))
       (\<lambda>(item, published, err).
          if errors_Is err ErrUnknown then writeData rq 202 (P_Subscription item (Some published))
          else if errors_Is err ErrNoRows then writeError rq 404 ''NOT_FOUND'' ''subscription not found''
          else writeError rq 400 ''SUBSCRIPTION_UPDATE_FAILED'' (Error err))))"

definition refreshSubscription :: "'n app \<Rightarrow> Admin \<Rightarrow> 'n handler" where
  "refreshSubscription A admin rq = pathID rq ''id'' (\<lambda>i.
     answer (RefreshSubscription (ap_rlib A) (ap_client A) (ap_fetcher A) i (a_ID admin) (rq_ID rq) (remoteIP rq))
       (\<lambda>(item, published). writeData rq 200 (P_Subscription item published))
       (\<lambda>(item, published, err).
          if errors_Is err ErrUnknown then writeData rq 202 (P_Subscription item published)
          else if errors_Is err ErrNoRows then writeError rq 404 ''NOT_FOUND'' ''subscription not found''
          else if errors_Is err ErrConflict then writeError rq 409 ''VERSION_CONFLICT'' ''subscription changed while refreshing; refresh and retry''
          else writeError rq 400 ''SUBSCRIPTION_REFRESH_FAILED'' (Error err)))"

definition updateSubscriptionBinding :: "'n app \<Rightarrow> Admin \<Rightarrow> 'n handler" where
  "updateSubscriptionBinding A admin rq = pathID rq ''id'' (\<lambda>i. decodeJSON rq (dc_Binding (ap_decode A)) (\<lambda>input.
     answer (UpdateSubscriptionBinding (ap_rlib A) (ap_client A) i input (a_ID admin) (rq_ID rq) (remoteIP rq))
       (\<lambda>(item, published). writeData rq 200 (P_Subscription item (Some published)))
       (\<lambda>(item, published, err).
          if errors_Is err ErrUnknown then writeData rq 202 (P_Subscription item (Some published))
          else if errors_Is err ErrNoRows then writeError rq 404 ''NOT_FOUND'' ''subscription not found''
          else if errors_Is err ErrConflict then writeError rq 409 ''VERSION_CONFLICT'' ''upstream registry changed; refresh and retry''
          else writeError rq 400 ''SUBSCRIPTION_UPDATE_FAILED'' (Error err))))"

definition deleteSubscription :: "'n app \<Rightarrow> Admin \<Rightarrow> 'n handler" where
  "deleteSubscription A admin rq = pathID rq ''id'' (\<lambda>i.
     answer (DeleteSubscription (ap_rlib A) (ap_client A) i (a_ID admin) (rq_ID rq) (remoteIP rq))
       (\<lambda>published. writeData rq 200 (P_Version published))
       (\<lambda>(published, err).
          if errors_Is err ErrUnknown then writeData rq 202 (P_Version published)
          else if errors_Is err ErrNoRows then writeError rq 404 ''NOT_FOUND'' ''subscription not found''
          else writeError rq 400 ''SUBSCRIPTION_DELETE_FAILED'' (Error err)))"

section \<open>The rest\<close>

definition auditLogs :: "'n handler" where
  "auditLogs rq = (case optional ParseInt (rq_Query rq ''limit'') of
       Inl _ \<Rightarrow> returnM (writeError rq 400 ''VALIDATION_ERROR'' ''invalid limit'')
     | Inr limit \<Rightarrow>
        answer (AuditLogs (case limit of None \<Rightarrow> 0 | Some n \<Rightarrow> n) (rq_Query rq ''cursor''))
          (\<lambda>(items, cursor). writeData rq 200 (P_Audit items cursor))
          (\<lambda>e. if errors_Is e ErrInvalidCursor then writeError rq 400 ''VALIDATION_ERROR'' ''invalid cursor''
               else writeError rq 500 ''INTERNAL_ERROR'' ''list audit logs failed''))"

definition clearQueryHistory :: "Admin \<Rightarrow> 'n handler" where
  "clearQueryHistory admin rq = answer (ClearQueryHistory (a_ID admin) (rq_ID rq) (remoteIP rq))
     (\<lambda>_. writeData rq 200 (P_Flag ''cleared'' True))
     (\<lambda>_. writeError rq 500 ''INTERNAL_ERROR'' ''clear query history failed'')"

text \<open>\<open>QueueDepth\<close> of the ingestion is the length of its queue.\<close>

definition systemStatus :: "'n app \<Rightarrow> 'n handler" where
  "systemStatus A rq =
     bindM (SystemStatus_of (ap_client A) (ap_status A)) (\<lambda>status.
     bindM state (\<lambda>s.
     returnM (writeData rq 200 (P_System (Info (ap_version A)) status (length (i_queue s))))))"

definition versionInfo :: "'n app \<Rightarrow> 'n handler" where
  "versionInfo A rq = returnM (writeData rq 200 (P_Info (Info (ap_version A))))"

definition ready :: "'n handler" where
  "ready rq = answer (db_query (\<lambda>_. Inr ())) (\<lambda>_. writeData rq 200 (P_Status ''ok''))
     (\<lambda>_. writeError rq 503 ''NOT_READY'' ''database is unavailable'')"

definition health :: "'n handler" where
  "health rq = returnM (writeData rq 200 (P_Status ''ok''))"

section \<open>The routes\<close>

datatype guard = Public | Session | CSRF

text \<open>
  \<open>Session\<close> is the group under \<open>requireSession\<close>, \<open>CSRF\<close> a handler wrapped in \<open>requireCSRF\<close> within it. The
  routes of the metrics and of the web files are left out.
\<close>

type_synonym 'n route = "string \<times> string \<times> guard \<times> (Admin \<Rightarrow> 'n handler)"

definition PublicHandler :: "'n app \<Rightarrow> 'n route list" where
  "PublicHandler A = [
     (''GET'', ''/health/live'', Public, \<lambda>_. health),
     (''GET'', ''/health/ready'', Public, \<lambda>_. ready),
     (''GET'', ''/version'', Public, \<lambda>_. versionInfo A),
     (''POST'', ''/api/v1/auth/login'', Public, \<lambda>_. login A),
     (''GET'', ''/api/v1/auth/bootstrap'', Public, \<lambda>_. bootstrapStatus A),
     (''POST'', ''/api/v1/auth/bootstrap'', Public, \<lambda>_. bootstrap A),
     (''GET'', ''/api/v1/auth/me'', Session, me),
     (''GET'', ''/api/v1/auth/csrf'', Session, \<lambda>_. refreshCSRF A),
     (''POST'', ''/api/v1/auth/logout'', CSRF, \<lambda>_. logout A),
     (''POST'', ''/api/v1/auth/change-password'', CSRF, changePassword A),
     (''GET'', ''/api/v1/rules'', Session, \<lambda>_. listRules),
     (''POST'', ''/api/v1/rules'', CSRF, createRule A),
     (''PATCH'', ''/api/v1/rules/{id}'', CSRF, updateRule A),
     (''DELETE'', ''/api/v1/rules/{id}'', CSRF, deleteRule A),
     (''POST'', ''/api/v1/rules/batch'', CSRF, batchRules A),
     (''POST'', ''/api/v1/rules/import/preview'', Session, \<lambda>_. previewImport A),
     (''POST'', ''/api/v1/rules/import/apply'', CSRF, importRules A),
     (''GET'', ''/api/v1/rules/export'', Session, \<lambda>_. listRules),
     (''POST'', ''/api/v1/rules/test'', Session, \<lambda>_. testRule A),
     (''GET'', ''/api/v1/rule-subscriptions'', Session, \<lambda>_. listSubscriptions),
     (''POST'', ''/api/v1/rule-subscriptions'', CSRF, createSubscription_handler A),
     (''POST'', ''/api/v1/rule-subscriptions/upload'', CSRF, uploadSubscription A),
     (''PATCH'', ''/api/v1/rule-subscriptions/{id}'', CSRF, updateSubscription A),
     (''PUT'', ''/api/v1/rule-subscriptions/{id}/binding'', CSRF, updateSubscriptionBinding A),
     (''POST'', ''/api/v1/rule-subscriptions/{id}/refresh'', CSRF, refreshSubscription A),
     (''DELETE'', ''/api/v1/rule-subscriptions/{id}'', CSRF, deleteSubscription A),
     (''GET'', ''/api/v1/rule-versions'', Session, \<lambda>_. listVersions),
     (''GET'', ''/api/v1/rule-versions/{version}'', Session, \<lambda>_. versionDetail),
     (''POST'', ''/api/v1/rule-versions/{version}/rollback'', CSRF, rollback A),
     (''POST'', ''/api/v1/rule-versions/reconcile'', CSRF, \<lambda>_. reconcile A),
     (''GET'', ''/api/v1/queries'', Session, \<lambda>_. queries A),
     (''GET'', ''/api/v1/queries/stream'', Session, \<lambda>_. queryStream A),
     (''GET'', ''/api/v1/queries/{eventID}/answer-ips'', Session, \<lambda>_. answerIPs),
     (''GET'', ''/api/v1/stats/summary'', Session, \<lambda>_. summary),
     (''GET'', ''/api/v1/stats/top-domains'', Session, \<lambda>_. statistics A ''domains''),
     (''GET'', ''/api/v1/stats/top-clients'', Session, \<lambda>_. statistics A ''clients''),
     (''GET'', ''/api/v1/stats/routes'', Session, \<lambda>_. statistics A ''routes''),
     (''GET'', ''/api/v1/stats/rcode'', Session, \<lambda>_. statistics A ''rcode''),
     (''GET'', ''/api/v1/stats/upstream-groups'', Session, \<lambda>_. statistics A ''upstream_groups''),
     (''GET'', ''/api/v1/stats/latency'', Session, \<lambda>_. latency),
     (''GET'', ''/api/v1/stats/upstream-runtime'', Session, \<lambda>_. upstreamRuntimeStatus A),
     (''GET'', ''/api/v1/devices'', Session, \<lambda>_. devices),
     (''PATCH'', ''/api/v1/devices/{id}'', CSRF, updateDevice A),
     (''GET'', ''/api/v1/system/status'', Session, \<lambda>_. systemStatus A),
     (''POST'', ''/api/v1/system/cache/flush'', CSRF, flushCaches A),
     (''GET'', ''/api/v1/upstream-groups'', Session, \<lambda>_. upstreamGroups A),
     (''POST'', ''/api/v1/upstream-groups'', CSRF, createUpstreamGroup A),
     (''PUT'', ''/api/v1/upstream-groups/{id}'', CSRF, updateUpstreamGroup A),
     (''DELETE'', ''/api/v1/upstream-groups/{id}'', CSRF, deleteUpstreamGroup A),
     (''POST'', ''/api/v1/upstream-groups/{id}/cache/flush'', CSRF, flushUpstreamGroup A),
     (''GET'', ''/api/v1/settings'', Session, \<lambda>_. settings A),
     (''PUT'', ''/api/v1/settings'', CSRF, updateSettings A),
     (''POST'', ''/api/v1/settings/query-history/clear'', CSRF, clearQueryHistory),
     (''GET'', ''/api/v1/audit-logs'', Session, \<lambda>_. auditLogs)]"

definition InternalHandler :: "'n app \<Rightarrow> 'n route list" where
  "InternalHandler A = [
     (''GET'', ''/health/ready'', Public, \<lambda>_. ready),
     (''GET'', ''/internal/v1/health/ready'', Public, \<lambda>_. ready),
     (''POST'', ''/internal/v1/query-events/batch'', Public, \<lambda>_. ingestEvents A)]"

text \<open>A route without a session never looks at the administrator.\<close>

definition serve :: "'n app \<Rightarrow> 'n route \<Rightarrow> 'n handler" where
  "serve A = (\<lambda>(_, _, g, handler). case g of
       Public \<Rightarrow> handler \<lparr>a_ID = 0, a_Username = ''''\<rparr>
     | Session \<Rightarrow> requireSession A handler
     | CSRF \<Rightarrow> requireSession A (\<lambda>admin. requireCSRF A (handler admin)))"

end
