(* ===== verification/AuthProperties.thy ===== *)
theory AuthProperties
  imports Auth LoginLimiter Demo
begin

text \<open>
  The invariant of the administrator and session tables, what each operation does to them, and
  the properties of passwords, sessions, the initial administrator and the login limiter.
\<close>

section \<open>The tables\<close>

definition auth_ok :: "db \<Rightarrow> bool" where
  "auth_ok d = (auto_ok (d_admins d)
     \<and> distinct (map (\<lambda>(_, a). nocase (ad_username a)) (tb_rows (d_admins d)))
     \<and> distinct (map se_token_hash (d_sessions d))
     \<and> (\<forall>s \<in> set (d_sessions d). se_admin_id s \<in> fst ` set (tb_rows (d_admins d))))"

lemma auth_ok_empty [simp]: "auth_ok empty_db"
  by (simp add: auth_ok_def empty_db_def) (simp add: empty_table_def)

lemma insert_admin_ok: "auth_ok d \<Longrightarrow> insert_admin a d = Inr d' \<Longrightarrow> auth_ok d'"
  by (fastforce simp: auth_ok_def insert_admin_def insert_row_def list_ex_iff split: if_splits
      dest: auto_ok_insert [of _ a])

lemma insert_first_admin_ok: "auth_ok d \<Longrightarrow> insert_first_admin a d = Inr (n, d') \<Longrightarrow> auth_ok d'"
  by (auto simp: insert_first_admin_def intro: insert_admin_ok split: if_splits sum.splits)

lemma insert_session_ok: "auth_ok d \<Longrightarrow> insert_session s d = Inr d' \<Longrightarrow> auth_ok d'"
  by (force simp: auth_ok_def insert_session_def list_ex_iff split: if_splits)

lemma delete_sessions_ok: "auth_ok d \<Longrightarrow> delete_sessions P d = Inr d' \<Longrightarrow> auth_ok d'"
  by (fastforce simp: auth_ok_def delete_sessions_def distinct_map_filter)

lemma update_sessions_ok:
  assumes "auth_ok d" and "update_sessions P f d = Inr (n, d')"
    and "\<And>s. se_token_hash (f s) = se_token_hash s" "\<And>s. se_admin_id (f s) = se_admin_id s"
  shows "auth_ok d'"
proof -
  have "se_token_hash \<circ> (\<lambda>s. if P s then f s else s) = se_token_hash" using assms(3) by auto
  then show ?thesis using assms(1,2,4) by (auto simp: auth_ok_def update_sessions_def)
qed

lemma update_where_rows:
  "tb_rows (update_where P f t) = map (\<lambda>(i, r). (i, if P i r then f r else r)) (tb_rows t)"
  by (simp add: update_where_def)

lemma set_password_ok: "auth_ok d \<Longrightarrow> set_password i h now d = Inr d' \<Longrightarrow> auth_ok d'"
proof -
  have n: "map (\<lambda>(_, a). nocase (ad_username a)) (map (\<lambda>(j, r). (j, if j = i then
      r\<lparr>ad_password_hash := h, ad_updated_at_ms := now\<rparr> else r)) xs)
      = map (\<lambda>(_, a). nocase (ad_username a)) xs" for xs :: "(int \<times> admin_row) list"
    by (induction xs) auto
  have f: "fst ` set (map (\<lambda>(j, r). (j, if j = i then
      r\<lparr>ad_password_hash := h, ad_updated_at_ms := now\<rparr> else r)) xs) = fst ` set xs"
    for xs :: "(int \<times> admin_row) list"
    by (induction xs) auto
  assume "auth_ok d" "set_password i h now d = Inr d'"
  then show ?thesis
    by (auto simp: auth_ok_def set_password_def update_where_rows n f simp del: set_map map_map)
qed

section \<open>The stored form of a password\<close>

lemma b64_char_no_dollar: "n < 64 \<Longrightarrow> b64_char False n \<noteq> CHR ''$''"
proof -
  have "\<forall>n \<in> set [0..<64]. b64_char False n \<noteq> CHR ''$''" by code_simp
  then show "n < 64 \<Longrightarrow> b64_char False n \<noteq> CHR ''$''" by auto
qed

lemma encode_no_dollar [simp]: "CHR ''$'' \<notin> set (EncodeToString False s)"
proof -
  have "\<forall>n \<in> set (sextets (map of_char s)). n < 64"
    by (rule sextets_bound) (auto simp: of_char_bound)
  then show ?thesis by (auto simp: EncodeToString_def dest!: b64_char_no_dollar)
qed

lemma Split_encode_hash:
  "Split CHR ''$'' (encode_hash salt h) = [''argon2id'', ''v=19'', ''m=65536,t=3,p=2'', EncodeToString False salt, EncodeToString False h]"
proof -
  have "encode_hash salt h = ''argon2id'' @ CHR ''$'' # (''v=19'' @ CHR ''$'' # (''m=65536,t=3,p=2'' @ CHR ''$'' #
      (EncodeToString False salt @ CHR ''$'' # EncodeToString False h)))"
    by (simp add: encode_hash_def)
  then show ?thesis by (simp add: Split_append Split_single)
qed

text \<open>What \<open>hashPassword\<close> stores is read back by \<open>verifyPassword\<close> with the same salt and the same hash: for
  every password, salt and hash, the check succeeds exactly when Argon2 gives that hash again.\<close>

theorem password_roundtrip:
  "check_password A p (encode_hash salt h) \<longleftrightarrow> h = al_IDKey A p salt (length h)"
  by (simp add: check_password_def Split_encode_hash)

section \<open>Sequences of calls\<close>

text \<open>
  The calls of the service, in any order. The commit of the initial administrator is a call of
  its own, since other requests come in between it and the check before it; so is the
  whole operation.
\<close>

datatype auth_call =
    Call_create string string | Call_initial string string | Call_commit string string
  | Call_login string string string string | Call_logout string | Call_session string
  | Call_verify_csrf string string | Call_refresh_csrf string
  | Call_change int string string string | Call_reset string string

fun auth_run :: "'m authlib \<Rightarrow> auth_call \<Rightarrow> 'm world \<Rightarrow> 'm world" where
  "auth_run A (Call_create u p) w = snd (CreateAdmin A u p w)"
| "auth_run A (Call_initial u p) w = snd (CreateInitialAdmin A u p w)"
| "auth_run A (Call_commit u h) w = snd (initial_admin_commit u h w)"
| "auth_run A (Call_login u p ip ua) w = snd (Login A u p ip ua w)"
| "auth_run A (Call_logout t) w = snd (Logout A t w)"
| "auth_run A (Call_session t) w = snd (SessionOf A t w)"
| "auth_run A (Call_verify_csrf t c) w = snd (VerifyCSRF A t c w)"
| "auth_run A (Call_refresh_csrf t) w = snd (RefreshCSRF A t w)"
| "auth_run A (Call_change i p p' t) w = snd (ChangePasswordKeepingSession A i p p' t w)"
| "auth_run A (Call_reset u p) w = snd (ResetPassword A u p w)"

text \<open>The tokens that the logins of a run return.\<close>

fun issues :: "'m authlib \<Rightarrow> auth_call \<Rightarrow> 'm world \<Rightarrow> string list" where
  "issues A (Call_login u p ip ua) w = (case fst (Login A u p ip ua w) of Inl _ \<Rightarrow> [] | Inr (token, _) \<Rightarrow> [token])"
| "issues A c w = []"

fun issued :: "'m authlib \<Rightarrow> auth_call list \<Rightarrow> 'm world \<Rightarrow> string list" where
  "issued A [] w = []"
| "issued A (c # cs) w = issues A c w @ issued A cs (auth_run A c w)"

lemma stable_db_snd: "stable (onDB J) m \<Longrightarrow> J (w_db w) \<Longrightarrow> J (w_db (snd (m w)))"
  by (auto simp: stable_def)

definition reading :: "'m world \<Rightarrow> int" where
  "reading w = (case w_clock w of [] \<Rightarrow> w_now w | t # _ \<Rightarrow> t)"

definition session_made :: "'m authlib \<Rightarrow> int \<Rightarrow> string \<Rightarrow> string \<Rightarrow> string \<Rightarrow> string \<Rightarrow> int \<Rightarrow> session_row" where
  "session_made A i token csrf ip ua now = \<lparr>se_token_hash = digest A token, se_admin_id = i,
     se_csrf_hash = digest A csrf, se_client_ip = ip, se_user_agent = ua, se_created_at_ms = now,
     se_last_seen_at_ms = now, se_expires_at_ms = now + al_ttl A\<rparr>"

lemma reading_pop [simp]: "reading (pop_fault w) = reading w" "reading (w\<lparr>w_ext := m\<rparr>) = reading w"
  by (simp_all add: reading_def split: list.splits)

lemma wp_reading: "wp time_now E Q w \<longleftrightarrow> Q (reading w) (w\<lparr>w_now := reading w, w_clock := tl (w_clock w)\<rparr>)"
  by (cases w) (simp add: wp_time_now reading_def split: list.splits)

lemma login_spec:
  "wp (Login A u p ip ua) (\<lambda>_ w'. w_db w' = w_db w) (\<lambda>(token, csrf) w'. \<exists>i a.
     select_admin (TrimSpace u) (w_db w) = Inr (i, a) \<and> \<not> ad_disabled a \<and> check_password A p (ad_password_hash a)
     \<and> insert_session (session_made A i token csrf ip ua (reading w)) (w_db w) = Inr (w_db w')) w"
  unfolding Login_def verifyPassword_def randomToken_def
  by (auto simp: wp_simps wp_reading session_made_def simp del: wp_time_now split: sum.splits prod.splits)

text \<open>
  The contracts of the operations, for a predicate on the tables. One that new administrators and
  the time of the last use keep holds after every call that neither ends sessions nor opens one;
  one that also survives the end of sessions, new passwords and new CSRF tokens holds after every
  call but a login; one that new sessions keep holds after every call, whatever its result.
\<close>

locale admin_predicate =
  fixes J :: "db \<Rightarrow> bool"
  assumes on_insert_admin: "J d \<Longrightarrow> insert_admin a d = Inr d' \<Longrightarrow> J d'"
    and on_seen: "J d \<Longrightarrow> update_sessions P (\<lambda>s. s\<lparr>se_last_seen_at_ms := now\<rparr>) d = Inr (n, d') \<Longrightarrow> J d'"
begin

lemma on_insert_first_admin: "J d \<Longrightarrow> insert_first_admin a d = Inr (n, d') \<Longrightarrow> J d'"
  by (auto simp: insert_first_admin_def intro: on_insert_admin split: if_splits sum.splits)

lemma stable_parts:
  "stable (onDB J) (randomToken A)" "stable (onDB J) (hashPassword A p)" "stable (onDB J) (verifyPassword A p e)"
  unfolding randomToken_def hashPassword_def verifyPassword_def by (intro stable_intros)+

lemma stable_rows:
  "stable (onDB J) (db_exec (insert_admin a))"
  "stable (onDB J) (db_run (insert_first_admin a))"
  "stable (onDB J) (db_run (update_sessions P (\<lambda>s. s\<lparr>se_last_seen_at_ms := now\<rparr>)))"
  by (rule stable_db_exec stable_db_run; rule on_insert_admin on_insert_first_admin on_seen; assumption)+

lemma stable_inside: "stable (onDB J) m \<Longrightarrow> stable (onDB J) (transaction m)"
  by (rule stable_transaction) (auto dest!: stable_wpD elim: wp_mono)

lemmas stable_base = stable_parts stable_rows stable_inside stable_intros

lemma stable_admin_calls:
  "stable (onDB J) (CreateAdmin A u p)"
  "stable (onDB J) NeedsInitialAdmin"
  "stable (onDB J) (initial_admin_commit u h)"
  "stable (onDB J) (CreateInitialAdmin A u p)"
  "stable (onDB J) (VerifyCSRF A t c)"
  unfolding CreateAdmin_def NeedsInitialAdmin_def initial_admin_commit_def CreateInitialAdmin_def VerifyCSRF_def
  by (intro stable_base; simp?)+

end

locale session_predicate = admin_predicate +
  assumes on_delete_sessions: "J d \<Longrightarrow> delete_sessions P d = Inr d' \<Longrightarrow> J d'"
    and on_set_password: "J d \<Longrightarrow> set_password i h now d = Inr d' \<Longrightarrow> J d'"
    and on_csrf: "J d \<Longrightarrow> update_sessions P (\<lambda>s. s\<lparr>se_csrf_hash := h\<rparr>) d = Inr (n, d') \<Longrightarrow> J d'"
begin

lemma stable_changes:
  "stable (onDB J) (db_exec (delete_sessions P))"
  "stable (onDB J) (db_exec (set_password i h now))"
  "stable (onDB J) (db_run (update_sessions P (\<lambda>s. s\<lparr>se_csrf_hash := h\<rparr>)))"
  by (rule stable_db_exec stable_db_run; rule on_delete_sessions on_set_password on_csrf; assumption)+

lemmas stable_rules = stable_changes stable_base

lemma stable_session_calls:
  "stable (onDB J) (Logout A t)"
  "stable (onDB J) (SessionOf A t)"
  "stable (onDB J) (RefreshCSRF A t)"
  "stable (onDB J) (ChangePasswordKeepingSession A i p p' t)"
  "stable (onDB J) (ResetPassword A u p)"
  unfolding Logout_def SessionOf_def RefreshCSRF_def ChangePasswordKeepingSession_def ResetPassword_def
  by (intro stable_rules; simp?)+

lemma kept_but_login: "J (w_db w) \<Longrightarrow> \<nexists>u p ip ua. c = Call_login u p ip ua \<Longrightarrow> J (w_db (auth_run A c w))"
  by (cases c) (simp_all add: stable_db_snd stable_admin_calls stable_session_calls)

text \<open>Logins that return other tokens: a predicate that sessions of other tokens keep.\<close>

lemma kept_unless_issued:
  assumes other: "\<And>s d d'. J d \<Longrightarrow> se_token_hash s \<noteq> h \<Longrightarrow> insert_session s d = Inr d' \<Longrightarrow> J d'"
  shows "J (w_db w) \<Longrightarrow> h \<notin> digest A ` set (issued A cs w) \<Longrightarrow> J (w_db (fold (auth_run A) cs w))"
proof (induction cs arbitrary: w)
  case (Cons c cs)
  have "J (w_db (auth_run A c w))"
  proof (cases "\<exists>u p ip ua. c = Call_login u p ip ua")
    case True
    then obtain u p ip ua where c: "c = Call_login u p ip ua" by blast
    show ?thesis
    proof (cases "fst (Login A u p ip ua w)")
      case (Inl e)
      then show ?thesis
        using login_spec [of A u p ip ua w] Cons.prems(1) by (simp add: c wp_def split: prod.splits)
    next
      case (Inr r)
      then obtain token csrf where r: "fst (Login A u p ip ua w) = Inr (token, csrf)" by (cases r) simp
      have "\<exists>i. insert_session (session_made A i token csrf ip ua (reading w)) (w_db w) = Inr (w_db (snd (Login A u p ip ua w)))"
        using login_spec [of A u p ip ua w] r by (auto simp: wp_def split: prod.splits)
      then obtain i where i: "insert_session (session_made A i token csrf ip ua (reading w)) (w_db w)
          = Inr (w_db (snd (Login A u p ip ua w)))" by blast
      have "digest A token \<noteq> h" using Cons.prems(2) r by (auto simp: c)
      then have "se_token_hash (session_made A i token csrf ip ua (reading w)) \<noteq> h" by (simp add: session_made_def)
      from other [OF Cons.prems(1) this i] show ?thesis by (simp add: c)
    qed
  qed (intro kept_but_login Cons.prems(1))
  with Cons show ?case by auto
qed simp

end

locale auth_predicate = session_predicate +
  assumes on_insert_session: "J d \<Longrightarrow> insert_session s d = Inr d' \<Longrightarrow> J d'"
begin

lemma stable_insert_session: "stable (onDB J) (db_exec (insert_session s))"
  by (rule stable_db_exec) (rule on_insert_session)

lemma stable_Login: "stable (onDB J) (Login A u p ip ua)"
  unfolding Login_def by (intro stable_insert_session stable_rules; simp?)

lemmas stable_operations = stable_admin_calls stable_session_calls stable_Login

lemma kept_run: "J (w_db w) \<Longrightarrow> J (w_db (auth_run A c w))"
  by (cases c) (simp_all add: stable_db_snd stable_operations)

lemma kept: "J (w_db w) \<Longrightarrow> J (w_db (fold (auth_run A) cs w))"
  by (induction cs arbitrary: w) (simp_all add: kept_run)

end

interpretation consistent: auth_predicate auth_ok
  by unfold_locales (fastforce intro: insert_admin_ok insert_session_ok delete_sessions_ok set_password_ok
      update_sessions_ok)+

definition has_admin :: "db \<Rightarrow> bool" where
  "has_admin d = (tb_rows (d_admins d) \<noteq> [])"

interpretation claimed: auth_predicate has_admin
  by unfold_locales (auto simp: has_admin_def insert_admin_def insert_row_def insert_session_def
      delete_sessions_def set_password_def update_where_rows update_sessions_def split: if_splits)

text \<open>C20: An initial administrator is created only when there is none, and at most once: after a commit that
  succeeded, no later commit succeeds, whatever calls (of this or other requests) come in
  between.\<close>

theorem initial_admin_once:
  assumes "initial_admin_commit u h w = (Inr (), w')"
  shows "tb_rows (d_admins (w_db w)) = [] \<and> length (tb_rows (d_admins (w_db w'))) = 1
     \<and> fst (initial_admin_commit u2 h2 (fold (auth_run A) cs w')) \<noteq> Inr ()"
proof -
  have "wp (initial_admin_commit u h) (\<lambda>_ _. True)
     (\<lambda>_ w'. tb_rows (d_admins (w_db w)) = [] \<and> length (tb_rows (d_admins (w_db w'))) = 1) w"
    unfolding initial_admin_commit_def
    by (intro wp_intros) (auto simp: insert_first_admin_def insert_admin_def insert_row_def split: if_splits)
  from wp_Inr [OF this assms] have e: "tb_rows (d_admins (w_db w)) = []" "length (tb_rows (d_admins (w_db w'))) = 1"
    by auto
  then have "has_admin (w_db w')" by (auto simp: has_admin_def)
  then have "has_admin (w_db (fold (auth_run A) cs w'))" by (rule claimed.kept)
  then have "wp (initial_admin_commit u2 h2) (\<lambda>_ _. True) (\<lambda>_ _. False) (fold (auth_run A) cs w')"
    unfolding initial_admin_commit_def
    by (intro wp_intros) (auto simp: insert_first_admin_def has_admin_def)
  with e show ?thesis
    by (cases "initial_admin_commit u2 h2 (fold (auth_run A) cs w')") (auto simp: wp_def)
qed

section \<open>Sessions\<close>

lemma SessionOf_fault_free:
  assumes "w_faults w = []"
  shows "fst (SessionOf A t w) = (case join_session (digest A t) (w_db w) of
     Inl e \<Rightarrow> Inl session_expired
   | Inr (admin, expires) \<Rightarrow> if expires \<le> reading w then Inl session_expired else Inr admin)"
proof -
  have n: "\<not> faulty w" "\<not> faulty (pop_fault w)" "\<not> faulty ((pop_fault w)\<lparr>w_now := x, w_clock := y\<rparr>)" for x y
    using assms by (simp_all add: faulty_def pop_fault_def)
  have j: "errors_Is e ErrNoRows" if "join_session (digest A t) (w_db w) = Inl e" for e
    using that by (auto simp: join_session_def select_session_def split: option.splits if_splits)
  show ?thesis
    by (simp add: SessionOf_def Logout_def bindM_def attemptM_def db_query_def db_exec_def db_run_def n time_now_def reading_def
        throwM_def returnM_def j split: sum.splits list.splits prod.splits)
qed

lemma VerifyCSRF_fault_free:
  assumes "w_faults w = []"
  shows "fst (VerifyCSRF A t c w) = Inr (case select_session (digest A t) (w_db w) of
     Inl e \<Rightarrow> False | Inr s \<Rightarrow> reading w < se_expires_at_ms s \<and> se_csrf_hash s = digest A c)"
proof -
  have n: "\<not> faulty w" "\<not> faulty (w\<lparr>w_now := x, w_clock := y\<rparr>)" for x y
    using assms by (simp_all add: faulty_def)
  show ?thesis
    by (simp add: VerifyCSRF_def bindM_def attemptM_def db_query_def db_run_def n time_now_def reading_def
        returnM_def split: sum.splits list.splits)
qed

lemma find_append: "find P (xs @ ys) = (case find P xs of None \<Rightarrow> find P ys | Some x \<Rightarrow> Some x)"
  by (induction xs) auto

lemma insert_session_selected:
  assumes "insert_session s d = Inr d'"
  shows "select_session (se_token_hash s) d' = Inr s" "tb_rows (d_admins d') = tb_rows (d_admins d)"
    "h \<noteq> se_token_hash s \<Longrightarrow> select_session h d' = select_session h d"
proof -
  from assms have d': "d' = d\<lparr>d_sessions := d_sessions d @ [s]\<rparr>"
    and n: "find (\<lambda>t. se_token_hash t = se_token_hash s) (d_sessions d) = None"
    by (auto simp: insert_session_def find_None_iff list_ex_iff split: if_splits)
  show "select_session (se_token_hash s) d' = Inr s"
    by (simp add: select_session_def d' find_append n)
  show "tb_rows (d_admins d') = tb_rows (d_admins d)" by (simp add: d')
  show "select_session h d' = select_session h d" if "h \<noteq> se_token_hash s"
    using that by (simp add: select_session_def d' find_append split: option.splits)
qed

lemma select_admin_mem:
  assumes "auth_ok d" "select_admin u d = Inr (i, a)"
  shows "map_of (tb_rows (d_admins d)) i = Some a" "nocase (ad_username a) = nocase u"
  using assms by (auto simp: select_admin_def auth_ok_def auto_ok_def find_Some_iff intro!: map_of_is_SomeI
    dest: nth_mem split: option.splits)

text \<open>No session of a token: it stays so until a login returns a token with the same digest.\<close>

definition absent :: "string \<Rightarrow> db \<Rightarrow> bool" where
  "absent h d = (h \<notin> se_token_hash ` set (d_sessions d))"

lemma absent_join: "absent h d \<Longrightarrow> join_session h d = Inl ErrNoRows" "absent h d \<Longrightarrow> select_session h d = Inl ErrNoRows"
proof -
  assume "absent h d"
  then have "find (\<lambda>s. se_token_hash s = h) (d_sessions d) = None" by (auto simp: absent_def find_None_iff)
  then show "join_session h d = Inl ErrNoRows" "select_session h d = Inl ErrNoRows"
    by (simp_all add: join_session_def select_session_def)
qed

text \<open>Every session of a token ends at a given time or before.\<close>

definition ends_by :: "string \<Rightarrow> int \<Rightarrow> db \<Rightarrow> bool" where
  "ends_by h e d = (\<forall>s \<in> set (d_sessions d). se_token_hash s = h \<longrightarrow> se_expires_at_ms s \<le> e)"

lemma update_sessions_mem:
  "update_sessions P f d = Inr (n, d') \<Longrightarrow> s \<in> set (d_sessions d') \<Longrightarrow> s \<in> set (d_sessions d) \<or> (\<exists>t \<in> set (d_sessions d). s = f t)"
  by (auto simp: update_sessions_def)

interpretation gone: session_predicate "absent h" for h
  by unfold_locales
    (auto simp: absent_def insert_admin_def delete_sessions_def set_password_def update_sessions_def split: if_splits)

interpretation limited: session_predicate "ends_by h e" for h e
  by unfold_locales
    (auto simp: ends_by_def insert_admin_def delete_sessions_def set_password_def update_sessions_def split: if_splits)

lemma absent_other: "absent h d \<Longrightarrow> se_token_hash s \<noteq> h \<Longrightarrow> insert_session s d = Inr d' \<Longrightarrow> absent h d'"
  by (auto simp: absent_def insert_session_def split: if_splits)

lemma ends_by_other: "ends_by h e d \<Longrightarrow> se_token_hash s \<noteq> h \<Longrightarrow> insert_session s d = Inr d' \<Longrightarrow> ends_by h e d'"
  by (auto simp: ends_by_def insert_session_def split: if_splits)

lemma ends_by_new: "insert_session s d = Inr d' \<Longrightarrow> ends_by (se_token_hash s) (se_expires_at_ms s) d'"
  by (auto simp: ends_by_def insert_session_def list_ex_iff split: if_splits)

text \<open>Without a session, or after its end, every use of the token is refused, whatever the database does.\<close>

definition refused_token :: "'m authlib \<Rightarrow> string \<Rightarrow> 'm world \<Rightarrow> bool" where
  "refused_token A t v = ((\<forall>x. fst (SessionOf A t v) \<noteq> Inr x) \<and> (\<forall>c. fst (VerifyCSRF A t c v) \<noteq> Inr True)
     \<and> (\<forall>c. fst (RefreshCSRF A t v) \<noteq> Inr c))"


lemma no_success: "wp m (\<lambda>_ _. True) (\<lambda>x _. Q x) w \<Longrightarrow> fst (m w) = Inr x \<Longrightarrow> Q x"
  by (auto simp: wp_def split: prod.splits)

lemma absent_refused:
  assumes "absent (digest A t) (w_db v)"
  shows "refused_token A t v"
proof -
  have n: "filter (\<lambda>s. se_token_hash s = digest A t \<and> reading v < se_expires_at_ms s) (d_sessions (w_db v)) = []"
    using assms by (force simp: absent_def filter_empty_conv)
  have "wp (SessionOf A t) (\<lambda>_ _. True) (\<lambda>_ _. False) v"
    unfolding SessionOf_def by (auto simp: wp_simps absent_join [OF assms] split: sum.split)
  moreover have "wp (VerifyCSRF A t c) (\<lambda>_ _. True) (\<lambda>ok _. \<not> ok) v" for c
    unfolding VerifyCSRF_def by (auto simp: wp_simps wp_reading absent_join [OF assms] simp del: wp_time_now)
  moreover have "wp (RefreshCSRF A t) (\<lambda>_ _. True) (\<lambda>_ _. False) v"
    unfolding RefreshCSRF_def randomToken_def using n
    by (auto simp: wp_simps wp_reading update_sessions_def simp del: wp_time_now split: prod.split sum.split)
  ultimately show ?thesis
    unfolding refused_token_def by (fastforce dest: no_success)
qed

lemma expired_refused:
  assumes "ends_by (digest A t) e (w_db v)" and "e \<le> reading v"
  shows "refused_token A t v"
proof -
  have j: "n \<le> reading v" if "join_session (digest A t) (w_db v) = Inr (x, n)" for x n
    using that assms by (fastforce simp: ends_by_def join_session_def select_session_def find_Some_iff
        split: option.splits if_splits dest: nth_mem)
  have s: "\<not> reading v < se_expires_at_ms s" if "select_session (digest A t) (w_db v) = Inr s" for s
    using that assms by (fastforce simp: ends_by_def select_session_def find_Some_iff split: option.splits dest: nth_mem)
  have n: "filter (\<lambda>s. se_token_hash s = digest A t \<and> reading v < se_expires_at_ms s) (d_sessions (w_db v)) = []"
    using assms by (fastforce simp: ends_by_def filter_empty_conv)
  have "wp (SessionOf A t) (\<lambda>_ _. True) (\<lambda>_ _. False) v"
    unfolding SessionOf_def Logout_def using j
    by (auto simp: wp_simps wp_reading simp del: wp_time_now split: sum.split prod.split)
  moreover have "wp (VerifyCSRF A t c) (\<lambda>_ _. True) (\<lambda>ok _. \<not> ok) v" for c
    unfolding VerifyCSRF_def using s
    by (auto simp: wp_simps wp_reading simp del: wp_time_now split: sum.split)
  moreover have "wp (RefreshCSRF A t) (\<lambda>_ _. True) (\<lambda>_ _. False) v"
    unfolding RefreshCSRF_def randomToken_def using n
    by (auto simp: wp_simps wp_reading update_sessions_def simp del: wp_time_now split: prod.split sum.split)
  ultimately show ?thesis
    unfolding refused_token_def by (fastforce dest: no_success)
qed

text \<open>
  The session of an administrator, with its end, and what is known of the digest of its CSRF token.
\<close>

definition standing :: "(string \<Rightarrow> bool) \<Rightarrow> int \<Rightarrow> string \<Rightarrow> string \<Rightarrow> int \<Rightarrow> db \<Rightarrow> bool" where
  "standing K i name h e d = ((\<exists>a. map_of (tb_rows (d_admins d)) i = Some a \<and> ad_username a = name \<and> \<not> ad_disabled a)
     \<and> (\<exists>s. select_session h d = Inr s \<and> se_admin_id s = i \<and> se_expires_at_ms s = e \<and> K (se_csrf_hash s)))"

text \<open>The calls that leave a session alone until it ends.\<close>

fun leaves :: "'m authlib \<Rightarrow> int \<Rightarrow> string \<Rightarrow> int \<Rightarrow> auth_call \<Rightarrow> 'm world \<Rightarrow> bool" where
  "leaves A i h e (Call_logout t) w = (digest A t \<noteq> h)"
| "leaves A i h e (Call_session t) w = (digest A t \<noteq> h \<or> reading w < e)"
| "leaves A i h e (Call_change j p p' t) w = (j \<noteq> i \<or> t \<noteq> '''' \<and> digest A t = h)"
| "leaves A i h e (Call_reset u p) w =
     (case select_admin (TrimSpace u) (w_db w) of Inl _ \<Rightarrow> True | Inr (j, _) \<Rightarrow> j \<noteq> i)"
| "leaves A i h e c w = True"

fun undisturbed :: "'m authlib \<Rightarrow> int \<Rightarrow> string \<Rightarrow> int \<Rightarrow> auth_call list \<Rightarrow> 'm world \<Rightarrow> bool" where
  "undisturbed A i h e [] w = True"
| "undisturbed A i h e (c # cs) w = (leaves A i h e c w \<and> undisturbed A i h e cs (auth_run A c w))"

fun renews :: "'m authlib \<Rightarrow> string \<Rightarrow> auth_call \<Rightarrow> bool" where
  "renews A h (Call_refresh_csrf t) = (digest A t = h)"
| "renews A h c = False"

lemma map_of_insert_row:
  "map_of (tb_rows t) i = Some a \<Longrightarrow> map_of (tb_rows (insert_row r t)) i = Some a"
  by (simp add: insert_row_def map_add_def)

lemma find_map_same:
  "(\<And>s. se_token_hash (f s) = se_token_hash s) \<Longrightarrow>
     find (\<lambda>s. se_token_hash s = h) (map f xs) = map_option f (find (\<lambda>s. se_token_hash s = h) xs)"
  by (induction xs) auto

lemma select_update:
  assumes "\<And>s. se_token_hash (f s) = se_token_hash s" and "update_sessions P f d = Inr (n, d')"
  shows "select_session h d' = (case select_session h d of Inl e \<Rightarrow> Inl e | Inr s \<Rightarrow> Inr (if P s then f s else s))"
  using assms find_map_same [of "\<lambda>s. if P s then f s else s" h "d_sessions d"]
  by (auto simp: update_sessions_def select_session_def split: option.splits)

lemma find_filter_keep:
  "find Q xs = Some s \<Longrightarrow> P s \<Longrightarrow> find Q (filter P xs) = Some s"
  by (induction xs) (auto split: if_splits)

lemma standing_admin: "standing K i name h e d \<Longrightarrow> insert_admin a d = Inr d' \<Longrightarrow> standing K i name h e d'"
  by (auto simp: standing_def insert_admin_def select_session_def map_of_insert_row split: if_splits)

lemma standing_update:
  assumes "standing K i name h e d" and "update_sessions P f d = Inr (n, d')" and "\<And>s. se_token_hash (f s) = se_token_hash s"
    and "\<And>s. se_admin_id (f s) = se_admin_id s" and "\<And>s. se_expires_at_ms (f s) = se_expires_at_ms s"
    and "\<And>s. select_session h d = Inr s \<Longrightarrow> P s \<Longrightarrow> K (se_csrf_hash s) \<Longrightarrow> K (se_csrf_hash (f s))"
  shows "standing K i name h e d'"
proof -
  have "d_admins d' = d_admins d" using assms(2) by (auto simp: update_sessions_def)
  with assms(1) select_update [OF assms(3,2), of h] assms(4-6) show ?thesis
    unfolding standing_def by (auto split: sum.splits)
qed

interpretation standing: admin_predicate "standing K i name h e" for K i name h e
  by unfold_locales (erule (1) standing_admin, erule (1) standing_update, simp_all)

lemma standing_insert:
  assumes "standing K i name h e d" and "insert_session s d = Inr d'"
  shows "standing K i name h e d'"
proof -
  have "select_session h d' = select_session h d"
  proof (rule insert_session_selected(3) [OF assms(2)])
    show "h \<noteq> se_token_hash s"
      using assms by (auto simp: standing_def insert_session_def select_session_def find_Some_iff list_ex_iff
          split: option.splits if_splits dest: nth_mem)
  qed
  with assms show ?thesis unfolding standing_def insert_session_selected(2) [OF assms(2)] by simp
qed

lemma standing_delete:
  assumes "standing K i name h e d" and "\<And>s. select_session h d = Inr s \<Longrightarrow> \<not> D s"
    and "delete_sessions D d = Inr d'"
  shows "standing K i name h e d'"
proof -
  have "select_session h d' = select_session h d"
    using assms find_filter_keep [of "\<lambda>s. se_token_hash s = h" "d_sessions d" _ "\<lambda>s. \<not> D s"]
    by (auto simp: standing_def delete_sessions_def select_session_def split: option.splits)
  with assms(1,3) show ?thesis by (auto simp: standing_def delete_sessions_def)
qed

section \<open>The effect of a new password\<close>

text \<open>The effect on the tables: the new hash for that administrator, and its sessions gone but those kept.\<close>

definition password_changed :: "'m authlib \<Rightarrow> int \<Rightarrow> string \<Rightarrow> (session_row \<Rightarrow> bool) \<Rightarrow> db \<Rightarrow> db \<Rightarrow> bool" where
  "password_changed A i p' keep d d' = (\<exists>salt now. d' = d\<lparr>d_admins := update_where (\<lambda>j _. j = i)
      (\<lambda>a. a\<lparr>ad_password_hash := encode_hash salt (al_IDKey A p' salt 32), ad_updated_at_ms := now\<rparr>) (d_admins d),
    d_sessions := filter (\<lambda>s. se_admin_id s = i \<longrightarrow> keep s) (d_sessions d)\<rparr>)"

lemma password_changedI:
  assumes "set_password i (encode_hash salt (al_IDKey A p' salt 32)) now d = Inr d1"
    and "delete_sessions D d1 = Inr d'" and "\<And>s. D s \<longleftrightarrow> se_admin_id s = i \<and> \<not> keep s"
  shows "password_changed A i p' keep d d'"
proof -
  have "(\<lambda>s. \<not> D s) = (\<lambda>s. se_admin_id s = i \<longrightarrow> keep s)" using assms(3) by auto
  then show ?thesis
    unfolding password_changed_def
    by (intro exI [of _ salt] exI [of _ now]) (use assms(1,2) in \<open>auto simp: set_password_def delete_sessions_def\<close>)
qed

lemma change_spec:
  "wp (ChangePasswordKeepingSession A i p p' t) (\<lambda>_ w'. w_db w' = w_db w)
     (\<lambda>_ w'. (\<exists>h. select_password i (w_db w) = Inr h \<and> check_password A p h) \<and> 8 \<le> length p'
        \<and> password_changed A i p' (\<lambda>s. t \<noteq> '''' \<and> se_token_hash s = digest A t) (w_db w) (w_db w')) w"
  unfolding ChangePasswordKeepingSession_def verifyPassword_def hashPassword_def
  by (intro wp_intros) (auto elim!: password_changedI)

lemma reset_spec:
  "wp (ResetPassword A u p') (\<lambda>_ w'. w_db w' = w_db w)
     (\<lambda>_ w'. \<exists>i a. select_admin (TrimSpace u) (w_db w) = Inr (i, a) \<and> 8 \<le> length p'
        \<and> password_changed A i p' (\<lambda>_. False) (w_db w) (w_db w')) w"
  unfolding ResetPassword_def hashPassword_def validateCredentials_def Let_def
  by (intro wp_intros) (auto split: if_splits elim!: password_changedI)

section \<open>The life of a session\<close>

text \<open>A session outlasts every call that leaves it alone.\<close>

lemma standing_changed:
  assumes "standing K i name h e d" and "password_changed A j p' keep d d'" and "\<And>s. j = i \<Longrightarrow> se_token_hash s = h \<Longrightarrow> keep s"
  shows "standing K i name h e d'"
proof -
  from assms(2) obtain salt now where d': "d' = d\<lparr>d_admins := update_where (\<lambda>k _. k = j)
      (\<lambda>a. a\<lparr>ad_password_hash := encode_hash salt (al_IDKey A p' salt 32), ad_updated_at_ms := now\<rparr>) (d_admins d),
    d_sessions := filter (\<lambda>s. se_admin_id s = j \<longrightarrow> keep s) (d_sessions d)\<rparr>"
    unfolding password_changed_def by blast
  have row: "map_of (map (\<lambda>(k, r). (k, if k = j then f r else r)) xs) n
      = map_option (\<lambda>r. if n = j then f r else r) (map_of xs n)" for f :: "admin_row \<Rightarrow> admin_row" and xs n
    by (induction xs) auto
  from assms(1) obtain s where s: "find (\<lambda>s. se_token_hash s = h) (d_sessions d) = Some s" "se_admin_id s = i"
      "se_token_hash s = h" "se_expires_at_ms s = e" "K (se_csrf_hash s)"
    by (auto simp: standing_def select_session_def find_Some_iff split: option.splits)
  then have "select_session h d' = Inr s"
    using find_filter_keep [OF s(1), of "\<lambda>s. se_admin_id s = j \<longrightarrow> keep s"] assms(3)
    by (auto simp: select_session_def d')
  moreover from assms(1) obtain a where a: "map_of (tb_rows (d_admins d)) i = Some a" "ad_username a = name" "\<not> ad_disabled a"
    unfolding standing_def by blast
  have "\<exists>a. map_of (tb_rows (d_admins d')) i = Some a \<and> ad_username a = name \<and> \<not> ad_disabled a"
    using a by (cases "i = j") (simp_all add: d' update_where_rows row)
  ultimately show ?thesis using s unfolding standing_def by blast
qed

lemma wp_db: "wp m (\<lambda>_ w'. P (w_db w')) (\<lambda>_ w'. P (w_db w')) w \<Longrightarrow> P (w_db (snd (m w)))"
  by (auto simp: wp_def split: prod.splits sum.splits)

lemma standing_sel: "standing K i name h e d \<Longrightarrow> select_session h d = Inr s \<Longrightarrow> se_token_hash s = h \<and> se_expires_at_ms s = e"
  by (auto simp: standing_def select_session_def find_Some_iff split: option.splits)

lemma standing_use:
  assumes st: "standing K i name h e (w_db w)" and "digest A t \<noteq> h \<or> reading w < e"
  shows "standing K i name h e (w_db (snd (SessionOf A t w)))"
proof (rule wp_db)
  have e: "reading w < n" if "join_session (digest A t) (w_db w) = Inr (x, n)" "digest A t = h" for x n
    using that assms by (auto simp: join_session_def split: sum.splits option.splits if_splits dest: standing_sel)
  have del: "standing K i name h e d'" if "delete_sessions (\<lambda>s. se_token_hash s = digest A t) (w_db w) = Inr d'" "digest A t \<noteq> h" for d'
    by (rule standing_delete [OF st _ that(1)]) (use standing_sel [OF st] that(2) in auto)
  have seen: "standing K i name h e d'"
    if "update_sessions (\<lambda>s. se_token_hash s = digest A t) (\<lambda>s. s\<lparr>se_last_seen_at_ms := now\<rparr>) (w_db w) = Inr (n, d')" for now n d'
    by (rule standing_update [OF st that]) simp_all
  show "wp (SessionOf A t) (\<lambda>_ w'. standing K i name h e (w_db w')) (\<lambda>_ w'. standing K i name h e (w_db w')) w"
    unfolding SessionOf_def Logout_def using st e assms(2)
    by (fastforce simp: wp_simps wp_reading simp del: wp_time_now split: sum.split prod.split dest: del seen)
qed

lemma standing_run:
  assumes st: "standing K i name h e (w_db w)" and l: "leaves A i h e c w"
    and k: "renews A h c \<Longrightarrow> K = (\<lambda>_. True)"
  shows "standing K i name h e (w_db (auth_run A c w))"
proof (cases c)
  case (Call_login u p ip ua)
  have "wp (Login A u p ip ua) (\<lambda>_ w'. standing K i name h e (w_db w')) (\<lambda>_ w'. standing K i name h e (w_db w')) w"
    by (rule wp_mono [OF login_spec]) (use st standing_insert in auto)
  then show ?thesis unfolding Call_login auth_run.simps by (rule wp_db)
next
  case (Call_logout t)
  have "wp (Logout A t) (\<lambda>_ w'. standing K i name h e (w_db w')) (\<lambda>_ w'. standing K i name h e (w_db w')) w"
    unfolding Logout_def
    by (intro wp_intros) (use st l standing_sel [OF st] in \<open>auto simp: Call_logout elim!: standing_delete [OF st, rotated]\<close>)
  then show ?thesis unfolding Call_logout auth_run.simps by (rule wp_db)
next
  case (Call_session t)
  with standing_use [OF st, of A t] l show ?thesis by simp
next
  case (Call_refresh_csrf t)
  have "standing K i name h e d'" if u: "update_sessions (\<lambda>s. se_token_hash s = digest A t \<and> now < se_expires_at_ms s)
      (\<lambda>s. s\<lparr>se_csrf_hash := x\<rparr>) (w_db w) = Inr (n, d')" for now x n d'
    by (rule standing_update [OF st u]) (use k standing_sel [OF st] in \<open>auto simp: Call_refresh_csrf\<close>)
  then have "wp (RefreshCSRF A t) (\<lambda>_ w'. standing K i name h e (w_db w')) (\<lambda>_ w'. standing K i name h e (w_db w')) w"
    unfolding RefreshCSRF_def randomToken_def by (intro wp_intros) (use st in auto)
  then show ?thesis unfolding Call_refresh_csrf auth_run.simps by (rule wp_db)
next
  case (Call_change j p p' t)
  have "wp (ChangePasswordKeepingSession A j p p' t) (\<lambda>_ w'. standing K i name h e (w_db w'))
      (\<lambda>_ w'. standing K i name h e (w_db w')) w"
    by (rule wp_mono [OF change_spec]) (use st l in \<open>auto simp: Call_change intro!: standing_changed [OF st]\<close>)
  then show ?thesis unfolding Call_change auth_run.simps by (rule wp_db)
next
  case (Call_reset u p)
  have "wp (ResetPassword A u p) (\<lambda>_ w'. standing K i name h e (w_db w')) (\<lambda>_ w'. standing K i name h e (w_db w')) w"
    by (rule wp_mono [OF reset_spec]) (use st l in \<open>auto simp: Call_reset intro!: standing_changed [OF st]\<close>)
  then show ?thesis unfolding Call_reset auth_run.simps by (rule wp_db)
qed (use st in \<open>simp_all add: stable_db_snd [where J = "standing K i name h e"] standing.stable_admin_calls\<close>)

lemma standing_runs:
  "standing K i name h e (w_db w) \<Longrightarrow> undisturbed A i h e cs w \<Longrightarrow> list_ex (renews A h) cs \<longrightarrow> K = (\<lambda>_. True) \<Longrightarrow>
     standing K i name h e (w_db (fold (auth_run A) cs w))"
  by (induction cs arbitrary: w) (auto simp: standing_run)

lemma standing_accepted:
  assumes "standing K i name (digest A t) e (w_db v)" and "w_faults v = []" and "reading v < e"
  shows "fst (SessionOf A t v) = Inr \<lparr>a_ID = i, a_Username = name\<rparr>"
    and "\<exists>k. K k \<and> (\<forall>c. fst (VerifyCSRF A t c v) = Inr (k = digest A c))"
  using assms
  by (auto simp: SessionOf_fault_free VerifyCSRF_fault_free join_session_def standing_def)

text \<open>C18: A login succeeds only for an enabled administrator of that name whose stored hash the password
  passes. From then on, whatever calls of the service come and in whatever order, the token is
  accepted as that administrator, with exactly the CSRF token returned (until that one is renewed),
  for the configured time, unless a logout, a change or reset of the password or a use after the end
  removes the session; once the configured time has passed it is refused, whatever the uses in
  between, as long as no later login happens to return a token with the same digest. Every other
  token keeps its meaning.\<close>

theorem session_lifetime:
  assumes "auth_ok (w_db w)" and "Login A u p ip ua w = (Inr (token, csrf), w')"
    and "w_db v = w_db (fold (auth_run A) cs w')"
  shows "\<exists>i a. (i, a) \<in> set (tb_rows (d_admins (w_db w))) \<and> nocase (ad_username a) = nocase (TrimSpace u)
     \<and> \<not> ad_disabled a \<and> check_password A p (ad_password_hash a)
     \<and> (w_faults v = [] \<longrightarrow> undisturbed A i (digest A token) (reading w + al_ttl A) cs w' \<longrightarrow>
          reading v < reading w + al_ttl A \<longrightarrow>
          fst (SessionOf A token v) = Inr \<lparr>a_ID = i, a_Username = ad_username a\<rparr>
          \<and> (\<not> list_ex (renews A (digest A token)) cs \<longrightarrow>
               (\<forall>c. fst (VerifyCSRF A token c v) = Inr (digest A c = digest A csrf))))
     \<and> (digest A token \<notin> digest A ` set (issued A cs w') \<longrightarrow> reading w + al_ttl A \<le> reading v \<longrightarrow> refused_token A token v)
     \<and> (\<forall>t. digest A t \<noteq> digest A token \<longrightarrow> join_session (digest A t) (w_db w') = join_session (digest A t) (w_db w))"
proof -
  let ?h = "digest A token" and ?e = "reading w + al_ttl A"
  from wp_Inr [OF login_spec assms(2)] obtain i a where
    l: "select_admin (TrimSpace u) (w_db w) = Inr (i, a)" "\<not> ad_disabled a" "check_password A p (ad_password_hash a)"
    and s: "insert_session (session_made A i token csrf ip ua (reading w)) (w_db w) = Inr (w_db w')"
    by auto
  have h [simp]: "se_token_hash (session_made A i token csrf ip ua n) = ?h" for n
    by (simp add: session_made_def)
  note sel = insert_session_selected [OF s, simplified]
  note m = select_admin_mem [OF assms(1) l(1)]
  have st: "standing K i (ad_username a) ?h ?e (w_db w')" if "K (digest A csrf)" for K
    using m(1) l(2) that by (simp add: standing_def sel(1,2)) (simp add: session_made_def)
  have o: "join_session k (w_db w') = join_session k (w_db w)" if "k \<noteq> ?h" for k
    unfolding join_session_def sel(2) sel(3) [OF that] by (rule refl)
  have ends: "ends_by ?h ?e (w_db w')"
    using ends_by_new [OF s] by (simp add: session_made_def)
  have ref: "refused_token A token v" if "?h \<notin> digest A ` set (issued A cs w')" "?e \<le> reading v"
  proof (rule expired_refused [OF _ that(2)])
    show "ends_by ?h ?e (w_db v)"
      unfolding assms(3) using ends_by_other ends that(1) by (rule limited.kept_unless_issued)
  qed
  have acc: "fst (SessionOf A token v) = Inr \<lparr>a_ID = i, a_Username = ad_username a\<rparr>"
      "\<not> list_ex (renews A ?h) cs \<Longrightarrow> fst (VerifyCSRF A token c v) = Inr (digest A c = digest A csrf)"
    if "w_faults v = []" "undisturbed A i ?h ?e cs w'" "reading v < ?e" for c
  proof -
    have "standing (\<lambda>_. True) i (ad_username a) ?h ?e (w_db v)"
      unfolding assms(3) by (rule standing_runs [OF st that(2)]) simp_all
    then show "fst (SessionOf A token v) = Inr \<lparr>a_ID = i, a_Username = ad_username a\<rparr>"
      using that(1,3) by (rule standing_accepted)
    assume "\<not> list_ex (renews A ?h) cs"
    then have "standing ((=) (digest A csrf)) i (ad_username a) ?h ?e (w_db v)"
      unfolding assms(3) by (intro standing_runs [OF st that(2)]) simp_all
    from standing_accepted(2) [OF this that(1,3)] show "fst (VerifyCSRF A token c v) = Inr (digest A c = digest A csrf)"
      by (auto simp: eq_commute)
  qed
  show ?thesis
    by (rule exI [of _ i], rule exI [of _ a]) (use map_of_SomeD [OF m(1)] m(2) l o acc ref in auto)
qed

text \<open>C21: Only a login opens a session. A token that the administrator logged out, and more generally one
  that no session of the tables has, is refused by every check (the session, the CSRF token, the
  renewal of the CSRF token) after any further calls and under any faults of the database, as long
  as no login of the run returns a token with the same digest.\<close>

theorem logged_out_for_good:
  assumes "Logout A t w = (Inr (), w1) \<or> digest A t \<notin> se_token_hash ` set (d_sessions (w_db w1))"
    and "digest A t \<notin> digest A ` set (issued A cs w1)" and "w_db v = w_db (fold (auth_run A) cs w1)"
  shows "refused_token A t v"
proof -
  have "wp (Logout A t) (\<lambda>_ _. True) (\<lambda>_ w'. absent (digest A t) (w_db w')) w"
    unfolding Logout_def by (intro wp_intros) (auto simp: absent_def delete_sessions_def)
  then have "absent (digest A t) (w_db w1)" using assms(1) wp_Inr by (fastforce simp: absent_def)
  with absent_other have "absent (digest A t) (w_db v)"
    unfolding assms(3) using assms(2) by (rule gone.kept_unless_issued)
  then show ?thesis by (rule absent_refused)
qed

section \<open>Changing a password\<close>

lemma revoked_session:
  assumes "auth_ok d" "password_changed A i p' keep d d'"
    and "s \<in> set (d_sessions d)" "se_admin_id s = i" "\<not> keep s" "se_token_hash s = h"
  shows "join_session h d' = Inl ErrNoRows"
proof -
  have "find (\<lambda>s. se_token_hash s = h) (d_sessions d') = None"
    using assms inj_onD [of se_token_hash "set (d_sessions d)"]
    by (fastforce simp: password_changed_def find_None_iff auth_ok_def distinct_map)
  then show ?thesis by (simp add: join_session_def select_session_def)
qed

text \<open>C19: A password change needs the current password. When it succeeds the new password is stored, every
  session of the administrator but the one kept is rejected, and the sessions of others are
  those of before; when it fails, for whatever reason, nothing has changed.\<close>

theorem change_password_revokes:
  assumes "auth_ok (w_db w)"
    and "ChangePasswordKeepingSession A i p p' t w = (r, w')"
    and "w_db v = w_db w'" and "w_faults v = []"
  shows "(isl r \<longrightarrow> w_db w' = w_db w) \<and> (\<not> isl r \<longrightarrow>
     (\<exists>a salt. map_of (tb_rows (d_admins (w_db w))) i = Some a \<and> \<not> ad_disabled a \<and> check_password A p (ad_password_hash a)
        \<and> map_option ad_password_hash (map_of (tb_rows (d_admins (w_db w'))) i)
            = Some (encode_hash salt (al_IDKey A p' salt 32)))
     \<and> (\<forall>s \<in> set (d_sessions (w_db w)). se_admin_id s = i \<longrightarrow> (t = '''' \<or> se_token_hash s \<noteq> digest A t) \<longrightarrow>
          (\<forall>k. digest A k = se_token_hash s \<longrightarrow> fst (SessionOf A k v) = Inl session_expired))
     \<and> filter (\<lambda>s. se_admin_id s \<noteq> i) (d_sessions (w_db w')) = filter (\<lambda>s. se_admin_id s \<noteq> i) (d_sessions (w_db w)))"
proof (cases r)
  case (Inl e)
  with assms(2) wp_Inl [OF change_spec, of A i p p' t w e w'] show ?thesis by simp
next
  case (Inr x)
  with assms(2) wp_Inr [OF change_spec, of A i p p' t w x w'] obtain h where
    h: "select_password i (w_db w) = Inr h" "check_password A p h"
    and c: "password_changed A i p' (\<lambda>s. t \<noteq> '''' \<and> se_token_hash s = digest A t) (w_db w) (w_db w')"
    by auto
  from h obtain a where a: "map_of (tb_rows (d_admins (w_db w))) i = Some a" "\<not> ad_disabled a" "ad_password_hash a = h"
    by (auto simp: select_password_def split: option.splits if_splits)
  have row: "map_of (map (\<lambda>(j, r). (j, if j = i then f r else r)) xs) i = map_option f (map_of xs i)"
    for f :: "admin_row \<Rightarrow> admin_row" and xs
    by (induction xs) auto
  from c a(1) have stored: "\<exists>salt. map_option ad_password_hash (map_of (tb_rows (d_admins (w_db w'))) i)
      = Some (encode_hash salt (al_IDKey A p' salt 32))"
    by (auto simp: password_changed_def update_where_rows row)
  have gone: "fst (SessionOf A k v) = Inl session_expired"
    if "s \<in> set (d_sessions (w_db w))" "se_admin_id s = i" "t = '''' \<or> se_token_hash s \<noteq> digest A t"
      "digest A k = se_token_hash s" for s k
  proof -
    have "join_session (digest A k) (w_db w') = Inl ErrNoRows"
      by (rule revoked_session [OF assms(1) c that(1,2)]) (use that(3,4) in auto)
    then show ?thesis by (simp add: SessionOf_fault_free [OF assms(4)] assms(3))
  qed
  have rest: "filter (\<lambda>s. se_admin_id s \<noteq> i) (d_sessions (w_db w')) = filter (\<lambda>s. se_admin_id s \<noteq> i) (d_sessions (w_db w))"
  proof -
    have "filter (\<lambda>s. se_admin_id s \<noteq> i) (filter (\<lambda>s. se_admin_id s = i \<longrightarrow> K s) xs) = filter (\<lambda>s. se_admin_id s \<noteq> i) xs" for K xs
      by (induction xs) auto
    with c show ?thesis by (auto simp: password_changed_def simp del: filter_filter)
  qed
  show ?thesis using Inr a h(2) stored gone rest by auto
qed

section \<open>A run\<close>

text \<open>Random bytes are numbered blocks; Argon2 appends the salt and pads; SHA-256 is the identity.\<close>

definition demo_auth :: "nat authlib" where
  "demo_auth = \<lparr>al_IDKey = (\<lambda>p salt n. take n (p @ salt @ replicate n CHR ''.'')), al_Sum256 = (\<lambda>s. s),
     al_Read = (\<lambda>n k. (Inr (replicate n (char_of k)), k + 1)), al_Wait = (\<lambda>k. (Inr (), k)), al_ttl = 60000\<rparr>"

lemma demo_auth_sel:
  "al_Read demo_auth n k = (Inr (replicate n (char_of k)), k + 1)" "al_Wait demo_auth k = (Inr (), k)"
  "al_Sum256 demo_auth s = s" "al_ttl demo_auth = 60000"
  by (simp_all add: demo_auth_def)

definition auth_world :: "nat world" where
  "auth_world = \<lparr>w_db = empty_db, w_faults = [], w_now = 1000, w_clock = [], w_ext = 1\<rparr>"



definition root :: admin_row where
  "root = new_admin ''Root'' (encode_hash ''salt'' ''password1salt'') 1000"

definition claimed_world :: "nat world" where
  "claimed_world = auth_world\<lparr>w_db := empty_db\<lparr>d_admins := insert_row root empty_table\<rparr>\<rparr>"

definition tokens :: "string \<times> string" where
  "tokens = (EncodeToString True (replicate 32 (char_of (1 :: nat))), EncodeToString True (replicate 32 (char_of (2 :: nat))))"

lemma login_parts:
  "select_admin (TrimSpace '' root '') (w_db claimed_world) = Inr (1, root)"
  "check_password demo_auth ''password1'' (ad_password_hash root)" "\<not> ad_disabled root"
  by code_simp+

definition opened :: "nat world" where
  "opened = claimed_world\<lparr>w_db := (w_db claimed_world)\<lparr>d_sessions := [
     \<lparr>se_token_hash = fst tokens, se_admin_id = 1, se_csrf_hash = snd tokens, se_client_ip = ''ip'', se_user_agent = ''agent'',
      se_created_at_ms = 1000, se_last_seen_at_ms = 1000, se_expires_at_ms = 61000\<rparr>]\<rparr>, w_ext := 3\<rparr>"

lemma run_world: "faulty auth_world = False" "faulty (w\<lparr>w_ext := x\<rparr>) = faulty w" "faulty (w\<lparr>w_db := d\<rparr>) = faulty w"
  "pop_fault auth_world = auth_world" "w_faults w = [] \<Longrightarrow> pop_fault w = w" "w_faults w = [] \<Longrightarrow> \<not> faulty w"
  for w :: "nat world"
  by (simp_all add: faulty_def auth_world_def pop_fault_def split: list.splits)

lemma logged_in: "Login demo_auth '' root '' ''password1'' ''ip'' ''agent'' claimed_world = (Inr tokens, opened)"
proof -
  have c: "w_faults claimed_world = []" "w_clock claimed_world = []" "w_now claimed_world = 1000" "w_ext claimed_world = 1"
      "tb_rows (d_admins (w_db claimed_world)) = [(1, root)]" "d_sessions (w_db claimed_world) = []"
    by (simp_all add: claimed_world_def auth_world_def insert_row_def empty_table_def empty_db_def)
  show ?thesis
    by (simp add: Login_def bindM_def attemptM_def mapErr_def db_query_def db_exec_def db_run_def login_parts run_world c
        verifyPassword_def randomToken_def call_def demo_auth_sel returnM_def guardM_def time_now_def
        insert_session_def opened_def digest_def tokens_def numeral_2_eq_2 numeral_3_eq_3)
qed

lemma claimed_world_ok: "auth_ok (w_db claimed_world)"
  by (simp add: claimed_world_def auth_world_def auth_ok_def empty_db_def insert_row_def empty_table_def auto_ok_def)

lemma opened_ok: "auth_ok (w_db opened)"
  using consistent.kept_run [OF claimed_world_ok, of demo_auth "Call_login '' root '' ''password1'' ''ip'' ''agent''"]
  by (simp add: logged_in)

theorem initial_admin_once_witness:
  "fst (initial_admin_commit ''other'' ''hash2'' (fold (auth_run demo_auth) [Call_reset ''root'' ''password2'']
     (snd (initial_admin_commit ''root'' ''hash'' auth_world)))) \<noteq> Inr ()"
proof -
  have "\<not> isl (fst (initial_admin_commit ''root'' ''hash'' auth_world))" by code_simp
  then have "initial_admin_commit ''root'' ''hash'' auth_world = (Inr (), snd (initial_admin_commit ''root'' ''hash'' auth_world))"
    by (cases "initial_admin_commit ''root'' ''hash'' auth_world"; cases "fst (initial_admin_commit ''root'' ''hash'' auth_world)") auto
  from initial_admin_once [OF this] show ?thesis by blast
qed

definition later :: "nat world" where
  "later = (fold (auth_run demo_auth) [Call_session (fst tokens), Call_refresh_csrf (fst tokens)] opened)\<lparr>w_now := 61000, w_clock := []\<rparr>"

theorem session_lifetime_witness:
  "fst (SessionOf demo_auth (fst tokens) opened) = Inr \<lparr>a_ID = 1, a_Username = ''Root''\<rparr>
   \<and> fst (VerifyCSRF demo_auth (fst tokens) (snd tokens) opened) = Inr True \<and> refused_token demo_auth (fst tokens) later"
proof -
  have r: "reading opened < reading claimed_world + al_ttl demo_auth" "w_faults opened = []"
      "reading claimed_world + al_ttl demo_auth \<le> reading later"
    and a: "tb_rows (d_admins (w_db claimed_world)) = [(1, root)]" "ad_username root = ''Root''"
    by (simp_all add: reading_def opened_def later_def claimed_world_def auth_world_def demo_auth_def insert_row_def
        empty_table_def empty_db_def root_def new_admin_def)
  obtain token csrf where t: "tokens = (token, csrf)" by (cases tokens)
  have db: "w_db opened = w_db (fold (auth_run demo_auth) [] opened)" "w_db later = w_db (fold (auth_run demo_auth)
      [Call_session token, Call_refresh_csrf token] opened)"
    by (simp_all add: later_def t)
  from session_lifetime [OF claimed_world_ok logged_in [unfolded t] db(1)]
    session_lifetime [OF claimed_world_ok logged_in [unfolded t] db(2)] r a
  show ?thesis by (auto simp: t)
qed

theorem logged_out_for_good_witness:
  "refused_token demo_auth (fst tokens) (fold (auth_run demo_auth) [Call_refresh_csrf (fst tokens), Call_reset ''root'' ''password2'']
     (snd (Logout demo_auth (fst tokens) opened)))"
proof (rule logged_out_for_good [where cs = "[Call_refresh_csrf (fst tokens), Call_reset ''root'' ''password2'']"])
  have "\<not> faulty opened" by (simp add: faulty_def opened_def claimed_world_def auth_world_def)
  then have "Logout demo_auth (fst tokens) opened = (Inr (), snd (Logout demo_auth (fst tokens) opened))"
    by (simp add: Logout_def db_exec_def db_run_def delete_sessions_def)
  then show "Logout demo_auth (fst tokens) opened = (Inr (), snd (Logout demo_auth (fst tokens) opened))
      \<or> digest demo_auth (fst tokens) \<notin> se_token_hash ` set (d_sessions (w_db (snd (Logout demo_auth (fst tokens) opened))))"
    by (rule disjI1)
qed simp_all

lemma changed: "\<not> isl (fst (ChangePasswordKeepingSession demo_auth 1 ''password1'' ''password2'' '''' opened))"
    "w_faults (snd (ChangePasswordKeepingSession demo_auth 1 ''password1'' ''password2'' '''' opened)) = []"
proof -
  have o: "w_faults opened = []" "w_clock opened = []" "map_of (tb_rows (d_admins (w_db opened))) 1 = Some root"
    by (simp_all add: opened_def claimed_world_def auth_world_def insert_row_def empty_table_def empty_db_def)
  then have "select_password 1 (w_db opened) = Inr (ad_password_hash root)"
    by (simp add: select_password_def login_parts)
  then have "fst (ChangePasswordKeepingSession demo_auth 1 ''password1'' ''password2'' '''' opened) = Inr ()
      \<and> w_faults (snd (ChangePasswordKeepingSession demo_auth 1 ''password1'' ''password2'' '''' opened)) = []"
    by (simp add: ChangePasswordKeepingSession_def bindM_def mapErr_def db_query_def db_exec_def db_run_def login_parts
        run_world o verifyPassword_def hashPassword_def call_def returnM_def guardM_def time_now_def transaction_def
        set_password_def delete_sessions_def demo_auth_sel)
  then show "\<not> isl (fst (ChangePasswordKeepingSession demo_auth 1 ''password1'' ''password2'' '''' opened))"
    "w_faults (snd (ChangePasswordKeepingSession demo_auth 1 ''password1'' ''password2'' '''' opened)) = []" by auto
qed

theorem change_password_revokes_witness:
  "fst (SessionOf demo_auth (fst tokens) (snd (ChangePasswordKeepingSession demo_auth 1 ''password1'' ''password2'' '''' opened)))
     = Inl session_expired"
proof -
  obtain s where s: "s \<in> set (d_sessions (w_db opened))" "se_admin_id s = 1" "digest demo_auth (fst tokens) = se_token_hash s"
    by (auto simp: opened_def digest_def demo_auth_def)
  from change_password_revokes [OF opened_ok prod.collapse [symmetric] refl changed(2)] changed(1) s
  show ?thesis by blast
qed

section \<open>The login limiter\<close>

text \<open>Whatever the clients do and in whatever order, the limiter holds at most 4096 entries, one per key,
  each below the threshold of five failures.\<close>

theorem limiter_bounded:
  "length (fold limiter_run cs []) \<le> 4096 \<and> distinct (map fst (fold limiter_run cs []))
   \<and> (\<forall>k a. map_of (fold limiter_run cs []) k = Some a \<longrightarrow> 0 \<le> at_count a \<and> at_count a < 5)"
proof -
  have "limiter_ok (fold limiter_run cs [])"
    by (rule limiter_runs_ok) (simp add: limiter_ok_def)
  then show ?thesis
    by (fastforce simp: limiter_ok_def maxLoginLimiterEntries_def dest: map_of_SomeD)
qed

theorem limiter_bounded_witness:
  "length (fold limiter_run [Fail (\<lambda>_. 0) ''a'' 1, Ask ''a'' 2, Succeed ''a''] []) \<le> 4096"
  by (rule conjunct1 [OF limiter_bounded])

definition failures :: "string \<Rightarrow> int list \<Rightarrow> limiter \<Rightarrow> limiter" where
  "failures key ts l = fold (Failed_login (\<lambda>_. 0) key) ts l"

lemma failures_count:
  assumes "map_of l key = None" and "length l < maxLoginLimiterEntries" and "length ts < 4"
  shows "map_of (failures key (ts @ [t]) l) key = Some \<lparr>at_count = int (length ts) + 1, at_until = None, at_lastSeen = t\<rparr>"
  using assms(3)
proof (induction ts arbitrary: t rule: rev_induct)
  case Nil
  then show ?case using assms(1,2) by (simp add: failures_def Failed_room zero_attempt_def)
next
  case (snoc u ts)
  from snoc.prems snoc.IH [of u] have "map_of (failures key (ts @ [u]) l) key = Some \<lparr>at_count = int (length ts) + 1, at_until = None, at_lastSeen = u\<rparr>"
    by simp
  then show ?case using snoc.prems by (simp add: failures_def Failed_room Let_def)
qed

lemma failures_other: 
  assumes "map_of l key = None" and "length l < maxLoginLimiterEntries" and "other \<noteq> key"
  shows "map_of (failures key ts l) other = map_of l other"
proof (induction ts rule: rev_induct)
  case (snoc t ts)
  have "length (failures key ts l) < maxLoginLimiterEntries \<or> map_of (failures key ts l) key \<noteq> None"
    by (cases ts rule: rev_cases) (simp_all add: failures_def assms Failed_login_def Let_def)
  then show ?case using snoc assms(3) by (simp add: failures_def Failed_room)
qed (simp add: failures_def)

text \<open>C22: Fewer than five failures in a row never lock a client out; the fifth locks its key for exactly five
  minutes from then on and no other key, whatever its state.\<close>

theorem limiter_locks:
  assumes "map_of l key = None" and "length l < 4096"
  shows "(\<forall>ts now. length ts < 5 \<longrightarrow> fst (Allowed key now (failures key ts l)))
     \<and> (\<forall>ts t now. length ts = 4 \<longrightarrow>
          fst (Allowed key now (failures key (ts @ [t]) l)) = (t + 300000000000 \<le> now))
     \<and> (\<forall>ts other. other \<noteq> key \<longrightarrow> map_of (failures key ts l) other = map_of l other)"
proof -
  have room: "length l < maxLoginLimiterEntries" using assms(2) by (simp add: maxLoginLimiterEntries_def)
  have a: "fst (Allowed key now (failures key ts l))" if "length ts < 5" for ts now
  proof (cases ts rule: rev_cases)
    case Nil
    then show ?thesis by (simp add: failures_def Allowed_iff assms(1))
  next
    case (snoc us t)
    then show ?thesis using failures_count [OF assms(1) room, of us t] that by (simp add: Allowed_iff)
  qed
  have b: "fst (Allowed key now (failures key (ts @ [t]) l)) = (t + 300000000000 \<le> now)" if "length ts = 4" for ts t now
  proof -
    from that obtain us u where ts: "ts = us @ [u]" by (cases ts rule: rev_cases) auto
    with that failures_count [OF assms(1) room, of us u] show ?thesis
      by (auto simp: failures_def Failed_room Let_def Allowed_iff lock_time_def)
  qed
  show ?thesis using a b failures_other [OF assms(1) room] by blast
qed

theorem limiter_locks_witness:
  "fst (Allowed ''c'' 300000000004 (failures ''c'' [1, 2, 3, 4, 5] [])) = False"
  using limiter_locks [of "[]" "''c''"] by (auto dest: spec [of _ "[1, 2, 3, 4]"])

text \<open>
  The bound has a price: once 4096 keys failed within the retention time, a failure of one more
  key removes an entry, and it may be one that is locked, which is then allowed at once.
\<close>

lemma limiter_eviction_unlocks:
  assumes "limiter_ok l" "length l = maxLoginLimiterEntries" "i < length l" "fst (l ! i) = key"
    and "filter (\<lambda>(k, a). \<not> (\<not> after (at_until a) now \<and> loginAttemptRetention \<le> now - at_lastSeen a)) l = l"
    and "map_of l new = None" "new \<noteq> key"
  shows "fst (Allowed key now (Failed_login (\<lambda>_. i) new now l))"
proof -
  have "delete_key key l \<noteq> l" using assms(3,4) nth_mem [OF assms(3)] by (auto simp: delete_key_def filter_id_conv)
  then have "length (delete_key key l) < length l"
    by (metis delete_key_def filter_id_conv length_filter_less)
  then have "evict_loop (\<lambda>_. i) l = delete_key key l"
    using assms(2-4) by (simp add: evict_loop.simps [of _ l] evict_loop.simps [of _ "delete_key key l"])
  then show ?thesis
    using assms(2,5-7) by (simp add: Allowed_iff Failed_login_def evict_def Let_def)
qed

end
