(* ===== verification/AppEffects.thy ===== *)
theory AppEffects
  imports App RuleSystem AuthProperties OperationsSpec
begin

text \<open>
  What the handlers do to the tables: which only read, what the guards let through, and what the
  answer to an edit of the rules says about its effect.
\<close>

section \<open>Edits of the rules\<close>

text \<open>
  An operation on the rules ends in a publication: when it fails the rules and the active version are
  what they were, when it succeeds the version it returns is active.
\<close>

definition same_rules :: "db \<Rightarrow> db \<Rightarrow> bool" where
  "same_rules d0 d = (d_versions d = d_versions d0 \<and> d_rules d = d_rules d0)"

definition edit_ok :: "db \<Rightarrow> (Version \<times> error, 'm world, Version) prog \<Rightarrow> bool" where
  "edit_ok d0 m = (\<forall>w. same_rules d0 (w_db w) \<longrightarrow>
     wp m (\<lambda>_ w'. d_rules (w_db w') = d_rules d0 \<and> active_of (w_db w') = active_of d0)
       (\<lambda>v w'. active_of (w_db w') = v_Version v) w)"

lemma find_filter: "find P xs = (case filter P xs of [] \<Rightarrow> None | x # _ \<Rightarrow> Some x)"
  by (induction xs) auto

lemma active_of_actives: "actives d = [x] \<Longrightarrow> active_of d = vv_version x"
  by (simp add: active_of_def actives_def find_filter)

lemma active_of_cong: "d_versions d' = d_versions d \<Longrightarrow> active_of d' = active_of d"
  by (simp add: active_of_def)

lemma failed_same:
  assumes "publish_failed L C rules (w_db w) v e (w_db w')" and "same_rules d0 (w_db w)"
  shows "d_rules (w_db w') = d_rules d0" "active_of (w_db w') = active_of d0"
  using failed_effect [OF assms(1)] assms(2) active_of_cong [of "w_db w" d0] by (simp_all add: same_rules_def)

lemma published_active:
  assumes "published L C rules (w_db w) v (w_db w')" and "same_rules d0 (w_db w)" and "store_ok L d0"
  shows "active_of (w_db w') = v_Version v"
proof -
  have "store_ok L (w_db w)" using assms(2,3) store_ok_frame [of "w_db w" d0 L] by (simp add: same_rules_def)
  from published_effect [OF this assms(1)] obtain x where "actives (w_db w') = [x]" "vv_version x = v_Version v" by blast
  then show ?thesis by (simp add: active_of_actives)
qed

lemma edit_publish:
  assumes "store_ok L d0"
  shows "edit_ok d0 (publish L C rules adminID requestID ip rollbackFrom)"
  unfolding edit_ok_def
  by (intro allI impI, rule wp_mono [OF publish_spec]) (auto dest: failed_same published_active [OF _ _ assms])

lemma edit_bind:
  assumes "stable (onDB (same_rules d0)) m" and "\<And>a. edit_ok d0 (f a)"
  shows "edit_ok d0 (bindM (early m) f :: (Version \<times> error, 'm world, Version) prog)"
  unfolding edit_ok_def
proof (intro allI impI)
  fix w :: "'m world" assume "same_rules d0 (w_db w)"
  then have "onDB (same_rules d0) w" by simp
  from stable_wpD [OF assms(1) this]
  have "wp m (\<lambda>_ w'. same_rules d0 (w_db w')) (\<lambda>_ w'. same_rules d0 (w_db w')) w" by (rule wp_mono) simp_all
  then show "wp (bindM (early m) f) (\<lambda>_ w'. d_rules (w_db w') = d_rules d0 \<and> active_of (w_db w') = active_of d0)
      (\<lambda>v w'. active_of (w_db w') = v_Version v) w"
    unfolding wp_bindM wp_mapErr
    by (rule wp_mono) (use assms(2) in \<open>auto simp: edit_ok_def same_rules_def intro: active_of_cong\<close>)
qed

lemma edit_case_prod: "(\<And>a b. edit_ok d0 (f a b)) \<Longrightarrow> edit_ok d0 (case p of (a, b) \<Rightarrow> f a b)"
  by (cases p) simp

lemma same_rules_state:
  "same_rules d0 d \<Longrightarrow> state_insert_ignore k v d = Inr d' \<Longrightarrow> same_rules d0 d'"
  "same_rules d0 d \<Longrightarrow> state_update k v d = Inr d' \<Longrightarrow> same_rules d0 d'"
  by (auto simp: same_rules_def dest: state_ops_frame)

lemma stable_targets: "stable (onDB J) (validateRouteTargets C rules e)"
  unfolding validateRouteTargets_def by (intro stable_intros)

lemma stable_ids: "stable (onDB (same_rules d0)) (reserveRuleIDs n)"
  unfolding reserveRuleIDs_def Let_def by (intro stable_intros) (erule (1) same_rules_state)+

lemma stable_update_rules: "stable (onDB J) (update_loop i patch rules)"
  by (induction rules arbitrary: patch) (auto intro!: stable_intros simp: Let_def simp del: onDB_iff)

lemma stable_import_rules: "stable (onDB J) (import_loop rules is)"
  by (induction rules "is" rule: import_loop.induct) (auto intro!: stable_intros simp: Let_def simp del: onDB_iff)

lemmas edit_rules = edit_bind edit_case_prod edit_publish stable_intros stable_targets stable_ids stable_update_rules
  stable_import_rules

lemma edits:
  assumes "store_ok L d0"
  shows "edit_ok d0 (Create L C r adminID requestID ip)" "edit_ok d0 (Update L C i r adminID requestID ip)"
    "edit_ok d0 (Delete L C i adminID requestID ip)" "edit_ok d0 (Batch L C operation ids expected adminID requestID ip)"
    "edit_ok d0 (Import L C rs adminID requestID ip)" "edit_ok d0 (Rollback L C source expected adminID requestID ip)"
  unfolding Create_def Update_def Delete_def Batch_def Import_def Rollback_def nextRuleID_def validateRouteWrite_def
    allRules_def Let_def
  by (intro edit_rules assms)+

text \<open>The answer to an edit.\<close>

definition told :: "db \<Rightarrow> db \<Rightarrow> http_response \<Rightarrow> bool" where
  "told d d' resp =
     ((rs_Status resp = 200 \<longrightarrow> (\<exists>v. rs_Body resp = Inl (P_Version v) \<and> active_of d' = v_Version v))
      \<and> (rs_Status resp \<noteq> 200 \<longrightarrow> d_rules d' = d_rules d \<and> active_of d' = active_of d)
      \<and> rs_Status resp \<in> {200, 202, 400, 404, 409, 413})"

lemma publishRule_told:
  assumes "edit_ok (w_db w) m"
  shows "wp (publishRule rq m) (\<lambda>_ _. False) (\<lambda>resp w'. told (w_db w) (w_db w') resp) w"
proof -
  have "wp m (\<lambda>_ w'. d_rules (w_db w') = d_rules (w_db w) \<and> active_of (w_db w') = active_of (w_db w))
      (\<lambda>v w'. active_of (w_db w') = v_Version v) w"
    using assms by (simp add: edit_ok_def same_rules_def)
  then show ?thesis
    unfolding publishRule_def answer_def wp_bindM wp_attemptM wp_returnM
    by (rule wp_mono) (auto simp: told_def writeData_def writeError_def split: if_splits)
qed


section \<open>Routes that only read\<close>

text \<open>The tables but for the sessions, which every authenticated request touches.\<close>

definition but_sessions :: "db \<Rightarrow> db" where
  "but_sessions d = d\<lparr>d_sessions := []\<rparr>"

abbreviation sessions_only :: "db \<Rightarrow> 'm world \<Rightarrow> bool" where
  "sessions_only d0 \<equiv> onDB (\<lambda>d. but_sessions d = but_sessions d0)"

lemma session_writes:
  "but_sessions d = but_sessions d0 \<Longrightarrow> delete_sessions P d = Inr d' \<Longrightarrow> but_sessions d' = but_sessions d0"
  "but_sessions d = but_sessions d0 \<Longrightarrow> update_sessions P f d = Inr (n, d') \<Longrightarrow> but_sessions d' = but_sessions d0"
  "but_sessions d = but_sessions d0 \<Longrightarrow> insert_session s d = Inr d' \<Longrightarrow> but_sessions d' = but_sessions d0"
  by (auto simp: but_sessions_def delete_sessions_def update_sessions_def insert_session_def split: if_splits)

lemma stable_crypto:
  "stable (onDB J) (randomToken A)" "stable (onDB J) (verifyPassword A p e)"
  unfolding randomToken_def verifyPassword_def by (intro stable_intros)+

lemma stable_session_writes:
  "stable (sessions_only d0) (db_exec (delete_sessions P))" "stable (sessions_only d0) (db_run (update_sessions P f))"
  "stable (sessions_only d0) (db_exec (insert_session s))"
  by (rule stable_db_exec stable_db_run; erule (1) session_writes)+

lemmas session_rules = stable_session_writes stable_crypto stable_intros

lemma stable_sessions:
  "stable (sessions_only d0) (SessionOf A t)" "stable (sessions_only d0) (VerifyCSRF A t c)"
  "stable (sessions_only d0) (RefreshCSRF A t)" "stable (sessions_only d0) (Login A u p ip ua)"
  unfolding SessionOf_def VerifyCSRF_def RefreshCSRF_def Login_def Logout_def by (intro session_rules; simp?)+

lemma stable_reads:
  "stable (onDB J) List" "stable (onDB J) Versions" "stable (onDB J) (getVersion v)" "stable (onDB J) (Subscriptions c a)"
  "stable (onDB J) Devices" "stable (onDB J) (AuditLogs limit cursor)" "stable (onDB J) (SettingsOf C)"
  "stable (onDB J) (UpstreamGroups C)" "stable (onDB J) (UpstreamRuntimeStatus C)" "stable (onDB J) SummaryOf"
  "stable (onDB J) (Top L kind limit)" "stable (onDB J) Latency" "stable (onDB J) (Queries L q)"
  "stable (onDB J) NeedsInitialAdmin"
  unfolding List_def Versions_def getVersion_def Subscriptions_def Devices_def AuditLogs_def SettingsOf_def databaseSettings_def
    UpstreamGroups_def UpstreamRuntimeStatus_def SummaryOf_def latencyPercentile_def Top_def Latency_def Queries_def
    query_page_def NeedsInitialAdmin_def Let_def
  by (intro stable_intros)+

lemma stable_handlers:
  "stable I m \<Longrightarrow> stable I (answer m ok bad)"
  "(\<And>a. stable I (f a)) \<Longrightarrow> stable I (decodeJSON rq d f)"
  "(\<And>i. stable I (g i)) \<Longrightarrow> stable I (pathID rq name g)"
  "stable (onDB J) (on_limiter h)"
  unfolding answer_def decodeJSON_def pathID_def on_limiter_def
  by (auto intro!: stable_intros simp del: onDB_iff split: decoded.split sum.split)

lemma stable_memory_reads:
  "stable (onDB J) (on_state f)" "stable (onDB J) (state :: (error, 'm iworld, ingest_state) prog)"
  unfolding on_state_def state_def by (intro stable_intros)+

lemmas reads = stable_handlers stable_reads stable_memory_reads stable_sessions stable_intros

lemma read_handlers:
  "stable (onDB J) (health rq)" "stable (onDB J) (ready rq)" "stable (onDB J) (bootstrapStatus A rq)"
  "stable (onDB J) (me admin rq)" "stable (onDB J) (listRules rq)" "stable (onDB J) (previewImport A rq)"
  "stable (onDB J) (testRule A rq)" "stable (onDB J) (listSubscriptions rq)" "stable (onDB J) (listVersions rq)"
  "stable (onDB J) (versionDetail rq)" "stable (onDB J) (queries A rq)" "stable (onDB J) (queryStream A rq)"
  "stable (onDB J) (answerIPs rq)" "stable (onDB J) (summary rq)" "stable (onDB J) (statistics A kind rq)"
  "stable (onDB J) (latency rq)" "stable (onDB J) (upstreamRuntimeStatus A rq)" "stable (onDB J) (devices rq)"
  "stable (onDB J) (upstreamGroups A rq)" "stable (onDB J) (settings A rq)" "stable (onDB J) (auditLogs rq)"
  "stable (onDB J) (ingestEvents A rq)" "stable (onDB J) (versionInfo A rq)" "stable (onDB J) (systemStatus A rq)"
  unfolding health_def ready_def bootstrapStatus_def me_def listRules_def previewImport_def testRule_def listSubscriptions_def
    listVersions_def versionDetail_def queries_def queryStream_def answerIPs_def summary_def statistics_def latency_def
    upstreamRuntimeStatus_def devices_def upstreamGroups_def settings_def auditLogs_def ingestEvents_def versionInfo_def
    systemStatus_def SystemStatus_of_def Let_def
  by (intro reads)+

lemma session_handlers:
  "stable (sessions_only d0) (login A rq)" "stable (sessions_only d0) (refreshCSRF A rq)"
  unfolding login_def refreshCSRF_def allowed_def failed_def succeeded_def Let_def by (intro reads)+

lemma requireSession_stable:
  "(\<And>admin. stable (sessions_only d0) (h admin rq)) \<Longrightarrow> stable (sessions_only d0) (requireSession A h rq)"
  unfolding requireSession_def by (intro reads)


section \<open>Behind the guard\<close>

text \<open>A session of the token whose CSRF token is the one sent.\<close>

definition holds_csrf :: "'m authlib \<Rightarrow> string \<Rightarrow> string \<Rightarrow> db \<Rightarrow> bool" where
  "holds_csrf A token csrf d = list_ex (\<lambda>s. se_token_hash s = digest A token \<and> se_csrf_hash s = digest A csrf) (d_sessions d)"

definition blocked :: "'m authlib \<Rightarrow> string \<Rightarrow> string \<Rightarrow> 'm world \<Rightarrow> 'm world \<Rightarrow> bool" where
  "blocked A token csrf w w' = (but_sessions (w_db w') = but_sessions (w_db w) \<and> w_ext w' = w_ext w
     \<and> \<not> holds_csrf A token csrf (w_db w'))"

lemma seen_blocked:
  "\<not> holds_csrf A t c d \<Longrightarrow> update_sessions P (\<lambda>s. s\<lparr>se_last_seen_at_ms := now\<rparr>) d = Inr (n, d') \<Longrightarrow>
     \<not> holds_csrf A t c d' \<and> but_sessions d' = but_sessions d"
  by (auto simp: holds_csrf_def update_sessions_def but_sessions_def list_ex_iff split: if_splits)

lemma delete_blocked:
  "\<not> holds_csrf A t c d \<Longrightarrow> delete_sessions P d = Inr d' \<Longrightarrow> \<not> holds_csrf A t c d' \<and> but_sessions d' = but_sessions d"
  by (auto simp: holds_csrf_def delete_sessions_def but_sessions_def list_ex_iff)

lemma SessionOf_blocked:
  assumes "\<not> holds_csrf A t c (w_db w)"
  shows "wp (SessionOf A t) (\<lambda>_. blocked A t c w) (\<lambda>_. blocked A t c w) w"
  unfolding SessionOf_def Logout_def using assms
  by (auto simp: wp_simps blocked_def dest: seen_blocked delete_blocked split: sum.split list.split)

lemma VerifyCSRF_blocked:
  assumes "blocked A t c w u"
  shows "wp (VerifyCSRF A t c) (\<lambda>_ _. False) (\<lambda>ok w'. \<not> ok \<and> blocked A t c w w') u"
  unfolding VerifyCSRF_def using assms
  by (auto simp: wp_simps blocked_def holds_csrf_def list_ex_iff select_session_def find_Some_iff
      split: sum.splits list.splits option.splits if_splits)

lemma guarded_blocked:
  assumes "\<not> holds_csrf (ap_auth A) (sessionToken rq) (rq_CSRF rq) (w_db w)"
  shows "wp (requireSession A (\<lambda>admin. requireCSRF A (h admin)) rq) (\<lambda>_ _. False)
     (\<lambda>resp w'. (rs_Status resp = 401 \<or> rs_Status resp = 403) \<and> but_sessions (w_db w') = but_sessions (w_db w) \<and> w_ext w' = w_ext w) w"
proof -
  have v: "wp (requireCSRF A (h admin) rq) (\<lambda>_ _. False) (\<lambda>resp w'. (rs_Status resp = 401 \<or> rs_Status resp = 403)
      \<and> but_sessions (w_db w') = but_sessions (w_db w) \<and> w_ext w' = w_ext w) u"
    if "blocked (ap_auth A) (sessionToken rq) (rq_CSRF rq) w u" for admin u
    unfolding requireCSRF_def wp_bindM
    by (rule wp_mono [OF VerifyCSRF_blocked [OF that]]) (auto simp: wp_simps blocked_def writeError_def)
  show ?thesis
    unfolding requireSession_def wp_bindM wp_attemptM
    by (rule wp_mono [OF SessionOf_blocked [OF assms]]) (auto simp: wp_simps writeError_def blocked_def intro: v)
qed


lemma told_wrappers:
  "(\<And>a. wp (f a) (\<lambda>_ _. False) (\<lambda>resp w'. told (w_db w) (w_db w') resp) w) \<Longrightarrow>
     wp (decodeJSON rq d f) (\<lambda>_ _. False) (\<lambda>resp w'. told (w_db w) (w_db w') resp) w"
  "(\<And>i. wp (g i) (\<lambda>_ _. False) (\<lambda>resp w'. told (w_db w) (w_db w') resp) w) \<Longrightarrow>
     wp (pathID rq name g) (\<lambda>_ _. False) (\<lambda>resp w'. told (w_db w) (w_db w') resp) w"
  by (auto simp: decodeJSON_def pathID_def wp_returnM told_def writeError_def split: decoded.split sum.split)

lemma edits_told:
  assumes "store_ok (ap_rlib A) (w_db w)"
    and "h \<in> set [createRule A, updateRule A, deleteRule A, batchRules A, importRules A, rollback A]"
  shows "wp (h admin rq) (\<lambda>_ _. False) (\<lambda>resp w'. told (w_db w) (w_db w') resp) w"
  using assms(2)
  by (auto simp: createRule_def updateRule_def deleteRule_def batchRules_def importRules_def rollback_def
      intro!: told_wrappers publishRule_told edits assms(1))

section \<open>The table of routes\<close>

definition guard_of :: "'n route \<Rightarrow> guard" where
  "guard_of r = fst (snd (snd r))"

lemma reads_stable:
  assumes "r \<in> set (PublicHandler A @ InternalHandler A)" and "guard_of r \<noteq> CSRF"
    and "(fst r, fst (snd r)) \<noteq> (''POST'', ''/api/v1/auth/bootstrap'')"
  shows "stable (sessions_only d0) (serve A r rq)"
proof -
  have "list_all (\<lambda>r. guard_of r \<noteq> CSRF \<longrightarrow> (fst r, fst (snd r)) \<noteq> (''POST'', ''/api/v1/auth/bootstrap'') \<longrightarrow>
      stable (sessions_only d0) (serve A r rq)) (PublicHandler A @ InternalHandler A)"
    unfolding PublicHandler_def InternalHandler_def
    by (simp add: guard_of_def serve_def read_handlers session_handlers requireSession_stable del: onDB_iff)
  with assms show ?thesis by (auto simp: list_all_iff)
qed

lemma writes_guarded:
  assumes "r \<in> set (PublicHandler A)" and "fst r \<noteq> ''GET''"
    and "fst (snd r) \<notin> {''/api/v1/auth/login'', ''/api/v1/auth/bootstrap'', ''/api/v1/rules/import/preview'', ''/api/v1/rules/test''}"
  shows "guard_of r = CSRF"
proof -
  have "list_all (\<lambda>r. fst r = ''GET'' \<or> fst (snd r) \<in> {''/api/v1/auth/login'', ''/api/v1/auth/bootstrap'',
      ''/api/v1/rules/import/preview'', ''/api/v1/rules/test''} \<or> guard_of r = CSRF) (PublicHandler A)"
    unfolding PublicHandler_def by (simp add: guard_of_def)
  with assms show ?thesis by (auto simp: list_all_iff)
qed

text \<open>The routes without the guard make no call of mosdns that changes it.\<close>

definition other_writes :: "'m client \<Rightarrow> 'm client \<Rightarrow> 'm client" where
  "other_writes C X = C\<lparr>c_Validate := c_Validate X, c_Apply := c_Apply X, c_ApplyRegistry := c_ApplyRegistry X,
     c_FlushRegistry := c_FlushRegistry X, c_ApplyAddressFamily := c_ApplyAddressFamily X\<rparr>"

lemma app_client_sel:
  "ap_rlib (A\<lparr>ap_client := C\<rparr>) = ap_rlib A" "ap_auth (A\<lparr>ap_client := C\<rparr>) = ap_auth A"
  "ap_ingest (A\<lparr>ap_client := C\<rparr>) = ap_ingest A" "ap_evict (A\<lparr>ap_client := C\<rparr>) = ap_evict A"
  "ap_decode (A\<lparr>ap_client := C\<rparr>) = ap_decode A" "ap_Match (A\<lparr>ap_client := C\<rparr>) = ap_Match A"
  "ap_status (A\<lparr>ap_client := C\<rparr>) = ap_status A" "ap_version (A\<lparr>ap_client := C\<rparr>) = ap_version A"
  by simp_all

lemma client_free:
  "login (A\<lparr>ap_client := C\<rparr>) = login A" "bootstrapStatus (A\<lparr>ap_client := C\<rparr>) = bootstrapStatus A"
  "bootstrap (A\<lparr>ap_client := C\<rparr>) = bootstrap A" "refreshCSRF (A\<lparr>ap_client := C\<rparr>) = refreshCSRF A"
  "previewImport (A\<lparr>ap_client := C\<rparr>) = previewImport A" "testRule (A\<lparr>ap_client := C\<rparr>) = testRule A"
  "queries (A\<lparr>ap_client := C\<rparr>) = queries A" "queryStream (A\<lparr>ap_client := C\<rparr>) = queryStream A"
  "statistics (A\<lparr>ap_client := C\<rparr>) = statistics A" "requireSession (A\<lparr>ap_client := C\<rparr>) = requireSession A"
  "versionInfo (A\<lparr>ap_client := C\<rparr>) = versionInfo A"
  by (intro ext; unfold login_def bootstrapStatus_def bootstrap_def refreshCSRF_def previewImport_def testRule_def
      queries_def queryFromRequest_def queryStream_def statistics_def requireSession_def failed_def set_cookie_def versionInfo_def
      app_client_sel; rule refl)+

lemma reading_client:
  "upstreamRuntimeStatus (A\<lparr>ap_client := other_writes (ap_client A) X\<rparr>) = upstreamRuntimeStatus A"
  "upstreamGroups (A\<lparr>ap_client := other_writes (ap_client A) X\<rparr>) = upstreamGroups A"
  "settings (A\<lparr>ap_client := other_writes (ap_client A) X\<rparr>) = settings A"
  "systemStatus (A\<lparr>ap_client := other_writes (ap_client A) X\<rparr>) = systemStatus A"
  by (intro ext; simp add: upstreamRuntimeStatus_def upstreamGroups_def settings_def UpstreamRuntimeStatus_def
      UpstreamGroups_def SettingsOf_def systemStatus_def SystemStatus_of_def other_writes_def)+

lemma reads_independent:
  "map (serve (A\<lparr>ap_client := other_writes (ap_client A) X\<rparr>))
       (filter (\<lambda>r. guard_of r \<noteq> CSRF) (PublicHandler (A\<lparr>ap_client := other_writes (ap_client A) X\<rparr>)))
     = map (serve A) (filter (\<lambda>r. guard_of r \<noteq> CSRF) (PublicHandler A))"
  unfolding PublicHandler_def by (simp add: guard_of_def serve_def client_free reading_client)

end
