(* ===== verification/Storage.thy ===== *)
theory Storage
  imports GoStrings
begin

text \<open>
  Opening and copying the database file (\<open>internal/storage/storage.go\<close>). The file system and the SQLite
  driver are parameters: calls that may fail and change the state \<open>'m\<close> of the world outside.
\<close>

datatype stat_result = Exists | NotExist | StatFailed error

record 'm system =
  sy_Dir :: "string \<Rightarrow> string"
  sy_Quote :: "string \<Rightarrow> string"
  sy_MkdirAll :: "string \<Rightarrow> (error, 'm, unit) prog"
  sy_Stat :: "string \<Rightarrow> 'm \<Rightarrow> stat_result \<times> 'm"
  sy_OpenDB :: "string \<Rightarrow> (error, 'm, unit) prog"
  sy_Exec :: "string \<Rightarrow> (error, 'm, unit) prog"
  sy_VacuumInto :: "string \<Rightarrow> (error, 'm, unit) prog"
  sy_Close :: "'m \<Rightarrow> 'm"

definition pragmas :: "string list" where
  "pragmas = [''PRAGMA foreign_keys = ON'', ''PRAGMA journal_mode = WAL'', ''PRAGMA synchronous = NORMAL'',
     ''PRAGMA busy_timeout = 5000'', ''PRAGMA temp_store = MEMORY'', ''PRAGMA wal_autocheckpoint = 1000'']"

definition configure :: "'m system \<Rightarrow> (error, 'm, unit) prog" where
  "configure S = traverseM (\<lambda>st. mapErr (wrapf (''sqlite pragma '' @ sy_Quote S st @ '': '')) (sy_Exec S st)) pragmas"

definition Open :: "'m system \<Rightarrow> string \<Rightarrow> (error, 'm, unit) prog" where
  "Open S path =
     bindM (if path \<noteq> '':memory:'' then mapErr (wrapf ''create database directory: '') (sy_MkdirAll S (sy_Dir S path))
            else returnM ()) (\<lambda>_.
     bindM (mapErr (wrapf ''open sqlite: '') (sy_OpenDB S path)) (\<lambda>_.
     (\<lambda>m. case configure S m of
            (Inl e, m') \<Rightarrow> (Inl e, sy_Close S m')
          | (Inr _, m') \<Rightarrow> (Inr (), m'))))"

definition Backup :: "'m system \<Rightarrow> string \<Rightarrow> (error, 'm, unit) prog" where
  "Backup S output =
     bindM (guardM (output \<noteq> '''') (Msg ''backup output is required'')) (\<lambda>_.
     (\<lambda>m. case sy_Stat S output m of
            (Exists, m') \<Rightarrow> (Inl (Msg (''backup output already exists: '' @ output)), m')
          | (StatFailed e, m') \<Rightarrow> (Inl (wrapf ''stat backup output: '' e), m')
          | (NotExist, m') \<Rightarrow>
              bindM (mapErr (wrapf ''create backup directory: '') (sy_MkdirAll S (sy_Dir S output))) (\<lambda>_.
              mapErr (wrapf ''create sqlite backup: '') (sy_VacuumInto S output)) m'))"

text \<open>A backup never writes to a file that is there.\<close>

lemma Backup_needs_absent:
  assumes "sy_Stat S output m = (r, m1)" and "r \<noteq> NotExist"
  shows "\<exists>e m'. Backup S output m = (Inl e, m') \<and> m' \<in> {m, m1}"
  using assms by (cases r) (auto simp: Backup_def bindM_def guardM_def returnM_def throwM_def)

text \<open>A connection that could not be configured is closed: a predicate that the calls keep and that
  \<open>Close\<close> brings back holds after every failure.\<close>

lemma stable_configure: "(\<And>st. stable I (sy_Exec S st)) \<Longrightarrow> stable I (configure S)"
  unfolding configure_def by (intro stable_intros)

lemma Open_closes:
  assumes "\<And>p m. closed m \<Longrightarrow> closed (snd (sy_MkdirAll S p m))"
    and "\<And>p m e m'. closed m \<Longrightarrow> sy_OpenDB S p m = (Inl e, m') \<Longrightarrow> closed m'"
    and "\<And>m. closed (sy_Close S m)" and "closed m"
  shows "wp (Open S path) (\<lambda>_. closed) (\<lambda>_ _. True) m"
proof -
  have mkdir: "wp (sy_MkdirAll S p) (\<lambda>_. closed) (\<lambda>_. closed) m" if "closed m" for p m
    by (rule wpI) (use assms(1) [OF that, of p] in auto)
  have opendb: "wp (sy_OpenDB S p) (\<lambda>_. closed) (\<lambda>_ _. True) m" if "closed m" for p m
    by (rule wpI) (use assms(2) [OF that] in auto)
  have pragmas: "wp (\<lambda>m. case configure S m of (Inl e, m') \<Rightarrow> (Inl e, sy_Close S m') | (Inr _, m') \<Rightarrow> (Inr (), m'))
      (\<lambda>_. closed) (\<lambda>_ _. True) m" for m
    by (rule wpI) (auto simp: assms(3) split: prod.splits sum.splits)
  have rest: "wp (bindM (mapErr (wrapf ''open sqlite: '') (sy_OpenDB S path)) (\<lambda>_. \<lambda>m. case configure S m of
       (Inl e, m') \<Rightarrow> (Inl e, sy_Close S m') | (Inr _, m') \<Rightarrow> (Inr (), m'))) (\<lambda>_. closed) (\<lambda>_ _. True) m" if "closed m" for m
    by (intro wp_bindM_I wp_mapErr_I wp_mono [OF opendb [OF that]] pragmas)
  show ?thesis
    unfolding Open_def
  proof (intro wp_bindM_I [of "if _ then _ else _"] wp_if_I wp_mapErr_I wp_returnM_I rest assms(4))
    show "wp (sy_MkdirAll S (sy_Dir S path)) (\<lambda>_. closed) (\<lambda>_. wp (bindM (mapErr (wrapf ''open sqlite: '') (sy_OpenDB S path))
       (\<lambda>_. \<lambda>m. case configure S m of (Inl e, m') \<Rightarrow> (Inl e, sy_Close S m') | (Inr _, m') \<Rightarrow> (Inr (), m')))
       (\<lambda>_. closed) (\<lambda>_ _. True)) m"
      by (rule wp_mono [OF mkdir [OF assms(4)]]) (auto intro: rest)
  qed
qed

end
