(* ===== verification/ControlPlane.thy ===== *)
theory ControlPlane
  imports AppEffects IngestState Storage CacheClient
begin

text \<open>
  The program (\<open>cmd/controller/main.go\<close>): its commands, what \<open>serve\<close> does at the start and every
  minute, and the controller as a whole, a sequence of requests and background turns in any order.
\<close>

section \<open>Commands\<close>

text \<open>The arguments after the program name; \<open>os.Args[1][0]\<close> of an empty argument is out of range.\<close>

datatype invocation = Invoke string "string list" | IndexPanic

fun command_of :: "string list \<Rightarrow> invocation" where
  "command_of [] = Invoke ''serve'' []"
| "command_of (a # rest) = (case a of [] \<Rightarrow> IndexPanic
     | c # _ \<Rightarrow> if c \<noteq> CHR ''-'' then Invoke a rest else Invoke ''serve'' (a # rest))"

record flags =
  fl_username :: string
  fl_password :: string
  fl_password_stdin :: bool
  fl_output :: string

text \<open>Standard input as far as it is read, or the error of reading it.\<close>

definition passwordFromStdin :: "error + string \<Rightarrow> error + string" where
  "passwordFromStdin stdin =
     (case stdin of Inl e \<Rightarrow> Inl (wrapf ''read password: '' e)
      | Inr s \<Rightarrow>
         (let value = take 4097 s in
          if 4096 < length value then Inl (Msg ''password input exceeds 4096 bytes'')
          else Inr (TrimSuffix (TrimSuffix value [CHR 0x0A]) [CHR 0x0D])))"

datatype finished = Done | Serve string

text \<open>The switch of \<open>main\<close>, after the database was opened and migrated. \<open>Ping\<close> is a query without effect.\<close>

definition run_command :: "'m authlib \<Rightarrow> 'm system \<Rightarrow> error + string \<Rightarrow> error + string \<Rightarrow> string \<Rightarrow> flags \<Rightarrow>
    (error, 'm world, finished) prog" where
  "run_command A S stdin token command f =
     (if command = ''migrate'' then returnM Done
      else if command = ''create-admin'' then bindM (CreateAdmin A (fl_username f) (fl_password f)) (\<lambda>_. returnM Done)
      else if command = ''reset-password'' then
        (if fl_password f \<noteq> '''' \<or> \<not> fl_password_stdin f
         then throwM (Msg ''reset-password requires -password-stdin; do not pass passwords as command arguments'')
         else bindM (liftM (passwordFromStdin stdin)) (\<lambda>resetPassword.
              bindM (ResetPassword A (fl_username f) resetPassword) (\<lambda>_. returnM Done)))
      else if command = ''healthcheck'' then bindM (db_query (\<lambda>_. Inr ())) (\<lambda>_. returnM Done)
      else if command = ''backup'' then bindM (call (Backup S (fl_output f))) (\<lambda>_. returnM Done)
      else if command = ''serve'' then bindM (liftM token) (\<lambda>t. returnM (Serve t))
      else throwM (Msg (''unknown command '' @ sy_Quote S command)))"

section \<open>The background of a running controller\<close>

definition Reconcile_app :: "'n app \<Rightarrow> (string \<times> error, 'n aworld, string) prog" where
  "Reconcile_app A = Reconcile (ap_rlib A) (ap_client A)"

definition SyncSettings_app :: "'n app \<Rightarrow> (error, 'n aworld, unit) prog" where
  "SyncSettings_app A = SyncSettings (ap_client A) (Some (ingest_of (ap_ingest A)))"

definition RefreshSubscriptions :: "'n app \<Rightarrow> (error, 'n aworld, unit) prog" where
  "RefreshSubscriptions A = RefreshDue (ap_rlib A) (ap_client A) (ap_fetcher A)"

text \<open>The result is what the log says of the two.\<close>

definition reconcileControlPlane :: "'n app \<Rightarrow> (error, 'n aworld, ((string \<times> error) + string) \<times> (error + unit)) prog" where
  "reconcileControlPlane A =
     bindM (attemptM (Reconcile_app A)) (\<lambda>r.
     bindM (attemptM (SyncSettings_app A)) (\<lambda>s. returnM (r, s)))"

text \<open>What \<open>serve\<close> does before the listeners start; errors are logged only.\<close>

definition startup :: "'n app \<Rightarrow> (error, 'n aworld, ((string \<times> error) + string) \<times> (error + unit)) prog" where
  "startup A =
     bindM (attemptM (Reconcile_app A)) (\<lambda>r.
     bindM (attemptM (SyncSettings_app A)) (\<lambda>s.
     bindM (change StartMaintenance) (\<lambda>_. returnM (r, s))))"

section \<open>The controller as a whole\<close>

text \<open>
  A request is one step here, and so is a tick; the writer and the maintenance of the ingestion have
  steps of their own. Between two steps the clock moves, faults and the network change, and the
  state in memory may (a subscriber leaves, a restart forgets it).
\<close>

inductive controller_step :: "'n app \<Rightarrow> 'n aworld \<Rightarrow> 'n aworld \<Rightarrow> bool" for A :: "'n app" where
  outside: "w_db w' = w_db w \<Longrightarrow> controller_step A w w'"
| start: "startup A w = (cres, w') \<Longrightarrow> controller_step A w w'"
| request: "r \<in> set (PublicHandler A @ InternalHandler A) \<Longrightarrow> serve A r rq w = (res, w') \<Longrightarrow> controller_step A w w'"
| control: "reconcileControlPlane A w = (cres, w') \<Longrightarrow> controller_step A w w'"
| refresh: "RefreshSubscriptions A w = (ures, w') \<Longrightarrow> controller_step A w w'"
| ingest: "writer t w = (ures, w') \<Longrightarrow> controller_step A w w'"
| maintain: "maintenance (ap_ingest A) w = (ures, w') \<Longrightarrow> controller_step A w w'"

abbreviation controller_steps :: "'n app \<Rightarrow> 'n aworld \<Rightarrow> 'n aworld \<Rightarrow> bool" where
  "controller_steps A \<equiv> (controller_step A)\<^sup>*\<^sup>*"

subsection \<open>Operations that leave the rules and the subscriptions alone\<close>

definition rule_tables :: "db \<Rightarrow> version_row list \<times> drule_row list \<times> sub_row list \<times> binding_row list \<times> int \<times> int" where
  "rule_tables d = (d_versions d, d_rules d, d_subs d, d_bindings d, d_sub_seq d, d_bind_seq d)"

abbreviation aside :: "db \<Rightarrow> 'm world \<Rightarrow> bool" where
  "aside d0 \<equiv> onDB (\<lambda>d. rule_tables d = rule_tables d0)"

definition harmless :: "rlib \<Rightarrow> ('e, 'm world, 'a) prog \<Rightarrow> bool" where
  "harmless L m = (evolves L m \<and> stable well_sourced m)"

lemma harmless_aside:
  fixes m :: "('e, 'm world, 'a) prog"
  assumes "\<And>d0. stable (aside d0) m"
  shows "harmless L m"
proof -
  have same: "rule_tables (w_db (snd (m w))) = rule_tables (w_db w)" for w
    using assms [of "w_db w"] by (simp add: stable_def)
  have "evolves L m"
    unfolding evolves_def using same by (auto simp: rule_tables_def intro!: r_into_rtranclp pub_step.other)
  moreover have "stable well_sourced m"
    unfolding stable_def using same by (auto simp: rule_tables_def sources_ok_def)
  ultimately show ?thesis by (simp add: harmless_def)
qed

lemma harmless_rules:
  "harmless L (returnM a)"
  "harmless L m \<Longrightarrow> (\<And>a. harmless L (f a)) \<Longrightarrow> harmless L (bindM m f)"
  "harmless L m \<Longrightarrow> harmless L (attemptM m)"
  "harmless L m \<Longrightarrow> harmless L n \<Longrightarrow> harmless L (if b then m else n)"
  "(\<And>e. harmless L (g e)) \<Longrightarrow> (\<And>a. harmless L (h a)) \<Longrightarrow> harmless L (case x of Inl e \<Rightarrow> g e | Inr a \<Rightarrow> h a)"
  "harmless L n \<Longrightarrow> (\<And>a. harmless L (h' a)) \<Longrightarrow> harmless L (case y of None \<Rightarrow> n | Some a \<Rightarrow> h' a)"
  "(\<And>a b. harmless L (k a b)) \<Longrightarrow> harmless L (case p of (a, b) \<Rightarrow> k a b)"
  unfolding harmless_def by (auto intro: evolves_intros stable_intros simp del: onDB_iff split: sum.split option.split prod.split)

lemma harmless_handlers:
  "harmless L m \<Longrightarrow> harmless L (answer m ok bad)"
  "(\<And>a. harmless L (f a)) \<Longrightarrow> harmless L (decodeJSON rq d f)"
  "(\<And>i. harmless L (g i)) \<Longrightarrow> harmless L (pathID rq name g)"
  "harmless L m' \<Longrightarrow> harmless L (publishRule rq m')"
  unfolding answer_def decodeJSON_def pathID_def publishRule_def
  by (auto intro!: harmless_rules split: decoded.split sum.split)

lemma rule_tables_update [simp]:
  "rule_tables (d\<lparr>d_state := st\<rparr>) = rule_tables d" "rule_tables (d\<lparr>d_audit := au\<rparr>) = rule_tables d"
  "rule_tables (d\<lparr>d_devices := dv\<rparr>) = rule_tables d" "rule_tables (d\<lparr>d_queries := qs\<rparr>) = rule_tables d"
  "rule_tables (d\<lparr>d_hourly := h\<rparr>) = rule_tables d" "rule_tables (d\<lparr>d_admins := ad\<rparr>) = rule_tables d"
  "rule_tables (d\<lparr>d_sessions := se\<rparr>) = rule_tables d"
  by (simp_all add: rule_tables_def)

interpretation elsewhere: auth_predicate "\<lambda>d. rule_tables d = rule_tables d0" for d0
  by unfold_locales (auto simp: insert_admin_def insert_session_def delete_sessions_def set_password_def
      update_sessions_def split: if_splits)

lemmas aside_rules = elsewhere.stable_inside stable_intros

lemma aside_audit: "stable (aside d0) (auditTx a b c d e f g h)" "stable (aside d0) (Audit a b c d e f g h)"
  unfolding Audit_def auditTx_def
  by (intro aside_rules; auto simp: insert_audit_def split: if_splits)+

lemma aside_settings:
  "stable (aside d0) (persistSettings s a b c d e f)" "stable (aside d0) (databaseSettings)"
  "stable (aside d0) (applyRegistry C r s2)" "stable (aside d0) (applyAddressFamilyMode C mode)"
  unfolding persistSettings_def databaseSettings_def applyRegistry_def applyAddressFamilyMode_def Let_def
  by (intro aside_rules aside_audit; auto simp: put_state_def split: if_splits)+

lemma aside_joining: "stable (aside d0) m \<Longrightarrow> stable (aside d0) (joining m p)"
  unfolding joining_def by (intro aside_rules)

lemma aside_devices:
  "stable (aside d0) (UpdateDevice i p a b c)" "stable (aside d0) (FlushCaches C a b c)"
  "stable (aside d0) (ClearQueryHistory a b c)" "stable (aside d0) (FlushUpstreamGroup C g v a b c)"
  "stable (aside d0) (applyGroupChange C r s x g a b c)"
  unfolding UpdateDevice_def FlushCaches_def ClearQueryHistory_def FlushUpstreamGroup_def applyGroupChange_def Let_def
    traverseM.simps
  by (intro aside_rules aside_audit aside_joining aside_settings; auto)+

lemma aside_references: "stable (aside d0) (upstreamGroupReferencedBySubscriptions i)"
  unfolding upstreamGroupReferencedBySubscriptions_def by (intro aside_rules)

lemma aside_groups:
  "stable (aside d0) (CreateUpstreamGroup C x a b c)" "stable (aside d0) (UpdateUpstreamGroup C i x a b c)"
  "stable (aside d0) (DeleteUpstreamGroup C i v a b c)"
  unfolding CreateUpstreamGroup_def UpdateUpstreamGroup_def DeleteUpstreamGroup_def Let_def
  by (intro aside_rules aside_references aside_devices)+

lemma aside_memory: "stable (onDB J) (change f)" "stable (onDB J) state"
  "stable (onDB J) (SetRetentionDays n)" "stable (onDB J) (SetDatabaseMaxGiB n)"
  unfolding SetRetentionDays_def SetDatabaseMaxGiB_def change_def state_def on_state_def by (intro stable_intros)+

lemma aside_retain: "stable (aside d0) (retain L)"
  unfolding retain_def prune_statements_def Let_def traverseM.simps
  by (intro aside_rules aside_memory) (auto simp: on_hourly_def delete_queries_def put_state_def)

lemma aside_ingest_settings:
  "stable (aside d0) (set_retention (Some (ingest_of L)) s)" "stable (aside d0) (update_ingest (Some (ingest_of L)) s s')"
  unfolding set_retention_def update_ingest_def ingest_of_def option.case ingest.select_convs
  by (intro aside_rules aside_memory aside_joining aside_retain)+

lemma aside_family:
  "stable (aside d0) (update_family C s s' v p)"
  unfolding update_family_def actual_mode_def by (intro aside_rules aside_joining aside_settings)

lemma aside_updates:
  "stable (aside d0) (UpdateSettings C (Some (ingest_of L)) s a b c)" "stable (aside d0) (SyncSettings C (Some (ingest_of L)))"
  unfolding UpdateSettings_def SyncSettings_def Let_def
  by (intro aside_rules aside_settings aside_ingest_settings aside_joining aside_family)+

lemma aside_persist:
  "stable (aside d0) (insert_events now es)" "stable (aside d0) (name_devices ss)" "stable (aside d0) (aggregate now e)"
  subgoal by (induction es) (simp_all only: insert_events.simps, (intro aside_rules; auto simp: insert_query_def split: if_splits)+)
  subgoal by (induction ss) (simp_all only: name_devices.simps, (intro aside_rules)+)
  subgoal unfolding aggregate_def by (intro aside_rules) (auto simp: on_hourly_def touch_device_def split: if_splits)
  done

lemma aside_flush: "stable (aside d0) flush"
  unfolding flush_def persist_def persist_tx_def Let_def
  by (intro aside_rules aside_memory aside_persist) (auto simp: put_state_def)

lemma aside_turn: "stable (aside d0) (writer_turn mode t s)"
  by (cases "(mode, t, s)" rule: writer_turn.cases)
     (auto simp only: writer_turn.simps intro!: aside_rules aside_memory aside_flush)

lemma aside_background: "stable (aside d0) (writer t)" "stable (aside d0) (maintenance L)"
  unfolding writer_def maintenance_def by (intro aside_rules aside_memory aside_turn aside_retain)+

subsection \<open>Every route and every turn\<close>

lemma harmless_rule_operations:
  "harmless L (Create L C r a b c)" "harmless L (Update L C i p a b c)" "harmless L (Delete L C i a b c)"
  "harmless L (Rollback L C v x a b c)" "harmless L (Batch L C oper ids x a b c)" "harmless L (Import L C rs a b c)"
  "harmless L (Reconcile L C)" "harmless L (CreateURLSubscription L C F inp a b c)"
  "harmless L (CreateUploadSubscription L C inp fn body a b c)" "harmless L (SetSubscriptionEnabled L C i e a b c)"
  "harmless L (UpdateSubscriptionBinding L C i bn a b c)" "harmless L (DeleteSubscription L C i a b c)"
  "harmless L (RefreshSubscription L C F i a b c)" "harmless L (RefreshDue L C F)"
  unfolding harmless_def by (intro conjI evolves_intros stable_intros)+

lemma harmless_reads:
  "(\<And>J. stable (onDB J) m) \<Longrightarrow> harmless L m"
  by (rule harmless_aside)

lemma harmless_session: "harmless L (SessionOf A t)" "harmless L (VerifyCSRF A t c)"
  by (rule harmless_aside, rule elsewhere.stable_operations)+

lemma harmless_guards:
  "(\<And>admin. harmless L (h admin rq)) \<Longrightarrow> harmless L (requireSession A h rq)"
  "harmless L (k rq) \<Longrightarrow> harmless L (requireCSRF A k rq)"
  unfolding requireSession_def requireCSRF_def
  by (auto intro!: harmless_rules harmless_session)

lemma harmless_sessions:
  "harmless L (login A rq)" "harmless L (bootstrap A rq)" "harmless L (refreshCSRF A rq)" "harmless L (logout A rq)"
  "harmless L (changePassword A admin rq)"
  unfolding login_def bootstrap_def refreshCSRF_def logout_def changePassword_def allowed_def failed_def succeeded_def Let_def
  by (rule harmless_aside, intro stable_handlers aside_audit elsewhere.stable_operations aside_rules)+

lemma harmless_writes:
  "harmless L (updateDevice A admin rq)" "harmless L (flushCaches A admin rq)" "harmless L (createUpstreamGroup A admin rq)"
  "harmless L (updateUpstreamGroup A admin rq)" "harmless L (deleteUpstreamGroup A admin rq)"
  "harmless L (flushUpstreamGroup A admin rq)" "harmless L (updateSettings A admin rq)" "harmless L (clearQueryHistory admin rq)"
  unfolding updateDevice_def flushCaches_def createUpstreamGroup_def updateUpstreamGroup_def deleteUpstreamGroup_def
    flushUpstreamGroup_def updateSettings_def clearQueryHistory_def writeUpstreamGroupMutation_def
  by (rule harmless_aside, intro stable_handlers aside_devices aside_groups aside_updates stable_reads aside_rules)+

lemma harmless_edits:
  "harmless (ap_rlib A) (createRule A admin rq)" "harmless (ap_rlib A) (updateRule A admin rq)"
  "harmless (ap_rlib A) (deleteRule A admin rq)" "harmless (ap_rlib A) (batchRules A admin rq)"
  "harmless (ap_rlib A) (importRules A admin rq)" "harmless (ap_rlib A) (rollback A admin rq)"
  "harmless (ap_rlib A) (reconcile A rq)" "harmless (ap_rlib A) (createSubscription_handler A admin rq)"
  "harmless (ap_rlib A) (uploadSubscription A admin rq)" "harmless (ap_rlib A) (updateSubscription A admin rq)"
  "harmless (ap_rlib A) (updateSubscriptionBinding A admin rq)" "harmless (ap_rlib A) (refreshSubscription A admin rq)"
  "harmless (ap_rlib A) (deleteSubscription A admin rq)"
  unfolding createRule_def updateRule_def deleteRule_def batchRules_def importRules_def rollback_def reconcile_def
    createSubscription_handler_def uploadSubscription_def updateSubscription_def updateSubscriptionBinding_def
    refreshSubscription_def deleteSubscription_def Let_def
  by (intro harmless_handlers harmless_rule_operations harmless_rules)+

lemma serve_harmless:
  assumes "r \<in> set (PublicHandler A @ InternalHandler A)"
  shows "harmless (ap_rlib A) (serve A r rq)"
proof -
  have "list_all (\<lambda>r. harmless (ap_rlib A) (serve A r rq)) (PublicHandler A @ InternalHandler A)"
    unfolding PublicHandler_def InternalHandler_def
    by (simp add: serve_def harmless_guards harmless_edits harmless_writes harmless_sessions
        harmless_reads [OF read_handlers(1)] harmless_reads [OF read_handlers(2)] harmless_reads [OF read_handlers(3)]
        harmless_reads [OF read_handlers(4)] harmless_reads [OF read_handlers(5)] harmless_reads [OF read_handlers(6)]
        harmless_reads [OF read_handlers(7)] harmless_reads [OF read_handlers(8)] harmless_reads [OF read_handlers(9)]
        harmless_reads [OF read_handlers(10)] harmless_reads [OF read_handlers(11)] harmless_reads [OF read_handlers(12)]
        harmless_reads [OF read_handlers(13)] harmless_reads [OF read_handlers(14)] harmless_reads [OF read_handlers(15)]
        harmless_reads [OF read_handlers(16)] harmless_reads [OF read_handlers(17)] harmless_reads [OF read_handlers(18)]
        harmless_reads [OF read_handlers(19)] harmless_reads [OF read_handlers(20)] harmless_reads [OF read_handlers(21)]
        harmless_reads [OF read_handlers(22)] harmless_reads [OF read_handlers(23)] harmless_reads [OF read_handlers(24)])
  with assms show ?thesis by (auto simp: list_all_iff)
qed

lemma background_harmless:
  "harmless (ap_rlib A) (reconcileControlPlane A)" "harmless (ap_rlib A) (startup A)"
  "harmless (ap_rlib A) (RefreshSubscriptions A)" "harmless L (writer t)" "harmless L (maintenance J)"
proof -
  have sync: "harmless (ap_rlib A) (SyncSettings_app A)"
    unfolding SyncSettings_app_def by (rule harmless_aside, rule aside_updates)
  then show "harmless (ap_rlib A) (reconcileControlPlane A)"
    unfolding reconcileControlPlane_def Reconcile_app_def by (intro harmless_rules harmless_rule_operations)
  show "harmless (ap_rlib A) (startup A)"
    unfolding startup_def Reconcile_app_def
    by (intro harmless_rules harmless_rule_operations sync harmless_aside [OF aside_memory(1)])
  show "harmless (ap_rlib A) (RefreshSubscriptions A)"
    unfolding RefreshSubscriptions_def by (rule harmless_rule_operations)
qed (rule harmless_aside, rule aside_background)+

lemma harmless_step:
  assumes "harmless L m" and "m w = (r, w')" and "service_ok L w"
  shows "service_ok L w' \<and> pub_steps L (w_db w) (w_db w')"
proof -
  have "pub_steps L (w_db w) (w_db w')" using assms evolves_steps by (auto simp: harmless_def service_ok_def)
  moreover from this have "store_ok L (w_db w')" using assms(3) store_ok_steps by (auto simp: service_ok_def)
  moreover have "sources_ok (w_db w')"
    using assms stableD [of well_sourced m w r w'] by (simp add: harmless_def service_ok_def)
  ultimately show ?thesis by (simp add: service_ok_def)
qed

lemma controller_step_ok:
  assumes "controller_step A w w'" and "service_ok (ap_rlib A) w"
  shows "service_ok (ap_rlib A) w' \<and> pub_steps (ap_rlib A) (w_db w) (w_db w')"
  using assms(1)
proof cases
  case outside
  then show ?thesis using assms(2) by (simp add: service_ok_def)
next
  case (request r rq res)
  then show ?thesis using harmless_step [OF serve_harmless] assms(2) by blast
next
  case (start cres)
  then show ?thesis using harmless_step [OF background_harmless(2)] assms(2) by blast
next
  case (control cres)
  then show ?thesis using harmless_step [OF background_harmless(1)] assms(2) by blast
next
  case (refresh ures)
  then show ?thesis using harmless_step [OF background_harmless(3)] assms(2) by blast
next
  case (ingest t ures)
  then show ?thesis using harmless_step [OF background_harmless(4)] assms(2) by blast
next
  case (maintain ures)
  then show ?thesis using harmless_step [OF background_harmless(5)] assms(2) by blast
qed

lemma controller_steps_ok:
  assumes "controller_steps A w w'" and "service_ok (ap_rlib A) w"
  shows "service_ok (ap_rlib A) w' \<and> pub_steps (ap_rlib A) (w_db w) (w_db w')"
  using assms
proof (induction rule: rtranclp_induct)
  case (step y z)
  then show ?case using controller_step_ok [OF step.hyps(2)] by auto
qed simp

end
