(* ===== verification/AppAnswers.thy ===== *)
theory AppAnswers
  imports App
begin

text \<open>
  Every request is answered, and every answer has the same form: it carries the id of its request, data comes
  with a status of success and an error with a status of failure and one of the fixed texts.
\<close>

definition answers :: "('a \<Rightarrow> bool) \<Rightarrow> ('e, 's, 'a) prog \<Rightarrow> bool" where
  "answers P m = (\<forall>s. wp m (\<lambda>_ _. False) (\<lambda>r _. P r) s)"

abbreviation always :: "('e, 's, 'a) prog \<Rightarrow> bool" where
  "always \<equiv> answers (\<lambda>_. True)"

named_theorems answer_rules \<open>rules that all answers of a program have a form\<close>

lemma answers_bindM [answer_rules]:
  assumes "always m" and "\<And>a. answers P (f a)"
  shows "answers P (bindM m f)"
  unfolding answers_def wp_bindM
proof
  fix s
  have "wp m (\<lambda>_ _. False) (\<lambda>_ _. True) s" using assms(1) by (simp add: answers_def)
  then show "wp m (\<lambda>_ _. False) (\<lambda>a. wp (f a) (\<lambda>_ _. False) (\<lambda>r _. P r)) s"
    by (rule wp_mono) (use assms(2) in \<open>auto simp: answers_def\<close>)
qed

lemma answers_basic [answer_rules]:
  "P r \<Longrightarrow> answers P (returnM r)"
  "always (attemptM n)"
  "answers P m1 \<Longrightarrow> answers P m2 \<Longrightarrow> answers P (if b then m1 else m2)"
  "(\<And>e. answers P (g e)) \<Longrightarrow> (\<And>a. answers P (h a)) \<Longrightarrow> answers P (case x of Inl e \<Rightarrow> g e | Inr a \<Rightarrow> h a)"
  "answers P m1 \<Longrightarrow> (\<And>a. answers P (k a)) \<Longrightarrow> answers P (case y of None \<Rightarrow> m1 | Some a \<Rightarrow> k a)"
  "(\<And>a b. answers P (l a b)) \<Longrightarrow> answers P (case p of (a, b) \<Rightarrow> l a b)"
  by (auto simp: answers_def wp_simps wp_def [of n] split: prod.splits sum.splits option.splits)

lemma always_time_now [answer_rules]: "always time_now"
  unfolding answers_def by (intro allI wp_time_now_I TrueI)

lemma always_memory [answer_rules]:
  "always (on_limiter h)" "always (succeeded ip)" "always (state :: (error, 'm iworld, ingest_state) prog)"
  unfolding on_limiter_def succeeded_def state_def on_state_def
  by (intro answer_rules | force simp: answers_def wp_call split: prod.splits)+

lemma always_parts [answer_rules]:
  "always (allowed ip)" "always (failed A ip)" "always (VerifyCSRF B token csrf)" "always (SystemStatus_of C Y)"
proof -
  show "always (VerifyCSRF B token csrf)" unfolding VerifyCSRF_def by (intro answer_rules) auto
  show "always (SystemStatus_of C Y)" unfolding answers_def using SystemStatus_wp by (blast intro: wp_mono)
qed (auto simp: allowed_def failed_def intro: answer_rules)

definition well_answered :: "http_request \<Rightarrow> http_response \<Rightarrow> bool" where
  "well_answered rq resp = (rs_RequestID resp = rq_ID rq
     \<and> (case rs_Body resp of Inl data \<Rightarrow> 200 \<le> rs_Status resp \<and> rs_Status resp < 300
        | Inr (code, t) \<Rightarrow> 400 \<le> rs_Status resp \<and> rs_Status resp < 600 \<and> t \<in> set user_texts))"

lemma well_answered_write [simp]:
  "well_answered rq (writeData rq status body) \<longleftrightarrow> 200 \<le> status \<and> status < 300"
  "well_answered rq (writeError rq status code message) \<longleftrightarrow> 400 \<le> status \<and> status < 600"
  "well_answered rq (resp\<lparr>rs_Cookie := c\<rparr>) = well_answered rq resp"
  "well_answered rq (resp\<lparr>rs_NoStore := b\<rparr>) = well_answered rq resp"
  "well_answered rq (set_cookie A token resp) = well_answered rq resp"
  by (auto simp: well_answered_def writeData_def writeError_def set_cookie_def split: sum.splits prod.splits)

abbreviation well :: "http_request \<Rightarrow> ('e, 's, http_response) prog \<Rightarrow> bool" where
  "well rq \<equiv> answers (well_answered rq)"

lemma answers_shared [answer_rules]:
  "(\<And>a. P (ok a)) \<Longrightarrow> (\<And>e. P (bad e)) \<Longrightarrow> answers P (answer m ok bad)"
  "(\<And>a. well rq (f a)) \<Longrightarrow> well rq (decodeJSON rq d f)"
  "(\<And>i. well rq (g i)) \<Longrightarrow> well rq (pathID rq name g)"
  unfolding answer_def decodeJSON_def pathID_def
  by (auto intro!: answer_rules split: decoded.split sum.split)

lemma well_publishRule [answer_rules]: "well rq (publishRule rq m)"
  unfolding publishRule_def by (intro answer_rules) auto

lemma well_group [answer_rules]: "status \<in> {200, 201} \<Longrightarrow> well rq (writeUpstreamGroupMutation rq status m)"
  unfolding writeUpstreamGroupMutation_def by (intro answer_rules) auto

lemma well_sessions [answer_rules]:
  "well rq (login A rq)" "well rq (bootstrapStatus A rq)" "well rq (bootstrap A rq)" "well rq (me admin rq)"
  "well rq (refreshCSRF A rq)" "well rq (logout A rq)" "well rq (changePassword A admin rq)" "well rq (ready rq)" "well rq (health rq)"
  unfolding login_def bootstrapStatus_def bootstrap_def me_def refreshCSRF_def logout_def changePassword_def ready_def
    health_def Let_def
  by (auto intro!: answer_rules)

lemma well_rules [answer_rules]:
  "well rq (listRules rq)" "well rq (createRule A admin rq)" "well rq (updateRule A admin rq)" "well rq (deleteRule A admin rq)"
  "well rq (batchRules A admin rq)" "well rq (previewImport A rq)" "well rq (importRules A admin rq)"
  "well rq (rollback A admin rq)" "well rq (listVersions rq)" "well rq (versionDetail rq)" "well rq (reconcile A rq)"
  "well rq (testRule A rq)"
  unfolding listRules_def createRule_def updateRule_def deleteRule_def batchRules_def previewImport_def importRules_def
    rollback_def listVersions_def versionDetail_def reconcile_def testRule_def
  by (auto intro!: answer_rules)

lemma well_queries [answer_rules]:
  "well rq (ingestEvents A rq)" "well rq (queries A rq)" "well rq (answerIPs rq)" "well rq (queryStream A rq)"
  "well rq (summary rq)" "well rq (statistics A kind rq)" "well rq (latency rq)"
  unfolding ingestEvents_def queries_def answerIPs_def queryStream_def summary_def statistics_def latency_def Let_def
  by (auto intro!: answer_rules split: prod.split)

lemma well_operations [answer_rules]:
  "well rq (devices rq)" "well rq (upstreamRuntimeStatus A rq)" "well rq (updateDevice A admin rq)"
  "well rq (flushCaches A admin rq)" "well rq (upstreamGroups A rq)" "well rq (createUpstreamGroup A admin rq)"
  "well rq (updateUpstreamGroup A admin rq)" "well rq (deleteUpstreamGroup A admin rq)"
  "well rq (flushUpstreamGroup A admin rq)" "well rq (settings A rq)" "well rq (updateSettings A admin rq)"
  "well rq (auditLogs rq)" "well rq (clearQueryHistory admin rq)" "well rq (versionInfo A rq)" "well rq (systemStatus A rq)"
  unfolding devices_def upstreamRuntimeStatus_def updateDevice_def flushCaches_def upstreamGroups_def createUpstreamGroup_def
    updateUpstreamGroup_def deleteUpstreamGroup_def flushUpstreamGroup_def settings_def updateSettings_def auditLogs_def
    clearQueryHistory_def versionInfo_def systemStatus_def
  by (auto intro!: answer_rules)

lemma well_subscriptions [answer_rules]:
  "well rq (listSubscriptions rq)" "well rq (createSubscription_handler A admin rq)" "well rq (uploadSubscription A admin rq)"
  "well rq (updateSubscription A admin rq)" "well rq (refreshSubscription A admin rq)"
  "well rq (updateSubscriptionBinding A admin rq)" "well rq (deleteSubscription A admin rq)"
  unfolding listSubscriptions_def createSubscription_handler_def uploadSubscription_def updateSubscription_def
    refreshSubscription_def updateSubscriptionBinding_def deleteSubscription_def Let_def
  by (auto intro!: answer_rules)

lemma well_guards [answer_rules]:
  "(\<And>admin. well rq (h admin rq)) \<Longrightarrow> well rq (requireSession A h rq)"
  "well rq (k rq) \<Longrightarrow> well rq (requireCSRF A k rq)"
  unfolding requireSession_def requireCSRF_def by (auto intro!: answer_rules)

lemma serve_well:
  assumes "r \<in> set (PublicHandler A @ InternalHandler A)"
  shows "well rq (serve A r rq)"
proof -
  have "list_all (\<lambda>r. well rq (serve A r rq)) (PublicHandler A @ InternalHandler A)"
    unfolding PublicHandler_def InternalHandler_def by (simp add: serve_def answer_rules)
  with assms show ?thesis by (auto simp: list_all_iff)
qed

end
