(* ===== verification/AppProperties.thy ===== *)
theory AppProperties
  imports AppEffects AppAnswers
begin

text \<open>
  The properties of the HTTP interface, with an instance of the application on which they are applied.
\<close>

section \<open>An instance\<close>

definition inner :: "(nat \<times> string \<Rightarrow> 'a \<times> (nat \<times> string)) \<Rightarrow> (nat \<times> string) outside \<Rightarrow> 'a \<times> (nat \<times> string) outside" where
  "inner f = (\<lambda>(s, l, m). case f m of (r, m') \<Rightarrow> (r, (s, l, m')))"

definition app_client :: "(nat \<times> string) outside client" where
  "app_client = \<lparr>
     c_Status = inner (c_Status demo_client), c_Validate = (\<lambda>s. inner (c_Validate demo_client s)),
     c_Apply = (\<lambda>s. inner (c_Apply demo_client s)), c_RegistryStatus = inner (c_RegistryStatus demo_client),
     c_RegistryRuntimeStatus = inner (c_RegistryRuntimeStatus demo_client),
     c_ApplyRegistry = (\<lambda>s. inner (c_ApplyRegistry demo_client s)), c_FlushRegistry = (\<lambda>g v. inner (c_FlushRegistry demo_client g v)),
     c_AddressFamilyStatus = inner (c_AddressFamilyStatus demo_client),
     c_ApplyAddressFamily = (\<lambda>s. inner (c_ApplyAddressFamily demo_client s))\<rparr>"

definition app_decode :: decoders where
  "app_decode = \<lparr>dc_Credentials = (\<lambda>b. Malformed), dc_Passwords = (\<lambda>b. Malformed), dc_Rule = (\<lambda>b. Parsed demo_rule),
     dc_BatchEdit = (\<lambda>b. Malformed), dc_Rules = (\<lambda>b. Parsed []), dc_Expected = (\<lambda>b. Malformed), dc_QName = (\<lambda>b. Parsed b),
     dc_Events = (\<lambda>b. Malformed), dc_Device = (\<lambda>b. Malformed), dc_Group = (\<lambda>b. Malformed), dc_Precondition = (\<lambda>b. TooLarge),
     dc_Settings = (\<lambda>b. Malformed), dc_Subscription = (\<lambda>b. Malformed), dc_Enabled = (\<lambda>b. Malformed), dc_Binding = (\<lambda>b. Malformed)\<rparr>"

definition demo_app :: "(nat \<times> string) app" where
  "demo_app = \<lparr>ap_rlib = demo_lib, ap_client = app_client, ap_fetcher = \<lparr>f_Parse = (\<lambda>u. None), f_Get = (\<lambda>u m. (GetFailed ''down'', m))\<rparr>,
     ap_auth = \<lparr>al_IDKey = (\<lambda>p salt n. p @ salt), al_Sum256 = (\<lambda>s. s), al_Read = (\<lambda>n m. (Inl (Msg ''no entropy''), m)),
       al_Wait = (\<lambda>m. (Inr (), m)), al_ttl = 60000\<rparr>,
     ap_ingest = \<lparr>lib_ToASCII = lib_ToASCII demo_lib, lib_ToLower = lib_ToLower demo_lib, lib_Compile = lib_Compile demo_lib,
       lib_ParseAddr = lib_ParseAddr demo_lib, lib_Sum = lib_Sum demo_lib, lib_Quote = lib_Quote demo_lib,
       il_AddDate = (\<lambda>now y d. now), il_Size = (\<lambda>p m. None), il_arrange = (\<lambda>xs. xs)\<rparr>,
     ap_evict = (\<lambda>l. 0), ap_decode = app_decode, ap_Match = (\<lambda>n m. (Inr n, m)),
     ap_status = \<lparr>sy_Stat = (\<lambda>p m. None), sy_ProcStatus = (\<lambda>m. Inl (Msg ''no such file'')),
       sy_AuditStatus = (\<lambda>m. (Inl (Msg ''down''), m)), sy_dbPath = ''data.db''\<rparr>,
     ap_version = \<lparr>ProjectVersion = ''dev'', GitCommit = ''unknown'', MosdnsBase = ''v5.3.4'', BuildTime = ''unknown''\<rparr>\<rparr>"

definition app_world :: "(nat \<times> string) aworld" where
  "app_world = \<lparr>w_db = empty_db, w_faults = [], w_now = 1000, w_clock = [], w_ext = (New_ingest ''secret'' ''data.db'', [], 0, '''')\<rparr>"

definition app_request :: http_request where
  "app_request = \<lparr>rq_ID = ''r1'', rq_Cookie = Some ''token'', rq_CSRF = ''csrf'', rq_Authorization = [], rq_UserAgent = [],
     rq_RemoteAddr = ''192.0.2.1:4000'', rq_Param = (\<lambda>_. ''1''), rq_Query = (\<lambda>_. []), rq_Form = None, rq_Body = []\<rparr>"

section \<open>Properties\<close>

text \<open>C34: The routes without the CSRF guard only read the tables: but for the one that creates the first
  administrator (the first setup, which does write), they change no table except the sessions
  (those of the internal listener included), whatever the request and whatever fails. What they may
  change is in memory: the queue of events of the internal listener, the subscribers of the
  live stream, the login limiter. The public ones make no call of mosdns that changes it: replacing
  those calls by any others changes no answer.\<close>

theorem unguarded_only_read:
  "(\<forall>r \<in> set (PublicHandler A @ InternalHandler A). guard_of r \<noteq> CSRF \<longrightarrow>
      (fst r, fst (snd r)) \<noteq> (''POST'', ''/api/v1/auth/bootstrap'') \<longrightarrow>
      (\<forall>rq w. but_sessions (w_db (snd (serve A r rq w))) = but_sessions (w_db w)))
   \<and> map (serve (A\<lparr>ap_client := other_writes (ap_client A) X\<rparr>))
       (filter (\<lambda>r. guard_of r \<noteq> CSRF) (PublicHandler (A\<lparr>ap_client := other_writes (ap_client A) X\<rparr>)))
     = map (serve A) (filter (\<lambda>r. guard_of r \<noteq> CSRF) (PublicHandler A))"
  using stable_db_snd [OF reads_stable] by (blast intro: reads_independent)

theorem unguarded_only_read_witness:
  "but_sessions (w_db (snd (serve demo_app (''GET'', ''/api/v1/rules'', Session, \<lambda>_. listRules) app_request app_world)))
     = but_sessions (w_db app_world)"
proof -
  have "(''GET'', ''/api/v1/rules'', Session, \<lambda>_. listRules) \<in> set (PublicHandler demo_app @ InternalHandler demo_app)"
    by (simp add: PublicHandler_def)
  with unguarded_only_read [of demo_app] show ?thesis by (fastforce simp: guard_of_def)
qed

text \<open>C33: Every request on the public listener that is not a GET, but for login, first setup, the import
  preview and the rule test, is refused with 401 or 403 unless the session of its cookie holds the
  CSRF token it sends; a refused request changes no table except the sessions, and nothing
  outside. (The batches of the internal listener carry a token of their own.)\<close>

theorem csrf_required:
  assumes "r \<in> set (PublicHandler A)" and "fst r \<noteq> ''GET''"
    and "fst (snd r) \<notin> {''/api/v1/auth/login'', ''/api/v1/auth/bootstrap'', ''/api/v1/rules/import/preview'', ''/api/v1/rules/test''}"
    and "\<not> holds_csrf (ap_auth A) (sessionToken rq) (rq_CSRF rq) (w_db w)"
  shows "\<exists>resp w'. serve A r rq w = (Inr resp, w') \<and> (rs_Status resp = 401 \<or> rs_Status resp = 403)
     \<and> but_sessions (w_db w') = but_sessions (w_db w) \<and> w_ext w' = w_ext w"
proof -
  obtain m p h where r: "r = (m, p, CSRF, h)"
    using writes_guarded [OF assms(1-3)] by (cases r) (auto simp: guard_of_def)
  have "serve A r rq = requireSession A (\<lambda>admin. requireCSRF A (h admin)) rq" by (simp add: r serve_def)
  with wp_total [OF guarded_blocked [OF assms(4), of h]] show ?thesis by auto
qed

theorem csrf_required_witness:
  "\<exists>resp w'. serve demo_app (''POST'', ''/api/v1/rules'', CSRF, createRule demo_app) app_request app_world = (Inr resp, w')
     \<and> (rs_Status resp = 401 \<or> rs_Status resp = 403)
     \<and> but_sessions (w_db w') = but_sessions (w_db app_world) \<and> w_ext w' = w_ext app_world"
  by (rule csrf_required) (simp_all add: PublicHandler_def holds_csrf_def app_world_def empty_db_def)

text \<open>C35: Every request on every route is answered, and the answer carries the id of the request; data comes with
  a status of success, an error with a status of failure and a message that is one of the fixed Chinese
  texts, so that no error answer shows the text of an internal error. (Data may hold such texts: a
  subscription shows the error of its last refresh.)\<close>

theorem every_answer:
  assumes "r \<in> set (PublicHandler A @ InternalHandler A)"
  shows "\<exists>resp w'. serve A r rq w = (Inr resp, w') \<and> rs_RequestID resp = rq_ID rq
     \<and> (case rs_Body resp of Inl data \<Rightarrow> 200 \<le> rs_Status resp \<and> rs_Status resp < 300
        | Inr (code, t) \<Rightarrow> 400 \<le> rs_Status resp \<and> rs_Status resp < 600 \<and> t \<in> set user_texts)"
  using wp_total [of "serve A r rq" "\<lambda>resp _. well_answered rq resp" w] serve_well [OF assms, of rq]
  by (auto simp: answers_def well_answered_def)

theorem every_answer_witness:
  "\<exists>resp code t. fst (serve demo_app (''POST'', ''/api/v1/rules'', CSRF, createRule demo_app) app_request app_world) = Inr resp
     \<and> rs_Body resp = Inr (code, t) \<and> t \<in> set user_texts"
proof -
  let ?r = "(''POST'', ''/api/v1/rules'', CSRF, createRule demo_app)"
  have "?r \<in> set (PublicHandler demo_app @ InternalHandler demo_app)" by (simp add: PublicHandler_def)
  from every_answer [OF this, of app_request app_world] obtain resp w' where
      resp: "serve demo_app ?r app_request app_world = (Inr resp, w')"
      and form: "case rs_Body resp of Inl data \<Rightarrow> 200 \<le> rs_Status resp \<and> rs_Status resp < 300
        | Inr (code, t) \<Rightarrow> 400 \<le> rs_Status resp \<and> rs_Status resp < 600 \<and> t \<in> set user_texts"
    by blast
  have "rs_Status resp = 401 \<or> rs_Status resp = 403"
    using wp_total [OF guarded_blocked [of demo_app app_request app_world "createRule demo_app"]] resp
    by (auto simp: serve_def holds_csrf_def app_world_def empty_db_def)
  with form obtain code t where "rs_Body resp = Inr (code, t)" "t \<in> set user_texts"
    by (cases "rs_Body resp") auto
  with resp show ?thesis by simp
qed

text \<open>C32: What the answer to an edit of the rules says is so: 200 with a version means that this version is now
  the active one; every other answer, 202 included, leaves the rule table and the active
  version as they were (it may leave the candidate in the history of versions, and when its outcome
  is not known mosdns may already run it); and no other status is answered than 200, 202, 400,
  404, 409 and 413.\<close>

theorem edit_answers:
  assumes "store_ok (ap_rlib A) (w_db w)"
    and "h \<in> set [createRule A, updateRule A, deleteRule A, batchRules A, importRules A, rollback A]"
  shows "\<exists>resp w'. h admin rq w = (Inr resp, w') \<and> rs_Status resp \<in> {200, 202, 400, 404, 409, 413}
     \<and> (if rs_Status resp = 200 then \<exists>v. rs_Body resp = Inl (P_Version v) \<and> active_of (w_db w') = v_Version v
        else d_rules (w_db w') = d_rules (w_db w) \<and> active_of (w_db w') = active_of (w_db w))"
  using wp_total [OF edits_told [OF assms, of admin rq]] by (auto simp: told_def)

lemma app_store_ok: "store_ok (ap_rlib demo_app) (w_db app_world)"
  using empty_ok by (simp add: app_world_def demo_world_def demo_app_def)

theorem edit_answers_witness:
  "\<exists>resp w'. createRule demo_app \<lparr>a_ID = 1, a_Username = ''root''\<rparr> app_request app_world = (Inr resp, w')
     \<and> rs_Status resp \<in> {200, 202, 400, 404, 409, 413}
     \<and> (if rs_Status resp = 200 then \<exists>v. rs_Body resp = Inl (P_Version v) \<and> active_of (w_db w') = v_Version v
        else d_rules (w_db w') = d_rules (w_db app_world) \<and> active_of (w_db w') = active_of (w_db app_world))"
  by (rule edit_answers [OF app_store_ok]) simp

end
