(* ===== verification/ControlPlaneProperties.thy ===== *)
theory ControlPlaneProperties
  imports ControlPlane AppProperties SystemProperties
begin

text \<open>
  The properties of the program as a whole: the invariant along every history of requests, ticks and
  background turns, and what the commands do to the database.
\<close>

section \<open>Histories of the controller\<close>

text \<open>C4: Starting from a database without rules, after any sequence of HTTP requests of either listener, minute
  ticks, turns of the ingestion and outside events, with any failures: at most one rule version
  is active, version numbers increase, every stored version is a validated list with the
  checksum of its snapshot, the rule table is the one of the active version, and the subscription tables are
  well formed; and whatever happens later, a stored version keeps its content and its status
  only moves on.\<close>

theorem controller_invariant:
  assumes "rule_tables (w_db w) = rule_tables empty_db" and "controller_steps A w w1" and "controller_steps A w1 w2"
  shows "length (actives (w_db w1)) \<le> 1 \<and> sorted_wrt (<) (map vv_version (d_versions (w_db w1)))
     \<and> list_all (row_ok (ap_rlib A)) (d_versions (w_db w1)) \<and> table_ok (ap_rlib A) (w_db w1) \<and> sources_ok (w_db w1)
     \<and> list_all (\<lambda>x. list_ex (\<lambda>y. same_version x y \<and> vv_status y \<in> later_status (vv_status x)) (d_versions (w_db w2)))
         (d_versions (w_db w1))"
proof -
  have "service_ok (ap_rlib A) w"
    using assms(1) store_ok_empty [of "ap_rlib A"] sources_ok_empty store_ok_frame [of "w_db w" empty_db "ap_rlib A"]
    by (simp add: service_ok_def rule_tables_def sources_ok_def)
  then have ok: "service_ok (ap_rlib A) w1" using controller_steps_ok [OF assms(2)] by blast
  have "history_extends (w_db w1) (w_db w2)"
    using controller_steps_ok [OF assms(3) ok] ok history_extends_steps by (auto simp: service_ok_def)
  then obtain old new where "d_versions (w_db w2) = old @ new" "list_all2 ages (d_versions (w_db w1)) old"
    by (auto simp: history_extends_def)
  then have "list_all (\<lambda>x. list_ex (\<lambda>y. same_version x y \<and> vv_status y \<in> later_status (vv_status x)) (d_versions (w_db w2)))
      (d_versions (w_db w1))"
    using list_all2_set1_obtain by (fastforce simp: list_all_iff list_ex_iff ages_def)
  then show ?thesis
    using ok table_ok_one_active by (auto simp: service_ok_def store_ok_def simp del: One_nat_def)
qed

text \<open>A session of the demo request, the rule it creates, and the tick after it.\<close>

definition session_world :: "(nat \<times> string) aworld" where
  "session_world = app_world\<lparr>w_db := empty_db\<lparr>
     d_admins := insert_row \<lparr>ad_username = ''root'', ad_password_hash = '''', ad_disabled = False, ad_created_at_ms = 0,
       ad_updated_at_ms = 0\<rparr> empty_table,
     d_sessions := [\<lparr>se_token_hash = ''token'', se_admin_id = 1, se_csrf_hash = ''csrf'', se_client_ip = [], se_user_agent = [],
       se_created_at_ms = 0, se_last_seen_at_ms = 0, se_expires_at_ms = 100000\<rparr>]\<rparr>\<rparr>"

definition create_route :: "(nat \<times> string) route" where
  "create_route = (''POST'', ''/api/v1/rules'', CSRF, createRule demo_app)"

definition posted_world :: "(nat \<times> string) aworld" where
  "posted_world = snd (serve demo_app create_route app_request session_world)"

definition ticked_world :: "(nat \<times> string) aworld" where
  "ticked_world = snd (reconcileControlPlane demo_app posted_world)"

lemma posted_version: "map (\<lambda>x. (vv_version x, vv_status x)) (d_versions (w_db posted_world)) = [(1, Active)]"
  by code_simp

theorem controller_invariant_witness:
  "table_ok demo_lib (w_db posted_world) \<and> vv_version (hd (d_versions (w_db posted_world))) = 1
     \<and> list_all (\<lambda>x. list_ex (\<lambda>y. same_version x y \<and> vv_status y \<in> later_status (vv_status x)) (d_versions (w_db ticked_world)))
         (d_versions (w_db posted_world))"
proof -
  have "create_route \<in> set (PublicHandler demo_app @ InternalHandler demo_app)"
    by (simp add: create_route_def PublicHandler_def)
  then have s1: "controller_steps demo_app session_world posted_world"
    unfolding posted_world_def by (intro r_into_rtranclp controller_step.request [of create_route]) (auto simp: prod_eq_iff)
  have s2: "controller_steps demo_app posted_world ticked_world"
    unfolding ticked_world_def by (intro r_into_rtranclp controller_step.control) (auto simp: prod_eq_iff)
  have "rule_tables (w_db session_world) = rule_tables empty_db"
    by (simp add: session_world_def)
  moreover have "ap_rlib demo_app = demo_lib" by (simp add: demo_app_def)
  moreover have "vv_version (hd (d_versions (w_db posted_world))) = 1"
    using posted_version by (cases "d_versions (w_db posted_world)") auto
  ultimately show ?thesis using controller_invariant [OF _ s1 s2] by simp
qed

section \<open>Commands\<close>

lemma create_admin_spec:
  "wp (CreateAdmin A u p) (\<lambda>_ w'. w_db w' = w_db w)
     (\<lambda>_ w'. \<exists>hash now. insert_admin (new_admin (TrimSpace u) hash now) (w_db w) = Inr (w_db w')) w"
  unfolding CreateAdmin_def hashPassword_def validateCredentials_def Let_def
  by (intro wp_intros) (auto split: if_splits)

text \<open>C40: The commands touch the database only as they say: a run that leaves it changed finished well and is
  either create-admin, which has added an administrator of that name, or reset-password, which
  has taken the new password from standard input (8 to 4096 bytes, never from the arguments), stored its hash for
  the administrator named and removed all of his sessions.\<close>

theorem command_effects:
  assumes "run_command A S stdin token command f w = (r, w')" and "w_db w' \<noteq> w_db w"
  shows "r = Inr Done \<and>
    (command = ''create-admin'' \<and> (\<exists>hash now. insert_admin (new_admin (TrimSpace (fl_username f)) hash now) (w_db w) = Inr (w_db w'))
     \<or> command = ''reset-password'' \<and> fl_password f = '''' \<and> fl_password_stdin f
       \<and> (\<exists>p i a. passwordFromStdin stdin = Inr p \<and> 8 \<le> length p \<and> length p \<le> 4096
            \<and> select_admin (TrimSpace (fl_username f)) (w_db w) = Inr (i, a) \<and> password_changed A i p (\<lambda>_. False) (w_db w) (w_db w')))"
proof -
  let ?Q = "\<lambda>r w'. command = ''create-admin'' \<and> (\<exists>hash now. insert_admin (new_admin (TrimSpace (fl_username f)) hash now) (w_db w) = Inr (w_db w'))
     \<or> command = ''reset-password'' \<and> fl_password f = '''' \<and> fl_password_stdin f
       \<and> (\<exists>p i a. passwordFromStdin stdin = Inr p \<and> 8 \<le> length p \<and> length p \<le> 4096
            \<and> select_admin (TrimSpace (fl_username f)) (w_db w) = Inr (i, a) \<and> password_changed A i p (\<lambda>_. False) (w_db w) (w_db w'))"
  have short: "length p \<le> 4096" if "passwordFromStdin stdin = Inr p" for p
    using that by (auto simp: passwordFromStdin_def TrimSuffix_def Let_def split: sum.splits if_splits)
  have "wp (run_command A S stdin token command f) (\<lambda>_ w'. w_db w' = w_db w)
     (\<lambda>r w'. w_db w' = w_db w \<or> r = Done \<and> ?Q r w') w"
    unfolding run_command_def
    by (intro wp_intros; (rule wp_mono [OF create_admin_spec] wp_mono [OF reset_spec])?) (auto simp: wp_returnM short)
  from wp_Inl [OF this] wp_Inr [OF this] assms show ?thesis by (cases r) auto
qed

definition demo_system :: "nat system" where
  "demo_system = \<lparr>sy_Dir = (\<lambda>p. p), sy_Quote = (\<lambda>s. s), sy_MkdirAll = (\<lambda>p m. (Inr (), m)), sy_Stat = (\<lambda>p m. (NotExist, m)),
     sy_OpenDB = (\<lambda>p m. (Inr (), m)), sy_Exec = (\<lambda>st m. (Inr (), m)), sy_VacuumInto = (\<lambda>p m. (Inr (), m)), sy_Close = (\<lambda>m. m)\<rparr>"

definition reset_flags :: flags where
  "reset_flags = \<lparr>fl_username = ''Root'', fl_password = [], fl_password_stdin = True, fl_output = []\<rparr>"

definition reset_run :: "(error + finished) \<times> nat world" where
  "reset_run = run_command demo_auth demo_system (Inr (''password2'' @ [CHR 0x0A])) (Inr ''token'') ''reset-password'' reset_flags claimed_world"

lemma reset_run_hash:
  "map (ad_password_hash \<circ> snd) (tb_rows (d_admins (w_db (snd reset_run)))) \<noteq> map (ad_password_hash \<circ> snd) (tb_rows (d_admins (w_db claimed_world)))"
  by code_simp

theorem command_effects_witness:
  "fst reset_run = Inr Done \<and> (\<exists>i a. select_admin (TrimSpace ''Root'') (w_db claimed_world) = Inr (i, a)
     \<and> password_changed demo_auth i ''password2'' (\<lambda>_. False) (w_db claimed_world) (w_db (snd reset_run)))"
proof -
  have run: "run_command demo_auth demo_system (Inr (''password2'' @ [CHR 0x0A])) (Inr ''token'') ''reset-password'' reset_flags claimed_world
      = (fst reset_run, snd reset_run)"
    by (simp add: reset_run_def)
  have "w_db (snd reset_run) \<noteq> w_db claimed_world" using reset_run_hash by auto
  moreover have "passwordFromStdin (Inr (''password2'' @ [CHR 0x0A])) = Inr ''password2''" by code_simp
  ultimately show ?thesis using command_effects [OF run] by (auto simp: reset_flags_def)
qed

end
