(* ===== verification/Spec2Isabelle.thy ===== *)
theory Spec2Isabelle
  imports LostUpdate SubscriptionProperties OperationsProperties IngestProperties MigrationProperties Config Web ControlPlaneProperties
begin

text \<open>
  Verification of the mosdns controller (\<open>src/controller\<close>, Go): the control plane beside a mosdns DNS server.
  It keeps rules, subscriptions, settings, administrators and the query log in one SQLite file,
  publishes versioned rule snapshots to mosdns over HTTP, and serves a web interface. All Go packages
  with logic of their own are modelled.

  \<^bold>\<open>How the model reads.\<close> A Go function that may fail is a program \<open>('e, 's, 'a) prog\<close>, a function from a
  state to an error or a value and the next state (\<open>Prelude\<close>); \<open>bindM\<close>, \<open>guardM\<close>, \<open>attemptM\<close> and \<open>mapErr\<close> are
  the early return, the check, the inspected error and the wrapped error. The state of the services is
  \<open>'m world\<close> (\<open>Store\<close>): the tables \<open>db\<close>, a list of faults to come (each statement, begin and commit
  takes one; a fault is any failure of the driver), the clock with its future readings, and what is
  outside, \<open>'m\<close>. A theorem for all worlds is one for all faults, clock readings and behaviours of
  mosdns. A transaction gives the tables back when it fails. Strings are byte lists; the versions of
  upstream registries and address families, which the code compares with mosdns and may wrap, are 64-bit words;
  the versions of rule snapshots, which count up from 1 with the rows of a table, are \<open>nat\<close>; other integers
  are \<open>int\<close> with their range written out where the code checks it. A result is an error of \<open>error\<close>, which
  keeps the sentinels that \<open>errors.Is\<close> looks for and the message of every other error.

  \<^bold>\<open>Theories and sources.\<close>
  \<^item> \<open>Prelude\<close>: errors, programs, weakest preconditions (\<open>wp_simps\<close>, \<open>wp_intros\<close>) and stable predicates
    (\<open>stable_intros\<close>). \<open>GoStrings\<close>, \<open>Strconv\<close>, \<open>Base64\<close>, \<open>HostPort\<close>: what the code uses of Go's library.
    \<open>Tables\<close>, \<open>Store\<close>: rows, AUTOINCREMENT tables, upserts, statements with faults, transactions.
  \<^item> \<open>MosdnsClient\<close>, \<open>CacheClient\<close> (\<open>internal/mosdnsclient\<close>): wire types, checks of replies, the classes of HTTP
    outcomes, every client method. The locale \<open>mosdns_client\<close> states what the services rely on; it is
    interpreted for the HTTP client over any transport.
  \<^item> \<open>RuleCheck\<close>, \<open>Publish\<close>, \<open>RuleService\<close> (\<open>internal/rules/service.go\<close>): normalisation and validation,
    snapshots and checksums, \<open>publish\<close> with its prepare, apply and finalize phases, \<open>Reconcile\<close>, and the edits.
    \<open>PublishSpec\<close> gives the abstract outcomes (\<open>published\<close>, \<open>publish_failed\<close>) and shows that \<open>publish\<close>
    refines them; \<open>VersionHistory\<close> has the publication steps, the store invariant and the ageing of
    versions; \<open>RuleEffects\<close> and \<open>FinalizeTotal\<close> compute what an edit leaves in the list and when \<open>finalize\<close> cannot fail.
    \<open>RuleSystem\<close> has the steps of the service; \<open>LostUpdate\<close> follows the time of a rule's last change along them.
  \<^item> \<open>Subscriptions\<close> (\<open>internal/rules/subscriptions.go\<close>): sources, bindings, downloads, refreshes and the
    compensation after a failed publication; \<open>SubscriptionEffects\<close> has the contract of a change with its
    undo (locale \<open>source_change\<close>, interpreted for each of the five operations), \<open>SourceInvariant\<close> the tables.
  \<^item> \<open>Registry\<close>, \<open>Operations\<close> (\<open>internal/operations\<close>): settings, upstream groups, devices, audit log;
    \<open>Cursor\<close> has keyset pagination (locale \<open>keyset_paging\<close>, interpreted for the audit log and the
    query history), \<open>OperationsSpec\<close> what each operation leaves and sends, \<open>StatusPage\<close> the status page and
    the version (\<open>internal/version\<close>).
  \<^item> \<open>Auth\<close>, \<open>LoginLimiter\<close> (\<open>internal/auth\<close>): passwords, sessions, CSRF tokens, the limiter.
    The locales \<open>admin_predicate\<close>, \<open>session_predicate\<close> and \<open>auth_predicate\<close> are the contracts of the writes, each with more
    of them: a predicate that they keep holds after every call that makes no others. They are interpreted
    for a session that stands, for the absence and the end of a session, and for the invariant of the
    tables, the existence of an administrator and the rule tables that these writes leave alone.
  \<^item> \<open>QueryIngest\<close> (\<open>internal/queryingest\<close>): the queue, the writer, the statistics, live subscribers, history
    and retention; \<open>IngestState\<close> has the steps of its goroutines, \<open>HourlyStats\<close> the hourly tables against
    the log (locale \<open>counted_table\<close>), \<open>IngestDelivery\<close>, \<open>IngestSummary\<close>, \<open>IngestQuery\<close>, \<open>IngestStream\<close> and
    \<open>IngestRetention\<close> one aspect each.
  \<^item> \<open>App\<close> (\<open>internal/app/app.go\<close>): requests, responses, guards, one definition per handler, and the table of
    routes; \<open>Messages\<close> the texts of errors; \<open>AppEffects\<close> says what handlers can change, \<open>AppAnswers\<close> that every
    request is answered and in which form. \<open>Web\<close> (\<open>internal/web\<close>): the entry page.
  \<^item> \<open>Migrations\<close>, \<open>Storage\<close> (\<open>internal/storage\<close>): the schema as data, what each SQL statement does to tables,
    columns, rows and indexes, \<open>Migrate\<close>; opening and backup. This is a model of the file by tables and columns,
    beside the typed tables of \<open>Store\<close> on which the services run.
  \<^item> \<open>Config\<close> (\<open>internal/config\<close>); \<open>ControlPlane\<close> (\<open>cmd/controller/main.go\<close>): the commands, the start, the ticks, and
    \<open>controller_step\<close>, the step relation of the whole program.
  \<^item> \<open>Demo\<close> and the theories named \<open>...Properties\<close>: instances, and the properties with their witnesses.

  \<^bold>\<open>What the lemmas show.\<close> Publication is safe: success means a confirmed, active, stored version; failure leaves the active
  version and the rules; what is unknown is settled by reconciliation. Two edits based on one state do not both
  win, whatever comes in between but a rollback or a reconciliation. The invariant of the versions, rules and
  subscriptions holds along every history of requests, ticks and
  background turns. Changes of subscriptions are undone when they cannot be published. Registries sent to
  mosdns are well formed; groups in use stay; the settings stored are those in force. A session lasts the
  configured time unless a call ends it, and never longer; what is logged out stays out; a password change
  ends the other sessions, the first administrator is unique, the limiter locks. Events accepted are
  stored once while the database works, the statistics equal the log, the live stream equals the
  history, memory is bounded, shutdown ends in every interleaving. Every changing request of a browser but login and first setup
  needs its CSRF token, and an answer to an edit tells the truth; no error answer shows the text of an internal error.
  The migration keeps every row. Commands and configuration do what they say.

  \<^bold>\<open>Bounds and fuel.\<close> Loops over lists are structural recursion; \<open>TrimLeftRunes\<close>, \<open>rune_widths\<close>, \<open>show_nat\<close>
  and \<open>evict_loop\<close> terminate by a measure. The only fuel is the number of pages in \<open>follow\<close>, which
  any number from the number of rows plus one satisfies. The periodic loops are steps, one per turn.
  The percentile is computed in double precision in the code; \<open>percentile_target\<close> has the rounding
  and is shown exact up to 2^30 samples. The sums of latencies in the hourly tables are unbounded here; SQLite adds
  them in 64 bits and turns to floating point beyond, which takes a total of 2^63 microseconds
  in one hour. In \<open>like\<close> a \<open>_\<close> stands for one byte; the code escapes it, so that it stands for itself.

  \<^bold>\<open>Parameters.\<close> IDNA, regexp syntax, address syntax, lower case and quoting of non-ASCII text, SHA-256, Argon2 and the random source,
  JSON and YAML, the HTTP transport and router, calendar arithmetic, \<open>time.ParseDuration\<close>, URL
  parsing, file sizes and the file system are arguments of the definitions. Theorems that need one
  to behave say so in a hypothesis (\<open>lib_ok\<close>: what \<open>ToASCII\<close> returns is plain ASCII and stable, and the text of
  an address that was parsed from a trimmed string is trimmed and parses back), and their witnesses instantiate it.

  \<^bold>\<open>Interleaving.\<close> An operation under a mutex (\<open>publishMu\<close>, the binding lock of \<open>internal/coordination\<close>,
  the settings lock) is one step. Where the code lets others in between, the operation is several steps: a refresh
  (\<open>refresh_fetch\<close>, then \<open>refresh_commit\<close> or \<open>subscriptionFailure\<close>) and the first administrator
  (\<open>initial_admin_commit\<close>). A request of \<open>App\<close> is one step.

  \<^bold>\<open>Not modelled.\<close> The request middleware (request id, time limit, recovery from panics) and the write loop of the event
  stream in \<open>app.go\<close>; Prometheus metrics; flag parsing, listeners, signals and exit codes of \<open>main\<close>;
  the constraints of the schema within the migration (a statement that breaks one is a
  fault there); the TypeScript interface, scripts and deployment files, which are not the Go program.
\<close>

end
